(* ===== verification/Prelude.thy ===== *)
theory Prelude
  imports Main "HOL-Library.Word" "HOL-Library.AList"
begin

text \<open>
  Shared vocabulary of the development: the machine-integer types of the Rust source, results
  with an error chain (\<^verbatim>\<open>anyhow::Result\<close>), durations, the decimal and hexadecimal renderings
  and the integer parsers of Rust's standard library with their round trips, environments as
  association lists, and two interfaces that several components implement: a system whose
  steps keep an invariant, and a registry that hands out fresh ids.
\<close>

section \<open>Collections of facts\<close>

named_theorems res_simps \<open>rewriting of results and their error chains\<close>
named_theorems fmt_simps \<open>rewriting of the number renderings and parsers\<close>

section \<open>Machine integers, results, durations\<close>

type_synonym u8 = "8 word"
type_synonym u16 = "16 word"
type_synonym u32 = "32 word"
type_synonym u64 = "64 word"

text \<open>
  An error is the chain of its context messages, outermost first, as
  \<^verbatim>\<open>anyhow::Context\<close> builds it. A result is the error or the value.
\<close>

type_synonym error = "string list"
type_synonym 'a result = "error + 'a"

definition with_context :: "string \<Rightarrow> 'a result \<Rightarrow> 'a result" where
  "with_context c r = (case r of Inl e \<Rightarrow> Inl (c # e) | Inr x \<Rightarrow> Inr x)"

definition and_then :: "'a result \<Rightarrow> ('a \<Rightarrow> 'b result) \<Rightarrow> 'b result" where
  "and_then r f = (case r of Inl e \<Rightarrow> Inl e | Inr x \<Rightarrow> f x)"

lemma with_context_simps [simp, res_simps]:
  "with_context c (Inl e) = Inl (c # e)"
  "with_context c (Inr x) = Inr x"
  by (simp_all add: with_context_def)

lemma and_then_simps [simp, res_simps]:
  "and_then (Inl e) f = Inl e"
  "and_then (Inr x) f = f x"
  by (simp_all add: and_then_def)

lemma with_context_Inr_iff [simp]: "with_context c r = Inr x \<longleftrightarrow> r = Inr x"
  by (cases r) simp_all

lemma and_then_Inr_iff: "and_then r f = Inr y \<longleftrightarrow> (\<exists>x. r = Inr x \<and> f x = Inr y)"
  by (cases r) simp_all

text \<open>Durations and instants count nanoseconds, the resolution of \<^verbatim>\<open>std::time::Duration\<close>.\<close>

type_synonym duration = nat
type_synonym instant = nat

definition from_secs :: "nat \<Rightarrow> duration" where
  "from_secs n = n * 1000000000"

definition from_millis :: "nat \<Rightarrow> duration" where
  "from_millis n = n * 1000000"

definition as_millis :: "duration \<Rightarrow> nat" where
  "as_millis d = d div 1000000"

lemma as_millis_from_millis [simp]: "as_millis (from_millis n) = n"
  by (simp add: as_millis_def from_millis_def)

lemma from_secs_millis: "from_secs n = from_millis (1000 * n)"
  by (simp add: from_secs_def from_millis_def)

text \<open>\<^verbatim>\<open>saturating_sub\<close> of unsigned words.\<close>

definition saturating_sub :: "'a::len word \<Rightarrow> 'a word \<Rightarrow> 'a word" where
  "saturating_sub a b = (if a < b then 0 else a - b)"

lemma unat_saturating_sub: "unat (saturating_sub a b) = unat a - unat b"
proof (cases "a < b")
  case True
  then show ?thesis by (simp add: saturating_sub_def word_less_nat_alt)
next
  case False
  then have "b \<le> a" by simp
  with False show ?thesis by (simp add: saturating_sub_def unat_sub word_le_nat_alt)
qed

lemma unat_plus_one:
  fixes w :: "'a::len word"
  assumes "w \<noteq> - 1"
  shows "unat (w + 1) = Suc (unat w)"
proof -
  have "1 + w \<noteq> 0"
  proof
    assume "1 + w = 0"
    then have "w = - 1" by (simp add: add_eq_0_iff)
    with assms show False by simp
  qed
  then show ?thesis by (metis add.commute unatSuc)
qed

lemma unat_below: "unat (w :: 'a::len word) < 2 ^ LENGTH('a)"
  by (rule unsigned_less)

section \<open>Numbers as text\<close>

text \<open>Digits of a number, most significant first; a base below two yields the number itself.\<close>

fun to_digits :: "nat \<Rightarrow> nat \<Rightarrow> nat list" where
  "to_digits b n = (if b < 2 \<or> n < b then [n] else to_digits b (n div b) @ [n mod b])"

declare to_digits.simps [simp del]

definition of_digits :: "nat \<Rightarrow> nat list \<Rightarrow> nat" where
  "of_digits b ds = foldl (\<lambda>a d. a * b + d) 0 ds"

lemma of_digits_snoc [simp]: "of_digits b (ds @ [d]) = of_digits b ds * b + d"
  by (simp add: of_digits_def)

lemma of_digits_Nil [simp]: "of_digits b [] = 0"
  by (simp add: of_digits_def)

lemma of_digits_to_digits [simp, fmt_simps]: "of_digits b (to_digits b n) = n"
proof (induction b n rule: to_digits.induct)
  case (1 b n)
  show ?case
  proof (cases "b < 2 \<or> n < b")
    case True
    then show ?thesis by (simp add: to_digits.simps [of b n] of_digits_def)
  next
    case False
    with "1.IH" have "of_digits b (to_digits b (n div b)) = n div b" by simp
    with False show ?thesis by (simp add: to_digits.simps [of b n])
  qed
qed

lemma of_digits_zeros [simp]: "of_digits b (replicate k 0 @ ds) = of_digits b ds"
  by (induction k) (simp_all add: of_digits_def)

lemma to_digits_nonempty [simp]: "to_digits b n \<noteq> []"
  by (simp add: to_digits.simps)

lemma to_digits_bound: "2 \<le> b \<Longrightarrow> d \<in> set (to_digits b n) \<Longrightarrow> d < b"
proof (induction b n rule: to_digits.induct)
  case (1 b n)
  show ?case
  proof (cases "n < b")
    case True
    with "1.prems" show ?thesis by (simp add: to_digits.simps [of b n])
  next
    case False
    with "1.prems" have "d \<in> set (to_digits b (n div b)) \<or> d = n mod b"
      by (auto simp: to_digits.simps [of b n])
    with False "1.IH" "1.prems" show ?thesis by auto
  qed
qed

text \<open>Rust renders the digits above nine in lower case (\<^verbatim>\<open>{:x}\<close>).\<close>

definition digit_char :: "nat \<Rightarrow> char" where
  "digit_char d = (if d < 10 then char_of (48 + d) else char_of (87 + d))"

definition char_digit :: "nat \<Rightarrow> char \<Rightarrow> nat option" where
  "char_digit b c =
     (let k = of_char c :: nat;
          v = (if 48 \<le> k \<and> k < 58 then k - 48
               else if 97 \<le> k \<and> k < 123 then k - 87
               else if 65 \<le> k \<and> k < 91 then k - 55 else b)
      in if v < b then Some v else None)"

lemma of_digit_char: "d < 16 \<Longrightarrow> of_char (digit_char d) = (if d < 10 then 48 + d else 87 + d)"
  by (simp add: digit_char_def)

lemma char_digit_digit_char [simp, fmt_simps]:
  assumes "d < b" and "b \<le> 16"
  shows "char_digit b (digit_char d) = Some d"
proof -
  from assms have "d < 16" by simp
  then have "of_char (digit_char d) = (if d < 10 then 48 + d else 87 + d :: nat)"
    by (rule of_digit_char)
  with assms show ?thesis by (auto simp: char_digit_def Let_def)
qed

definition digits_value :: "nat \<Rightarrow> string \<Rightarrow> nat option" where
  "digits_value b s = map_option (of_digits b) (those (map (char_digit b) s))"

lemma those_map_Some: "(\<And>x. x \<in> set xs \<Longrightarrow> f x = Some (g x)) \<Longrightarrow> those (map f xs) = Some (map g xs)"
  by (induction xs) simp_all

lemma digits_value_render:
  assumes "b \<le> 16" and "\<And>d. d \<in> set ds \<Longrightarrow> d < b"
  shows "digits_value b (map digit_char ds) = Some (of_digits b ds)"
proof -
  have "those (map (char_digit b \<circ> digit_char) ds) = Some (map (\<lambda>d. d) ds)"
    using assms by (intro those_map_Some) simp
  then show ?thesis by (simp add: digits_value_def)
qed

definition dec :: "nat \<Rightarrow> string" where
  "dec n = map digit_char (to_digits 10 n)"

definition hex :: "nat \<Rightarrow> string" where
  "hex n = map digit_char (to_digits 16 n)"

text \<open>\<^verbatim>\<open>{:0w}\<close>: pad with zeros on the left to width \<^verbatim>\<open>w\<close>.\<close>

definition zero_pad :: "nat \<Rightarrow> string \<Rightarrow> string" where
  "zero_pad w s = replicate (w - length s) (CHR ''0'') @ s"

lemma digits_value_dec [simp, fmt_simps]: "digits_value 10 (dec n) = Some n"
  unfolding dec_def by (subst digits_value_render) (auto intro: to_digits_bound)

lemma digits_value_hex_pad [simp, fmt_simps]: "digits_value 16 (zero_pad w (hex n)) = Some n"
proof -
  have zero: "digit_char 0 = CHR ''0''"
    by code_simp
  have pad: "zero_pad w (hex n) =
    map digit_char (replicate (w - length (hex n)) 0 @ to_digits 16 n)"
    by (simp add: zero_pad_def hex_def zero)
  show ?thesis
    unfolding pad by (subst digits_value_render) (auto intro: to_digits_bound)
qed

lemma hex_pad_inj: "zero_pad w (hex m) = zero_pad w (hex n) \<Longrightarrow> m = n"
  by (metis digits_value_hex_pad option.inject)

lemma dec_inj: "dec m = dec n \<Longrightarrow> m = n"
  by (metis digits_value_dec option.inject)

lemma dec_nonempty [simp]: "dec n \<noteq> []"
  by (simp add: dec_def)

lemma digit_char_dec_not_sign:
  assumes "d < 10"
  shows "digit_char d \<noteq> CHR ''+''" and "digit_char d \<noteq> CHR ''-''"
proof -
  have k: "of_char (digit_char d) = (48 + d :: nat)"
    using assms of_digit_char [of d] by simp
  show "digit_char d \<noteq> CHR ''+''"
  proof
    assume "digit_char d = CHR ''+''"
    then have "of_char (CHR ''+'') = (48 + d :: nat)" using k by simp
    then show False by simp
  qed
  show "digit_char d \<noteq> CHR ''-''"
  proof
    assume "digit_char d = CHR ''-''"
    then have "of_char (CHR ''-'') = (48 + d :: nat)" using k by simp
    then show False by simp
  qed
qed

lemma hd_dec_not_sign: "hd (dec n) \<noteq> CHR ''+''" "hd (dec n) \<noteq> CHR ''-''"
proof -
  have "hd (to_digits 10 n) < 10"
    by (rule to_digits_bound [of _ _ n]) simp_all
  moreover have "hd (dec n) = digit_char (hd (to_digits 10 n))"
    by (simp add: dec_def hd_map)
  ultimately show "hd (dec n) \<noteq> CHR ''+''" "hd (dec n) \<noteq> CHR ''-''"
    by (simp_all add: digit_char_dec_not_sign)
qed

text \<open>
  Rust's \<^verbatim>\<open>str::parse\<close> for an unsigned type with the given maximum: an optional plus sign,
  then at least one decimal digit, and no overflow. The signed parser also takes a minus.
\<close>

definition parse_digits :: "string \<Rightarrow> nat option" where
  "parse_digits s = (if s = [] then None else digits_value 10 s)"

definition parse_unsigned :: "nat \<Rightarrow> string \<Rightarrow> nat option" where
  "parse_unsigned mx s =
     (case parse_digits (if s \<noteq> [] \<and> hd s = CHR ''+'' then tl s else s) of
        None \<Rightarrow> None
      | Some n \<Rightarrow> if n \<le> mx then Some n else None)"

definition parse_u64 :: "string \<Rightarrow> u64 option" where
  "parse_u64 s = map_option of_nat (parse_unsigned (2 ^ 64 - 1) s)"

definition parse_u32 :: "string \<Rightarrow> u32 option" where
  "parse_u32 s = map_option of_nat (parse_unsigned (2 ^ 32 - 1) s)"

definition parse_i32 :: "string \<Rightarrow> int option" where
  "parse_i32 s =
     (if s \<noteq> [] \<and> hd s = CHR ''-''
      then (case parse_digits (tl s) of
              None \<Rightarrow> None
            | Some n \<Rightarrow> if n \<le> 2 ^ 31 then Some (- int n) else None)
      else map_option int (parse_unsigned (2 ^ 31 - 1) s))"

definition dec_int :: "int \<Rightarrow> string" where
  "dec_int i = (if i < 0 then CHR ''-'' # dec (nat (- i)) else dec (nat i))"

lemma parse_unsigned_dec [simp, fmt_simps]:
  "n \<le> mx \<Longrightarrow> parse_unsigned mx (dec n) = Some n"
  by (simp add: parse_unsigned_def parse_digits_def hd_dec_not_sign)

lemma parse_u64_dec [simp, fmt_simps]: "parse_u64 (dec (unat w)) = Some w"
proof -
  have "unat w \<le> 2 ^ 64 - 1"
    using unat_below [of w] by simp
  then show ?thesis by (simp add: parse_u64_def)
qed

lemma parse_u32_dec [simp, fmt_simps]: "parse_u32 (dec (unat w)) = Some w"
proof -
  have "unat w \<le> 2 ^ 32 - 1"
    using unat_below [of w] by simp
  then show ?thesis by (simp add: parse_u32_def)
qed

definition i32_range :: "int \<Rightarrow> bool" where
  "i32_range i \<longleftrightarrow> - (2 ^ 31) \<le> i \<and> i < 2 ^ 31"

lemma parse_i32_dec [simp, fmt_simps]: "i32_range i \<Longrightarrow> parse_i32 (dec_int i) = Some i"
  by (auto simp: parse_i32_def dec_int_def parse_digits_def hd_dec_not_sign i32_range_def)

section \<open>Strings\<close>

abbreviation nl :: char where
  "nl \<equiv> CHR 0x0A"

abbreviation cr :: char where
  "cr \<equiv> CHR 0x0D"

definition starts_with :: "string \<Rightarrow> string \<Rightarrow> bool" where
  "starts_with p s \<longleftrightarrow> take (length p) s = p"

lemma starts_with_append [simp]: "starts_with p (p @ s)"
  by (simp add: starts_with_def)

section \<open>Environments\<close>

text \<open>
  A process environment is an association list: \<^verbatim>\<open>env::vars\<close> enumerates it,
  \<^verbatim>\<open>env::var\<close> looks a name up, \<^verbatim>\<open>Command::env\<close> and \<^verbatim>\<open>Command::env_remove\<close>
  update the one a child will get.
\<close>

type_synonym env = "(string \<times> string) list"

definition env_var :: "env \<Rightarrow> string \<Rightarrow> string option" where
  "env_var e k = map_of e k"

definition env_set :: "string \<Rightarrow> string \<Rightarrow> env \<Rightarrow> env" where
  "env_set k v e = AList.update k v e"

definition env_remove :: "string \<Rightarrow> env \<Rightarrow> env" where
  "env_remove k e = AList.delete k e"

lemma env_var_set [simp]: "env_var (env_set k v e) k' = (if k' = k then Some v else env_var e k')"
  by (simp add: env_var_def env_set_def update_conv')

lemma env_var_remove [simp]: "env_var (env_remove k e) k' = (if k' = k then None else env_var e k')"
  by (simp add: env_var_def env_remove_def delete_conv')

lemma env_var_Nil [simp]: "env_var [] k = None"
  by (simp add: env_var_def)

lemma env_var_Cons [simp]: "env_var ((k, v) # e) k' = (if k' = k then Some v else env_var e k')"
  by (simp add: env_var_def)

lemma env_var_append [simp]:
  "env_var (e @ e') k = (case env_var e k of None \<Rightarrow> env_var e' k | Some v \<Rightarrow> Some v)"
  by (simp add: env_var_def map_add_def split: option.splits)

section \<open>Interfaces shared by several components\<close>

text \<open>A deterministic machine whose steps keep an invariant keeps it along every run.\<close>

locale step_system =
  fixes step :: "'s \<Rightarrow> 'e \<Rightarrow> 's"
    and invariant :: "'s \<Rightarrow> bool"
  assumes step_invariant: "invariant s \<Longrightarrow> invariant (step s e)"
begin

lemma run_invariant: "invariant s \<Longrightarrow> invariant (foldl step s es)"
  by (induction es arbitrary: s) (simp_all add: step_invariant)

end

text \<open>Exponential backoff that starts at \<open>lo\<close>, doubles and saturates at \<open>hi\<close>.\<close>

locale doubling_backoff =
  fixes lo hi :: duration
  assumes lo_pos: "0 < lo" and lo_hi: "lo \<le> hi"
begin

lemma doubled_within: "lo \<le> b \<Longrightarrow> lo \<le> min (b * 2) hi \<and> min (b * 2) hi \<le> hi"
  using lo_hi by auto

lemma start_formula: "lo = min (lo * 2 ^ 0) hi"
  using lo_hi by simp

lemma doubled_formula: "b = min (lo * 2 ^ n) hi \<Longrightarrow> min (b * 2) hi = min (lo * 2 ^ Suc n) hi"
  by (auto simp: min_def)

lemma formula_within: "lo \<le> min (lo * 2 ^ n) hi \<and> min (lo * 2 ^ n) hi \<le> hi"
  using lo_hi by simp

end

text \<open>
  A registry that names its entries by a counter: entering takes the next id, leaving removes one.
  Below \<open>2^64\<close> entries in its lifetime no id is handed out twice.
\<close>

locale id_registry =
  fixes next_id :: "'r \<Rightarrow> u64"
    and live :: "'r \<Rightarrow> u64 set"
    and enter :: "'x \<Rightarrow> 'r \<Rightarrow> u64 \<times> 'r"
    and leave :: "u64 \<Rightarrow> 'r \<Rightarrow> 'r"
  assumes enter_id: "fst (enter x r) = next_id r"
    and enter_next: "next_id (snd (enter x r)) = next_id r + 1"
    and enter_live: "live (snd (enter x r)) = insert (next_id r) (live r)"
    and leave_next: "next_id (leave i r) = next_id r"
    and leave_live: "live (leave i r) = live r - {i}"
begin

definition counted :: "nat \<Rightarrow> 'r \<Rightarrow> bool" where
  "counted n r \<longleftrightarrow> unat (next_id r) = n \<and> (\<forall>i \<in> live r. i < next_id r)"

lemma enter_fresh: "counted n r \<Longrightarrow> fst (enter x r) \<notin> live r"
  by (auto simp: counted_def enter_id)

lemma enter_counted:
  assumes "counted n r" and "Suc n < 2 ^ 64"
  shows "counted (Suc n) (snd (enter x r))"
proof -
  have suc: "unat (next_id r + 1) = Suc n" using assms by (simp add: counted_def unat_word_ariths)
  then have "next_id r < next_id r + 1" using assms(1) by (simp add: counted_def word_less_nat_alt)
  with assms(1) suc show ?thesis by (auto simp: counted_def enter_next enter_live)
qed

lemma leave_counted: "counted n r \<Longrightarrow> counted n (leave i r)"
  by (simp add: counted_def leave_next leave_live)

lemma card_enter: "counted n r \<Longrightarrow> finite (live r) \<Longrightarrow> card (live (snd (enter x r))) = Suc (card (live r))"
  using enter_fresh [of n r x] by (simp add: enter_live enter_id)

end

end
