(* ===== verification/Handoff.thy ===== *)
theory Handoff
  imports Prelude
begin

text \<open>
  Model of \<^verbatim>\<open>src/handoff.rs\<close>: the environment protocol between generations, the wire
  schema window, the session handoff record, trace ids, the environment scrub, close-on-exec
  flags and their guards, the two-phase ready pipe, and the capability-mode handoff with its
  ELF inspection. System calls enter as parameters: \<^verbatim>\<open>fcntl\<close> may fail for any descriptor,
  \<^verbatim>\<open>pread\<close> returns any bytes, and writes return any result.
\<close>

named_theorems env_names \<open>the environment variable names, as strings\<close>

section \<open>Environment variables\<close>

definition ENV_LISTENER_FD :: string where
  [env_names]: "ENV_LISTENER_FD = ''FDPASS_LISTENER_FD''"
definition ENV_SESSIONS :: string where
  [env_names]: "ENV_SESSIONS = ''FDPASS_SESSIONS''"
definition ENV_SESSIONS_FD :: string where
  [env_names]: "ENV_SESSIONS_FD = ''FDPASS_SESSIONS_FD''"
definition ENV_UPGRADE_GENERATION :: string where
  [env_names]: "ENV_UPGRADE_GENERATION = ''FDPASS_GENERATION''"
definition ENV_CTRL_ADMIN_FD :: string where
  [env_names]: "ENV_CTRL_ADMIN_FD = ''FDPASS_CTRL_ADMIN_FD''"
definition ENV_CTRL_PROCESSOR_FD :: string where
  [env_names]: "ENV_CTRL_PROCESSOR_FD = ''FDPASS_CTRL_PROCESSOR_FD''"
definition ENV_CTRL_PLAIN_FD :: string where
  [env_names]: "ENV_CTRL_PLAIN_FD = ''FDPASS_CTRL_PLAIN_FD''"
definition ENV_CTRL_TLS_FD :: string where
  [env_names]: "ENV_CTRL_TLS_FD = ''FDPASS_CTRL_TLS_FD''"
definition ENV_CTRL_SCANNER_FD :: string where
  [env_names]: "ENV_CTRL_SCANNER_FD = ''FDPASS_CTRL_SCANNER_FD''"
definition ENV_CTRL_DRAINER_FD :: string where
  [env_names]: "ENV_CTRL_DRAINER_FD = ''FDPASS_CTRL_DRAINER_FD''"
definition ENV_CTRL_SPAWNER_FD :: string where
  [env_names]: "ENV_CTRL_SPAWNER_FD = ''FDPASS_CTRL_SPAWNER_FD''"
definition ENV_LISTENER_PLAIN_FD :: string where
  [env_names]: "ENV_LISTENER_PLAIN_FD = ''FDPASS_LISTENER_PLAIN_FD''"
definition ENV_LISTENER_TLS_FD :: string where
  [env_names]: "ENV_LISTENER_TLS_FD = ''FDPASS_LISTENER_TLS_FD''"
definition ENV_LISTENER_PROCESSOR_FD :: string where
  [env_names]: "ENV_LISTENER_PROCESSOR_FD = ''FDPASS_LISTENER_PROCESSOR_FD''"
definition ENV_LISTENER_SCANNER_FD :: string where
  [env_names]: "ENV_LISTENER_SCANNER_FD = ''FDPASS_LISTENER_SCANNER_FD''"
definition ENV_PROCESSOR_PID :: string where
  [env_names]: "ENV_PROCESSOR_PID = ''FDPASS_PROCESSOR_PID''"
definition ENV_PLAIN_PID :: string where
  [env_names]: "ENV_PLAIN_PID = ''FDPASS_PLAIN_PID''"
definition ENV_TLS_PID :: string where
  [env_names]: "ENV_TLS_PID = ''FDPASS_TLS_PID''"
definition ENV_SCANNER_PID :: string where
  [env_names]: "ENV_SCANNER_PID = ''FDPASS_SCANNER_PID''"
definition ENV_PROCESSOR_GEN :: string where
  [env_names]: "ENV_PROCESSOR_GEN = ''FDPASS_PROCESSOR_GEN''"
definition ENV_PLAIN_GEN :: string where
  [env_names]: "ENV_PLAIN_GEN = ''FDPASS_PLAIN_GEN''"
definition ENV_TLS_GEN :: string where
  [env_names]: "ENV_TLS_GEN = ''FDPASS_TLS_GEN''"
definition ENV_SCANNER_GEN :: string where
  [env_names]: "ENV_SCANNER_GEN = ''FDPASS_SCANNER_GEN''"
definition ENV_SUP_GENERATION :: string where
  [env_names]: "ENV_SUP_GENERATION = ''FDPASS_SUP_GENERATION''"
definition ENV_UNDER_GRANDPARENT :: string where
  [env_names]: "ENV_UNDER_GRANDPARENT = ''FDPASS_UNDER_GRANDPARENT''"
definition ENV_READY_FD :: string where
  [env_names]: "ENV_READY_FD = ''FDPASS_READY_FD''"
definition ENV_CONFIG_JSON :: string where
  [env_names]: "ENV_CONFIG_JSON = ''FDPASS_CONFIG_JSON''"
definition ENV_SOCKETS_DIR_FD :: string where
  [env_names]: "ENV_SOCKETS_DIR_FD = ''FDPASS_SOCKETS_DIR_FD''"
definition ENV_CERT_DIR_FD :: string where
  [env_names]: "ENV_CERT_DIR_FD = ''FDPASS_CERT_DIR_FD''"
definition ENV_KEY_DIR_FD :: string where
  [env_names]: "ENV_KEY_DIR_FD = ''FDPASS_KEY_DIR_FD''"
definition ENV_SELF_EXE_FD :: string where
  [env_names]: "ENV_SELF_EXE_FD = ''FDPASS_SELF_EXE_FD''"
definition ENV_SELF_EXE_PATH :: string where
  [env_names]: "ENV_SELF_EXE_PATH = ''FDPASS_SELF_EXE_PATH''"

text \<open>\<^verbatim>\<open>config::ENV_CONFIG_PATH\<close>, which the scrub below preserves.\<close>

definition ENV_CONFIG_PATH :: string where
  [env_names]: "ENV_CONFIG_PATH = ''FDPASS_CONFIG_PATH''"

section \<open>Wire schema\<close>

definition SCHEMA_VERSION :: u32 where
  "SCHEMA_VERSION = 1"

definition MIN_COMPATIBLE_VERSION :: u32 where
  "MIN_COMPATIBLE_VERSION = 1"

definition is_schema_compatible :: "u32 \<Rightarrow> bool" where
  "is_schema_compatible v \<longleftrightarrow> MIN_COMPATIBLE_VERSION \<le> v \<and> v \<le> SCHEMA_VERSION"

definition default_schema_version :: u32 where
  "default_schema_version = 1"

definition UPGRADE_COMMIT_EXIT_CODE :: int where
  "UPGRADE_COMMIT_EXIT_CODE = 23"

section \<open>Session handoff\<close>

datatype transport = Uds | Tcp

type_synonym raw_fd = int
type_synonym bytes = "u8 list"

record session_handoff =
  uds_fd :: raw_fd
  transport :: transport
  partial_line_bytes :: bytes
  pending_write_bytes :: bytes
  lines_echoed :: u64
  connected_at_unix_ms :: u64
  sh_peer :: string
  sh_ident :: "string option"
  sh_trace_id :: string
  sh_version :: u32

section \<open>Clock and trace ids\<close>

definition duration_millis_u64 :: "duration \<Rightarrow> u64" where
  "duration_millis_u64 d = (if as_millis d < 2 ^ 64 then of_nat (as_millis d) else - 1)"

text \<open>The argument is the system time since the epoch, \<^verbatim>\<open>None\<close> for a clock set before it.\<close>

definition now_unix_ms :: "duration option \<Rightarrow> u64" where
  "now_unix_ms t = (case t of None \<Rightarrow> 0 | Some d \<Rightarrow> duration_millis_u64 d)"

text \<open>The process-wide counter is explicit: the id and the incremented counter are returned.\<close>

definition new_trace_id :: "u32 \<Rightarrow> u64 \<Rightarrow> string \<times> u64" where
  "new_trace_id pid n =
     (zero_pad 8 (hex (unat pid)) @ ''-'' @ zero_pad 16 (hex (unat n)), n + 1)"

section \<open>Environment scrub\<close>

definition PRESERVED_ENV :: "string list" where
  "PRESERVED_ENV = [ENV_CONFIG_PATH, ''FDPASS_LOG_FORMAT'']"

definition fdpass_env_to_remove :: "env \<Rightarrow> string list" where
  "fdpass_env_to_remove e =
     map fst (filter (\<lambda>(k, _). starts_with ''FDPASS_'' k \<and> k \<notin> set PRESERVED_ENV) e)"

text \<open>A child command starts from the parent's environment; the scrub removes names from it.\<close>

definition scrub_fdpass_env :: "env \<Rightarrow> env \<Rightarrow> env" where
  "scrub_fdpass_env parent cmd = fold env_remove (fdpass_env_to_remove parent) cmd"

definition resolve_upgrade_exe :: "string option \<Rightarrow> string \<Rightarrow> string" where
  "resolve_upgrade_exe binary_path cached_self =
     (case binary_path of Some p \<Rightarrow> p | None \<Rightarrow> cached_self)"

section \<open>The worker's own executable\<close>

record self_exe =
  exe_path :: string
  exe_fd :: raw_fd

definition env_raw_fd :: "env \<Rightarrow> string \<Rightarrow> raw_fd option" where
  "env_raw_fd e name = Option.bind (env_var e name) parse_i32"

text \<open>\<^verbatim>\<open>current_exe\<close> and \<^verbatim>\<open>open\<close> are the two system interactions.\<close>

definition open_self_exe ::
  "env \<Rightarrow> string result \<Rightarrow> (string \<Rightarrow> raw_fd result) \<Rightarrow> self_exe result" where
  "open_self_exe e current_exe open_file =
     (case env_raw_fd e ENV_SELF_EXE_FD of
        Some fd \<Rightarrow>
          Inr \<lparr>exe_path = (case env_var e ENV_SELF_EXE_PATH of None \<Rightarrow> [] | Some p \<Rightarrow> p),
               exe_fd = fd\<rparr>
      | None \<Rightarrow>
          and_then (with_context ''current_exe'' current_exe) (\<lambda>path.
            and_then (with_context (''open self exe '' @ path) (open_file path)) (\<lambda>fd.
              Inr \<lparr>exe_path = path, exe_fd = fd\<rparr>)))"

section \<open>Close-on-exec flags and their guard\<close>

text \<open>
  The state is the close-on-exec flag of every descriptor; \<^verbatim>\<open>fcntl\<close> is a parameter that may
  refuse either command on any descriptor.
\<close>

datatype fcntl_cmd = F_GETFD | F_SETFD

type_synonym fcntl = "fcntl_cmd \<Rightarrow> raw_fd \<Rightarrow> error option"
type_synonym cloexec_flags = "raw_fd \<Rightarrow> bool"

definition change_cloexec ::
  "fcntl \<Rightarrow> bool \<Rightarrow> raw_fd \<Rightarrow> cloexec_flags \<Rightarrow> cloexec_flags result" where
  "change_cloexec fc b fd t =
     (case fc F_GETFD fd of
        Some e \<Rightarrow> Inl (''F_GETFD'' # e)
      | None \<Rightarrow>
         (case fc F_SETFD fd of
            Some e \<Rightarrow> Inl (''F_SETFD'' # e)
          | None \<Rightarrow> Inr (t(fd := b))))"

definition set_cloexec :: "fcntl \<Rightarrow> raw_fd \<Rightarrow> cloexec_flags \<Rightarrow> cloexec_flags result" where
  "set_cloexec fc fd t = change_cloexec fc True fd t"

definition clear_cloexec :: "fcntl \<Rightarrow> raw_fd \<Rightarrow> cloexec_flags \<Rightarrow> cloexec_flags result" where
  "clear_cloexec fc fd t = change_cloexec fc False fd t"

record cloexec_guard =
  guard_fd :: raw_fd
  armed :: bool

definition guard_clear ::
  "fcntl \<Rightarrow> raw_fd \<Rightarrow> cloexec_flags \<Rightarrow> (cloexec_guard \<times> cloexec_flags) result" where
  "guard_clear fc fd t =
     and_then (clear_cloexec fc fd t) (\<lambda>t'. Inr (\<lparr>guard_fd = fd, armed = True\<rparr>, t'))"

definition guard_drop :: "fcntl \<Rightarrow> cloexec_guard \<Rightarrow> cloexec_flags \<Rightarrow> cloexec_flags" where
  "guard_drop fc g t =
     (if \<not> armed g then t
      else case set_cloexec fc (guard_fd g) t of Inl _ \<Rightarrow> t | Inr t' \<Rightarrow> t')"

text \<open>\<^verbatim>\<open>commit\<close> disarms the guard it consumes; the drop that follows does nothing.\<close>

definition guard_commit :: "fcntl \<Rightarrow> cloexec_guard \<Rightarrow> cloexec_flags \<Rightarrow> cloexec_flags" where
  "guard_commit fc g t = guard_drop fc (g\<lparr>armed := False\<rparr>) t"

definition drop_guards :: "fcntl \<Rightarrow> cloexec_guard list \<Rightarrow> cloexec_flags \<Rightarrow> cloexec_flags" where
  "drop_guards fc gs t = fold (guard_drop fc) gs t"

text \<open>
  Clearing a list of descriptors one guard at a time, as the capability-mode handoff and the
  supervisor's self-upgrade do: at the first failure the guards pushed so far are dropped.
\<close>

fun clear_guards ::
  "fcntl \<Rightarrow> (raw_fd \<times> error) list \<Rightarrow> cloexec_guard list \<Rightarrow> cloexec_flags \<Rightarrow>
     (error + cloexec_guard list) \<times> cloexec_flags" where
  "clear_guards fc [] gs t = (Inr gs, t)"
| "clear_guards fc ((fd, ctx) # rest) gs t =
     (case guard_clear fc fd t of
        Inl e \<Rightarrow> (Inl (ctx @ e), drop_guards fc gs t)
      | Inr (g, t') \<Rightarrow> clear_guards fc rest (gs @ [g]) t')"

section \<open>Capability-mode handoff\<close>

record handoff_dir_fds =
  dir_sockets :: "raw_fd option"
  dir_cert :: "raw_fd option"
  dir_key :: "raw_fd option"

text \<open>The names and descriptors \<^verbatim>\<open>CapModeHandoff::prepare\<close> hands over, in its order.\<close>

definition cap_mode_specs :: "self_exe \<Rightarrow> handoff_dir_fds \<Rightarrow> (string \<times> raw_fd) list" where
  "cap_mode_specs exe dirs =
     (ENV_SELF_EXE_FD, exe_fd exe) #
     concat (map (\<lambda>(name, fd). case fd of None \<Rightarrow> [] | Some fd \<Rightarrow> [(name, fd)])
       [(ENV_SOCKETS_DIR_FD, dir_sockets dirs), (ENV_CERT_DIR_FD, dir_cert dirs),
        (ENV_KEY_DIR_FD, dir_key dirs)])"

definition prepare_handoff ::
  "fcntl \<Rightarrow> self_exe \<Rightarrow> handoff_dir_fds \<Rightarrow> cloexec_flags \<Rightarrow>
     (error + (env \<times> cloexec_guard list)) \<times> cloexec_flags" where
  "prepare_handoff fc exe dirs t =
     (let specs = cap_mode_specs exe dirs in
      case clear_guards fc (map (\<lambda>(_, fd). (fd, [])) specs) [] t of
        (Inl e, t') \<Rightarrow> (Inl e, t')
      | (Inr gs, t') \<Rightarrow>
          (Inr (map (\<lambda>(name, fd). (name, dec_int fd)) specs @ [(ENV_SELF_EXE_PATH, exe_path exe)],
                gs), t'))"

text \<open>
  \<^verbatim>\<open>sandbox_off\<close> is whether the role's effective sandbox is off, \<^verbatim>\<open>config_json\<close> the result
  of serializing the configuration. \<^verbatim>\<open>fexecve_env\<close> is the environment it extends; on an
  error nothing reads it any more.
\<close>

definition cap_mode_handoff ::
  "fcntl \<Rightarrow> env \<Rightarrow> bool \<Rightarrow> string result \<Rightarrow> self_exe \<Rightarrow> handoff_dir_fds \<Rightarrow> bool \<Rightarrow>
     cloexec_flags \<Rightarrow> (error + (env \<times> cloexec_guard list)) \<times> cloexec_flags" where
  "cap_mode_handoff fc fexecve_env sandbox_off config_json exe dirs target_overridden t =
     (if target_overridden \<or> sandbox_off then (Inr (fexecve_env, []), t)
      else case with_context ''serialize config for handoff'' config_json of
        Inl e \<Rightarrow> (Inl e, t)
      | Inr json \<Rightarrow>
         (case prepare_handoff fc exe dirs t of
            (Inl e, t') \<Rightarrow> (Inl e, t')
          | (Inr (pairs, gs), t') \<Rightarrow>
              (Inr (fexecve_env @ [(ENV_CONFIG_JSON, json)] @ pairs, gs), t')))"

section \<open>Static binaries under capability mode\<close>

text \<open>
  \<^verbatim>\<open>pread len off\<close> is what the system call delivers, \<^verbatim>\<open>None\<close> for an error. Offsets are
  signed 64-bit values and their sum wraps.
\<close>

type_synonym pread = "nat \<Rightarrow> int \<Rightarrow> bytes option"

definition le_word :: "bytes \<Rightarrow> nat" where
  "le_word bs = foldr (\<lambda>b a. unat b + 256 * a) bs 0"

definition slice :: "nat \<Rightarrow> nat \<Rightarrow> 'a list \<Rightarrow> 'a list" where
  "slice i j xs = take (j - i) (drop i xs)"

definition PT_INTERP :: nat where
  "PT_INTERP = 3"

definition is_elf64_le :: "bytes \<Rightarrow> bool" where
  "is_elf64_le ehdr \<longleftrightarrow>
     slice 0 4 ehdr = [0x7f, 0x45, 0x4c, 0x46] \<and> ehdr ! 4 = 2 \<and> ehdr ! 5 = 1"

definition elf_has_interpreter :: "pread \<Rightarrow> bool" where
  "elf_has_interpreter pread =
     (case pread 64 0 of
        None \<Rightarrow> False
      | Some ehdr \<Rightarrow>
          if length ehdr < 64 \<or> \<not> is_elf64_le ehdr then False
          else
            let ph_off = word_of_nat (le_word (slice 32 40 ehdr)) :: u64;
                ph_ent = le_word (slice 54 56 ehdr);
                ph_num = le_word (slice 56 58 ehdr)
            in if ph_ent = 0 then False
               else list_ex
                 (\<lambda>i. case pread 4 (sint (ph_off + word_of_nat (i * ph_ent))) of
                        None \<Rightarrow> False
                      | Some p_type \<Rightarrow> 4 \<le> length p_type \<and> le_word p_type = PT_INTERP)
                 [0..<ph_num])"

text \<open>\<^verbatim>\<open>freebsd\<close> is the compile-time target, \<^verbatim>\<open>capmode\<close> what \<^verbatim>\<open>cap_getmode\<close> reports.\<close>

definition in_capsicum_mode :: "u32 option \<Rightarrow> bool" where
  "in_capsicum_mode cap_getmode = (case cap_getmode of None \<Rightarrow> False | Some mode \<Rightarrow> mode \<noteq> 0)"

definition require_static_for_capmode_upgrade :: "bool \<Rightarrow> u32 option \<Rightarrow> pread \<Rightarrow> unit result" where
  "require_static_for_capmode_upgrade freebsd cap_getmode pread =
     (if freebsd \<and> in_capsicum_mode cap_getmode \<and> elf_has_interpreter pread
      then Inl [''in-place upgrade under FreeBSD Capsicum capability mode requires a statically-linked binary'']
      else Inr ())"

section \<open>The environment of an fexecve'd successor\<close>

definition fexecve_env_map :: "env \<Rightarrow> string list \<Rightarrow> env \<Rightarrow> env" where
  "fexecve_env_map vars env_removed extra_env =
     fold (\<lambda>(k, v). env_set k v) extra_env (fold env_remove env_removed vars)"

text \<open>\<^verbatim>\<open>None\<close> is the panic of \<^verbatim>\<open>CString::new(..).expect(..)\<close> on an interior zero byte.\<close>

definition cstring :: "string \<Rightarrow> string option" where
  "cstring s = (if CHR 0x00 \<in> set s then None else Some s)"

definition fexecve_pre_exec ::
  "env \<Rightarrow> string \<Rightarrow> string \<Rightarrow> env \<Rightarrow> string list \<Rightarrow> (string list \<times> string list) option" where
  "fexecve_pre_exec vars exe_arg0 role_arg extra_env env_removed =
     Option.bind (cstring exe_arg0) (\<lambda>arg0.
     Option.bind (cstring role_arg) (\<lambda>arg1.
     Option.bind (those (map (\<lambda>(k, v). cstring (k @ ''='' @ v))
         (fexecve_env_map vars env_removed extra_env))) (\<lambda>envp.
     Some ([arg0, arg1], envp))))"

section \<open>The ready pipe\<close>

text \<open>\<^verbatim>\<open>pipe\<close> delivers the read and the write end, both without close-on-exec.\<close>

definition make_ready_pipe ::
  "fcntl \<Rightarrow> (raw_fd \<times> raw_fd) result \<Rightarrow> cloexec_flags \<Rightarrow>
     ((raw_fd \<times> raw_fd) \<times> cloexec_flags) result" where
  "make_ready_pipe fc pipe t =
     and_then (with_context ''pipe'' pipe) (\<lambda>(read_end, write_end).
       and_then (set_cloexec fc read_end (t(read_end := False, write_end := False))) (\<lambda>t'.
         Inr ((read_end, write_end), t')))"

text \<open>
  The child's side: \<^verbatim>\<open>None\<close> when no parent waits, otherwise the descriptor that was written
  with the acknowledgement and closed.
\<close>

definition ready_ack :: string where
  "ready_ack = ''ok'' @ [nl]"

definition signal_ready_to_parent ::
  "env \<Rightarrow> (raw_fd \<Rightarrow> string \<Rightarrow> unit result) \<Rightarrow> (raw_fd \<times> string) option result" where
  "signal_ready_to_parent e write =
     (case env_var e ENV_READY_FD of
        None \<Rightarrow> Inr None
      | Some fd_str \<Rightarrow>
         (case parse_i32 fd_str of
            None \<Rightarrow> Inl [ENV_READY_FD, ''parse'']
          | Some fd \<Rightarrow>
              and_then (with_context ''write ready ack'' (write fd ready_ack)) (\<lambda>_.
                Inr (Some (fd, ready_ack)))))"

text \<open>What the parent's blocking read of the pipe comes to before its deadline.\<close>

datatype ready_read =
    ReadTimedOut
  | ReadJoinFailed error
  | ReadFailed error
  | ReadGot string

definition wait_for_child_ready :: "ready_read \<Rightarrow> unit result" where
  "wait_for_child_ready r =
     (case r of
        ReadTimedOut \<Rightarrow> Inl [''upgrade ready signal timed out'', ''deadline has elapsed'']
      | ReadJoinFailed e \<Rightarrow> Inl (''ready-wait join'' # e)
      | ReadFailed e \<Rightarrow> Inl (''read ready pipe'' # e)
      | ReadGot sent \<Rightarrow>
          let buf = take 8 sent in
          if buf = [] then Inl [''upgrade child closed ready pipe without signaling'']
          else if \<not> starts_with ''ok'' buf then Inl [''upgrade child sent non-ok ready signal'']
          else Inr ())"


section \<open>Lemmas: schema window and trace ids\<close>

lemma is_schema_compatible_iff: "is_schema_compatible v \<longleftrightarrow> v = 1"
  by (auto simp: is_schema_compatible_def MIN_COMPATIBLE_VERSION_def SCHEMA_VERSION_def)

lemma duration_millis_u64_exact:
  "as_millis d < 2 ^ 64 \<Longrightarrow> unat (duration_millis_u64 d) = as_millis d"
  by (simp add: duration_millis_u64_def unat_of_nat)

lemma length_to_digits: "2 \<le> b \<Longrightarrow> n < b ^ k \<Longrightarrow> 0 < k \<Longrightarrow> length (to_digits b n) \<le> k"
proof (induction b n arbitrary: k rule: to_digits.induct)
  case (1 b n)
  show ?case
  proof (cases "n < b")
    case True
    with "1.prems" show ?thesis by (simp add: to_digits.simps [of b n])
  next
    case False
    with "1.prems" obtain j where j: "k = Suc j" "0 < j"
      by (cases k; cases "k = 1") auto
    with "1.prems" have "n div b < b ^ j"
      by (simp add: less_mult_imp_div_less mult.commute)
    with "1.IH" "1.prems" False j have "length (to_digits b (n div b)) \<le> j" by simp
    with False "1.prems" j show ?thesis by (simp add: to_digits.simps [of b n])
  qed
qed

lemma length_hex_pad: "n < 16 ^ k \<Longrightarrow> 0 < k \<Longrightarrow> length (zero_pad k (hex n)) = k"
  using length_to_digits [of 16 n k] by (simp add: zero_pad_def hex_def)

lemma new_trace_id_parts:
  "fst (new_trace_id p n) = fst (new_trace_id q m) \<Longrightarrow> p = q \<and> n = m"
proof -
  assume eq: "fst (new_trace_id p n) = fst (new_trace_id q m)"
  have len: "length (zero_pad 8 (hex (unat x))) = 8" for x :: u32
    using unat_below [of x] by (intro length_hex_pad) simp_all
  from eq have "zero_pad 8 (hex (unat p)) = zero_pad 8 (hex (unat q)) \<and>
      zero_pad 16 (hex (unat n)) = zero_pad 16 (hex (unat m))"
    by (simp add: new_trace_id_def append_eq_append_conv len)
  then have "unat p = unat q" "unat n = unat m" by (blast intro: hex_pad_inj)+
  then show ?thesis by (auto intro: unsigned_word_eqI)
qed

section \<open>Lemmas: environment scrub\<close>

lemma env_var_fold_remove:
  "env_var (fold env_remove ks e) k = (if k \<in> set ks then None else env_var e k)"
  by (induction ks arbitrary: e) simp_all

lemma env_var_fold_set:
  "env_var (fold (\<lambda>(k, v). env_set k v) kvs e) k =
     (case env_var (rev kvs) k of None \<Rightarrow> env_var e k | Some v \<Rightarrow> Some v)"
  by (induction kvs arbitrary: e) (auto split: option.splits)

lemma fdpass_env_to_remove_set:
  "set (fdpass_env_to_remove e) =
     {k \<in> fst ` set e. starts_with ''FDPASS_'' k \<and> k \<notin> set PRESERVED_ENV}"
  by (force simp: fdpass_env_to_remove_def)

lemma env_var_scrub:
  "env_var (scrub_fdpass_env e e) k =
     (if starts_with ''FDPASS_'' k \<and> k \<notin> set PRESERVED_ENV then None else env_var e k)"
proof (cases "k \<in> fst ` set e")
  case True
  then show ?thesis
    by (simp add: scrub_fdpass_env_def env_var_fold_remove fdpass_env_to_remove_set)
next
  case False
  then have "env_var e k = None" by (simp add: env_var_def map_of_eq_None_iff)
  with False show ?thesis
    by (simp add: scrub_fdpass_env_def env_var_fold_remove fdpass_env_to_remove_set)
qed

section \<open>Lemmas: close-on-exec guards\<close>

definition fcntl_ok :: "fcntl \<Rightarrow> raw_fd \<Rightarrow> bool" where
  "fcntl_ok fc fd \<longleftrightarrow> fc F_GETFD fd = None \<and> fc F_SETFD fd = None"

lemma change_cloexec_Inr [simp]:
  "change_cloexec fc b fd t = Inr t' \<longleftrightarrow> fcntl_ok fc fd \<and> t' = t(fd := b)"
  by (auto simp: change_cloexec_def fcntl_ok_def split: option.splits)

lemma guard_clear_Inr [simp]:
  "guard_clear fc fd t = Inr (g, t') \<longleftrightarrow>
     fcntl_ok fc fd \<and> g = \<lparr>guard_fd = fd, armed = True\<rparr> \<and> t' = t(fd := False)"
  by (auto simp: guard_clear_def clear_cloexec_def and_then_Inr_iff)

lemma guard_drop_ok:
  "fcntl_ok fc (guard_fd g) \<Longrightarrow> armed g \<Longrightarrow> guard_drop fc g t = t(guard_fd g := True)"
proof -
  assume ok: "fcntl_ok fc (guard_fd g)" and "armed g"
  then have "set_cloexec fc (guard_fd g) t = Inr (t(guard_fd g := True))"
    by (simp add: set_cloexec_def)
  with \<open>armed g\<close> show ?thesis by (simp add: guard_drop_def)
qed

lemma guard_commit_id [simp]: "guard_commit fc g t = t"
  by (simp add: guard_commit_def guard_drop_def)

definition guards_ok :: "fcntl \<Rightarrow> cloexec_guard list \<Rightarrow> bool" where
  "guards_ok fc gs \<longleftrightarrow> (\<forall>g \<in> set gs. armed g \<and> fcntl_ok fc (guard_fd g))"

lemma drop_guards_ok:
  "guards_ok fc gs \<Longrightarrow> drop_guards fc gs t = (\<lambda>fd. fd \<in> guard_fd ` set gs \<or> t fd)"
  by (induction gs arbitrary: t)
    (auto simp: drop_guards_def guards_ok_def guard_drop_ok fun_eq_iff)

lemma clear_guards_outcome:
  assumes "guards_ok fc gs" and "clear_guards fc l gs t = (r, t')"
  shows "case r of
      Inr gs' \<Rightarrow> gs' = gs @ map (\<lambda>(fd, _). \<lparr>guard_fd = fd, armed = True\<rparr>) l \<and> guards_ok fc gs' \<and>
        t' = (\<lambda>fd. t fd \<and> fd \<notin> fst ` set l)
    | Inl _ \<Rightarrow> (\<forall>fd. t fd \<longrightarrow> t' fd) \<and>
        (\<forall>fd. t' fd \<longrightarrow> t fd \<or> fd \<in> fst ` set l \<or> fd \<in> guard_fd ` set gs) \<and>
        (\<forall>fd \<in> guard_fd ` set gs. t' fd)"
  using assms
proof (induction fc l gs t arbitrary: r t' rule: clear_guards.induct)
  case (1 fc gs t)
  then show ?case by auto
next
  case (2 fc fd ctx rest gs t)
  show ?case
  proof (cases "guard_clear fc fd t")
    case (Inl e)
    with "2.prems" show ?thesis by (auto simp: drop_guards_ok)
  next
    case (Inr p)
    then obtain g t1 where p: "guard_clear fc fd t = Inr (g, t1)" by (cases p) simp
    then have g: "g = \<lparr>guard_fd = fd, armed = True\<rparr>" "t1 = t(fd := False)" "fcntl_ok fc fd"
      by simp_all
    have ok: "guards_ok fc (gs @ [g])"
      using "2.prems"(1) g by (auto simp: guards_ok_def)
    have run: "clear_guards fc rest (gs @ [g]) t1 = (r, t')"
      using "2.prems"(2) p by simp
    have "case r of
      Inr gs' \<Rightarrow> gs' = (gs @ [g]) @ map (\<lambda>(fd, _). \<lparr>guard_fd = fd, armed = True\<rparr>) rest \<and>
        guards_ok fc gs' \<and> t' = (\<lambda>fd. t1 fd \<and> fd \<notin> fst ` set rest)
    | Inl _ \<Rightarrow> (\<forall>fd. t1 fd \<longrightarrow> t' fd) \<and>
        (\<forall>fd. t' fd \<longrightarrow> t1 fd \<or> fd \<in> fst ` set rest \<or> fd \<in> guard_fd ` set (gs @ [g])) \<and>
        (\<forall>fd \<in> guard_fd ` set (gs @ [g]). t' fd)"
      by (rule "2.IH" [OF p refl ok run])
    then show ?thesis using g by (auto split: sum.splits if_splits)
  qed
qed

text \<open>
  When every descriptor of the list had close-on-exec set, a failing clear leaves every flag
  as it found it: the guards already taken put their flags back.
\<close>

lemma clear_guards_fail_restores:
  assumes "clear_guards fc l [] t = (Inl e, t')" and "\<And>fd. fd \<in> fst ` set l \<Longrightarrow> t fd"
  shows "t' = t"
proof
  fix fd
  have "(\<forall>fd. t fd \<longrightarrow> t' fd) \<and> (\<forall>fd. t' fd \<longrightarrow> t fd \<or> fd \<in> fst ` set l)"
    using clear_guards_outcome [OF _ assms(1)] by (simp add: guards_ok_def)
  with assms(2) show "t' fd = t fd" by blast
qed

lemma clear_guards_success:
  assumes "clear_guards fc l [] t = (Inr gs, t')"
  shows "gs = map (\<lambda>(fd, _). \<lparr>guard_fd = fd, armed = True\<rparr>) l"
    and "t' = (\<lambda>fd. t fd \<and> fd \<notin> fst ` set l)"
    and "drop_guards fc gs t' = (\<lambda>fd. t fd \<or> fd \<in> fst ` set l)"
proof -
  have *: "gs = map (\<lambda>(fd, _). \<lparr>guard_fd = fd, armed = True\<rparr>) l \<and> guards_ok fc gs \<and>
      t' = (\<lambda>fd. t fd \<and> fd \<notin> fst ` set l)"
    using clear_guards_outcome [OF _ assms] by (simp add: guards_ok_def)
  then show "gs = map (\<lambda>(fd, _). \<lparr>guard_fd = fd, armed = True\<rparr>) l"
    and t': "t' = (\<lambda>fd. t fd \<and> fd \<notin> fst ` set l)" by simp_all
  from * have fds: "guard_fd ` set gs = fst ` set l"
    by (auto simp: image_image split_beta)
  from * have "guards_ok fc gs" by blast
  then have "drop_guards fc gs t' = (\<lambda>fd. fd \<in> guard_fd ` set gs \<or> t' fd)"
    by (rule drop_guards_ok)
  then show "drop_guards fc gs t' = (\<lambda>fd. t fd \<or> fd \<in> fst ` set l)"
    by (auto simp: fun_eq_iff fds t')
qed

section \<open>Lemmas: the ready pipe\<close>

lemma wait_for_child_ready_iff:
  "wait_for_child_ready r = Inr () \<longleftrightarrow> (\<exists>s. r = ReadGot s \<and> starts_with ''ok'' s)"
proof (cases r)
  case (ReadGot s)
  have "take 2 (take 8 s) = take 2 s" by simp
  then show ?thesis
    by (auto simp: ReadGot wait_for_child_ready_def Let_def starts_with_def)
qed (simp_all add: wait_for_child_ready_def)

lemma ready_ack_accepted [simp]: "wait_for_child_ready (ReadGot ready_ack) = Inr ()"
  by (simp add: wait_for_child_ready_iff ready_ack_def starts_with_def)

section \<open>Lemmas: what a capability-mode successor finds in its environment\<close>

definition CAP_MODE_ENV :: "string list" where
  "CAP_MODE_ENV = [ENV_CONFIG_JSON, ENV_SELF_EXE_FD, ENV_SOCKETS_DIR_FD, ENV_CERT_DIR_FD,
     ENV_KEY_DIR_FD, ENV_SELF_EXE_PATH]"

lemma cap_mode_handoff_Inr:
  assumes "cap_mode_handoff fc base False json exe dirs False t = (Inr (child_env, gs), t')"
  obtains j where "json = Inr j"
    and "child_env = base @ [(ENV_CONFIG_JSON, j)] @
      map (\<lambda>(name, fd). (name, dec_int fd)) (cap_mode_specs exe dirs) @ [(ENV_SELF_EXE_PATH, exe_path exe)]"
    and "clear_guards fc (map (\<lambda>(_, fd). (fd, [])) (cap_mode_specs exe dirs)) [] t = (Inr gs, t')"
  using assms
  by (auto simp: cap_mode_handoff_def prepare_handoff_def Let_def split: sum.splits prod.splits)

lemma env_var_None_iff: "env_var e k = None \<longleftrightarrow> k \<notin> fst ` set e"
  by (simp add: env_var_def map_of_eq_None_iff)

lemma env_var_fexecve:
  "env_var (fexecve_env_map vars removed extra) k =
     (case env_var (rev extra) k of
        Some v \<Rightarrow> Some v
      | None \<Rightarrow> if k \<in> set removed then None else env_var vars k)"
  by (simp add: fexecve_env_map_def env_var_fold_set env_var_fold_remove split: option.splits)

lemma scrubbed_fdpass:
  "starts_with ''FDPASS_'' k \<Longrightarrow> k \<notin> set PRESERVED_ENV \<Longrightarrow>
     (if k \<in> set (fdpass_env_to_remove vars) then None else env_var vars k) = None"
  by (auto simp: fdpass_env_to_remove_set env_var_None_iff)

lemma cap_mode_env_private:
  "k \<in> set CAP_MODE_ENV \<Longrightarrow> starts_with ''FDPASS_'' k \<and> k \<notin> set PRESERVED_ENV"
  by (auto simp: CAP_MODE_ENV_def PRESERVED_ENV_def env_names starts_with_def)

lemma env_var_handed:
  assumes "k \<in> set CAP_MODE_ENV" and "\<And>k. k \<in> set CAP_MODE_ENV \<Longrightarrow> k \<notin> fst ` set base"
  shows "env_var (fexecve_env_map vars (fdpass_env_to_remove vars) (base @ extra)) k =
    env_var (rev extra) k"
proof -
  have "env_var (rev base) k = None"
    using assms by (simp add: env_var_None_iff)
  moreover have "(if k \<in> set (fdpass_env_to_remove vars) then None else env_var vars k) = None"
    using cap_mode_env_private [OF assms(1)] by (blast intro: scrubbed_fdpass)
  ultimately show ?thesis by (simp only: env_var_fexecve rev_append env_var_append) (simp split: option.split)
qed

lemma cap_mode_pairs:
  fixes exe :: self_exe
  defines "pairs dirs j \<equiv> rev ([(ENV_CONFIG_JSON, j)] @
      map (\<lambda>(name, fd). (name, dec_int fd)) (cap_mode_specs exe dirs) @
      [(ENV_SELF_EXE_PATH, exe_path exe)])"
  shows "env_var (pairs dirs j) ENV_CONFIG_JSON = Some j"
    and "env_var (pairs dirs j) ENV_SELF_EXE_FD = Some (dec_int (exe_fd exe))"
    and "env_var (pairs dirs j) ENV_SELF_EXE_PATH = Some (exe_path exe)"
    and "env_var (pairs dirs j) ENV_SOCKETS_DIR_FD = map_option dec_int (dir_sockets dirs)"
    and "env_var (pairs dirs j) ENV_CERT_DIR_FD = map_option dec_int (dir_cert dirs)"
    and "env_var (pairs dirs j) ENV_KEY_DIR_FD = map_option dec_int (dir_key dirs)"
  by (simp_all add: pairs_def cap_mode_specs_def env_names split: option.splits)

lemma cap_mode_child_reads:
  assumes "cap_mode_handoff fc base False json exe dirs False t = (Inr (child_env, gs), t')"
    and "\<And>k. k \<in> set CAP_MODE_ENV \<Longrightarrow> k \<notin> fst ` set base"
    and "i32_range (exe_fd exe)" and "\<And>fd. dir_sockets dirs = Some fd \<Longrightarrow> i32_range fd"
    and "\<And>fd. dir_cert dirs = Some fd \<Longrightarrow> i32_range fd"
    and "\<And>fd. dir_key dirs = Some fd \<Longrightarrow> i32_range fd"
  obtains j where "json = Inr j"
    and "env_var (fexecve_env_map vars (fdpass_env_to_remove vars) child_env) ENV_CONFIG_JSON = Some j"
    and "env_raw_fd (fexecve_env_map vars (fdpass_env_to_remove vars) child_env) ENV_SOCKETS_DIR_FD = dir_sockets dirs"
    and "env_raw_fd (fexecve_env_map vars (fdpass_env_to_remove vars) child_env) ENV_CERT_DIR_FD = dir_cert dirs"
    and "env_raw_fd (fexecve_env_map vars (fdpass_env_to_remove vars) child_env) ENV_KEY_DIR_FD = dir_key dirs"
    and "open_self_exe (fexecve_env_map vars (fdpass_env_to_remove vars) child_env) current_exe open_file = Inr exe"
proof -
  from assms(1) obtain j where j: "json = Inr j" and env: "child_env = base @ ([(ENV_CONFIG_JSON, j)] @
      map (\<lambda>(name, fd). (name, dec_int fd)) (cap_mode_specs exe dirs) @
      [(ENV_SELF_EXE_PATH, exe_path exe)])"
    by (elim cap_mode_handoff_Inr) simp
  define e where "e = fexecve_env_map vars (fdpass_env_to_remove vars) child_env"
  have look: "env_var e k = env_var (rev ([(ENV_CONFIG_JSON, j)] @
      map (\<lambda>(name, fd). (name, dec_int fd)) (cap_mode_specs exe dirs) @
      [(ENV_SELF_EXE_PATH, exe_path exe)])) k" if "k \<in> set CAP_MODE_ENV" for k
    unfolding e_def env by (rule env_var_handed [OF that assms(2)])
  have read: "Option.bind (map_option dec_int d) parse_i32 = d" if "\<And>fd. d = Some fd \<Longrightarrow> i32_range fd" for d
    using that by (cases d) simp_all
  have mem: "k \<in> set CAP_MODE_ENV" if "k = ENV_CONFIG_JSON \<or> k = ENV_SELF_EXE_FD \<or>
      k = ENV_SOCKETS_DIR_FD \<or> k = ENV_CERT_DIR_FD \<or> k = ENV_KEY_DIR_FD \<or> k = ENV_SELF_EXE_PATH" for k
    using that by (auto simp: CAP_MODE_ENV_def)
  have "env_raw_fd e ENV_SOCKETS_DIR_FD = dir_sockets dirs" "env_raw_fd e ENV_CERT_DIR_FD = dir_cert dirs"
    "env_raw_fd e ENV_KEY_DIR_FD = dir_key dirs" "env_var e ENV_CONFIG_JSON = Some j"
    "env_raw_fd e ENV_SELF_EXE_FD = Some (exe_fd exe)" "env_var e ENV_SELF_EXE_PATH = Some (exe_path exe)"
    unfolding env_raw_fd_def by (simp_all only: look mem cap_mode_pairs read assms(4,5,6) refl simp_thms
        bind.simps parse_i32_dec [OF assms(3)])
  then show thesis
    using that j by (simp add: e_def [symmetric] open_self_exe_def)
qed

section \<open>Properties\<close>

text \<open>
  C15 (safety). The capability-mode handoff never leaves a descriptor open to a child by accident. When it fails, every
  descriptor that was close-on-exec before still is, and no flag but those of the descriptors it hands over has changed; when it
  succeeds, exactly the guarded ones are cleared, dropping the guards makes all of them close-on-exec again and changes no other,
  while committing them leaves them cleared for the successor. So when the handed descriptors were
  close-on-exec before, as in a worker that opened them itself, failure and rollback restore every flag exactly. A worker
  that inherited them has them without the flag, since nothing sets it on adoption; a failed or rolled-back handoff then sets it.
\<close>

theorem cap_mode_handoff_reversible:
  "case cap_mode_handoff fc base sandbox_off json exe dirs overridden t of
      (Inl _, t') \<Rightarrow>
        (\<forall>fd. (t fd \<longrightarrow> t' fd) \<and> (t' fd \<longrightarrow> t fd \<or> fd \<in> snd ` set (cap_mode_specs exe dirs))) \<and>
        ((\<forall>fd \<in> snd ` set (cap_mode_specs exe dirs). t fd) \<longrightarrow> t' = t)
    | (Inr (_, gs), t') \<Rightarrow>
        guard_fd ` set gs = (if overridden \<or> sandbox_off then {} else snd ` set (cap_mode_specs exe dirs)) \<and>
        (\<forall>fd. t' fd \<longleftrightarrow> t fd \<and> fd \<notin> guard_fd ` set gs) \<and>
        (\<forall>fd. drop_guards fc gs t' fd \<longleftrightarrow> t fd \<or> fd \<in> guard_fd ` set gs) \<and> fold (guard_commit fc) gs t' = t' \<and>
        ((\<forall>fd \<in> snd ` set (cap_mode_specs exe dirs). t fd) \<longrightarrow> drop_guards fc gs t' = t)"
proof -
  define l where "l = map (\<lambda>(_, fd). (fd, [] :: error)) (cap_mode_specs exe dirs)"
  have l: "fst ` set l = snd ` set (cap_mode_specs exe dirs)"
    by (force simp: l_def)
  have commit: "fold (guard_commit fc) gs u = u" for gs u
    by (induction gs) simp_all
  obtain r t' where run: "clear_guards fc l [] t = (r, t')" by fastforce
  show ?thesis
  proof (cases r)
    case (Inl e)
    have "(\<forall>fd. t fd \<longrightarrow> t' fd) \<and> (\<forall>fd. t' fd \<longrightarrow> t fd \<or> fd \<in> fst ` set l)"
      using clear_guards_outcome [OF _ run] Inl by (simp add: guards_ok_def)
    moreover have "(\<forall>fd \<in> fst ` set l. t fd) \<longrightarrow> t' = t"
      using clear_guards_fail_restores [OF run [unfolded Inl]] by blast
    ultimately show ?thesis
      using Inl run commit
      by (simp add: cap_mode_handoff_def prepare_handoff_def Let_def l_def [symmetric] l drop_guards_def split: sum.splits)
  next
    case (Inr gs)
    note S = clear_guards_success [OF run [unfolded Inr]]
    have fds: "guard_fd ` set gs = fst ` set l" by (simp add: S(1) image_image split_beta)
    have "(\<forall>fd \<in> fst ` set l. t fd) \<longrightarrow> (\<lambda>fd. t fd \<or> fd \<in> fst ` set l) = t" by auto
    with Inr run commit fds S(2,3) show ?thesis
      by (simp add: cap_mode_handoff_def prepare_handoff_def Let_def l_def [symmetric] l drop_guards_def split: sum.splits)
  qed
qed

text \<open>
  A worker that opened its executable (7) and its sockets directory (8) itself, and one that inherited them: both hand
  over, and drop the guards.
\<close>

theorem cap_mode_handoff_reversible_witness:
  "let exe = \<lparr>exe_path = ''/bin/x'', exe_fd = 7\<rparr>; dirs = \<lparr>dir_sockets = Some 8, dir_cert = None, dir_key = None\<rparr>;
       first = (\<lambda>_. True); second = (\<lambda>fd. fd \<notin> {7, 8})
   in (\<exists>e gs t'. cap_mode_handoff (\<lambda>_ _. None) [] False (Inr ''{}'') exe dirs False first = (Inr (e, gs), t') \<and>
         \<not> t' 7 \<and> \<not> t' 8 \<and> t' 9 \<and> drop_guards (\<lambda>_ _. None) gs t' = first) \<and>
      (\<exists>e gs t'. cap_mode_handoff (\<lambda>_ _. None) [] False (Inr ''{}'') exe dirs False second = (Inr (e, gs), t') \<and>
         drop_guards (\<lambda>_ _. None) gs t' 7)"
proof -
  let ?exe = "\<lparr>exe_path = ''/bin/x'', exe_fd = 7\<rparr>"
  let ?dirs = "\<lparr>dir_sockets = Some 8, dir_cert = None, dir_key = None\<rparr>"
  have handed: "snd ` set (cap_mode_specs ?exe ?dirs) = {7, 8}"
    by (auto simp: cap_mode_specs_def)
  have runs: "\<exists>e gs t'. cap_mode_handoff (\<lambda>_ _. None) [] False (Inr ''{}'') ?exe ?dirs False t = (Inr (e, gs), t')" for t
    by (simp add: cap_mode_specs_def cap_mode_handoff_def prepare_handoff_def Let_def guard_clear_def clear_cloexec_def
        change_cloexec_def)
  obtain e gs t' where 1: "cap_mode_handoff (\<lambda>_ _. None) [] False (Inr ''{}'') ?exe ?dirs False (\<lambda>_. True) = (Inr (e, gs), t')"
    using runs by blast
  obtain e2 gs2 t2 where 2: "cap_mode_handoff (\<lambda>_ _. None) [] False (Inr ''{}'') ?exe ?dirs False (\<lambda>fd. fd \<notin> {7, 8}) = (Inr (e2, gs2), t2)"
    using runs by blast
  show ?thesis
    using cap_mode_handoff_reversible [where fc = "\<lambda>_ _. None" and base = "[]" and sandbox_off = False and json = "Inr ''{}''"
        and exe = ?exe and dirs = ?dirs and overridden = False and t = "\<lambda>_. True"]
      cap_mode_handoff_reversible [where fc = "\<lambda>_ _. None" and base = "[]" and sandbox_off = False and json = "Inr ''{}''"
        and exe = ?exe and dirs = ?dirs and overridden = False and t = "\<lambda>fd. fd \<notin> {7, 8}"] 1 2
    unfolding Let_def by (simp add: handed)
qed

text \<open>
  A successor started by the capability-mode handoff, with the parent's own
  \<^verbatim>\<open>FDPASS_\<close> variables scrubbed, reads back from its environment exactly the executable, the
  directory descriptors (absent ones as absent) and the configuration its predecessor handed over,
  whatever stale values the predecessor itself was started with.
\<close>

theorem cap_mode_handoff_roundtrip:
  assumes "cap_mode_handoff fc base False json exe dirs False t = (Inr (child_env, gs), t')"
    and "\<And>k. k \<in> set CAP_MODE_ENV \<Longrightarrow> k \<notin> fst ` set base"
    and "i32_range (exe_fd exe)" and "\<And>fd. dir_sockets dirs = Some fd \<Longrightarrow> i32_range fd"
    and "\<And>fd. dir_cert dirs = Some fd \<Longrightarrow> i32_range fd"
    and "\<And>fd. dir_key dirs = Some fd \<Longrightarrow> i32_range fd"
  shows "let e = fexecve_env_map vars (fdpass_env_to_remove vars) child_env in
    open_self_exe e current_exe open_file = Inr exe \<and>
    \<lparr>dir_sockets = env_raw_fd e ENV_SOCKETS_DIR_FD, dir_cert = env_raw_fd e ENV_CERT_DIR_FD,
      dir_key = env_raw_fd e ENV_KEY_DIR_FD\<rparr> = dirs \<and>
    (\<exists>j. json = Inr j \<and> env_var e ENV_CONFIG_JSON = Some j)"
  by (rule cap_mode_child_reads [OF assms, of vars current_exe open_file]) (simp_all add: Let_def)

theorem cap_mode_handoff_roundtrip_witness:
  "open_self_exe (fexecve_env_map [(ENV_SELF_EXE_FD, ''99''), (''HOME'', ''/'')] [ENV_SELF_EXE_FD]
     [(ENV_CONFIG_JSON, ''{}''), (ENV_SELF_EXE_FD, dec_int 7), (ENV_SELF_EXE_PATH, ''/bin/x'')])
     (Inl []) (\<lambda>_. Inl []) = Inr \<lparr>exe_path = ''/bin/x'', exe_fd = 7\<rparr>"
  using cap_mode_handoff_roundtrip [of "\<lambda>_ _. None" "[]" "Inr ''{}''" "\<lparr>exe_path = ''/bin/x'', exe_fd = 7\<rparr>"
      "\<lparr>dir_sockets = None, dir_cert = None, dir_key = None\<rparr>" "\<lambda>_. True"
      "[(ENV_CONFIG_JSON, ''{}''), (ENV_SELF_EXE_FD, dec_int 7), (ENV_SELF_EXE_PATH, ''/bin/x'')]"
      "[\<lparr>guard_fd = 7, armed = True\<rparr>]" "\<lambda>fd. fd \<noteq> 7" "[(ENV_SELF_EXE_FD, ''99''), (''HOME'', ''/'')]"
      "Inl []" "\<lambda>_. Inl []"]
  by (simp add: cap_mode_specs_def cap_mode_handoff_def prepare_handoff_def Let_def guard_clear_def
      clear_cloexec_def change_cloexec_def fun_upd_def i32_range_def fdpass_env_to_remove_def starts_with_def
      PRESERVED_ENV_def env_names)

text \<open>
  Trace ids join the logs of a session across processes without confusion: two
  ids are equal only when they come from the same process and the same value of its counter.
\<close>

theorem trace_ids_unique:
  "fst (new_trace_id pid n) = fst (new_trace_id pid' n') \<longleftrightarrow> pid = pid' \<and> n = n'"
  using new_trace_id_parts by blast

text \<open>
  An upgrade commits on nothing but the child's acknowledgement: the wait of
  the parent succeeds exactly when the pipe delivered bytes that begin with \<^verbatim>\<open>ok\<close>, which is what
  a child with the pipe's descriptor in its environment writes before it reports success.
\<close>

theorem ready_pipe_commits_on_ack:
  "(wait_for_child_ready r = Inr () \<longleftrightarrow> (\<exists>s. r = ReadGot s \<and> starts_with ''ok'' s)) \<and>
   (case signal_ready_to_parent e write of
      Inl _ \<Rightarrow> True
    | Inr None \<Rightarrow> env_var e ENV_READY_FD = None
    | Inr (Some (fd, sent)) \<Rightarrow> write fd sent = Inr () \<and> env_raw_fd e ENV_READY_FD = Some fd \<and>
        wait_for_child_ready (ReadGot sent) = Inr ())"
  by (auto simp: wait_for_child_ready_iff signal_ready_to_parent_def env_raw_fd_def and_then_def
      ready_ack_def starts_with_def with_context_def split: option.splits sum.splits)

text \<open>
  The scrub before a spawn removes every \<^verbatim>\<open>FDPASS_\<close> variable of the parent
  but the two that are meant to survive, and leaves every other variable alone.
\<close>

theorem env_scrub_exact:
  "env_var (scrub_fdpass_env e e) k =
     (if starts_with ''FDPASS_'' k \<and> k \<notin> {ENV_CONFIG_PATH, ''FDPASS_LOG_FORMAT''}
      then None else env_var e k)"
  using env_var_scrub [of e k] by (simp add: PRESERVED_ENV_def)

end
