(* ===== verification/Systemd.thy ===== *)
theory Systemd
  imports Handoff
begin

text \<open>
  Model of \<^verbatim>\<open>src/systemd.rs\<close>: the listeners a service manager passes in, the notification
  protocol, and the watchdog pings that follow the progress of the supervisor's loop. The process
  id and the socket calls are parameters.
\<close>

section \<open>Socket activation\<close>

definition SD_LISTEN_FDS_START :: raw_fd where
  "SD_LISTEN_FDS_START = 3"

text \<open>\<^verbatim>\<open>SdListeners\<close>: names and descriptors, in the order of the unit file.\<close>

type_synonym sd_listeners = "(string \<times> raw_fd) list"

text \<open>Rust's \<^verbatim>\<open>str::split\<close> on one character: always at least one piece.\<close>

fun split_on :: "char \<Rightarrow> string \<Rightarrow> string list" where
  "split_on c [] = [[]]"
| "split_on c (x # xs) =
     (if x = c then [] # split_on c xs
      else case split_on c xs of [] \<Rightarrow> [[x]] | p # ps \<Rightarrow> (x # p) # ps)"

definition fd_names :: "env \<Rightarrow> string list" where
  "fd_names e =
     (case env_var e ''LISTEN_FDNAMES'' of
        None \<Rightarrow> []
      | Some s \<Rightarrow> if s = [] then [] else split_on (CHR '':'') s)"

definition named_fds :: "string list \<Rightarrow> nat \<Rightarrow> sd_listeners" where
  "named_fds names count =
     map (\<lambda>i. (if i < length names then names ! i else ''unknown'', SD_LISTEN_FDS_START + int i)) [0..<count]"

definition scrub_listen_env :: "env \<Rightarrow> env" where
  "scrub_listen_env e = fold env_remove [''LISTEN_PID'', ''LISTEN_FDS'', ''LISTEN_FDNAMES''] e"

text \<open>\<^verbatim>\<open>SdListeners::from_env\<close>, with the environment it leaves behind.\<close>

definition sd_from_env :: "u32 \<Rightarrow> env \<Rightarrow> (sd_listeners \<times> env) result" where
  "sd_from_env pid e =
     (case env_var e ''LISTEN_PID'' of
        None \<Rightarrow> Inr ([], e)
      | Some s \<Rightarrow>
         (case parse_u32 s of
            None \<Rightarrow> Inl [''parse LISTEN_PID'']
          | Some listen_pid \<Rightarrow>
              if listen_pid \<noteq> pid then Inr ([], e)
              else case env_var e ''LISTEN_FDS'' of
                None \<Rightarrow> Inr ([], e)
              | Some s \<Rightarrow>
                 (case parse_i32 s of
                    None \<Rightarrow> Inl [''parse LISTEN_FDS'']
                  | Some count \<Rightarrow>
                      if count \<le> 0 then Inr ([], e)
                      else Inr (named_fds (fd_names e) (nat count), scrub_listen_env e))))"

fun take_by_name :: "string \<Rightarrow> sd_listeners \<Rightarrow> raw_fd option \<times> sd_listeners" where
  "take_by_name name [] = (None, [])"
| "take_by_name name ((n, fd) # rest) =
     (if n = name then (Some fd, rest)
      else case take_by_name name rest of (r, rest') \<Rightarrow> (r, (n, fd) # rest'))"

section \<open>Notification\<close>

datatype notify_addr = Abstract string | NotifyPath string

text \<open>
  \<^verbatim>\<open>notify_impl\<close>: what is sent and where, \<^verbatim>\<open>None\<close> without a socket in the environment.
  \<^verbatim>\<open>unbound\<close> and \<^verbatim>\<open>send\<close> are the system calls.
\<close>

definition notify_impl ::
  "bool \<Rightarrow> env \<Rightarrow> unit result \<Rightarrow> (notify_addr \<Rightarrow> string \<Rightarrow> unit result) \<Rightarrow> string \<Rightarrow>
     (notify_addr \<times> string) option result" where
  "notify_impl linux e unbound send message =
     (case env_var e ''NOTIFY_SOCKET'' of
        None \<Rightarrow> Inr None
      | Some path \<Rightarrow>
          and_then (with_context ''notify socket'' unbound) (\<lambda>_.
            if starts_with ''@'' path
            then if linux
                 then and_then (with_context ''sendto abstract NOTIFY_SOCKET'' (send (Abstract (tl path)) message))
                        (\<lambda>_. Inr (Some (Abstract (tl path), message)))
                 else Inl [''abstract NOTIFY_SOCKET only supported on Linux'']
            else and_then (with_context ''send_to NOTIFY_SOCKET'' (send (NotifyPath path) message))
                   (\<lambda>_. Inr (Some (NotifyPath path, message)))))"

text \<open>\<^verbatim>\<open>notify\<close> only logs a failure: what reaches the service manager.\<close>

definition sd_notify ::
  "bool \<Rightarrow> env \<Rightarrow> unit result \<Rightarrow> (notify_addr \<Rightarrow> string \<Rightarrow> unit result) \<Rightarrow> string \<Rightarrow> (notify_addr \<times> string) option" where
  "sd_notify linux e unbound send message =
     (case notify_impl linux e unbound send message of Inr sent_to \<Rightarrow> sent_to | Inl _ \<Rightarrow> None)"

definition notify_ready_line :: string where
  "notify_ready_line = ''READY=1'' @ [nl]"

definition notify_stopping_line :: string where
  "notify_stopping_line = ''STOPPING=1'' @ [nl]"

definition notify_status_line :: "string \<Rightarrow> string" where
  "notify_status_line line = ''STATUS='' @ line @ [nl]"

section \<open>Watchdog pings\<close>

definition from_micros :: "nat \<Rightarrow> duration" where
  "from_micros n = n * 1000"

definition watchdog_usec :: "u32 \<Rightarrow> env \<Rightarrow> u64 option" where
  "watchdog_usec pid e =
     (case Option.bind (env_var e ''WATCHDOG_USEC'') parse_u64 of
        None \<Rightarrow> None
      | Some usec \<Rightarrow>
          if usec = 0 then None
          else case env_var e ''WATCHDOG_PID'' of
                 Some p \<Rightarrow> if parse_u32 p \<noteq> Some pid then None else Some usec
               | None \<Rightarrow> Some usec)"

definition beacon_tick_interval :: "u64 option \<Rightarrow> duration" where
  "beacon_tick_interval usec =
     (case usec of Some u \<Rightarrow> from_micros (max (unat u div 4) 1) | None \<Rightarrow> from_secs 10)"

definition ping_interval :: "u64 \<Rightarrow> duration" where
  "ping_interval usec = from_micros (max (unat usec div 2) 1)"

definition beacon_tick :: "u64 \<Rightarrow> u64" where
  "beacon_tick b = b + 1"

text \<open>The loop of \<^verbatim>\<open>spawn_watchdog\<close> over the values it loads: whether each interval is pinged.\<close>

fun watchdog_pings :: "u64 \<Rightarrow> u64 list \<Rightarrow> bool list" where
  "watchdog_pings last_seen [] = []"
| "watchdog_pings last_seen (now # rest) =
     (if now = last_seen then False # watchdog_pings last_seen rest
      else True # watchdog_pings now rest)"

section \<open>Lemmas\<close>

lemma take_by_name_None: "name \<notin> fst ` set l \<Longrightarrow> take_by_name name l = (None, l)"
  by (induction l rule: take_by_name.induct) auto

lemma take_by_name_is_None: "take_by_name name l = (None, l') \<Longrightarrow> l' = l \<and> name \<notin> fst ` set l"
  by (induction name l arbitrary: l' rule: take_by_name.induct) (auto split: if_splits prod.splits)

lemma take_by_name_Some:
  "take_by_name name l = (Some fd, l') \<Longrightarrow> \<exists>a b. l = a @ (name, fd) # b \<and> l' = a @ b \<and> name \<notin> fst ` set a"
proof (induction name l arbitrary: l' rule: take_by_name.induct)
  case (2 name n fd0 rest)
  show ?case
  proof (cases "n = name")
    case True
    with "2.prems" have "(n, fd0) # rest = [] @ (name, fd) # rest" "l' = [] @ rest" by simp_all
    then show ?thesis by fastforce
  next
    case False
    with "2.prems" obtain r where r: "take_by_name name rest = (Some fd, r)" "l' = (n, fd0) # r"
      by (auto split: prod.splits)
    with "2.IH" False obtain a b where "rest = a @ (name, fd) # b" "r = a @ b" "name \<notin> fst ` set a" by blast
    with r False have "(n, fd0) # rest = ((n, fd0) # a) @ (name, fd) # b" "l' = ((n, fd0) # a) @ b"
      "name \<notin> fst ` set ((n, fd0) # a)" by auto
    then show ?thesis by blast
  qed
qed simp

lemma sd_from_env_other_process:
  assumes "\<And>s. env_var e ''LISTEN_PID'' = Some s \<Longrightarrow> \<exists>p. parse_u32 s = Some p \<and> p \<noteq> pid"
  shows "sd_from_env pid e = Inr ([], e)"
  using assms by (fastforce simp: sd_from_env_def split: option.splits)

lemma sd_from_env_not_twice:
  assumes "sd_from_env pid e = Inr (l, e')" and "l \<noteq> []"
  shows "sd_from_env pid' e' = Inr ([], e')"
  using assms by (auto simp: sd_from_env_def scrub_listen_env_def split: option.splits if_splits)

lemma pings_follow_progress:
  "i < length loads \<Longrightarrow> watchdog_pings seed loads ! i \<longleftrightarrow> loads ! i \<noteq> (seed # loads) ! i"
proof (induction loads arbitrary: seed i)
  case (Cons now rest)
  then show ?case by (cases i) auto
qed simp

lemma length_pings [simp]: "length (watchdog_pings seed loads) = length loads"
  by (induction seed loads rule: watchdog_pings.induct) simp_all

lemma ticks_add: "(beacon_tick ^^ n) b = b + of_nat n"
  by (induction n) (simp_all add: beacon_tick_def)

text \<open>The values the ping loop loads when the supervisor's loop ticks \<open>n\<close> times before each.\<close>

fun beacon_loads :: "u64 \<Rightarrow> nat list \<Rightarrow> u64 list" where
  "beacon_loads b [] = []"
| "beacon_loads b (n # ns) = (beacon_tick ^^ n) b # beacon_loads ((beacon_tick ^^ n) b) ns"

lemma tick_fixpoint_iff:
  assumes "n < 2 ^ 64"
  shows "(beacon_tick ^^ n) b = b \<longleftrightarrow> n = 0"
proof -
  have "(beacon_tick ^^ n) b = b \<longleftrightarrow> (of_nat n :: u64) = 0" by (simp add: ticks_add)
  also have "\<dots> \<longleftrightarrow> 2 ^ 64 dvd n" by (simp add: word_of_nat_eq_0_iff)
  also have "\<dots> \<longleftrightarrow> n = 0" using assms by (auto dest: dvd_imp_le)
  finally show ?thesis .
qed

section \<open>Properties\<close>

text \<open>
  C31 (safety). The service manager is told the truth about the supervisor's loop: an interval is
  pinged exactly when the loop made progress in it, so that a loop which stops is reported by silence
  from the next interval on, and one that goes on is never reported as hung. The counter may wrap;
  only a full \<open>2^64\<close> ticks within one interval would go unnoticed.
\<close>

theorem watchdog_pings_iff_progress:
  assumes "\<And>n. n \<in> set ns \<Longrightarrow> n < 2 ^ 64"
  shows "watchdog_pings seed (beacon_loads seed ns) = map (\<lambda>n. 0 < n) ns"
  using assms
proof (induction ns arbitrary: seed)
  case (Cons n ns)
  then have "(beacon_tick ^^ n) seed = seed \<longleftrightarrow> n = 0" by (intro tick_fixpoint_iff) simp
  with Cons show ?case by auto
qed simp

theorem watchdog_pings_iff_progress_witness:
  "watchdog_pings (- 1) (beacon_loads (- 1) [2, 0, 1, 0]) = [True, False, True, False]"
proof -
  have "n \<in> set [2, 0, 1, 0] \<Longrightarrow> n < 2 ^ 64" for n :: nat by auto
  then have "watchdog_pings (- 1) (beacon_loads (- 1) [2, 0, 1, 0]) = map (\<lambda>n. 0 < n) [2 :: nat, 0, 1, 0]"
    by (rule watchdog_pings_iff_progress)
  then show ?thesis by (simp only: list.map) simp
qed

text \<open>
  Socket activation is taken at most once and only by the process it is meant
  for: another process, or the same one a second time, gets no listener; a name hands out the first
  remaining descriptor under it and leaves the others as they were.
\<close>

theorem socket_activation_once:
  assumes "sd_from_env pid e = Inr (l, e')" and "l \<noteq> []"
  shows "env_var e ''LISTEN_PID'' \<noteq> None \<and> sd_from_env pid' e' = Inr ([], e') \<and>
    distinct (map snd l) \<and>
    (case take_by_name name l of
       (None, l') \<Rightarrow> l' = l \<and> name \<notin> fst ` set l
     | (Some fd, l') \<Rightarrow> \<exists>a b. l = a @ (name, fd) # b \<and> l' = a @ b \<and> name \<notin> fst ` set a)"
proof -
  from assms have "env_var e ''LISTEN_PID'' \<noteq> None" by (auto simp: sd_from_env_def split: option.splits)
  moreover from assms obtain names n where "l = named_fds names n"
    by (auto simp: sd_from_env_def split: option.splits if_splits)
  then have "distinct (map snd l)"
    by (simp add: named_fds_def comp_def distinct_map inj_on_def)
  moreover have "take_by_name name l = (None, l') \<Longrightarrow> l' = l \<and> name \<notin> fst ` set l" for l'
    by (rule take_by_name_is_None)
  ultimately show ?thesis
    using sd_from_env_not_twice [OF assms] take_by_name_Some [of name l]
    by (auto split: prod.splits option.splits)
qed

theorem socket_activation_once_witness:
  "sd_from_env 9 (scrub_listen_env [(''LISTEN_PID'', dec 7), (''LISTEN_FDS'', dec_int 1)]) =
     Inr ([], scrub_listen_env [(''LISTEN_PID'', dec 7), (''LISTEN_FDS'', dec_int 1)])"
proof -
  let ?e = "[(''LISTEN_PID'', dec 7), (''LISTEN_FDS'', dec_int 1)]"
  have "parse_u32 (dec 7) = Some 7" using parse_u32_dec [of 7] by simp
  then have "sd_from_env 7 ?e = Inr (named_fds [] 1, scrub_listen_env ?e)"
    by (simp add: sd_from_env_def i32_range_def fd_names_def)
  moreover have "named_fds [] 1 \<noteq> []" by (simp add: named_fds_def)
  ultimately show ?thesis
    by (rule socket_activation_once [THEN conjunct2, THEN conjunct1])
qed

end
