(* ===== verification/Config.thy ===== *)
theory Config
  imports Handoff
begin

text \<open>
  Model of \<^verbatim>\<open>src/config.rs\<close>: the configuration records with their defaults, the discovery
  order of \<^verbatim>\<open>Config::load\<close> and the socket paths. The TOML and JSON readers and the file
  system are parameters. Paths are strings; maps keyed by role are association lists.
\<close>

section \<open>Configuration records\<close>

record fault_point_config =
  fp_name :: string
  fp_kind :: string
  fp_message :: string
  fp_trigger_budget :: u32

record fault_inject_config =
  fi_points :: "fault_point_config list"

datatype sandbox_mode = Off | Strict | Log

record security_config =
  drop_uid :: "string option"
  drop_gid :: "string option"
  sandbox :: sandbox_mode
  sandbox_overrides :: "(string \<times> sandbox_mode) list"

record health_config =
  health_bind_addr :: string

record metrics_config =
  metrics_path :: string
  metrics_interval_secs :: u64

record auth_config =
  allowed_uids :: "u32 list"

record tls_config =
  tls_cert_path :: string
  tls_key_path :: string

record limits_config =
  max_in_flight_per_role :: u64
  tls_idle_timeout_secs :: u64
  accept_rate_per_ip :: u32
  accept_rate_burst :: u32
  rate_limit_max_tracked_ips :: nat
  rate_limit_bucket_idle_ttl_secs :: u64

record config =
  sockets_dir :: string
  plain_port :: u16
  tls_port :: u16
  ready_timeout_secs :: u64
  identd_port :: u16
  cfg_auth :: auth_config
  cfg_tls :: tls_config
  cfg_limits :: limits_config
  cfg_metrics :: metrics_config
  cfg_health :: health_config
  cfg_security :: security_config
  cfg_fault_inject :: fault_inject_config

section \<open>Defaults\<close>

definition health_config_default :: health_config where
  "health_config_default = \<lparr>health_bind_addr = ''127.0.0.1:7079''\<rparr>"

definition metrics_config_default :: metrics_config where
  "metrics_config_default = \<lparr>metrics_path = [], metrics_interval_secs = 15\<rparr>"

definition limits_config_default :: limits_config where
  "limits_config_default = \<lparr>
     max_in_flight_per_role = 1024,
     tls_idle_timeout_secs = 300,
     accept_rate_per_ip = 50,
     accept_rate_burst = 100,
     rate_limit_max_tracked_ips = 65536,
     rate_limit_bucket_idle_ttl_secs = 300\<rparr>"

definition tls_config_default :: tls_config where
  "tls_config_default =
     \<lparr>tls_cert_path = ''certs/server.crt'', tls_key_path = ''certs/server.key''\<rparr>"

definition security_config_default :: security_config where
  "security_config_default =
     \<lparr>drop_uid = None, drop_gid = None, sandbox = Off, sandbox_overrides = []\<rparr>"

definition config_default :: config where
  "config_default = \<lparr>
     sockets_dir = ''/tmp'',
     plain_port = 7070,
     tls_port = 7071,
     ready_timeout_secs = 3,
     identd_port = 113,
     cfg_auth = \<lparr>allowed_uids = []\<rparr>,
     cfg_tls = tls_config_default,
     cfg_limits = limits_config_default,
     cfg_metrics = metrics_config_default,
     cfg_health = health_config_default,
     cfg_security = security_config_default,
     cfg_fault_inject = \<lparr>fi_points = []\<rparr>\<rparr>"

section \<open>Operations\<close>

definition effective_sandbox :: "security_config \<Rightarrow> string \<Rightarrow> sandbox_mode" where
  "effective_sandbox c role =
     (case map_of (sandbox_overrides c) role of Some m \<Rightarrow> m | None \<Rightarrow> sandbox c)"

text \<open>systemd's \<^verbatim>\<open>RUNTIME_DIRECTORY\<close> replaces the configured socket directory.\<close>

definition runtime_dir_override :: "env \<Rightarrow> config \<Rightarrow> config" where
  "runtime_dir_override e cfg =
     (case env_var e ''RUNTIME_DIRECTORY'' of
        None \<Rightarrow> cfg
      | Some rd \<Rightarrow> if sockets_dir cfg \<noteq> rd then cfg\<lparr>sockets_dir := rd\<rparr> else cfg)"

text \<open>
  \<^verbatim>\<open>Config::load\<close>. The environment supplies the inherited JSON, the fallback path and the
  runtime directory; \<^verbatim>\<open>read_file\<close>, \<^verbatim>\<open>from_toml\<close> and \<^verbatim>\<open>from_json\<close> are the readers.
\<close>

definition load_config ::
  "env \<Rightarrow> (string \<Rightarrow> string result) \<Rightarrow> (string \<Rightarrow> config result) \<Rightarrow> (string \<Rightarrow> config result) \<Rightarrow>
     string option \<Rightarrow> config result" where
  "load_config e read_file from_toml from_json path =
     (case env_var e ENV_CONFIG_JSON of
        Some json \<Rightarrow> with_context ''parse inherited config JSON'' (from_json json)
      | None \<Rightarrow>
          let resolved = (case path of Some p \<Rightarrow> Some p | None \<Rightarrow> env_var e ENV_CONFIG_PATH) in
          and_then
            (case resolved of
               None \<Rightarrow> Inr config_default
             | Some p \<Rightarrow>
                 and_then (with_context (''read config '' @ p) (read_file p)) (\<lambda>text.
                   with_context (''parse config '' @ p) (from_toml text)))
            (\<lambda>cfg. Inr (runtime_dir_override e cfg)))"

text \<open>\<^verbatim>\<open>Path::join\<close> of a relative component.\<close>

definition path_join :: "string \<Rightarrow> string \<Rightarrow> string" where
  "path_join d n =
     (if d = [] then n else if last d = CHR ''/'' then d @ n else d @ ''/'' @ n)"

definition socket_basename :: "string \<Rightarrow> string" where
  "socket_basename name = ''fdpass-'' @ name @ ''.sock''"

definition socket_path :: "config \<Rightarrow> string \<Rightarrow> string" where
  "socket_path c name = path_join (sockets_dir c) (''fdpass-'' @ name @ ''.sock'')"

definition processor_sock :: "config \<Rightarrow> string" where
  "processor_sock c = socket_path c ''proc''"

definition scanner_sock :: "config \<Rightarrow> string" where
  "scanner_sock c = socket_path c ''scanner''"

definition admin_sock :: "config \<Rightarrow> string" where
  "admin_sock c = socket_path c ''admin''"

definition drainer_sock :: "config \<Rightarrow> string" where
  "drainer_sock c = socket_path c ''drainer''"

definition spawner_sock :: "config \<Rightarrow> string" where
  "spawner_sock c = socket_path c ''spawner''"

definition control_sock :: "config \<Rightarrow> string \<Rightarrow> string" where
  "control_sock c role = socket_path c (''ctrl-'' @ role)"

definition ready_timeout :: "config \<Rightarrow> duration" where
  "ready_timeout c = from_secs (unat (ready_timeout_secs c))"

section \<open>Lemmas\<close>

lemma path_join_inj: "path_join d m = path_join d n \<Longrightarrow> m = n"
  by (auto simp: path_join_def split: if_splits)

lemma socket_path_inj: "socket_path c m = socket_path c n \<Longrightarrow> m = n"
  by (auto simp: socket_path_def dest: path_join_inj)

lemma socket_path_eq_iff [simp]: "socket_path c m = socket_path c n \<longleftrightarrow> m = n"
  by (auto dest: socket_path_inj)

lemma socket_path_basename: "socket_path c n = path_join (sockets_dir c) (socket_basename n)"
  by (simp add: socket_path_def socket_basename_def)

lemma load_config_json:
  "env_var e ENV_CONFIG_JSON = Some json \<Longrightarrow>
     load_config e rf ft fj path = with_context ''parse inherited config JSON'' (fj json)"
  by (simp add: load_config_def)

lemma runtime_dir_override_dir:
  "env_var e ''RUNTIME_DIRECTORY'' = Some rd \<Longrightarrow> sockets_dir (runtime_dir_override e c) = rd"
  by (simp add: runtime_dir_override_def)

lemma load_config_dir:
  assumes "env_var e ENV_CONFIG_JSON = None" and "env_var e ''RUNTIME_DIRECTORY'' = Some rd"
    and "load_config e rf ft fj path = Inr c"
  shows "sockets_dir c = rd"
proof -
  from assms obtain cfg where "c = runtime_dir_override e cfg"
    by (auto simp: load_config_def Let_def and_then_Inr_iff)
  with assms(2) show ?thesis by (simp add: runtime_dir_override_dir)
qed

section \<open>Properties\<close>

text \<open>
  Under every configuration the sockets of the daemon are different paths: the two
  data sockets, the admin, drainer and spawner sockets and one control socket per role, and control
  sockets of different roles never coincide.
\<close>

theorem daemon_sockets_distinct:
  "distinct [processor_sock c, scanner_sock c, admin_sock c, drainer_sock c, spawner_sock c,
     control_sock c ''processor'', control_sock c ''plain'', control_sock c ''tls'',
     control_sock c ''scanner''] \<and>
   (control_sock c r = control_sock c r' \<longleftrightarrow> r = r') \<and>
   control_sock c r \<notin> {processor_sock c, scanner_sock c, admin_sock c, drainer_sock c, spawner_sock c}"
  by (simp add: processor_sock_def scanner_sock_def admin_sock_def drainer_sock_def
      spawner_sock_def control_sock_def)

end
