(* ===== verification/Fault.thy ===== *)
theory Fault
  imports Config
begin

text \<open>
  Model of \<^verbatim>\<open>src/fault_inject.rs\<close>: the table of active injection points with their budgets, and
  the check of a point, which consumes one shot. The write-once global is explicit state. A panic
  is an error whose first entry is \<^verbatim>\<open>panic\<close>.
\<close>

section \<open>Definitions\<close>

datatype injected_fault = FaultIoError string | FaultSkip | FaultPanic string

definition into_io_error :: "injected_fault \<Rightarrow> error" where
  "into_io_error f =
     (case f of
        FaultIoError msg \<Rightarrow> [msg]
      | FaultSkip \<Rightarrow> [''fault: skip'']
      | FaultPanic msg \<Rightarrow> [''panic'', msg])"

definition into_anyhow :: "injected_fault \<Rightarrow> error" where
  "into_anyhow f =
     (case f of
        FaultPanic msg \<Rightarrow> [''panic'', msg]
      | f \<Rightarrow> into_io_error f)"

datatype stored_kind = StoredIoError string | StoredSkip | StoredPanic string

record active_point =
  ap_name :: string
  ap_kind :: stored_kind
  ap_budget :: u32

definition to_fault :: "active_point \<Rightarrow> injected_fault" where
  "to_fault p =
     (case ap_kind p of
        StoredIoError msg \<Rightarrow> FaultIoError msg
      | StoredSkip \<Rightarrow> FaultSkip
      | StoredPanic msg \<Rightarrow> FaultPanic msg)"

definition build_active_point :: "fault_point_config \<Rightarrow> active_point" where
  "build_active_point p = \<lparr>
     ap_name = fp_name p,
     ap_kind =
       (if fp_kind p = ''panic'' then StoredPanic (fp_message p)
        else if fp_kind p = ''skip'' then StoredSkip
        else StoredIoError (fp_message p)),
     ap_budget = (if fp_trigger_budget p = 0 then -1 else fp_trigger_budget p)\<rparr>"

text \<open>The \<^verbatim>\<open>fetch_update\<close>: whether a shot was available, and the budget left.\<close>

definition try_fire :: "u32 \<Rightarrow> bool \<times> u32" where
  "try_fire b = (if b = 0 then (False, 0) else if b = -1 then (True, -1) else (True, b - 1))"

type_synonym fault_table = "active_point list option"

definition init_faults :: "bool \<Rightarrow> fault_point_config list \<Rightarrow> fault_table \<Rightarrow> fault_table" where
  "init_faults debug points t =
     (if debug
      then case t of None \<Rightarrow> Some (map build_active_point points) | Some ps \<Rightarrow> Some ps
      else t)"

fun check_points :: "string \<Rightarrow> active_point list \<Rightarrow> injected_fault option \<times> active_point list" where
  "check_points point [] = (None, [])"
| "check_points point (p # ps) =
     (if ap_name p \<noteq> point
      then case check_points point ps of (f, ps') \<Rightarrow> (f, p # ps')
      else case try_fire (ap_budget p) of
             (fired, b) \<Rightarrow>
               (if fired then Some (to_fault p) else None, p\<lparr>ap_budget := b\<rparr> # ps))"

definition check_fault :: "string \<Rightarrow> fault_table \<Rightarrow> injected_fault option \<times> fault_table" where
  "check_fault point t =
     (case t of
        None \<Rightarrow> (None, None)
      | Some ps \<Rightarrow> (case check_points point ps of (f, ps') \<Rightarrow> (f, Some ps')))"

text \<open>The \<^verbatim>\<open>fault_inject!\<close> macro: the check in debug builds, nothing in release builds.\<close>

definition fault_inject :: "bool \<Rightarrow> string \<Rightarrow> fault_table \<Rightarrow> injected_fault option \<times> fault_table" where
  "fault_inject debug point t = (if debug then check_fault point t else (None, t))"

section \<open>Lemmas\<close>

lemma try_fire_budget:
  assumes "b \<noteq> -1"
  shows "fst (try_fire b) \<longleftrightarrow> 0 < unat b" and "unat (snd (try_fire b)) = unat b - 1"
proof -
  show "fst (try_fire b) \<longleftrightarrow> 0 < unat b" by (simp add: try_fire_def unat_gt_0)
  have "unat (b - 1) = unat b - 1" if "b \<noteq> 0"
    using that by (rule unat_minus_one)
  with assms show "unat (snd (try_fire b)) = unat b - 1" by (simp add: try_fire_def)
qed

lemma try_fire_finite: "b \<noteq> -1 \<Longrightarrow> snd (try_fire b) \<noteq> -1"
proof -
  assume b: "b \<noteq> -1"
  have "unat (snd (try_fire b)) \<le> unat b" using try_fire_budget(2) [OF b] by simp
  then have "snd (try_fire b) \<le> b" by (simp add: word_le_nat_alt)
  then have "snd (try_fire b) = -1 \<Longrightarrow> b = -1" by (simp add: word_order.extremum_unique)
  with b show ?thesis by blast
qed

fun find_point :: "string \<Rightarrow> active_point list \<Rightarrow> active_point option" where
  "find_point point [] = None"
| "find_point point (p # ps) = (if ap_name p = point then Some p else find_point point ps)"

lemma check_points_find:
  "fst (check_points point ps) =
     (case find_point point ps of
        None \<Rightarrow> None
      | Some p \<Rightarrow> if fst (try_fire (ap_budget p)) then Some (to_fault p) else None)"
  by (induction ps) (auto split: prod.splits)

lemma find_point_check:
  "find_point point' (snd (check_points point ps)) =
     (if point' = point
      then map_option (\<lambda>p. p\<lparr>ap_budget := snd (try_fire (ap_budget p))\<rparr>) (find_point point ps)
      else find_point point' ps)"
  by (induction ps) (auto split: prod.splits)

text \<open>How many of a sequence of checks fire for one point.\<close>

fun fired :: "string \<Rightarrow> active_point list \<Rightarrow> string list \<Rightarrow> nat" where
  "fired point ps [] = 0"
| "fired point ps (q # qs) =
     (if q = point \<and> fst (check_points q ps) \<noteq> None then 1 else 0) +
     fired point (snd (check_points q ps)) qs"

lemma fired_finite:
  assumes "find_point point ps = Some p" and "ap_budget p \<noteq> -1"
  shows "fired point ps qs = min (unat (ap_budget p)) (count_list qs point)"
  using assms
proof (induction qs arbitrary: ps p)
  case Nil
  then show ?case by simp
next
  case (Cons q qs)
  show ?case
  proof (cases "q = point")
    case True
    let ?p = "p\<lparr>ap_budget := snd (try_fire (ap_budget p))\<rparr>"
    have "find_point point (snd (check_points q ps)) = Some ?p"
      using Cons.prems(1) True by (simp add: find_point_check)
    from Cons.IH [OF this] Cons.prems try_fire_finite
    have "fired point (snd (check_points q ps)) qs =
        min (unat (ap_budget p) - 1) (count_list qs point)"
      by (simp add: try_fire_budget)
    with True Cons.prems show ?thesis
      by (auto simp: check_points_find try_fire_budget split: if_splits)
  next
    case False
    then have "find_point point (snd (check_points q ps)) = Some p"
      using Cons.prems(1) by (simp add: find_point_check)
    from Cons.IH [OF this] Cons.prems(2) False show ?thesis by simp
  qed
qed

lemma fired_unlimited:
  assumes "find_point point ps = Some p" and "ap_budget p = -1"
  shows "fired point ps qs = count_list qs point"
  using assms
proof (induction qs arbitrary: ps)
  case Nil
  then show ?case by simp
next
  case (Cons q qs)
  have keep: "find_point point (snd (check_points q ps)) = Some p"
    using Cons.prems by (auto simp: find_point_check try_fire_def)
  from Cons.IH [OF keep Cons.prems(2)] Cons.prems show ?case
    by (auto simp: check_points_find try_fire_def)
qed

lemma find_point_build:
  "find_point point (map build_active_point cfgs) =
     map_option build_active_point (find (\<lambda>c. fp_name c = point) cfgs)"
  by (induction cfgs) (auto simp: build_active_point_def)

section \<open>Properties\<close>

text \<open>
  A configured point fires for exactly as many of its checks as its budget allows,
  whatever other points are checked in between, and for every check when its configured budget is
  zero (or the largest value, which reads as unlimited).
\<close>

theorem fault_budget_exact:
  assumes "find (\<lambda>c. fp_name c = point) cfgs = Some cfg"
  shows "fired point (map build_active_point cfgs) qs =
    (if fp_trigger_budget cfg = 0 \<or> fp_trigger_budget cfg = -1
     then count_list qs point
     else min (unat (fp_trigger_budget cfg)) (count_list qs point))"
proof -
  have "find_point point (map build_active_point cfgs) = Some (build_active_point cfg)"
    using assms by (simp add: find_point_build)
  from fired_finite [OF this] fired_unlimited [OF this] show ?thesis
    by (auto simp: build_active_point_def)
qed

theorem fault_budget_exact_witness:
  "fired ''scm.recvmsg'' (map build_active_point
     [\<lparr>fp_name = ''scm.recvmsg'', fp_kind = ''skip'', fp_message = [], fp_trigger_budget = 2\<rparr>])
     [''scm.recvmsg'', ''health.bind'', ''scm.recvmsg'', ''scm.recvmsg''] = 2"
  using fault_budget_exact [of "''scm.recvmsg''"
      "[\<lparr>fp_name = ''scm.recvmsg'', fp_kind = ''skip'', fp_message = [], fp_trigger_budget = 2\<rparr>]"
      "\<lparr>fp_name = ''scm.recvmsg'', fp_kind = ''skip'', fp_message = [], fp_trigger_budget = 2\<rparr>"
      "[''scm.recvmsg'', ''health.bind'', ''scm.recvmsg'', ''scm.recvmsg'']"]
  by simp

end
