(* ===== verification/Wire.thy ===== *)
theory Wire
  imports Fault
begin

text \<open>
  Model of \<^verbatim>\<open>src/control.rs\<close>: the messages that supervisor, workers, drainer and command line
  exchange, and the versioned envelope around them. The JSON writer and reader belong to a library
  and are parameters of the operations that use them.
\<close>

section \<open>Messages\<close>

datatype control_msg =
    Shutdown (grace_ms: u64)
  | Upgrade (binary_path: "string option") (include_tls: bool) (canary_secs: "u64 option")
      (only_role: "string option")
  | Status
  | Drain
  | Reload

record rate_limiter_stats =
  tracked_ips :: nat
  rls_idle_evictions :: u64
  rls_lru_evictions :: u64
  rls_cap_refused :: u64

record worker_status =
  ws_role :: string
  ws_pid :: u32
  ws_generation :: u64
  ws_started_at_unix_ms :: u64
  ws_in_flight :: u64
  ws_listener_addr :: "string option"
  ws_rate_limiter_stats :: "rate_limiter_stats option"

datatype worker_msg = StatusReport worker_status

datatype processor_preamble =
    PreambleSession (pre_peer: string) (pre_role: string) (pre_trace_id: string)
  | PreambleSidecar

record session_metadata =
  sm_peer :: string
  sm_ident :: "string option"
  sm_trace_id :: string

datatype health_state = Healthy | Backoff | Flapping | Failed

record role_health =
  rh_role :: string
  rh_state :: health_state
  rh_consecutive_fast_exits :: u32
  rh_next_backoff_ms :: u64
  rh_total_restarts :: u64
  rh_last_restart_at_unix_ms :: "u64 option"

datatype session_outcome = CleanEof | OutcomeError string

datatype drainer_event =
    Hello string u32 u64 nat
  | SessionDone string session_outcome
  | Complete
  | DeadlineExit nat

datatype upgrade_phase = Starting | Done | Timeout | Skipped | CanaryAborted

datatype admin_resp =
    RespOk
  | RespStatus "worker_status list" "role_health list"
  | RespError string
  | UpgradeStep (step_worker: string) (step_phase: upgrade_phase) (generation_before: "u64 option")
      (generation_after: "u64 option") (step_ok: bool) (step_message: "string option")
  | UpgradeComplete (all_ok: bool)

section \<open>Envelope\<close>

record 'a envelope =
  envelope_version :: u32
  envelope_msg :: 'a

text \<open>\<^verbatim>\<open>fault\<close> is what the injection point \<^verbatim>\<open>schema.version\<close> returned.\<close>

definition into_msg :: "injected_fault option \<Rightarrow> 'a envelope \<Rightarrow> 'a result" where
  "into_msg fault e =
     (case fault of
        Some f \<Rightarrow> Inl (''synthetic: forced schema version incompatibility'' # into_anyhow f)
      | None \<Rightarrow>
          if \<not> is_schema_compatible (envelope_version e)
          then Inl [''incompatible schema version '' @ dec (unat (envelope_version e)) @
                 '' (supported: '' @ dec (unat MIN_COMPATIBLE_VERSION) @ ''..='' @
                 dec (unat SCHEMA_VERSION) @ '')'']
          else Inr (envelope_msg e))"

definition envelope_line :: "('a envelope \<Rightarrow> string result) \<Rightarrow> 'a \<Rightarrow> string result" where
  "envelope_line to_string m =
     and_then (to_string \<lparr>envelope_version = SCHEMA_VERSION, envelope_msg = m\<rparr>) (\<lambda>line.
       Inr (line @ [nl]))"

definition parse_envelope ::
  "(string \<Rightarrow> 'a envelope result) \<Rightarrow> injected_fault option \<Rightarrow> string \<Rightarrow> 'a result" where
  "parse_envelope from_str fault line = and_then (from_str line) (into_msg fault)"

section \<open>Lemmas\<close>

lemma into_msg_Inr_iff:
  "into_msg fault e = Inr m \<longleftrightarrow>
     fault = None \<and> is_schema_compatible (envelope_version e) \<and> m = envelope_msg e"
  by (auto simp: into_msg_def split: option.splits)

lemma parse_envelope_Inr_iff:
  "parse_envelope from_str fault line = Inr m \<longleftrightarrow>
     fault = None \<and> (\<exists>e. from_str line = Inr e \<and> is_schema_compatible (envelope_version e) \<and>
       envelope_msg e = m)"
  by (auto simp: parse_envelope_def and_then_Inr_iff into_msg_Inr_iff)

section \<open>Properties\<close>

text \<open>
  Every frame one side writes is read back as the same message by the other,
  provided the JSON reader inverts the JSON writer and ignores the trailing newline; and a frame is
  read as a message only when its version is one this build supports.
\<close>

theorem envelope_roundtrip:
  assumes "\<And>e s. to_string e = Inr s \<Longrightarrow> from_str (s @ [nl]) = Inr e"
  shows "(envelope_line to_string m = Inr line \<longrightarrow> parse_envelope from_str None line = Inr m) \<and>
    (parse_envelope from_str None line' = Inr m' \<longrightarrow>
       (\<exists>e. from_str line' = Inr e \<and> envelope_version e = SCHEMA_VERSION \<and> envelope_msg e = m'))"
proof -
  have "is_schema_compatible SCHEMA_VERSION" by (simp add: is_schema_compatible_iff SCHEMA_VERSION_def)
  moreover have "is_schema_compatible v \<Longrightarrow> v = SCHEMA_VERSION" for v
    by (simp add: is_schema_compatible_iff SCHEMA_VERSION_def)
  ultimately show ?thesis
    using assms by (fastforce simp: envelope_line_def and_then_Inr_iff parse_envelope_Inr_iff)
qed

theorem envelope_roundtrip_witness:
  "parse_envelope (\<lambda>s. if s = ''s'' @ [nl] then Inr \<lparr>envelope_version = 1, envelope_msg = Status\<rparr> else Inl [])
     None (''s'' @ [nl]) = Inr Status"
proof -
  let ?to = "\<lambda>e. if e = \<lparr>envelope_version = 1, envelope_msg = Status\<rparr> then Inr ''s'' else Inl []"
  let ?from = "\<lambda>s. if s = ''s'' @ [nl] then Inr \<lparr>envelope_version = 1, envelope_msg = Status\<rparr> else Inl []"
  have "envelope_line ?to Status = Inr (''s'' @ [nl]) \<longrightarrow>
      parse_envelope ?from None (''s'' @ [nl]) = Inr Status"
    by (rule envelope_roundtrip [THEN conjunct1]) (simp split: if_splits)
  then show ?thesis by (simp add: envelope_line_def SCHEMA_VERSION_def)
qed

end
