(* ===== verification/Auth.thy ===== *)
theory Auth
  imports Wire
begin

text \<open>
  Model of \<^verbatim>\<open>src/auth.rs\<close>: the uid allowlist every UDS accept checks, and the reading of peer
  credentials, whose system call result is a parameter.
\<close>

section \<open>Definitions\<close>

record peer_allowlist =
  uids :: "u32 list"

definition from_uids :: "u32 list \<Rightarrow> peer_allowlist" where
  "from_uids us = \<lparr>uids = remdups us\<rparr>"

definition current_user_only :: "u32 \<Rightarrow> peer_allowlist" where
  "current_user_only effective = from_uids [effective]"

definition allowlist_from_config :: "u32 \<Rightarrow> u32 list \<Rightarrow> peer_allowlist" where
  "allowlist_from_config effective configured =
     (if configured = [] then current_user_only effective else from_uids configured)"

definition allowlist_contains :: "peer_allowlist \<Rightarrow> u32 \<Rightarrow> bool" where
  "allowlist_contains a uid \<longleftrightarrow> uid \<in> set (uids a)"

definition check_peer :: "u32 result \<Rightarrow> peer_allowlist \<Rightarrow> u32 result" where
  "check_peer peer_uid allow =
     and_then peer_uid (\<lambda>uid.
       if \<not> allowlist_contains allow uid then Inl [''rejected peer uid='' @ dec (unat uid)]
       else Inr uid)"

definition peer_uid_linux :: "u32 result \<Rightarrow> u32 result" where
  "peer_uid_linux cred = with_context ''SO_PEERCRED failed'' cred"

text \<open>The BSD call reports a length beside the credential; a short answer is refused.\<close>

definition peer_uid_bsd :: "nat \<Rightarrow> (nat \<times> u32) result \<Rightarrow> u32 result" where
  "peer_uid_bsd buf_size ret =
     and_then (with_context ''LOCAL_PEERCRED failed'' ret) (\<lambda>(len, uid).
       if len < buf_size
       then Inl [''LOCAL_PEERCRED short read: got '' @ dec len @ '' of '' @ dec buf_size @ '' bytes'']
       else Inr uid)"

section \<open>Lemmas\<close>

lemma check_peer_Inr_iff:
  "check_peer peer allow = Inr uid \<longleftrightarrow> peer = Inr uid \<and> uid \<in> set (uids allow)"
  by (auto simp: check_peer_def and_then_Inr_iff allowlist_contains_def split: if_splits)

section \<open>Properties\<close>

text \<open>
  A peer is served only under a uid the kernel reported for it and the configuration
  lists; with no configured list only the daemon's own effective uid passes, and a credential that
  could not be read, or was read short, passes nobody.
\<close>

theorem peer_check_sound:
  "(check_peer (peer_uid_linux cred) (allowlist_from_config eff cfg) = Inr uid \<longleftrightarrow>
      cred = Inr uid \<and> uid \<in> (if cfg = [] then {eff} else set cfg)) \<and>
   (check_peer (peer_uid_bsd n ret) (allowlist_from_config eff cfg) = Inr uid \<longleftrightarrow>
      (\<exists>len. ret = Inr (len, uid) \<and> n \<le> len) \<and> uid \<in> (if cfg = [] then {eff} else set cfg))"
  by (auto simp: check_peer_Inr_iff peer_uid_linux_def peer_uid_bsd_def and_then_Inr_iff
      allowlist_from_config_def current_user_only_def from_uids_def not_less split: if_splits)

end
