(* ===== verification/Watchdog.thy ===== *)
theory Watchdog
  imports Auth
begin

text \<open>
  Model of \<^verbatim>\<open>src/supervisor/watchdog.rs\<close>: per-role crash accounting, the backoff before the next
  spawn and the health state derived from both. The clock readings are arguments. The map of roles
  is an association list; the mutex around it makes each operation one step.
\<close>

section \<open>Definitions\<close>

definition WATCHDOG_INITIAL_BACKOFF :: duration where
  "WATCHDOG_INITIAL_BACKOFF = from_millis 200"
definition WATCHDOG_MAX_BACKOFF :: duration where
  "WATCHDOG_MAX_BACKOFF = from_secs 30"
definition WATCHDOG_HEALTHY_UPTIME :: duration where
  "WATCHDOG_HEALTHY_UPTIME = from_secs 5"
definition WATCHDOG_FLAP_THRESHOLD :: u32 where
  "WATCHDOG_FLAP_THRESHOLD = 4"
definition WATCHDOG_FAIL_THRESHOLD :: u32 where
  "WATCHDOG_FAIL_THRESHOLD = 5"

datatype exit_status = ExitedCode int | KilledBy int

definition status_code :: "exit_status \<Rightarrow> int option" where
  "status_code st = (case st of ExitedCode c \<Rightarrow> Some c | KilledBy _ \<Rightarrow> None)"

definition status_success :: "exit_status \<Rightarrow> bool" where
  "status_success st \<longleftrightarrow> st = ExitedCode 0"

record watchdog_state =
  consecutive_fast_exits :: u32
  next_backoff :: duration
  last_spawned_at :: "instant option"
  total_restarts :: u64
  last_restart_at_unix_ms :: "u64 option"

definition watchdog_default :: watchdog_state where
  "watchdog_default = \<lparr>consecutive_fast_exits = 0, next_backoff = 0, last_spawned_at = None,
     total_restarts = 0, last_restart_at_unix_ms = None\<rparr>"

definition watchdog_new :: watchdog_state where
  "watchdog_new = watchdog_default\<lparr>next_backoff := WATCHDOG_INITIAL_BACKOFF\<rparr>"

text \<open>The clock of the process: the monotonic instant and the wall time.\<close>

type_synonym clock = "instant \<times> duration option"

definition record_spawn :: "clock \<Rightarrow> watchdog_state \<Rightarrow> watchdog_state" where
  "record_spawn c s = s\<lparr>last_spawned_at := Some (fst c), total_restarts := total_restarts s + 1,
     last_restart_at_unix_ms := Some (now_unix_ms (snd c))\<rparr>"

definition record_adoption :: "clock \<Rightarrow> watchdog_state \<Rightarrow> watchdog_state" where
  "record_adoption c s = s\<lparr>last_spawned_at := Some (fst c)\<rparr>"

definition apply_exit :: "exit_status \<Rightarrow> duration \<Rightarrow> watchdog_state \<Rightarrow> watchdog_state" where
  "apply_exit st uptime s =
     (if status_code st = Some UPGRADE_COMMIT_EXIT_CODE
      then s\<lparr>consecutive_fast_exits := 0, next_backoff := WATCHDOG_INITIAL_BACKOFF\<rparr>
      else if uptime < WATCHDOG_HEALTHY_UPTIME
      then s\<lparr>consecutive_fast_exits := consecutive_fast_exits s + 1,
             next_backoff := min (next_backoff s * 2) WATCHDOG_MAX_BACKOFF\<rparr>
      else s\<lparr>consecutive_fast_exits := 0, next_backoff := WATCHDOG_INITIAL_BACKOFF\<rparr>)"

definition uptime_at :: "instant \<Rightarrow> watchdog_state \<Rightarrow> duration" where
  "uptime_at now s = (case last_spawned_at s of None \<Rightarrow> 0 | Some t \<Rightarrow> now - t)"

text \<open>The backoff to wait is the \<open>next_backoff\<close> of the state returned.\<close>

definition record_exit :: "exit_status \<Rightarrow> instant \<Rightarrow> watchdog_state \<Rightarrow> duration \<times> watchdog_state" where
  "record_exit st now s =
     (let s' = apply_exit st (uptime_at now s) s in (next_backoff s', s'))"

definition wd_health_state :: "instant \<Rightarrow> watchdog_state \<Rightarrow> health_state" where
  "wd_health_state now s =
     (if WATCHDOG_FAIL_THRESHOLD \<le> consecutive_fast_exits s then Failed
      else if last_spawned_at s \<noteq> None \<and> WATCHDOG_HEALTHY_UPTIME \<le> uptime_at now s then Healthy
      else if consecutive_fast_exits s = 0 then Healthy
      else if WATCHDOG_FLAP_THRESHOLD \<le> consecutive_fast_exits s then Flapping
      else Backoff)"

definition is_failed :: "watchdog_state \<Rightarrow> bool" where
  "is_failed s \<longleftrightarrow> WATCHDOG_FAIL_THRESHOLD \<le> consecutive_fast_exits s"

definition wd_snapshot :: "instant \<Rightarrow> string \<Rightarrow> watchdog_state \<Rightarrow> role_health" where
  "wd_snapshot now role s = \<lparr>
     rh_role = role,
     rh_state = wd_health_state now s,
     rh_consecutive_fast_exits = consecutive_fast_exits s,
     rh_next_backoff_ms = duration_millis_u64 (next_backoff s),
     rh_total_restarts = total_restarts s,
     rh_last_restart_at_unix_ms = last_restart_at_unix_ms s\<rparr>"

type_synonym watchdogs = "(string \<times> watchdog_state) list"

definition WATCHDOG_ROLES :: "string list" where
  "WATCHDOG_ROLES = [''processor'', ''plain'', ''tls'', ''scanner'']"

definition watchdogs_init :: watchdogs where
  "watchdogs_init = map (\<lambda>r. (r, watchdog_new)) WATCHDOG_ROLES"

datatype watchdog_event = WdSpawn | WdAdoption

text \<open>The entry of a role, created with the derived default (not \<^verbatim>\<open>new\<close>) when missing.\<close>

definition wd_entry :: "watchdogs \<Rightarrow> string \<Rightarrow> watchdog_state" where
  "wd_entry w role = (case map_of w role of None \<Rightarrow> watchdog_default | Some s \<Rightarrow> s)"

definition record_watchdog_event :: "clock \<Rightarrow> string \<Rightarrow> watchdog_event \<Rightarrow> watchdogs \<Rightarrow> watchdogs" where
  "record_watchdog_event c role ev w =
     AList.update role
       (case ev of
          WdSpawn \<Rightarrow> record_spawn c (wd_entry w role)
        | WdAdoption \<Rightarrow> record_adoption c (wd_entry w role)) w"

definition watchdog_record :: "clock \<Rightarrow> string \<Rightarrow> watchdog_event \<Rightarrow> watchdogs \<Rightarrow> watchdogs" where
  "watchdog_record c role ev w = record_watchdog_event c role ev w"

definition record_watchdog_exit ::
  "exit_status \<Rightarrow> instant \<Rightarrow> string \<Rightarrow> watchdogs \<Rightarrow>
     (duration \<times> (bool \<times> u32 \<times> health_state) option) \<times> watchdogs" where
  "record_watchdog_exit st now role w =
     (case record_exit st now (wd_entry w role) of
        (backoff, s) \<Rightarrow>
          ((backoff,
            if consecutive_fast_exits s > 0
            then Some (is_failed s, consecutive_fast_exits s, wd_health_state now s) else None),
           AList.update role s w))"

text \<open>The log line is part of the result: its level (an error when failed) and its text.\<close>

definition watchdog_record_exit ::
  "exit_status \<Rightarrow> instant \<Rightarrow> string \<Rightarrow> watchdogs \<Rightarrow>
     duration \<times> (bool \<times> string) option \<times> watchdogs" where
  "watchdog_record_exit st now role w =
     (case record_watchdog_exit st now role w of
        ((backoff, log_event), w') \<Rightarrow>
          (backoff,
           map_option (\<lambda>(failed, _, _). (failed,
             if failed then ''watchdog: role marked FAILED; not respawning''
             else ''watchdog: fast exit'')) log_event,
           w'))"

definition watchdogs_snapshot :: "instant \<Rightarrow> watchdogs \<Rightarrow> role_health list" where
  "watchdogs_snapshot now w =
     map (\<lambda>r. wd_snapshot now r
            (case map_of w r of None \<Rightarrow> watchdog_new | Some s \<Rightarrow> s)) WATCHDOG_ROLES"

definition watchdog_health_state :: "instant \<Rightarrow> string \<Rightarrow> watchdogs \<Rightarrow> health_state" where
  "watchdog_health_state now role w =
     (case map_of w role of None \<Rightarrow> Healthy | Some s \<Rightarrow> wd_health_state now s)"

section \<open>Lemmas: the backoff of one role\<close>

interpretation wd_backoff: doubling_backoff WATCHDOG_INITIAL_BACKOFF WATCHDOG_MAX_BACKOFF
  by unfold_locales (simp_all add: WATCHDOG_INITIAL_BACKOFF_def WATCHDOG_MAX_BACKOFF_def
      from_millis_def from_secs_def)

text \<open>The specification: how many exits in a row, up to the latest, were fast crashes.\<close>

definition fast_crash :: "exit_status \<times> duration \<Rightarrow> bool" where
  "fast_crash x \<longleftrightarrow>
     status_code (fst x) \<noteq> Some UPGRADE_COMMIT_EXIT_CODE \<and> snd x < WATCHDOG_HEALTHY_UPTIME"

definition streak :: "(exit_status \<times> duration) list \<Rightarrow> nat" where
  "streak xs = length (takeWhile fast_crash (rev xs))"

definition apply_exits :: "(exit_status \<times> duration) list \<Rightarrow> watchdog_state \<Rightarrow> watchdog_state" where
  "apply_exits xs s = foldl (\<lambda>s x. apply_exit (fst x) (snd x) s) s xs"

lemma apply_exits_snoc [simp]:
  "apply_exits (xs @ [x]) s = apply_exit (fst x) (snd x) (apply_exits xs s)"
  by (simp add: apply_exits_def)

lemma streak_snoc [simp]: "streak (xs @ [x]) = (if fast_crash x then Suc (streak xs) else 0)"
  by (simp add: streak_def)

lemma streak_le: "streak xs \<le> length xs"
  by (simp add: streak_def) (metis length_rev length_takeWhile_le)

lemma apply_exit_cases:
  "apply_exit st up s =
     (if fast_crash (st, up)
      then s\<lparr>consecutive_fast_exits := consecutive_fast_exits s + 1,
             next_backoff := min (next_backoff s * 2) WATCHDOG_MAX_BACKOFF\<rparr>
      else s\<lparr>consecutive_fast_exits := 0, next_backoff := WATCHDOG_INITIAL_BACKOFF\<rparr>)"
  by (simp add: apply_exit_def fast_crash_def)

lemma exits_backoff:
  "next_backoff (apply_exits xs watchdog_new) =
     min (WATCHDOG_INITIAL_BACKOFF * 2 ^ streak xs) WATCHDOG_MAX_BACKOFF"
proof (induction xs rule: rev_induct)
  case Nil
  show ?case
    using wd_backoff.start_formula by (simp add: apply_exits_def watchdog_new_def streak_def)
next
  case (snoc x xs)
  from wd_backoff.doubled_formula [OF snoc.IH] wd_backoff.start_formula show ?case
    by (cases x) (simp add: apply_exit_cases)
qed

lemma exits_counter:
  assumes "length xs < 2 ^ 32"
  shows "unat (consecutive_fast_exits (apply_exits xs watchdog_new)) = streak xs"
  using assms
proof (induction xs rule: rev_induct)
  case Nil
  show ?case by (simp add: apply_exits_def watchdog_new_def watchdog_default_def streak_def)
next
  case (snoc x xs)
  let ?c = "consecutive_fast_exits (apply_exits xs watchdog_new)"
  have c: "unat ?c = streak xs" using snoc by simp
  have "unat ?c + 1 < 2 ^ LENGTH(32)" using c streak_le [of xs] snoc.prems by simp
  then have "unat (?c + 1) = Suc (streak xs)" using c by (simp add: unat_word_ariths)
  then show ?case by (cases x) (simp add: apply_exit_cases)
qed

lemma fail_iff:
  "length xs < 2 ^ 32 \<Longrightarrow> is_failed (apply_exits xs watchdog_new) \<longleftrightarrow> 5 \<le> streak xs"
  using exits_counter [of xs] by (simp add: is_failed_def WATCHDOG_FAIL_THRESHOLD_def word_le_nat_alt)

section \<open>Lemmas: the table of roles\<close>

lemma wd_entry_update [simp]:
  "wd_entry (AList.update r s w) r' = (if r' = r then s else wd_entry w r')"
  by (simp add: wd_entry_def update_conv')

lemma watchdogs_init_entry: "r \<in> set WATCHDOG_ROLES \<Longrightarrow> map_of watchdogs_init r = Some watchdog_new"
  by (auto simp: watchdogs_init_def WATCHDOG_ROLES_def)

lemma update_keeps: "map_of w r \<noteq> None \<Longrightarrow> map_of (AList.update k v w) r \<noteq> None"
  by (simp add: update_conv')

text \<open>One interaction of the supervisor with the table.\<close>

datatype wd_op = OpEvent clock string watchdog_event | OpExit exit_status instant string

fun wd_step :: "watchdogs \<Rightarrow> wd_op \<Rightarrow> watchdogs" where
  "wd_step w (OpEvent c role ev) = watchdog_record c role ev w"
| "wd_step w (OpExit st now role) = snd (snd (watchdog_record_exit st now role w))"

definition wd_inv :: "watchdogs \<Rightarrow> bool" where
  "wd_inv w \<longleftrightarrow>
     (\<forall>r \<in> set WATCHDOG_ROLES. map_of w r \<noteq> None \<and>
        WATCHDOG_INITIAL_BACKOFF \<le> next_backoff (wd_entry w r) \<and>
        next_backoff (wd_entry w r) \<le> WATCHDOG_MAX_BACKOFF)"

lemma apply_exit_within:
  "WATCHDOG_INITIAL_BACKOFF \<le> next_backoff s \<Longrightarrow>
     WATCHDOG_INITIAL_BACKOFF \<le> next_backoff (apply_exit st up s) \<and>
     next_backoff (apply_exit st up s) \<le> WATCHDOG_MAX_BACKOFF"
  using wd_backoff.doubled_within wd_backoff.lo_hi by (simp add: apply_exit_cases)

lemma watchdog_record_exit_table:
  "snd (snd (watchdog_record_exit st now role w)) =
     AList.update role (apply_exit st (uptime_at now (wd_entry w role)) (wd_entry w role)) w"
  by (simp add: watchdog_record_exit_def record_watchdog_exit_def record_exit_def Let_def)

lemma wd_step_inv: "wd_inv w \<Longrightarrow> wd_inv (wd_step w op)"
proof (cases op)
  case (OpEvent c role ev)
  assume "wd_inv w"
  then show ?thesis
    by (auto simp: OpEvent wd_inv_def watchdog_record_def record_watchdog_event_def update_conv'
        record_spawn_def record_adoption_def split: watchdog_event.splits)
next
  case (OpExit st now role)
  assume "wd_inv w"
  then show ?thesis
    using apply_exit_within [of "wd_entry w role"]
    by (auto simp: OpExit wd_inv_def watchdog_record_exit_table update_conv')
qed

interpretation wd_runs: step_system wd_step wd_inv
  by unfold_locales (rule wd_step_inv)

lemma wd_inv_init: "wd_inv watchdogs_init"
  using wd_backoff.lo_hi
  by (simp add: wd_inv_def watchdogs_init_entry wd_entry_def watchdog_new_def)

section \<open>Properties\<close>

text \<open>
  After any history of exits of a role, the backoff before the next spawn is
  200 ms doubled once per exit of the current streak of fast crashes and capped at 30 s; an upgrade
  commit or an exit after five seconds of uptime ends the streak; and the role counts as failed
  exactly from the fifth fast crash in a row on.
\<close>

theorem watchdog_backoff_formula:
  assumes "length xs < 2 ^ 32"
  defines "s \<equiv> apply_exits xs watchdog_new"
  shows "next_backoff s = min (from_millis 200 * 2 ^ streak xs) (from_secs 30) \<and>
    unat (consecutive_fast_exits s) = streak xs \<and> (is_failed s \<longleftrightarrow> 5 \<le> streak xs)"
  using exits_backoff [of xs] exits_counter [OF assms(1)] fail_iff [OF assms(1)]
  by (simp add: s_def WATCHDOG_INITIAL_BACKOFF_def WATCHDOG_MAX_BACKOFF_def)

theorem watchdog_backoff_formula_witness:
  "next_backoff (apply_exits [(ExitedCode 1, 0), (KilledBy 9, from_secs 4)] watchdog_new) =
     from_millis 800"
  using watchdog_backoff_formula [of "[(ExitedCode 1, 0), (KilledBy 9, from_secs 4)]"]
  by (simp add: streak_def fast_crash_def status_code_def UPGRADE_COMMIT_EXIT_CODE_def
      WATCHDOG_HEALTHY_UPTIME_def from_secs_def from_millis_def)

text \<open>
  The exit that turns a role failed waits 6.4 s, not the 30 s cap: with five to
  seven fast crashes in a row the role is failed while its backoff is still growing.
\<close>

theorem failed_backoff_below_cap:
  assumes "length xs < 2 ^ 32" and "5 \<le> streak xs" and "streak xs \<le> 7"
  shows "is_failed (apply_exits xs watchdog_new) \<and>
    next_backoff (apply_exits xs watchdog_new) < WATCHDOG_MAX_BACKOFF"
proof -
  have "(2::nat) ^ streak xs \<le> 2 ^ 7" using assms(3) by (intro power_increasing) simp_all
  with assms fail_iff [OF assms(1)] exits_backoff [of xs] show ?thesis
    by (simp add: WATCHDOG_INITIAL_BACKOFF_def WATCHDOG_MAX_BACKOFF_def from_millis_def from_secs_def)
qed

theorem failed_backoff_below_cap_witness:
  "next_backoff (apply_exits (replicate 5 (ExitedCode 1, 0)) watchdog_new) < WATCHDOG_MAX_BACKOFF"
proof -
  have "streak (replicate 5 (ExitedCode 1, 0)) = 5"
    by (simp add: streak_def fast_crash_def status_code_def UPGRADE_COMMIT_EXIT_CODE_def
        WATCHDOG_HEALTHY_UPTIME_def from_secs_def takeWhile_replicate)
  with failed_backoff_below_cap [of "replicate 5 (ExitedCode 1, 0)"] show ?thesis by simp
qed

text \<open>
  However spawns, adoptions and exits of the roles interleave, the backoff of
  each of the four roles stays between 200 ms and 30 s and an operation on one role leaves the
  accounting of every other role unchanged.
\<close>

theorem watchdog_roles_bounded:
  "(\<forall>r \<in> set WATCHDOG_ROLES.
      from_millis 200 \<le> next_backoff (wd_entry (foldl wd_step watchdogs_init ops) r) \<and>
      next_backoff (wd_entry (foldl wd_step watchdogs_init ops) r) \<le> from_secs 30) \<and>
   (r' \<noteq> role \<longrightarrow>
      wd_entry (watchdog_record c role ev w) r' = wd_entry w r' \<and>
      wd_entry (snd (snd (watchdog_record_exit st now role w))) r' = wd_entry w r')"
  using wd_runs.run_invariant [OF wd_inv_init, of ops]
  by (auto simp: wd_inv_def WATCHDOG_INITIAL_BACKOFF_def WATCHDOG_MAX_BACKOFF_def
      watchdog_record_def record_watchdog_event_def watchdog_record_exit_table)

theorem watchdog_roles_bounded_witness:
  "next_backoff (wd_entry (foldl wd_step watchdogs_init [OpExit (ExitedCode 1) 7 ''tls'']) ''tls'') \<le>
     from_secs 30"
  using watchdog_roles_bounded [of "[OpExit (ExitedCode 1) 7 ''tls'']"] by (simp add: WATCHDOG_ROLES_def)

end
