(* ===== verification/Grandparent.thy ===== *)
theory Grandparent
  imports Watchdog
begin

text \<open>
  Model of \<^verbatim>\<open>src/grandparent.rs\<close>: the loop that respawns a crashed supervisor. What the world does
  in one round (the spawn, how the supervisor ends) is an observation; the loop consumes a list of
  them and emits the effects it has in order. The result is \<^verbatim>\<open>None\<close> while the loop still runs.
\<close>

section \<open>Definitions\<close>

definition MIN_BACKOFF :: duration where
  "MIN_BACKOFF = from_millis 500"
definition MAX_BACKOFF :: duration where
  "MAX_BACKOFF = from_secs 30"
definition HEALTHY_UPTIME :: duration where
  "HEALTHY_UPTIME = from_secs 60"

datatype gp_signal = SIGTERM | SIGINT | SIGKILL

datatype gp_outcome =
    Exited exit_status duration
  | WaitFailed error
  | Signaled gp_signal

datatype gp_round = SpawnFailed error | Spawned raw_fd gp_outcome

datatype gp_effect =
    SpawnSupervisor "string list" bool env
  | Kill int gp_signal
  | WaitChild int
  | KillPgrp int gp_signal
  | Sleep duration

definition supervisor_cmd :: gp_effect where
  "supervisor_cmd = SpawnSupervisor [''supervisor''] True [(ENV_UNDER_GRANDPARENT, ''1'')]"

fun grandparent_loop :: "duration \<Rightarrow> gp_round list \<Rightarrow> gp_effect list \<times> unit result option" where
  "grandparent_loop backoff [] = ([], None)"
| "grandparent_loop backoff (SpawnFailed e # rest) = ([], Some (Inl (''spawn supervisor'' # e)))"
| "grandparent_loop backoff (Spawned pid (WaitFailed e) # rest) = ([supervisor_cmd], Some (Inl e))"
| "grandparent_loop backoff (Spawned pid (Signaled sig) # rest) =
     ([supervisor_cmd, Kill pid sig, WaitChild pid], Some (Inr ()))"
| "grandparent_loop backoff (Spawned pid (Exited st uptime) # rest) =
     (if status_success st then ([supervisor_cmd], Some (Inr ()))
      else let b = (if HEALTHY_UPTIME < uptime then MIN_BACKOFF else backoff) in
        case grandparent_loop (min (b * 2) MAX_BACKOFF) rest of
          (effects, r) \<Rightarrow> (supervisor_cmd # KillPgrp pid SIGKILL # Sleep b # effects, r))"

definition grandparent_run :: "string result \<Rightarrow> gp_round list \<Rightarrow> gp_effect list \<times> unit result option" where
  "grandparent_run current_exe rounds =
     (case with_context ''current_exe'' current_exe of
        Inl e \<Rightarrow> ([], Some (Inl e))
      | Inr _ \<Rightarrow> grandparent_loop MIN_BACKOFF rounds)"

section \<open>Lemmas\<close>

interpretation gp_backoff: doubling_backoff MIN_BACKOFF MAX_BACKOFF
  by unfold_locales (simp_all add: MIN_BACKOFF_def MAX_BACKOFF_def from_millis_def from_secs_def)

definition crash :: "gp_round \<Rightarrow> bool" where
  "crash r \<longleftrightarrow> (case r of Spawned _ (Exited st _) \<Rightarrow> \<not> status_success st | _ \<Rightarrow> False)"

text \<open>
  The specification of the effects, against the process ids of the supervisors that were spawned, in order: each is
  started as the leader of a process group of its own; before the next one is started, that group - the one whose id is the id of
  the crashed supervisor - is killed, and a sleep within the bounds follows. A signal goes to the running supervisor, which is waited for.
\<close>

fun respawns_in_turn :: "int list \<Rightarrow> gp_effect list \<Rightarrow> bool" where
  "respawns_in_turn pids [] = True"
| "respawns_in_turn (p # pids) (SpawnSupervisor args own_group e # es) =
     (own_group \<and>
      (case es of
         [] \<Rightarrow> True
       | KillPgrp q sig # Sleep d # es' \<Rightarrow>
           q = p \<and> sig = SIGKILL \<and> from_millis 500 \<le> d \<and> d \<le> from_secs 30 \<and> respawns_in_turn pids es'
       | [Kill q sig, WaitChild r] \<Rightarrow> q = p \<and> r = p
       | _ \<Rightarrow> False))"
| "respawns_in_turn _ _ = False"

definition spawned_pids :: "gp_round list \<Rightarrow> int list" where
  "spawned_pids rounds = concat (map (\<lambda>r. case r of Spawned pid _ \<Rightarrow> [pid] | SpawnFailed _ \<Rightarrow> []) rounds)"

lemma loop_order:
  assumes "MIN_BACKOFF \<le> b" and "b \<le> MAX_BACKOFF"
  shows "respawns_in_turn (spawned_pids rounds) (fst (grandparent_loop b rounds))"
  using assms
proof (induction b rounds rule: grandparent_loop.induct)
  case (5 backoff pid st uptime rest)
  let ?b = "if HEALTHY_UPTIME < uptime then MIN_BACKOFF else backoff"
  have b: "MIN_BACKOFF \<le> ?b" "?b \<le> MAX_BACKOFF"
    using "5.prems" gp_backoff.lo_hi by auto
  moreover have "respawns_in_turn (spawned_pids rest) (fst (grandparent_loop (min (?b * 2) MAX_BACKOFF) rest))"
    if "\<not> status_success st"
    using "5.IH" [OF that refl] gp_backoff.doubled_within [OF b(1)] by blast
  ultimately show ?case
    by (auto simp: supervisor_cmd_def spawned_pids_def Let_def MIN_BACKOFF_def MAX_BACKOFF_def split: prod.splits)
qed (simp_all add: supervisor_cmd_def spawned_pids_def)

lemma loop_result:
  "snd (grandparent_loop b rounds) = Some (Inr ()) \<longleftrightarrow>
     (\<exists>crashes r rest. rounds = crashes @ r # rest \<and> list_all crash crashes \<and>
        ((\<exists>pid st up. r = Spawned pid (Exited st up) \<and> status_success st) \<or>
         (\<exists>pid sig. r = Spawned pid (Signaled sig))))"
  (is "?L b rounds \<longleftrightarrow> ?R rounds")
proof (induction b rounds rule: grandparent_loop.induct)
  case (4 backoff pid sig rest)
  have "?R (Spawned pid (Signaled sig) # rest)" by (intro exI [of _ "[]"]) auto
  then show ?case by simp
next
  case (5 backoff pid st uptime rest)
  let ?b = "if HEALTHY_UPTIME < uptime then MIN_BACKOFF else backoff"
  show ?case
  proof (cases "status_success st")
    case True
    then have "?R (Spawned pid (Exited st uptime) # rest)"
      by (intro exI [of _ "[]"]) auto
    with True show ?thesis by simp
  next
    case False
    have "?R (Spawned pid (Exited st uptime) # rest) \<longleftrightarrow> ?R rest"
    proof
      assume "?R (Spawned pid (Exited st uptime) # rest)"
      then obtain cs r rs where *: "Spawned pid (Exited st uptime) # rest = cs @ r # rs"
        "list_all crash cs" "(\<exists>pid st up. r = Spawned pid (Exited st up) \<and> status_success st) \<or>
         (\<exists>pid sig. r = Spawned pid (Signaled sig))" by blast
      show "?R rest"
      proof (cases cs)
        case Nil
        with * False show ?thesis by auto
      next
        case (Cons c list)
        with * have "rest = list @ r # rs" "list_all crash list" by simp_all
        with *(3) show ?thesis by blast
      qed
    next
      assume "?R rest"
      then obtain cs r rs where *: "rest = cs @ r # rs"
        "list_all crash cs" "(\<exists>pid st up. r = Spawned pid (Exited st up) \<and> status_success st) \<or>
         (\<exists>pid sig. r = Spawned pid (Signaled sig))" by blast
      moreover have "crash (Spawned pid (Exited st uptime))" using False by (simp add: crash_def)
      ultimately show "?R (Spawned pid (Exited st uptime) # rest)"
        by (intro exI [of _ "Spawned pid (Exited st uptime) # cs"]) auto
    qed
    moreover have "snd (grandparent_loop backoff (Spawned pid (Exited st uptime) # rest)) =
        snd (grandparent_loop (min (?b * 2) MAX_BACKOFF) rest)"
      using False by (simp add: Let_def case_prod_beta)
    ultimately show ?thesis using "5.IH" [OF False refl] by simp
  qed
qed (auto simp: Cons_eq_append_conv crash_def)

section \<open>Properties\<close>

text \<open>
  C35 (safety). The grandparent starts every supervisor as the leader of a process group of its own, and never respawns one
  before it has killed the process group of the very supervisor that crashed and slept between 500 ms and 30 s; a
  termination signal is passed on to the supervisor that is running, which is waited for, and nothing follows. It reports success only after a
  clean exit or such a signal, at the first round that is not a crash.
\<close>

theorem grandparent_respawn_discipline:
  "respawns_in_turn (spawned_pids rounds) (fst (grandparent_run exe rounds)) \<and>
   (snd (grandparent_run exe rounds) = Some (Inr ()) \<longrightarrow>
      (\<exists>crashes pid out rest. rounds = crashes @ Spawned pid out # rest \<and> list_all crash crashes \<and>
         ((\<exists>st up. out = Exited st up \<and> status_success st) \<or> (\<exists>sig. out = Signaled sig))))"
proof (cases exe)
  case (Inl e)
  then show ?thesis by (simp add: grandparent_run_def)
next
  case (Inr p)
  then have run: "grandparent_run exe rounds = grandparent_loop MIN_BACKOFF rounds"
    by (simp add: grandparent_run_def)
  show ?thesis
    unfolding run loop_result
    using loop_order [OF order_refl gp_backoff.lo_hi] by fast
qed

theorem grandparent_respawn_discipline_witness:
  "grandparent_run (Inr ''/echod'') [Spawned 9 (Exited (KilledBy 6) 3), Spawned 10 (Signaled SIGTERM)] =
     ([supervisor_cmd, KillPgrp 9 SIGKILL, Sleep MIN_BACKOFF, supervisor_cmd, Kill 10 SIGTERM,
       WaitChild 10], Some (Inr ())) \<and>
   respawns_in_turn [9, 10] [supervisor_cmd, KillPgrp 9 SIGKILL, Sleep MIN_BACKOFF, supervisor_cmd, Kill 10 SIGTERM, WaitChild 10] \<and>
   \<not> respawns_in_turn [9, 10] [supervisor_cmd, KillPgrp 7 SIGKILL, Sleep MIN_BACKOFF, supervisor_cmd]"
  using grandparent_respawn_discipline
    [of "[Spawned 9 (Exited (KilledBy 6) 3), Spawned 10 (Signaled SIGTERM)]" "Inr ''/echod''"]
  by (simp add: grandparent_run_def Let_def status_success_def spawned_pids_def supervisor_cmd_def)

end
