(* ===== verification/Link.thy ===== *)
theory Link
  imports Grandparent
begin

text \<open>
  Model of \<^verbatim>\<open>src/supervisor/control.rs\<close>: the supervisor's end of the control connection to one
  role. Every section under the link's mutex is one operation here; the reader task of each
  connection, the queries and the senders interleave. A connection is named by the epoch it was
  accepted under, a query by a number. A one-shot sender held in \<^verbatim>\<open>pending_status\<close> is the number of
  the query that waits on it.
\<close>

section \<open>Operations\<close>

record worker_link =
  writer :: "u64 option"
  pending_status :: "nat option"
  last_generation :: "u64 option"
  last_pid :: "u32 option"
  conn_epoch :: u64

definition worker_link_default :: worker_link where
  "worker_link_default = \<lparr>writer = None, pending_status = None, last_generation = None,
     last_pid = None, conn_epoch = 0\<rparr>"

text \<open>\<^verbatim>\<open>accept_control\<close>, split at its lock acquisitions: the accept, one status line, the teardown.\<close>

definition control_accept :: "u32 result \<Rightarrow> peer_allowlist \<Rightarrow> worker_link \<Rightarrow> u64 option \<times> worker_link" where
  "control_accept peer_uid allow l =
     (case check_peer peer_uid allow of
        Inl _ \<Rightarrow> (None, l)
      | Inr _ \<Rightarrow>
          let my_epoch = conn_epoch l + 1 in
          (Some my_epoch, l\<lparr>conn_epoch := my_epoch, writer := Some my_epoch\<rparr>))"

text \<open>
  One line of the reader task: the query answered, if one waited. \<^verbatim>\<open>decode\<close> and \<^verbatim>\<open>schema\<close> are the
  results of the two injection points.
\<close>

definition control_line ::
  "(string \<Rightarrow> worker_msg envelope result) \<Rightarrow> injected_fault option \<Rightarrow> injected_fault option \<Rightarrow>
     string \<Rightarrow> worker_link \<Rightarrow> (nat \<times> worker_status) option \<times> worker_link" where
  "control_line from_str decode schema line l =
     (case (case decode of
              Some f \<Rightarrow> Inl (''synthetic control decode error'' # into_anyhow f)
            | None \<Rightarrow> parse_envelope from_str schema line) of
        Inl _ \<Rightarrow> (None, l)
      | Inr (StatusReport st) \<Rightarrow>
          (map_option (\<lambda>q. (q, st)) (pending_status l),
           l\<lparr>last_generation := Some (ws_generation st), last_pid := Some (ws_pid st),
             pending_status := None\<rparr>))"

definition control_disconnect :: "u64 \<Rightarrow> worker_link \<Rightarrow> worker_link" where
  "control_disconnect my_epoch l =
     (if conn_epoch l = my_epoch
      then l\<lparr>writer := None, last_generation := None, last_pid := None\<rparr>
      else l)"

text \<open>
  \<^verbatim>\<open>query_status\<close>, split at its wait. The first half fails without a writer or when the frame
  cannot be written; the second half runs when the wait ended without an answer.
\<close>

definition query_begin :: "nat \<Rightarrow> bool \<Rightarrow> worker_link \<Rightarrow> bool \<times> worker_link" where
  "query_begin q write_ok l =
     (if writer l = None \<or> \<not> write_ok then (False, l)
      else (True, l\<lparr>pending_status := Some q\<rparr>))"

definition query_give_up :: "worker_link \<Rightarrow> worker_link" where
  "query_give_up l = l\<lparr>pending_status := None\<rparr>"

text \<open>The senders deliver a frame on the connection of the writer, if there is one.\<close>

definition send_non_terminal :: "control_msg \<Rightarrow> worker_link \<Rightarrow> (u64 \<times> control_msg) option" where
  "send_non_terminal msg l = map_option (\<lambda>w. (w, msg)) (writer l)"

definition send_drain :: "worker_link \<Rightarrow> (u64 \<times> control_msg) option" where
  "send_drain l = send_non_terminal Drain l"

definition send_reload :: "worker_link \<Rightarrow> (u64 \<times> control_msg) option" where
  "send_reload l = send_non_terminal Reload l"

definition take_writer :: "worker_link \<Rightarrow> u64 option \<times> worker_link" where
  "take_writer l = (writer l, l\<lparr>pending_status := None, writer := None\<rparr>)"

definition send_shutdown :: "u64 \<Rightarrow> worker_link \<Rightarrow> (u64 \<times> control_msg) option \<times> worker_link" where
  "send_shutdown grace l =
     (case take_writer l of (w, l') \<Rightarrow> (map_option (\<lambda>w. (w, Shutdown grace)) w, l'))"

definition send_upgrade :: "string option \<Rightarrow> worker_link \<Rightarrow> (u64 \<times> control_msg) option \<times> worker_link" where
  "send_upgrade path l =
     (case take_writer l of
        (w, l') \<Rightarrow> (map_option (\<lambda>w. (w, Upgrade path False None None)) w, l'))"

section \<open>Interleaving\<close>

text \<open>
  The link with the reader tasks alive, the answers sent to queries and what the queries have
  returned. A report carries the message its line parsed to.
\<close>

record link_system =
  link :: worker_link
  readers :: "u64 list"
  answers :: "(nat \<times> worker_status) list"
  returned :: "(nat \<times> worker_status option) list"

datatype link_event =
    EvAccept "u32 result" peer_allowlist
  | EvReport u64 worker_status
  | EvDisconnect u64
  | EvQuery nat bool
  | EvQueryEnd nat bool
  | EvShutdown u64
  | EvUpgrade "string option"

definition link_system_new :: link_system where
  "link_system_new = \<lparr>link = worker_link_default, readers = [], answers = [], returned = []\<rparr>"

definition status_line :: "worker_status \<Rightarrow> worker_link \<Rightarrow> (nat \<times> worker_status) option \<times> worker_link" where
  "status_line st l =
     control_line (\<lambda>_. Inr \<lparr>envelope_version = SCHEMA_VERSION, envelope_msg = StatusReport st\<rparr>) None None [] l"

text \<open>
  The wait of a query ends with its answer; without one it ends at the timeout, or at once when
  its sender was dropped because another operation replaced or cleared it.
\<close>

fun link_step :: "link_system \<Rightarrow> link_event \<Rightarrow> link_system" where
  "link_step s (EvAccept peer allow) =
     (case control_accept peer allow (link s) of
        (None, _) \<Rightarrow> s
      | (Some e, l) \<Rightarrow> s\<lparr>link := l, readers := e # readers s\<rparr>)"
| "link_step s (EvReport e st) =
     (if e \<in> set (readers s)
      then case status_line st (link s) of
             (None, l) \<Rightarrow> s\<lparr>link := l\<rparr>
           | (Some a, l) \<Rightarrow> s\<lparr>link := l, answers := a # answers s\<rparr>
      else s)"
| "link_step s (EvDisconnect e) =
     (if e \<in> set (readers s)
      then s\<lparr>link := control_disconnect e (link s), readers := remove1 e (readers s)\<rparr>
      else s)"
| "link_step s (EvQuery q write_ok) =
     (case query_begin q write_ok (link s) of
        (True, l) \<Rightarrow> s\<lparr>link := l\<rparr>
      | (False, l) \<Rightarrow> s\<lparr>link := l, returned := (q, None) # returned s\<rparr>)"
| "link_step s (EvQueryEnd q timed_out) =
     (case map_of (answers s) q of
        Some st \<Rightarrow> s\<lparr>returned := (q, Some st) # returned s\<rparr>
      | None \<Rightarrow>
          if pending_status (link s) = Some q \<and> \<not> timed_out then s
          else s\<lparr>link := query_give_up (link s), returned := (q, None) # returned s\<rparr>)"
| "link_step s (EvShutdown grace) = s\<lparr>link := snd (send_shutdown grace (link s))\<rparr>"
| "link_step s (EvUpgrade path) = s\<lparr>link := snd (send_upgrade path (link s))\<rparr>"

section \<open>Lemmas: who owns the link\<close>

lemma status_line_eq:
  "status_line st l = (map_option (\<lambda>q. (q, st)) (pending_status l),
     l\<lparr>last_generation := Some (ws_generation st), last_pid := Some (ws_pid st), pending_status := None\<rparr>)"
  by (simp add: status_line_def control_line_def parse_envelope_def into_msg_def
      is_schema_compatible_iff SCHEMA_VERSION_def)

text \<open>
  The number of accepts so far bounds the epochs; while it stays below \<open>2^64\<close> no epoch is used
  twice. The writer, when there is one, is that of the newest connection, and its reader is alive.
\<close>

definition link_inv :: "nat \<Rightarrow> link_system \<Rightarrow> bool" where
  "link_inv n s \<longleftrightarrow>
     unat (conn_epoch (link s)) = n \<and> distinct (readers s) \<and>
     (\<forall>e \<in> set (readers s). e \<le> conn_epoch (link s)) \<and>
     (\<forall>w. writer (link s) = Some w \<longrightarrow> w = conn_epoch (link s) \<and> w \<in> set (readers s))"

definition is_accept :: "link_event \<Rightarrow> bool" where
  "is_accept ev \<longleftrightarrow>
     (case ev of EvAccept peer allow \<Rightarrow> (\<exists>u. check_peer peer allow = Inr u) | _ \<Rightarrow> False)"

lemma link_step_inv:
  assumes inv: "link_inv n s" and n: "Suc n < 2 ^ 64"
  shows "link_inv (if is_accept ev then Suc n else n) (link_step s ev)"
proof (cases ev)
  case (EvAccept peer allow)
  show ?thesis
  proof (cases "check_peer peer allow")
    case (Inl e)
    with inv show ?thesis by (simp add: EvAccept is_accept_def control_accept_def)
  next
    case (Inr u)
    let ?e = "conn_epoch (link s)"
    have suc: "unat (?e + 1) = Suc n" using inv n by (simp add: link_inv_def unat_word_ariths)
    then have less: "?e < ?e + 1" using inv by (simp add: link_inv_def word_less_nat_alt)
    with inv have "?e + 1 \<notin> set (readers s)" by (auto simp: link_inv_def dest: leD)
    moreover have "\<forall>e \<in> set (readers s). e \<le> ?e + 1"
      using inv less by (auto simp: link_inv_def)
    ultimately show ?thesis
      using inv suc Inr by (simp add: EvAccept is_accept_def control_accept_def Let_def link_inv_def)
  qed
next
  case (EvDisconnect e)
  with inv show ?thesis
    by (auto simp: is_accept_def link_inv_def control_disconnect_def dest: notin_set_remove1)
next
  case (EvReport e st)
  with inv show ?thesis
    by (simp add: is_accept_def link_inv_def status_line_eq split: option.splits)
next
  case (EvQuery q ok)
  with inv show ?thesis by (simp add: is_accept_def link_inv_def query_begin_def)
next
  case (EvQueryEnd q t)
  with inv show ?thesis
    by (simp add: is_accept_def link_inv_def query_give_up_def split: option.splits)
qed (use inv in \<open>simp_all add: is_accept_def link_inv_def send_shutdown_def send_upgrade_def take_writer_def\<close>)

lemma link_inv_new: "link_inv 0 link_system_new"
  by (simp add: link_inv_def link_system_new_def worker_link_default_def)

lemma link_run_inv:
  "length evs < 2 ^ 64 \<Longrightarrow> link_inv (length (filter is_accept evs)) (foldl link_step link_system_new evs)"
proof (induction evs rule: rev_induct)
  case Nil
  show ?case by (simp add: link_inv_new)
next
  case (snoc ev evs)
  have "Suc (length (filter is_accept evs)) \<le> length (evs @ [ev])" by simp
  then have "Suc (length (filter is_accept evs)) < 2 ^ 64" using snoc.prems by (rule le_less_trans)
  moreover have "link_inv (length (filter is_accept evs)) (foldl link_step link_system_new evs)"
    using snoc by simp
  ultimately have "link_inv (if is_accept ev then Suc (length (filter is_accept evs))
      else length (filter is_accept evs)) (link_step (foldl link_step link_system_new evs) ev)"
    by (intro link_step_inv)
  then show ?case by (simp split: if_splits)
qed

section \<open>Properties\<close>

text \<open>
  C13 (safety). However connections, status reports, disconnects, queries and sends interleave,
  frames go to the connection accepted last, never to one whose reader has ended; and the end of an
  older connection leaves the link of the newer one untouched.
\<close>

theorem control_link_ownership:
  assumes "length evs < 2 ^ 64"
  defines "s \<equiv> foldl link_step link_system_new evs"
  shows "(\<forall>w. writer (link s) = Some w \<longrightarrow>
      w \<in> set (readers s) \<and> unat w = length (filter is_accept evs)) \<and>
    (\<forall>e. e \<noteq> conn_epoch (link s) \<longrightarrow> link (link_step s (EvDisconnect e)) = link s)"
  using link_run_inv [OF assms(1)]
  by (auto simp: s_def link_inv_def control_disconnect_def)

theorem control_link_ownership_witness:
  "let s = foldl link_step link_system_new [EvAccept (Inr 0) (from_uids [0]), EvAccept (Inr 0) (from_uids [0]),
       EvDisconnect 1]
   in writer (link s) = Some 2 \<and> 2 \<in> set (readers s)"
proof -
  let ?evs = "[EvAccept (Inr 0) (from_uids [0]), EvAccept (Inr 0) (from_uids [0]), EvDisconnect 1]"
  have "writer (link (foldl link_step link_system_new ?evs)) = Some 2"
    by (simp add: link_system_new_def worker_link_default_def control_accept_def check_peer_def
        allowlist_contains_def from_uids_def Let_def control_disconnect_def)
  with control_link_ownership [of ?evs] show ?thesis by (simp only: Let_def) simp
qed

text \<open>
  A status report is recorded without a look at the epoch: a report of a
  superseded connection replaces the generation and pid the supervisor holds for the current owner.
\<close>

theorem stale_report_overwrites:
  assumes "e \<in> set (readers s)"
  shows "last_generation (link (link_step s (EvReport e st))) = Some (ws_generation st) \<and>
    last_pid (link (link_step s (EvReport e st))) = Some (ws_pid st) \<and>
    writer (link (link_step s (EvReport e st))) = writer (link s) \<and>
    conn_epoch (link (link_step s (EvReport e st))) = conn_epoch (link s)"
  using assms by (simp add: status_line_eq split: option.splits)

theorem stale_report_overwrites_witness:
  "last_pid (link (link_step \<lparr>link = worker_link_default\<lparr>conn_epoch := 2, writer := Some 2, last_pid := Some 20\<rparr>,
       readers = [2, 1], answers = [], returned = []\<rparr>
     (EvReport 1 \<lparr>ws_role = ''plain'', ws_pid = 10, ws_generation = 3, ws_started_at_unix_ms = 0,
       ws_in_flight = 0, ws_listener_addr = None, ws_rate_limiter_stats = None\<rparr>))) = Some 10"
  using stale_report_overwrites [of 1 "\<lparr>link = worker_link_default\<lparr>conn_epoch := 2, writer := Some 2,
      last_pid := Some 20\<rparr>, readers = [2, 1], answers = [], returned = []\<rparr>"
      "\<lparr>ws_role = ''plain'', ws_pid = 10, ws_generation = 3, ws_started_at_unix_ms = 0,
       ws_in_flight = 0, ws_listener_addr = None, ws_rate_limiter_stats = None\<rparr>"] by simp

text \<open>
  A query that is alone on the link returns the first report that arrives
  before its timeout; of two queries in flight at once, the first loses its sender to the second and
  on giving up takes the second's away, so that a report that arrives in time answers neither.
\<close>

theorem query_status_answers:
  assumes "writer (link s) = Some w" and "e \<in> set (readers s)"
    and "map_of (answers s) q = None" and "map_of (answers s) q' = None" and "q \<noteq> q'"
  shows "map_of (returned (foldl link_step s [EvQuery q True, EvReport e st, EvQueryEnd q t])) q = Some (Some st) \<and>
    (let s' = foldl link_step s [EvQuery q True, EvQuery q' True, EvQueryEnd q False, EvReport e st,
         EvQueryEnd q' False]
     in map_of (returned s') q = Some None \<and> map_of (returned s') q' = Some None)"
  using assms by (simp add: query_begin_def status_line_eq query_give_up_def)

theorem query_status_answers_witness:
  "map_of (returned (foldl link_step \<lparr>link = worker_link_default\<lparr>conn_epoch := 1, writer := Some 1\<rparr>,
       readers = [1], answers = [], returned = []\<rparr>
     [EvQuery 0 True, EvReport 1 \<lparr>ws_role = ''tls'', ws_pid = 10, ws_generation = 3,
        ws_started_at_unix_ms = 0, ws_in_flight = 0, ws_listener_addr = None,
        ws_rate_limiter_stats = None\<rparr>, EvQueryEnd 0 False])) 0 =
   Some (Some \<lparr>ws_role = ''tls'', ws_pid = 10, ws_generation = 3,
        ws_started_at_unix_ms = 0, ws_in_flight = 0, ws_listener_addr = None,
        ws_rate_limiter_stats = None\<rparr>)"
  by (rule query_status_answers [where q' = 1 and w = 1, THEN conjunct1]) simp_all

end
