(* ===== verification/Role_Supervisor.thy ===== *)
theory Role_Supervisor
  imports Link
begin

text \<open>
  Model of \<^verbatim>\<open>src/supervisor/worker.rs\<close>: the loop that keeps one role alive and, after an upgrade
  commit, stands back for the successor. A polling loop consumes a list of observations, each the
  time of a poll and the state of the link at it; \<^verbatim>\<open>None\<close> means that the observations ended before
  the loop did. One round of the supervising loop takes what the world does in it as a record.
\<close>

section \<open>Waiting for children\<close>

definition SUCCESSOR_WAIT_TIMEOUT :: duration where
  "SUCCESSOR_WAIT_TIMEOUT = from_secs 5"
definition SUCCESSOR_LOSS_GRACE :: duration where
  "SUCCESSOR_LOSS_GRACE = from_secs 3"

datatype successor_outcome = SuccAdopted u64 | SuccTimeout
datatype monitor_outcome = Readopted u64 | Lost

text \<open>An owned child delivers its exit status; an adopted one is only a process id.\<close>

datatype child_handle = Owned "u32 option" | Adopted int

definition child_pid :: "child_handle \<Rightarrow> u32 option" where
  "child_pid c =
     (case c of
        Owned p \<Rightarrow> p
      | Adopted p \<Rightarrow> if 0 \<le> p \<and> p < 2 ^ 32 then Some (word_of_int p) else None)"

datatype kill_result = KillOk | KillEsrch | KillOther

definition i32_of_u32 :: "u32 \<Rightarrow> int option" where
  "i32_of_u32 p = (if unat p < 2 ^ 31 then Some (int (unat p)) else None)"

definition is_process_alive :: "(int \<Rightarrow> kill_result) \<Rightarrow> u32 \<Rightarrow> bool" where
  "is_process_alive kill pid =
     (case i32_of_u32 pid of None \<Rightarrow> False | Some p \<Rightarrow> kill p \<noteq> KillEsrch)"

text \<open>
  \<^verbatim>\<open>ExitStatus::from_raw\<close>, as far as \<^verbatim>\<open>code()\<close> tells: a raw value with a non-zero low part
  carries no exit code.
\<close>

definition from_raw :: "int \<Rightarrow> exit_status" where
  "from_raw raw = (if raw mod 128 = 0 then ExitedCode (raw div 256 mod 256) else KilledBy (raw mod 128))"

datatype waitpid_result = StillAlive | Reaped exit_status | Echild | WaitErrno int

text \<open>One poll of an adopted child: the \<^verbatim>\<open>waitpid\<close> result and that of the probe behind it.\<close>

definition adopted_poll :: "waitpid_result \<times> kill_result \<Rightarrow> exit_status option" where
  "adopted_poll obs =
     (case fst obs of
        StillAlive \<Rightarrow> None
      | Reaped _ \<Rightarrow> Some (from_raw 0)
      | Echild \<Rightarrow> if snd obs = KillEsrch then Some (from_raw 0) else None
      | WaitErrno e \<Rightarrow> Some (from_raw e))"

fun wait_adopted :: "(error + waitpid_result \<times> kill_result) list \<Rightarrow> exit_status result option" where
  "wait_adopted [] = None"
| "wait_adopted (Inl e # rest) = Some (Inl (''spawn_blocking join'' # e))"
| "wait_adopted (Inr obs # rest) =
     (case adopted_poll obs of Some st \<Rightarrow> Some (Inr st) | None \<Rightarrow> wait_adopted rest)"

text \<open>What the wait for a child sees: the status of an owned one, the polls of an adopted one.\<close>

record child_end =
  owned_status :: "exit_status result option"
  adopted_polls :: "(error + waitpid_result \<times> kill_result) list"

definition child_wait :: "child_handle \<Rightarrow> child_end \<Rightarrow> exit_status result option" where
  "child_wait c o' =
     (case c of Owned _ \<Rightarrow> owned_status o' | Adopted _ \<Rightarrow> wait_adopted (adopted_polls o'))"

section \<open>Polling the link\<close>

type_synonym poll = "instant \<times> worker_link"

text \<open>\<^verbatim>\<open>wait_for_successor\<close>; \<open>deadline\<close> is the start of the wait plus the timeout.\<close>

fun poll_successor :: "u64 \<Rightarrow> instant \<Rightarrow> poll list \<Rightarrow> successor_outcome option" where
  "poll_successor old_gen deadline [] = None"
| "poll_successor old_gen deadline ((now, l) # rest) =
     (case last_generation l of
        Some seen \<Rightarrow>
          if old_gen < seen then Some (SuccAdopted seen)
          else if deadline \<le> now then Some SuccTimeout else poll_successor old_gen deadline rest
      | None \<Rightarrow> if deadline \<le> now then Some SuccTimeout else poll_successor old_gen deadline rest)"

definition wait_for_successor ::
  "u64 \<Rightarrow> duration \<Rightarrow> instant \<Rightarrow> poll list \<Rightarrow> successor_outcome option" where
  "wait_for_successor old_gen timeout start polls = poll_successor old_gen (start + timeout) polls"

text \<open>\<^verbatim>\<open>monitor_successor\<close>: the outcome and the pid last surfaced.\<close>

fun monitor_poll ::
  "u64 \<Rightarrow> duration \<Rightarrow> instant option \<Rightarrow> u32 option \<Rightarrow> poll list \<Rightarrow> monitor_outcome option \<times> u32 option" where
  "monitor_poll g grace absent pid [] = (None, pid)"
| "monitor_poll g grace absent pid ((now, l) # rest) =
     (if \<exists>s. last_generation l = Some s \<and> g < s
      then (Some (Readopted (the (last_generation l))), pid)
      else if writer l \<noteq> None
      then monitor_poll g grace None (if last_pid l \<noteq> None then last_pid l else pid) rest
      else case absent of
             None \<Rightarrow> monitor_poll g grace (Some now) pid rest
           | Some t \<Rightarrow> if grace \<le> now - t then (Some Lost, pid) else monitor_poll g grace absent pid rest)"

definition monitor_successor ::
  "u64 \<Rightarrow> duration \<Rightarrow> u32 option \<Rightarrow> poll list \<Rightarrow> monitor_outcome option \<times> u32 option" where
  "monitor_successor g grace pid polls = monitor_poll g grace None pid polls"

section \<open>The supervising loop\<close>

text \<open>One adoption: the clock and link when it is recorded, then the polls of its monitor.\<close>

type_synonym adoption = "clock \<times> worker_link \<times> poll list"

record role_state =
  rs_generation :: u64
  rs_next :: "child_handle option"
  rs_current_pid :: "u32 option"
  rs_watchdogs :: watchdogs

text \<open>\<^verbatim>\<open>supervise_adopted_successor\<close>; \<^verbatim>\<open>None\<close> while a successor is still being monitored.\<close>

fun supervise_adopted_successor ::
  "string \<Rightarrow> u64 \<Rightarrow> adoption list \<Rightarrow> role_state \<Rightarrow> role_state option" where
  "supervise_adopted_successor role g [] s = None"
| "supervise_adopted_successor role g ((c, l, polls) # rest) s =
     (let s1 = s\<lparr>rs_watchdogs := watchdog_record c role WdAdoption (rs_watchdogs s),
                  rs_current_pid := last_pid l\<rparr>
      in case monitor_successor g SUCCESSOR_LOSS_GRACE (rs_current_pid s1) polls of
           (None, _) \<Rightarrow> None
         | (Some (Readopted g'), pid) \<Rightarrow>
             supervise_adopted_successor role g' rest (s1\<lparr>rs_current_pid := pid\<rparr>)
         | (Some Lost, _) \<Rightarrow> Some (s1\<lparr>rs_current_pid := None\<rparr>))"

text \<open>What one round of \<^verbatim>\<open>supervise_role\<close> meets, in the order it meets it.\<close>

record round_world =
  w_shutdown :: bool
  w_spawn_clock :: clock
  w_spawn :: "child_handle result"
  w_link_gen :: "u64 option"
  w_end :: child_end
  w_exit_at :: instant
  w_shutdown_after :: bool
  w_wait_start :: instant
  w_wait_polls :: "poll list"
  w_adoptions :: "adoption list"

text \<open>How a round ends, with the state the loop continues in and the sleep it takes first.\<close>

datatype round_result =
    LoopExit role_state
  | NextRound duration role_state
  | Unfinished

definition next_child :: "string \<Rightarrow> round_world \<Rightarrow> role_state \<Rightarrow> child_handle result \<times> role_state" where
  "next_child role w s =
     (case rs_next s of
        Some h \<Rightarrow> (Inr h, s\<lparr>rs_next := None\<rparr>)
      | None \<Rightarrow>
          (w_spawn w,
           s\<lparr>rs_generation := 0,
             rs_watchdogs := watchdog_record (w_spawn_clock w) role WdSpawn (rs_watchdogs s)\<rparr>))"

text \<open>What happens once the child is gone: accounting, then the successor's turn after a commit.\<close>

definition after_exit ::
  "string \<Rightarrow> round_world \<Rightarrow> u64 \<Rightarrow> exit_status result \<Rightarrow> role_state \<Rightarrow> round_result" where
  "after_exit role w pre_upgrade_gen status s =
     (let exit_status = (case status of Inr st \<Rightarrow> st | Inl _ \<Rightarrow> from_raw 0) in
      case watchdog_record_exit exit_status (w_exit_at w) role (rs_watchdogs s) of
        (backoff, _, wd) \<Rightarrow>
          let s1 = s\<lparr>rs_current_pid := None, rs_watchdogs := wd\<rparr> in
          if w_shutdown_after w then LoopExit s1
          else if status_code exit_status = Some UPGRADE_COMMIT_EXIT_CODE
          then case wait_for_successor pre_upgrade_gen SUCCESSOR_WAIT_TIMEOUT (w_wait_start w) (w_wait_polls w) of
                 None \<Rightarrow> Unfinished
               | Some (SuccAdopted g) \<Rightarrow>
                   (case supervise_adopted_successor role g (w_adoptions w) s1 of
                      None \<Rightarrow> Unfinished
                    | Some s2 \<Rightarrow> NextRound 0 s2)
               | Some SuccTimeout \<Rightarrow> NextRound backoff s1
          else NextRound backoff s1)"

definition supervise_round :: "string \<Rightarrow> round_world \<Rightarrow> role_state \<Rightarrow> round_result" where
  "supervise_round role w s =
     (if w_shutdown w then LoopExit s
      else case next_child role w s of
        (Inl _, s1) \<Rightarrow> NextRound (from_millis 500) s1
      | (Inr child, s1) \<Rightarrow>
          let s2 = (case child_pid child of None \<Rightarrow> s1 | Some p \<Rightarrow> s1\<lparr>rs_current_pid := Some p\<rparr>);
              pre_upgrade_gen = (case w_link_gen w of Some g \<Rightarrow> g | None \<Rightarrow> rs_generation s2)
          in case child_wait child (w_end w) of
               None \<Rightarrow> Unfinished
             | Some status \<Rightarrow> after_exit role w pre_upgrade_gen status s2)"

fun supervise_rounds :: "string \<Rightarrow> round_world list \<Rightarrow> role_state \<Rightarrow> round_result" where
  "supervise_rounds role [] s = NextRound 0 s"
| "supervise_rounds role (w # ws) s =
     (case supervise_round role w s of
        NextRound _ s' \<Rightarrow> supervise_rounds role ws s'
      | r \<Rightarrow> r)"

record role_supervisor =
  sup_role :: string
  sup_current_pid :: "u32 option"
  sup_adopted_pid :: "u32 option"
  sup_adopted_gen :: u64
  sup_watchdogs :: watchdogs

definition role_start :: "(int \<Rightarrow> kill_result) \<Rightarrow> clock \<Rightarrow> role_supervisor \<Rightarrow> role_state" where
  "role_start kill c r =
     (let fresh = \<lparr>rs_generation = sup_adopted_gen r, rs_next = None,
                   rs_current_pid = sup_current_pid r, rs_watchdogs = sup_watchdogs r\<rparr>
      in case sup_adopted_pid r of
           None \<Rightarrow> fresh
         | Some p \<Rightarrow>
             if is_process_alive kill p
             then fresh\<lparr>rs_watchdogs := watchdog_record c (sup_role r) WdAdoption (sup_watchdogs r),
                        rs_next := map_option Adopted (i32_of_u32 p)\<rparr>
             else fresh)"

definition supervise_role ::
  "(int \<Rightarrow> kill_result) \<Rightarrow> clock \<Rightarrow> round_world list \<Rightarrow> role_supervisor \<Rightarrow> round_result" where
  "supervise_role kill c ws r = supervise_rounds (sup_role r) ws (role_start kill c r)"

section \<open>Spawning workers\<close>

record worker_command =
  cmd_exe :: string
  cmd_args :: "string list"
  cmd_kill_on_drop :: bool
  cmd_env :: env

definition child_command :: "string \<Rightarrow> env \<Rightarrow> string \<Rightarrow> worker_command" where
  "child_command exe parent_env sub = \<lparr>cmd_exe = exe, cmd_args = [sub], cmd_kill_on_drop = True,
     cmd_env = scrub_fdpass_env parent_env parent_env\<rparr>"

type_synonym spawn_call = "worker_command \<Rightarrow> u32 option result"

definition spawn_sub :: "spawn_call \<Rightarrow> string \<Rightarrow> env \<Rightarrow> string \<Rightarrow> child_handle result" where
  "spawn_sub spawn exe e sub = and_then (spawn (child_command exe e sub)) (\<lambda>id. Inr (Owned id))"

definition spawn_processor :: "spawn_call \<Rightarrow> string \<Rightarrow> env \<Rightarrow> child_handle result" where
  "spawn_processor spawn exe e = spawn_sub spawn exe e ''processor''"

definition spawn_scanner :: "spawn_call \<Rightarrow> string \<Rightarrow> env \<Rightarrow> child_handle result" where
  "spawn_scanner spawn exe e = spawn_sub spawn exe e ''scanner''"

datatype acceptor_role = Plain | Tls

definition acceptor_role_arg :: "acceptor_role \<Rightarrow> string" where
  "acceptor_role_arg r = (case r of Plain \<Rightarrow> ''plain'' | Tls \<Rightarrow> ''tls'')"

definition spawn_acceptor :: "spawn_call \<Rightarrow> string \<Rightarrow> env \<Rightarrow> acceptor_role \<Rightarrow> child_handle result" where
  "spawn_acceptor spawn exe e r = spawn_sub spawn exe e (acceptor_role_arg r)"

section \<open>Lemmas: the successor window\<close>

lemma poll_successor_adopted:
  "poll_successor g d polls = Some (SuccAdopted g') \<Longrightarrow>
     g < g' \<and> (\<exists>now l. (now, l) \<in> set polls \<and> last_generation l = Some g')"
  by (induction g d polls rule: poll_successor.induct) (auto split: option.splits if_splits)

text \<open>The link shows a generation above \<open>g\<close>.\<close>

definition newer :: "u64 \<Rightarrow> worker_link \<Rightarrow> bool" where
  "newer g l \<longleftrightarrow> (\<exists>s. last_generation l = Some s \<and> g < s)"

lemma poll_successor_step:
  "poll_successor g d ((now, l) # rest) =
     (if newer g l then Some (SuccAdopted (the (last_generation l)))
      else if d \<le> now then Some SuccTimeout else poll_successor g d rest)"
  by (auto simp: newer_def split: option.splits)

definition unwritten :: "poll list \<Rightarrow> bool" where
  "unwritten ps \<longleftrightarrow> (\<forall>(t, l) \<in> set ps. writer l = None)"

definition no_newer :: "u64 \<Rightarrow> poll list \<Rightarrow> bool" where
  "no_newer g ps \<longleftrightarrow> (\<forall>p \<in> set ps. \<not> newer g (snd p))"

lemma poll_successor_timeout:
  "poll_successor g d polls = Some SuccTimeout \<Longrightarrow>
     \<exists>before now l after. polls = before @ (now, l) # after \<and> d \<le> now \<and> no_newer g (before @ [(now, l)])"
proof (induction polls)
  case (Cons p rest)
  obtain now l where p: "p = (now, l)" by fastforce
  have low: "no_newer g [(now, l)]"
    using Cons.prems by (auto simp: p no_newer_def poll_successor_step simp del: poll_successor.simps split: if_splits)
  show ?case
  proof (cases "d \<le> now")
    case True
    with low p have "p # rest = [] @ (now, l) # rest \<and> d \<le> now \<and> no_newer g ([] @ [(now, l)])" by simp
    then show ?thesis by blast
  next
    case False
    with Cons.prems have "poll_successor g d rest = Some SuccTimeout"
      by (auto simp: p poll_successor_step simp del: poll_successor.simps split: if_splits)
    with Cons.IH obtain before n k after where
      "rest = before @ (n, k) # after" "d \<le> n" "no_newer g (before @ [(n, k)])" by blast
    with low p have "p # rest = ((now, l) # before) @ (n, k) # after \<and> d \<le> n \<and>
        no_newer g (((now, l) # before) @ [(n, k)])" by (simp add: no_newer_def)
    then show ?thesis by blast
  qed
qed simp

lemma poll_successor_returns:
  assumes "\<exists>(now, l) \<in> set polls. d \<le> now"
  shows "poll_successor g d polls \<noteq> None"
  using assms by (induction g d polls rule: poll_successor.induct) (auto split: option.splits)

text \<open>
  A successor given up for lost: the polls end with a stretch, at least the grace long, in which
  the link had no writer; and no poll up to there showed a newer generation.
\<close>

definition silent_since :: "u64 \<Rightarrow> duration \<Rightarrow> poll list \<Rightarrow> bool" where
  "silent_since g grace ps \<longleftrightarrow>
     no_newer g ps \<and>
     (\<exists>before t0 l0 mid t1 l1. ps = before @ (t0, l0) # mid @ [(t1, l1)] \<and>
        unwritten ((t0, l0) # mid @ [(t1, l1)]) \<and> grace \<le> t1 - t0)"

lemma monitor_readopted:
  "fst (monitor_poll g grace absent pid polls) = Some (Readopted g') \<Longrightarrow>
     g < g' \<and> (\<exists>now l. (now, l) \<in> set polls \<and> last_generation l = Some g')"
  by (induction g grace absent pid polls rule: monitor_poll.induct)
    (auto split: option.splits if_splits)

text \<open>
  The generalisation the induction needs: what was seen before the remaining polls, with the poll
  at which the absence began.
\<close>

definition absence :: "instant option \<Rightarrow> poll list \<Rightarrow> bool" where
  "absence absent seen \<longleftrightarrow>
     (case absent of
        None \<Rightarrow> True
      | Some t \<Rightarrow> \<exists>before l mid. seen = before @ (t, l) # mid \<and> unwritten ((t, l) # mid))"

lemma monitor_lost_seen:
  assumes "fst (monitor_poll g grace absent pid polls) = Some Lost"
    and "no_newer g seen" and "absence absent seen"
  shows "\<exists>ps after. polls = ps @ after \<and> silent_since g grace (seen @ ps)"
  using assms
proof (induction g grace absent pid polls arbitrary: seen rule: monitor_poll.induct)
  case (1 g grace absent pid)
  then show ?case by simp
next
  case (2 g grace absent pid now l rest)
  let ?seen = "seen @ [(now, l)]"
  have low: "\<not> (\<exists>s. last_generation l = Some s \<and> g < s)"
    using "2.prems"(1) by (auto split: if_splits)
  with "2.prems"(2) have newer: "no_newer g ?seen" by (auto simp: no_newer_def newer_def)
  have step: ?case if "\<exists>ps after. rest = ps @ after \<and> silent_since g grace (?seen @ ps)"
  proof -
    from that obtain ps after where "rest = ps @ after" "silent_since g grace (?seen @ ps)" by blast
    then show ?thesis by (intro exI [of _ "(now, l) # ps"] exI [of _ after]) simp
  qed
  show ?case
  proof (cases "writer l = None")
    case False
    with "2.prems"(1) low "2.IH"(1) [OF low False _ newer] show ?thesis
      by (intro step) (simp add: absence_def)
  next
    case True
    show ?thesis
    proof (cases absent)
      case None
      have "absence (Some now) ?seen"
        using True unfolding absence_def option.case by (intro exI [of _ seen]) (simp add: unwritten_def)
      with None True "2.prems"(1) low "2.IH"(2) [OF low _ None _ newer] show ?thesis
        by (intro step) simp
    next
      case (Some t)
      with "2.prems"(3) obtain before l0 mid where
        seen: "seen = before @ (t, l0) # mid" "unwritten ((t, l0) # mid)"
        by (auto simp: absence_def)
      show ?thesis
      proof (cases "grace \<le> now - t")
        case True
        have "?seen = before @ (t, l0) # mid @ [(now, l)] \<and>
            unwritten ((t, l0) # mid @ [(now, l)]) \<and> grace \<le> now - t"
          using seen True \<open>writer l = None\<close> by (simp add: unwritten_def)
        with newer have "silent_since g grace ?seen" unfolding silent_since_def by blast
        then show ?thesis by (intro exI [of _ "[(now, l)]"] exI [of _ rest]) simp
      next
        case False
        have "?seen = before @ (t, l0) # (mid @ [(now, l)]) \<and> unwritten ((t, l0) # (mid @ [(now, l)]))"
          using seen \<open>writer l = None\<close> by (simp add: unwritten_def)
        then have "absence absent ?seen" unfolding absence_def Some option.case by blast
        with Some True False "2.prems"(1) low "2.IH"(3) [OF low _ Some False _ newer] show ?thesis
          by (intro step) simp
      qed
    qed
  qed
qed

lemma monitor_lost:
  "fst (monitor_successor g grace pid polls) = Some Lost \<Longrightarrow>
     \<exists>ps after. polls = ps @ after \<and> silent_since g grace ps"
  using monitor_lost_seen [of g grace None pid polls "[]"]
  by (simp add: monitor_successor_def no_newer_def absence_def)

text \<open>The polls that can decide the wait: those before the deadline and the first one past it.\<close>

definition window :: "instant \<Rightarrow> poll list \<Rightarrow> poll list" where
  "window d polls =
     takeWhile (\<lambda>(now, _). now < d) polls @ take 1 (dropWhile (\<lambda>(now, _). now < d) polls)"

lemma poll_successor_window:
  assumes "\<exists>p \<in> set polls. d \<le> fst p"
  shows "poll_successor g d polls =
    (if no_newer g (window d polls) then Some SuccTimeout
     else Some (SuccAdopted (the (last_generation (snd (hd
       (filter (\<lambda>p. newer g (snd p)) (window d polls))))))))"
  using assms
proof (induction polls)
  case (Cons p rest)
  obtain now l where p: "p = (now, l)" by fastforce
  show ?case
  proof (cases "newer g l")
    case True
    moreover have "p \<in> set (window d (p # rest))" by (simp add: p window_def)
    with True have "\<not> no_newer g (window d (p # rest))" unfolding no_newer_def p by force
    moreover have "hd (filter (\<lambda>p. newer g (snd p)) (window d (p # rest))) = p"
      using True by (auto simp: p window_def)
    ultimately show ?thesis by (simp add: p poll_successor_step del: poll_successor.simps)
  next
    case False
    show ?thesis
    proof (cases "d \<le> now")
      case True
      with False show ?thesis
        by (simp add: p poll_successor_step window_def no_newer_def del: poll_successor.simps)
    next
      case late: False
      with Cons.prems p have "\<exists>p \<in> set rest. d \<le> fst p" by auto
      moreover have "window d (p # rest) = p # window d rest"
        using late by (simp add: p window_def)
      ultimately show ?thesis
        using Cons.IH False late
        by (simp add: p poll_successor_step no_newer_def del: poll_successor.simps)
    qed
  qed
qed simp

text \<open>An adoption at \<open>g\<close> or above that was given up after a silence of the whole grace.\<close>

definition lost_after :: "u64 \<Rightarrow> adoption \<Rightarrow> bool" where
  "lost_after g ad \<longleftrightarrow>
     (\<exists>g' ps after. g \<le> g' \<and> snd (snd ad) = ps @ after \<and> silent_since g' SUCCESSOR_LOSS_GRACE ps)"

lemma lost_after_mono: "lost_after h ad \<Longrightarrow> g \<le> h \<Longrightarrow> lost_after g ad"
  unfolding lost_after_def by (meson order_trans)

lemma adoption_keeps_next: "supervise_adopted_successor role g ads s = Some s' \<Longrightarrow> rs_next s' = rs_next s"
  by (induction role g ads s rule: supervise_adopted_successor.induct)
    (auto simp: Let_def split: prod.splits option.splits monitor_outcome.splits)

lemma adoption_chain_lost:
  assumes "supervise_adopted_successor role g ads s = Some s'"
  shows "\<exists>ad \<in> set ads. lost_after g ad"
  using assms
proof (induction role g ads s rule: supervise_adopted_successor.induct)
  case (2 role g c l polls rest s)
  obtain out pid where mon: "monitor_successor g SUCCESSOR_LOSS_GRACE (last_pid l) polls = (out, pid)"
    by fastforce
  show ?case
  proof (cases out)
    case None
    with "2.prems" mon show ?thesis by (simp add: Let_def)
  next
    case (Some o')
    show ?thesis
    proof (cases o')
      case (Readopted g')
      have "g < g'"
        using monitor_readopted [of g SUCCESSOR_LOSS_GRACE None "last_pid l" polls g'] mon Some Readopted
        by (simp add: monitor_successor_def)
      moreover have "\<exists>ad \<in> set rest. lost_after g' ad"
        using "2.IH" [OF refl _ refl refl] "2.prems" mon Some Readopted by (simp add: Let_def)
      ultimately show ?thesis using lost_after_mono [of g' _ g] by (meson less_imp_le list.set_intros(2))
    next
      case Lost
      with mon Some have "fst (monitor_successor g SUCCESSOR_LOSS_GRACE (last_pid l) polls) = Some Lost"
        by simp
      from monitor_lost [OF this] have "lost_after g (c, l, polls)"
        unfolding lost_after_def snd_conv by blast
      then show ?thesis by simp
    qed
  qed
qed simp

text \<open>What an exit with the commit code leads to, once the round goes on.\<close>

lemma after_commit:
  assumes "after_exit role w g (Inr (ExitedCode UPGRADE_COMMIT_EXIT_CODE)) s = NextRound d s'"
  shows "rs_next s' = rs_next s \<and>
    ((\<exists>before now l after. w_wait_polls w = before @ (now, l) # after \<and>
        w_wait_start w + from_secs 5 \<le> now \<and> no_newer g (before @ [(now, l)])) \<or>
     d = 0 \<and> (\<exists>ad \<in> set (w_adoptions w). \<exists>g' > g. lost_after g' ad))"
proof -
  let ?wait = "wait_for_successor g SUCCESSOR_WAIT_TIMEOUT (w_wait_start w) (w_wait_polls w)"
  have "rs_next s' = rs_next s \<and> (?wait = Some SuccTimeout \<or> d = 0 \<and> (\<exists>g1 s1 s2. ?wait = Some (SuccAdopted g1) \<and>
      supervise_adopted_successor role g1 (w_adoptions w) s1 = Some s2))"
    using assms by (auto simp: after_exit_def Let_def status_code_def dest: adoption_keeps_next
        split: prod.splits option.splits successor_outcome.splits if_splits)
  then show ?thesis
  proof (elim conjE disjE exE)
    assume n: "rs_next s' = rs_next s" and "?wait = Some SuccTimeout"
    from poll_successor_timeout [OF this(2) [unfolded wait_for_successor_def]] n show ?thesis
      by (simp add: SUCCESSOR_WAIT_TIMEOUT_def)
  next
    fix g1 s1 s2
    assume n: "rs_next s' = rs_next s" "d = 0" and a: "?wait = Some (SuccAdopted g1)"
      and "supervise_adopted_successor role g1 (w_adoptions w) s1 = Some s2"
    from adoption_chain_lost [OF this(4)] poll_successor_adopted [OF a [unfolded wait_for_successor_def]] n
    show ?thesis by blast
  qed
qed

section \<open>Properties\<close>

text \<open>
  C10 (safety). One round of the supervision of a role whose worker this supervisor has spawned itself. When that worker exits with
  the commit code and the round ends so that the next one spawns a fresh worker, then either no status report above the old
  generation was visible at any poll up to one past the five-second deadline, or the last of a chain of
  adopted successors had no control connection for three seconds and no newer generation was reported
  meanwhile. The old generation is the one on the link, or zero when the worker never reported. For a worker adopted across an upgrade of
  the supervisor itself this fails, because its exit code is lost; \<open>adopted_commit_respawns\<close> below shows that.
\<close>

theorem commit_never_races_successor:
  assumes "supervise_round role w s = NextRound d s'" and "rs_next s = None" and "w_spawn w = Inr (Owned pid)"
    and "owned_status (w_end w) = Some (Inr (ExitedCode UPGRADE_COMMIT_EXIT_CODE))"
  shows "rs_next s' = None \<and>
    ((\<exists>before now l after. w_wait_polls w = before @ (now, l) # after \<and> w_wait_start w + from_secs 5 \<le> now \<and>
        no_newer (case w_link_gen w of Some g \<Rightarrow> g | None \<Rightarrow> 0) (before @ [(now, l)])) \<or>
     d = 0 \<and> (\<exists>ad \<in> set (w_adoptions w). \<exists>g' > (case w_link_gen w of Some g \<Rightarrow> g | None \<Rightarrow> 0). lost_after g' ad))"
proof -
  let ?g = "case w_link_gen w of Some g \<Rightarrow> g | None \<Rightarrow> 0"
  let ?s1 = "s\<lparr>rs_generation := 0, rs_watchdogs := watchdog_record (w_spawn_clock w) role WdSpawn (rs_watchdogs s)\<rparr>"
  let ?s2 = "case pid of None \<Rightarrow> ?s1 | Some p \<Rightarrow> ?s1\<lparr>rs_current_pid := Some p\<rparr>"
  have "after_exit role w ?g (Inr (ExitedCode UPGRADE_COMMIT_EXIT_CODE)) ?s2 = NextRound d s'"
    using assms
    by (cases pid; cases "w_link_gen w")
      (simp_all add: supervise_round_def next_child_def child_pid_def child_wait_def Let_def split: if_splits)
  moreover have "rs_next ?s2 = None"
    using assms(2) by (simp split: option.splits)
  ultimately show ?thesis
    using after_commit [of role w ?g ?s2 d s'] by simp
qed

text \<open>
  A worker of generation 2 commits; its successor shows up with generation 3, loses its connection at second two and is given
  up at second five: the round ends, without a delay, in a state that spawns afresh.
\<close>

definition committed_round :: round_world where
  "committed_round =
     (let up = worker_link_default\<lparr>last_generation := Some 3, writer := Some 1\<rparr>; gone = worker_link_default
      in \<lparr>w_shutdown = False, w_spawn_clock = (0, None), w_spawn = Inr (Owned (Some 4)), w_link_gen = Some 2,
        w_end = \<lparr>owned_status = Some (Inr (ExitedCode UPGRADE_COMMIT_EXIT_CODE)), adopted_polls = []\<rparr>, w_exit_at = 0,
        w_shutdown_after = False, w_wait_start = 0, w_wait_polls = [(0, gone), (from_secs 1, up)],
        w_adoptions = [((0, None), up, [(from_secs 1, up), (from_secs 2, gone), (from_secs 4, gone), (from_secs 5, gone)])]\<rparr>)"

theorem commit_never_races_successor_witness:
  "\<exists>s'. supervise_round ''plain'' committed_round
      \<lparr>rs_generation = 0, rs_next = None, rs_current_pid = None, rs_watchdogs = watchdogs_init\<rparr> = NextRound 0 s' \<and>
    rs_next s' = None \<and> (\<exists>ad \<in> set (w_adoptions committed_round). \<exists>g' > 2. lost_after g' ad)"
proof -
  let ?s = "\<lparr>rs_generation = 0, rs_next = None, rs_current_pid = None, rs_watchdogs = watchdogs_init\<rparr>"
  have "\<exists>s'. supervise_round ''plain'' committed_round ?s = NextRound 0 s'"
    by (simp add: committed_round_def supervise_round_def next_child_def child_pid_def child_wait_def after_exit_def
        status_code_def wait_for_successor_def monitor_successor_def worker_link_default_def SUCCESSOR_WAIT_TIMEOUT_def
        SUCCESSOR_LOSS_GRACE_def from_secs_def Let_def case_prod_beta)
  then obtain s' where run: "supervise_round ''plain'' committed_round ?s = NextRound 0 s'"
    by blast
  have w: "w_spawn committed_round = Inr (Owned (Some 4))" "w_link_gen committed_round = Some 2"
    "owned_status (w_end committed_round) = Some (Inr (ExitedCode UPGRADE_COMMIT_EXIT_CODE))"
    by (simp_all add: committed_round_def Let_def)
  have early: "\<not> (\<exists>before now l after. w_wait_polls committed_round = before @ (now, l) # after \<and>
      w_wait_start committed_round + from_secs 5 \<le> now \<and> no_newer 2 (before @ [(now, l)]))"
    by (auto simp: committed_round_def Let_def from_secs_def Cons_eq_append_conv append_eq_Cons_conv)
  have "rs_next s' = None \<and> (\<exists>ad \<in> set (w_adoptions committed_round). \<exists>g' > 2. lost_after g' ad)"
    using commit_never_races_successor [OF run _ w(1,3)] early unfolding w(2) option.case by force
  with run show ?thesis by blast
qed

text \<open>
  C34 (liveness). The wait for a successor ends once a poll falls on or after its deadline; it
  adopts exactly when some poll in that window saw a generation above the old one, and then takes
  the first such generation.
\<close>

theorem successor_wait_decides:
  assumes "\<exists>p \<in> set polls. start + timeout \<le> fst p"
  shows "wait_for_successor g timeout start polls =
    (if no_newer g (window (start + timeout) polls) then Some SuccTimeout
     else Some (SuccAdopted (the (last_generation (snd (hd
       (filter (\<lambda>p. newer g (snd p)) (window (start + timeout) polls))))))))"
  unfolding wait_for_successor_def using assms by (rule poll_successor_window)

theorem successor_wait_decides_witness:
  "wait_for_successor 3 100 0 [(0, worker_link_default\<lparr>last_generation := Some 3\<rparr>),
     (50, worker_link_default\<lparr>last_generation := Some 4\<rparr>), (100, worker_link_default)] =
   Some (SuccAdopted 4)"
  using successor_wait_decides [of "[(0, worker_link_default\<lparr>last_generation := Some 3\<rparr>),
     (50, worker_link_default\<lparr>last_generation := Some 4\<rparr>), (100, worker_link_default)]" 0 100 3]
  by (simp add: window_def no_newer_def newer_def)

text \<open>
  For a worker adopted across a supervisor self-upgrade the exit code is lost:
  when it commits an upgrade of its own and exits with the commit code, the round ends with the
  ordinary backoff, whatever the link shows, and the next round spawns a fresh worker beside the
  successor.
\<close>

theorem adopted_commit_respawns:
  assumes "\<not> w_shutdown w" and "\<not> w_shutdown_after w" and "rs_next s = Some (Adopted p)"
    and "adopted_polls (w_end w) = Inr (Reaped (ExitedCode UPGRADE_COMMIT_EXIT_CODE), k) # rest"
  shows "\<exists>d s'. rs_next s' = None \<and>
    (\<forall>polls ads. supervise_round role (w\<lparr>w_wait_polls := polls, w_adoptions := ads\<rparr>) s = NextRound d s')"
proof -
  have "status_code (from_raw 0) \<noteq> Some UPGRADE_COMMIT_EXIT_CODE"
    by (simp add: from_raw_def status_code_def UPGRADE_COMMIT_EXIT_CODE_def)
  with assms show ?thesis
    by (auto simp: supervise_round_def next_child_def child_wait_def adopted_poll_def after_exit_def Let_def
        split: prod.splits option.splits)
qed

theorem adopted_commit_respawns_witness:
  "\<exists>d s'. rs_next s' = None \<and>
     (\<forall>polls ads. supervise_round ''plain''
       \<lparr>w_shutdown = False, w_spawn_clock = (0, None), w_spawn = Inr (Owned (Some 4)),
        w_link_gen = Some 2,
        w_end = \<lparr>owned_status = None, adopted_polls = [Inr (Reaped (ExitedCode 23), KillOk)]\<rparr>,
        w_exit_at = 0, w_shutdown_after = False, w_wait_start = 0, w_wait_polls = polls,
        w_adoptions = ads\<rparr>
       \<lparr>rs_generation = 2, rs_next = Some (Adopted 77), rs_current_pid = None,
        rs_watchdogs = watchdogs_init\<rparr> = NextRound d s')"
  using adopted_commit_respawns [of "\<lparr>w_shutdown = False, w_spawn_clock = (0, None),
        w_spawn = Inr (Owned (Some 4)), w_link_gen = Some 2,
        w_end = \<lparr>owned_status = None, adopted_polls = [Inr (Reaped (ExitedCode 23), KillOk)]\<rparr>,
        w_exit_at = 0, w_shutdown_after = False, w_wait_start = 0, w_wait_polls = [], w_adoptions = []\<rparr>"
      "\<lparr>rs_generation = 2, rs_next = Some (Adopted 77), rs_current_pid = None,
        rs_watchdogs = watchdogs_init\<rparr>" 77 KillOk "[]" "''plain''"]
  by (simp add: UPGRADE_COMMIT_EXIT_CODE_def)

end
