(* ===== verification/Metrics.thy ===== *)
theory Metrics
  imports Role_Supervisor
begin

text \<open>
  Model of \<^verbatim>\<open>src/metrics.rs\<close> and \<^verbatim>\<open>src/supervisor/metrics.rs\<close>: the upgrade counters, the snapshot,
  its rendering as a Prometheus text file and the write to a sibling file that is renamed into
  place. A counter map is an association list over the four roles, in the order it iterates in.
  The file system is a map from paths to contents.
\<close>

section \<open>Upgrade counters\<close>

record upgrade_counters =
  committed :: "(string \<times> u64) list"
  timed_out :: "(string \<times> u64) list"
  canary_aborted :: "(string \<times> u64) list"
  skipped :: "(string \<times> u64) list"

definition zero_map :: "(string \<times> u64) list" where
  "zero_map = map (\<lambda>r. (r, 0)) [''processor'', ''plain'', ''tls'', ''scanner'']"

definition upgrade_counters_new :: upgrade_counters where
  "upgrade_counters_new =
     \<lparr>committed = zero_map, timed_out = zero_map, canary_aborted = zero_map, skipped = zero_map\<rparr>"

text \<open>\<^verbatim>\<open>fetch_add\<close> on the counter of a role, if the role has one.\<close>

definition bump :: "string \<Rightarrow> (string \<times> u64) list \<Rightarrow> (string \<times> u64) list" where
  "bump role m = map (\<lambda>(r, c). (r, if r = role then c + 1 else c)) m"

definition incr_committed :: "string \<Rightarrow> upgrade_counters \<Rightarrow> upgrade_counters" where
  "incr_committed role c = c\<lparr>committed := bump role (committed c)\<rparr>"
definition incr_timed_out :: "string \<Rightarrow> upgrade_counters \<Rightarrow> upgrade_counters" where
  "incr_timed_out role c = c\<lparr>timed_out := bump role (timed_out c)\<rparr>"
definition incr_canary_aborted :: "string \<Rightarrow> upgrade_counters \<Rightarrow> upgrade_counters" where
  "incr_canary_aborted role c = c\<lparr>canary_aborted := bump role (canary_aborted c)\<rparr>"
definition incr_skipped :: "string \<Rightarrow> upgrade_counters \<Rightarrow> upgrade_counters" where
  "incr_skipped role c = c\<lparr>skipped := bump role (skipped c)\<rparr>"

record upgrade_metric =
  um_role :: string
  um_outcome :: string
  um_value :: u64

definition counters_snapshot :: "upgrade_counters \<Rightarrow> upgrade_metric list" where
  "counters_snapshot c =
     concat (map (\<lambda>(m, outcome). map (\<lambda>(r, v). \<lparr>um_role = r, um_outcome = outcome, um_value = v\<rparr>) m)
       [(committed c, ''committed''), (timed_out c, ''timed_out''),
        (canary_aborted c, ''canary_aborted''), (skipped c, ''skipped'')])"

section \<open>Snapshot\<close>

record role_metrics =
  rm_role :: string
  rm_generation :: u64
  rm_in_flight :: u64
  rm_pid :: u32
  rm_health :: health_state
  rm_consecutive_fast_exits :: u32
  rm_total_restarts :: u64
  rm_last_restart_at_unix_ms :: "u64 option"
  rm_rate_limiter_stats :: "rate_limiter_stats option"

record metrics_snapshot =
  supervisor_generation :: u64
  supervisor_started_at_unix_ms :: u64
  roles :: "role_metrics list"
  upgrades :: "upgrade_metric list"

definition map_or :: "'b \<Rightarrow> ('a \<Rightarrow> 'b) \<Rightarrow> 'a option \<Rightarrow> 'b" where
  "map_or d f x = (case x of None \<Rightarrow> d | Some y \<Rightarrow> f y)"

definition role_metrics_of :: "worker_status list \<Rightarrow> role_health \<Rightarrow> role_metrics" where
  "role_metrics_of statuses h =
     (let status = find (\<lambda>s. ws_role s = rh_role h) statuses in \<lparr>
        rm_role = rh_role h,
        rm_generation = map_or 0 ws_generation status,
        rm_in_flight = map_or 0 ws_in_flight status,
        rm_pid = map_or 0 ws_pid status,
        rm_health = rh_state h,
        rm_consecutive_fast_exits = rh_consecutive_fast_exits h,
        rm_total_restarts = rh_total_restarts h,
        rm_last_restart_at_unix_ms = rh_last_restart_at_unix_ms h,
        rm_rate_limiter_stats = Option.bind status ws_rate_limiter_stats\<rparr>)"

definition from_parts ::
  "u64 \<Rightarrow> u64 \<Rightarrow> worker_status list \<Rightarrow> role_health list \<Rightarrow> upgrade_counters \<Rightarrow> metrics_snapshot" where
  "from_parts g started statuses healths counters = \<lparr>
     supervisor_generation = g,
     supervisor_started_at_unix_ms = started,
     roles = map (role_metrics_of statuses) healths,
     upgrades = counters_snapshot counters\<rparr>"

section \<open>Rendering\<close>

definition unix_ms_as_seconds :: "u64 \<Rightarrow> string" where
  "unix_ms_as_seconds ms = dec (unat ms div 1000) @ ''.'' @ zero_pad 3 (dec (unat ms mod 1000))"

definition metric_header :: "string \<Rightarrow> string \<Rightarrow> string \<Rightarrow> string list" where
  "metric_header name help kind = [''# HELP '' @ name @ '' '' @ help, ''# TYPE '' @ name @ '' '' @ kind]"

definition label :: "string \<Rightarrow> string \<Rightarrow> string" where
  "label k v = k @ ''='' @ [CHR 0x22] @ v @ [CHR 0x22]"

definition role_line :: "string \<Rightarrow> string \<Rightarrow> string \<Rightarrow> string" where
  "role_line name role v = name @ ''{'' @ label ''role'' role @ ''} '' @ v"

definition supervisor_lines :: "metrics_snapshot \<Rightarrow> string list" where
  "supervisor_lines m =
     metric_header ''fdpass_supervisor_generation'' ''Current supervisor generation.'' ''gauge'' @
     [''fdpass_supervisor_generation '' @ dec (unat (supervisor_generation m))] @
     metric_header ''fdpass_supervisor_started_at_seconds''
       ''Unix epoch when this supervisor started.'' ''gauge'' @
     [''fdpass_supervisor_started_at_seconds '' @ unix_ms_as_seconds (supervisor_started_at_unix_ms m)]"

definition worker_identity_lines :: "metrics_snapshot \<Rightarrow> string list" where
  "worker_identity_lines m =
     metric_header ''fdpass_worker_generation'' ''Current generation of the worker process.'' ''gauge'' @
     map (\<lambda>r. role_line ''fdpass_worker_generation'' (rm_role r) (dec (unat (rm_generation r)))) (roles m) @
     metric_header ''fdpass_worker_in_flight'' ''Currently-tracked sessions for the worker.'' ''gauge'' @
     map (\<lambda>r. role_line ''fdpass_worker_in_flight'' (rm_role r) (dec (unat (rm_in_flight r)))) (roles m) @
     metric_header ''fdpass_worker_pid'' ''Current worker pid (0 if no live worker).'' ''gauge'' @
     map (\<lambda>r. role_line ''fdpass_worker_pid'' (rm_role r) (dec (unat (rm_pid r)))) (roles m)"

definition health_gauge :: "health_state \<Rightarrow> nat" where
  "health_gauge h = (case h of Healthy \<Rightarrow> 0 | Backoff \<Rightarrow> 1 | Flapping \<Rightarrow> 2 | Failed \<Rightarrow> 3)"

definition worker_health_lines :: "metrics_snapshot \<Rightarrow> string list" where
  "worker_health_lines m =
     metric_header ''fdpass_worker_health'' ''Watchdog state (0=healthy 1=backoff 2=flapping 3=failed).'' ''gauge'' @
     map (\<lambda>r. role_line ''fdpass_worker_health'' (rm_role r) (dec (health_gauge (rm_health r)))) (roles m) @
     metric_header ''fdpass_worker_consecutive_fast_exits'' ''Current fast-exit counter.'' ''gauge'' @
     map (\<lambda>r. role_line ''fdpass_worker_consecutive_fast_exits'' (rm_role r)
            (dec (unat (rm_consecutive_fast_exits r)))) (roles m)"

definition worker_restart_lines :: "metrics_snapshot \<Rightarrow> string list" where
  "worker_restart_lines m =
     metric_header ''fdpass_worker_restarts_total'' ''Total times the watchdog respawned the worker.'' ''counter'' @
     map (\<lambda>r. role_line ''fdpass_worker_restarts_total'' (rm_role r) (dec (unat (rm_total_restarts r)))) (roles m) @
     metric_header ''fdpass_worker_last_restart_seconds''
       ''Unix epoch of the most recent respawn (0 if never).'' ''gauge'' @
     map (\<lambda>r. role_line ''fdpass_worker_last_restart_seconds'' (rm_role r)
            (map_or ''0'' unix_ms_as_seconds (rm_last_restart_at_unix_ms r))) (roles m)"

definition upgrade_lines :: "metrics_snapshot \<Rightarrow> string list" where
  "upgrade_lines m =
     metric_header ''fdpass_upgrade_total''
       ''Per-role upgrade outcomes (committed/timed_out/canary_aborted/skipped).'' ''counter'' @
     map (\<lambda>u. ''fdpass_upgrade_total{'' @ label ''role'' (um_role u) @ '','' @
            label ''outcome'' (um_outcome u) @ ''} '' @ dec (unat (um_value u))) (upgrades m)"

definition eviction_lines :: "string \<Rightarrow> rate_limiter_stats \<Rightarrow> string list" where
  "eviction_lines role st =
     map (\<lambda>(reason, count). ''fdpass_ratelimit_evictions_total{'' @ label ''role'' role @ '','' @
            label ''reason'' reason @ ''} '' @ dec (unat count))
       [(''idle'', rls_idle_evictions st), (''lru'', rls_lru_evictions st),
        (''cap_refused'', rls_cap_refused st)]"

definition rate_limiter_lines :: "metrics_snapshot \<Rightarrow> string list" where
  "rate_limiter_lines m =
     metric_header ''fdpass_ratelimit_tracked_ips''
       ''Current number of tracked IPs in per-IP rate limiter.'' ''gauge'' @
     concat (map (\<lambda>r. map_or [] (\<lambda>st. [role_line ''fdpass_ratelimit_tracked_ips'' (rm_role r)
              (dec (tracked_ips st))]) (rm_rate_limiter_stats r)) (roles m)) @
     metric_header ''fdpass_ratelimit_evictions_total''
       ''Total rate limiter bucket evictions by reason.'' ''counter'' @
     concat (map (\<lambda>r. map_or [] (eviction_lines (rm_role r)) (rm_rate_limiter_stats r)) (roles m))"

definition render_lines :: "metrics_snapshot \<Rightarrow> string list" where
  "render_lines m = supervisor_lines m @ worker_identity_lines m @ worker_health_lines m @
     worker_restart_lines m @ upgrade_lines m @ rate_limiter_lines m"

definition unlines :: "string list \<Rightarrow> string" where
  "unlines ls = concat (map (\<lambda>l. l @ [nl]) ls)"

definition render_metrics :: "metrics_snapshot \<Rightarrow> string" where
  "render_metrics m = unlines (render_lines m)"

section \<open>Writing the text file\<close>

type_synonym files = "string \<rightharpoonup> string"

definition path_dir :: "string \<Rightarrow> string" where
  "path_dir p = rev (dropWhile (\<lambda>c. c \<noteq> CHR ''/'') (rev p))"

definition path_file_name :: "string \<Rightarrow> string" where
  "path_file_name p = rev (takeWhile (\<lambda>c. c \<noteq> CHR ''/'') (rev p))"

definition tmp_path :: "string \<Rightarrow> string" where
  "tmp_path p = path_dir p @ path_file_name p @ ''.tmp''"

text \<open>
  What the system calls come to: the directory creation, the file creation, how many bytes of the
  text get written before a failure (\<^verbatim>\<open>None\<close> when all do), the rename.
\<close>

record fs_outcomes =
  fs_mkdir :: "unit result"
  fs_create :: "unit result"
  fs_written :: "(nat \<times> error) option"
  fs_rename :: "unit result"

text \<open>
  The result and the states of the file system after each effect, oldest first, so that an
  observer at any moment is one of them.
\<close>

definition write_textfile ::
  "injected_fault option \<Rightarrow> fs_outcomes \<Rightarrow> string \<Rightarrow> metrics_snapshot \<Rightarrow> files \<Rightarrow> unit result \<times> files list" where
  "write_textfile fault o' path m fs =
     (case fault of
        Some f \<Rightarrow> (Inl (''synthetic metrics write failure'' # into_anyhow f), [fs])
      | None \<Rightarrow>
          (case (if path_dir path \<noteq> [] then with_context (''create metrics dir '' @ path_dir path) (fs_mkdir o')
                 else Inr ()) of
             Inl e \<Rightarrow> (Inl e, [fs])
           | Inr _ \<Rightarrow>
              (let tmp = tmp_path path; text = render_metrics m in
               case with_context (''create '' @ tmp) (fs_create o') of
                 Inl e \<Rightarrow> (Inl e, [fs])
               | Inr _ \<Rightarrow>
                   let created = fs(tmp \<mapsto> []) in
                   case fs_written o' of
                     Some (n, e) \<Rightarrow>
                       (Inl ((''write '' @ tmp) # e), [fs, created, created(tmp \<mapsto> take n text)])
                   | None \<Rightarrow>
                       let written = created(tmp \<mapsto> text) in
                       case with_context (''rename '' @ tmp @ '' -> '' @ path) (fs_rename o') of
                         Inl e \<Rightarrow> (Inl e, [fs, created, written])
                       | Inr _ \<Rightarrow> (Inr (), [fs, created, written, written(path \<mapsto> text, tmp := None)]))))"

text \<open>
  One tick of the supervisor's metrics task: the snapshot of the watchdogs and the answers of the
  four links, in this order, some of which may be missing.
\<close>

definition metrics_tick ::
  "u64 \<Rightarrow> u64 \<Rightarrow> instant \<Rightarrow> watchdogs \<Rightarrow> worker_status option list \<Rightarrow> upgrade_counters \<Rightarrow> metrics_snapshot" where
  "metrics_tick g started now wd replies counters =
     from_parts g started (concat (map (\<lambda>a. map_or [] (\<lambda>s. [s]) a) replies)) (watchdogs_snapshot now wd) counters"

section \<open>Lemmas\<close>

lemma path_split: "path_dir p @ path_file_name p = p"
  by (simp add: path_dir_def path_file_name_def flip: rev_append)

lemma tmp_path_neq: "tmp_path p \<noteq> p"
proof
  assume "tmp_path p = p"
  then have "length (tmp_path p) = length (path_dir p @ path_file_name p)"
    by (simp only: path_split)
  then show False by (simp add: tmp_path_def)
qed

lemma bump_other [simp]: "r \<noteq> role \<Longrightarrow> map_of (bump role m) r = map_of m r"
  by (induction m) (auto simp: bump_def)

lemma bump_same [simp]: "map_of (bump role m) role = map_option (\<lambda>c. c + 1) (map_of m role)"
  by (induction m) (auto simp: bump_def)

section \<open>Properties\<close>

text \<open>
  Whatever fails while a snapshot is written, at every moment the metrics path
  holds either what it held before or the complete rendering, never a part of it; other files but
  the sibling are untouched; and a reported success leaves the complete rendering in place.
\<close>

theorem metrics_textfile_atomic:
  "case write_textfile fault o' path m fs of (r, states) \<Rightarrow>
     (\<forall>st \<in> set states. (st path = fs path \<or> st path = Some (render_metrics m)) \<and>
        (\<forall>q. q \<noteq> path \<and> q \<noteq> tmp_path path \<longrightarrow> st q = fs q)) \<and>
     (r = Inr () \<longrightarrow> last states path = Some (render_metrics m) \<and> last states (tmp_path path) = None)"
  using tmp_path_neq [of path]
  by (auto simp: write_textfile_def Let_def split: option.splits sum.splits prod.splits)

theorem metrics_textfile_atomic_witness:
  "last (snd (write_textfile None
       \<lparr>fs_mkdir = Inr (), fs_create = Inr (), fs_written = None, fs_rename = Inr ()\<rparr> ''e.prom''
       \<lparr>supervisor_generation = 1, supervisor_started_at_unix_ms = 1500, roles = [], upgrades = []\<rparr>
       (\<lambda>_. None))) ''e.prom'' =
   Some (render_metrics \<lparr>supervisor_generation = 1, supervisor_started_at_unix_ms = 1500, roles = [],
     upgrades = []\<rparr>)"
proof -
  let ?m = "\<lparr>supervisor_generation = 1, supervisor_started_at_unix_ms = 1500, roles = [], upgrades = []\<rparr>"
  let ?w = "write_textfile None \<lparr>fs_mkdir = Inr (), fs_create = Inr (), fs_written = None,
      fs_rename = Inr ()\<rparr> ''e.prom'' ?m (\<lambda>_. None)"
  have "fst ?w = Inr ()" by (simp add: write_textfile_def Let_def)
  with metrics_textfile_atomic [where fault = None and path = "''e.prom''" and m = ?m and fs = "\<lambda>_. None" and
      o' = "\<lparr>fs_mkdir = Inr (), fs_create = Inr (), fs_written = None, fs_rename = Inr ()\<rparr>"] show ?thesis
    by (simp only: case_prod_beta)
qed

end
