(* ===== verification/Health.thy ===== *)
theory Health
  imports Metrics
begin

text \<open>
  Model of \<^verbatim>\<open>src/health.rs\<close>: the bounded reading of a request and the response. The JSON writer of
  the body is a parameter.
\<close>

section \<open>Definitions\<close>

record role_entry =
  re_role :: string
  re_state :: string

record health_response =
  hr_status :: string
  hr_roles :: "role_entry list"

definition state_name :: "health_state \<Rightarrow> string" where
  "state_name s =
     (case s of Healthy \<Rightarrow> ''healthy'' | Backoff \<Rightarrow> ''backoff'' | Flapping \<Rightarrow> ''flapping'' | Failed \<Rightarrow> ''failed'')"

definition health_body :: "role_health list \<Rightarrow> health_response" where
  "health_body snapshot = \<lparr>
     hr_status = (if \<exists>h \<in> set snapshot. rh_state h = Failed then ''degraded'' else ''ok''),
     hr_roles = map (\<lambda>h. \<lparr>re_role = rh_role h, re_state = state_name (rh_state h)\<rparr>) snapshot\<rparr>"

definition crlf :: string where
  "crlf = [cr, nl]"

definition http_response :: "nat \<Rightarrow> string \<Rightarrow> string \<Rightarrow> string" where
  "http_response code reason body =
     ''HTTP/1.1 '' @ dec code @ '' '' @ reason @ crlf @
     ''Content-Type: application/json'' @ crlf @
     ''Content-Length: '' @ dec (length body) @ crlf @
     ''Connection: close'' @ crlf @ crlf @ body"

text \<open>The response to any request; \<^verbatim>\<open>to_json\<close> may fail, in which case the body is an empty object.\<close>

definition health_handle :: "(health_response \<Rightarrow> string result) \<Rightarrow> role_health list \<Rightarrow> string" where
  "health_handle to_json snapshot =
     (let any_failed = (\<exists>h \<in> set snapshot. rh_state h = Failed);
          (code, reason) = (if any_failed then (503, ''Service Unavailable'') else (200, ''OK''));
          body = (case to_json (health_body snapshot) of Inr b \<Rightarrow> b | Inl _ \<Rightarrow> ''{}'')
      in http_response code reason body)"

text \<open>
  \<^verbatim>\<open>drain_headers\<close> over the chunks the socket delivers, each cut to the room left in the buffer of
  4096 bytes. The result is the bytes buffered when it stops; \<^verbatim>\<open>None\<close> while it still reads.
\<close>

definition BUF_LEN :: nat where
  "BUF_LEN = 4096"

definition header_end :: "string \<Rightarrow> bool" where
  "header_end buf \<longleftrightarrow> (\<exists>i \<in> set [0..<length buf]. take 4 (drop i buf) = crlf @ crlf)"

fun drain_headers :: "string \<Rightarrow> string result list \<Rightarrow> string result option" where
  "drain_headers buf [] = None"
| "drain_headers buf (Inl e # rest) = Some (Inl e)"
| "drain_headers buf (Inr chunk # rest) =
     (let got = take (BUF_LEN - length buf) chunk; buf' = buf @ got in
      if got = [] then Some (Inr buf)
      else if header_end buf' then Some (Inr buf')
      else if length buf' = BUF_LEN then Some (Inr buf')
      else drain_headers buf' rest)"

definition run_health_server :: "injected_fault option \<Rightarrow> string \<Rightarrow> unit result \<Rightarrow> unit result" where
  "run_health_server fault addr bind =
     (case fault of
        Some f \<Rightarrow> Inl (''synthetic health bind failure'' # into_anyhow f)
      | None \<Rightarrow> with_context (''bind health endpoint '' @ addr) bind)"

section \<open>Lemmas\<close>

lemma drain_bounded:
  "length buf \<le> BUF_LEN \<Longrightarrow> drain_headers buf chunks = Some (Inr out) \<Longrightarrow> length out \<le> BUF_LEN"
  by (induction buf chunks rule: drain_headers.induct)
    (auto simp: Let_def min_def split: if_splits)

lemma drain_ends:
  assumes "length buf \<le> BUF_LEN" and "BUF_LEN - length buf < length chunks"
  shows "drain_headers buf chunks \<noteq> None"
  using assms
proof (induction buf chunks rule: drain_headers.induct)
  case (3 buf chunk rest)
  let ?got = "take (BUF_LEN - length buf) chunk"
  show ?case
  proof (cases "?got = [] \<or> header_end (buf @ ?got) \<or> length (buf @ ?got) = BUF_LEN")
    case True
    then show ?thesis by (auto simp: Let_def)
  next
    case False
    have len: "length (buf @ ?got) \<le> BUF_LEN" using "3.prems"(1) by simp
    from False have "0 < length ?got" by blast
    with "3.prems" len have "BUF_LEN - length (buf @ ?got) < length rest"
      by (simp only: length_append length_Cons)
    with "3.IH" [OF refl refl] False len have "drain_headers (buf @ ?got) rest \<noteq> None" by blast
    with False show ?thesis by (simp add: Let_def)
  qed
qed simp_all

lemma failed_streak:
  "wd_health_state now s = Failed \<longleftrightarrow> is_failed s"
  by (simp add: wd_health_state_def is_failed_def)

lemma snapshot_failed:
  "(\<exists>h \<in> set (watchdogs_snapshot now w). rh_state h = Failed) \<longleftrightarrow>
     (\<exists>r \<in> set WATCHDOG_ROLES. \<exists>s. map_of w r = Some s \<and> is_failed s)"
  by (auto simp: watchdogs_snapshot_def wd_snapshot_def failed_streak watchdog_new_def
      watchdog_default_def is_failed_def WATCHDOG_FAIL_THRESHOLD_def split: option.splits)

section \<open>Properties\<close>

text \<open>
  The health endpoint answers 503 exactly when the watchdog of one of the four
  roles has counted five fast exits in a row, 200 otherwise, and its \<^verbatim>\<open>Content-Length\<close> is that of
  the body it sends.
\<close>

theorem healthz_503_iff_failed_role:
  "\<exists>body. health_handle to_json (watchdogs_snapshot now w) =
     (if \<exists>r \<in> set WATCHDOG_ROLES. \<exists>s. map_of w r = Some s \<and> 5 \<le> consecutive_fast_exits s
      then http_response 503 ''Service Unavailable'' body else http_response 200 ''OK'' body) \<and>
     (body = ''{}'' \<or> to_json (health_body (watchdogs_snapshot now w)) = Inr body)"
  using snapshot_failed [of now w]
  by (auto simp: health_handle_def Let_def is_failed_def WATCHDOG_FAIL_THRESHOLD_def split: sum.splits)

theorem healthz_503_iff_failed_role_witness:
  "health_handle (\<lambda>_. Inl []) (watchdogs_snapshot 0 watchdogs_init) = http_response 200 ''OK'' ''{}''"
proof -
  have "\<not> (\<exists>r \<in> set WATCHDOG_ROLES. \<exists>s. map_of watchdogs_init r = Some s \<and> 5 \<le> consecutive_fast_exits s)"
    by (auto simp: watchdogs_init_entry watchdog_new_def watchdog_default_def)
  with healthz_503_iff_failed_role [of "\<lambda>_. Inl []" 0 watchdogs_init] show ?thesis by auto
qed

text \<open>
  C38 (termination). Reading a request ends by itself: however the bytes arrive, after at most
  4097 reads the header was complete, the peer had closed, a read failed, or the buffer of 4096 bytes
  was full, and never more than 4096 bytes are held.
\<close>

theorem drain_headers_ends:
  assumes "4096 < length chunks"
  shows "\<exists>r. drain_headers [] chunks = Some r \<and> (\<forall>buf. r = Inr buf \<longrightarrow> length buf \<le> 4096)"
proof -
  have "drain_headers [] chunks \<noteq> None" using assms by (intro drain_ends) (simp_all add: BUF_LEN_def)
  with drain_bounded [of "[]" chunks] show ?thesis by (fastforce simp: BUF_LEN_def)
qed

theorem drain_headers_ends_witness:
  "\<exists>r. drain_headers [] (replicate 5000 (Inr ''GET'')) = Some r \<and> (\<forall>buf. r = Inr buf \<longrightarrow> length buf \<le> 4096)"
  by (rule drain_headers_ends) simp

end
