(* ===== verification/Rolling_Upgrade.thy ===== *)
theory Rolling_Upgrade
  imports Health "HOL-Library.Sublist"
begin

text \<open>
  Model of \<^verbatim>\<open>src/supervisor/admin.rs\<close>: the rolling upgrade over the roles with its canary, and the
  dispatch of admin requests. What the supervisor observes while it upgrades one role is a record;
  a polling loop consumes a list of observations. The frames streamed to the admin connection, the
  messages sent to workers and the counters are results.
\<close>

section \<open>One role\<close>

record upgrade_world =
  uw_baseline :: health_state
  uw_pre :: "worker_status option"
  uw_start :: instant
  uw_polls :: "(instant \<times> worker_status option) list"
  uw_canary_start :: instant
  uw_canary :: "(instant \<times> health_state) list"

datatype walk_effect = Notify admin_resp | SendUpgrade string "string option"

text \<open>The result of a stage: \<^verbatim>\<open>None\<close> while it still polls, the effects so far, the counters.\<close>

type_synonym stage = "bool option \<times> walk_effect list \<times> upgrade_counters"

fun upgrade_poll ::
  "string \<Rightarrow> u64 \<Rightarrow> instant \<Rightarrow> upgrade_counters \<Rightarrow> (instant \<times> worker_status option) list \<Rightarrow> stage" where
  "upgrade_poll role pre_gen deadline c [] = (None, [], c)"
| "upgrade_poll role pre_gen deadline c ((now, answer) # rest) =
     (if deadline < now
      then (Some False,
            [Notify (UpgradeStep role Timeout (Some pre_gen) None False
               (Some ''worker did not reconnect with a new generation''))],
            incr_timed_out role c)
      else case answer of
             Some st \<Rightarrow>
               if pre_gen < ws_generation st
               then (Some True,
                     [Notify (UpgradeStep role Done (Some pre_gen) (Some (ws_generation st)) True None)],
                     incr_committed role c)
               else upgrade_poll role pre_gen deadline c rest
           | None \<Rightarrow> upgrade_poll role pre_gen deadline c rest)"

definition upgrade_one ::
  "string \<Rightarrow> string option \<Rightarrow> upgrade_world \<Rightarrow> upgrade_counters \<Rightarrow> stage" where
  "upgrade_one role path w c =
     (let poll_secs = (if role = ''tls'' then 10 else 5) in
      case uw_pre w of
        None \<Rightarrow>
          (Some False,
           [Notify (UpgradeStep role Skipped None None False (Some ''no control connection''))],
           incr_skipped role c)
      | Some pre \<Rightarrow>
          (case upgrade_poll role (ws_generation pre) (uw_start w + from_secs poll_secs) c (uw_polls w) of
             (r, effects, c') \<Rightarrow>
               (r, [Notify (UpgradeStep role Starting (Some (ws_generation pre)) None True None),
                    SendUpgrade role path] @ effects, c')))"

section \<open>The canary\<close>

definition health_state_rank :: "health_state \<Rightarrow> nat" where
  "health_state_rank s = (case s of Healthy \<Rightarrow> 0 | Backoff \<Rightarrow> 1 | Flapping \<Rightarrow> 2 | Failed \<Rightarrow> 3)"

definition state_debug :: "health_state \<Rightarrow> string" where
  "state_debug s =
     (case s of Healthy \<Rightarrow> ''Healthy'' | Backoff \<Rightarrow> ''Backoff'' | Flapping \<Rightarrow> ''Flapping'' | Failed \<Rightarrow> ''Failed'')"

text \<open>
  One observation is the time the loop condition reads and the state found after the sleep that
  follows it.
\<close>

fun canary_poll ::
  "string \<Rightarrow> instant \<Rightarrow> health_state \<Rightarrow> upgrade_counters \<Rightarrow> (instant \<times> health_state) list \<Rightarrow> stage" where
  "canary_poll role deadline baseline c [] = (None, [], c)"
| "canary_poll role deadline baseline c ((now, state) # rest) =
     (if \<not> now < deadline then (Some True, [], c)
      else if health_state_rank baseline < health_state_rank state
      then (Some False,
            [Notify (UpgradeStep role CanaryAborted None None False
               (Some (''watchdog state '' @ state_debug state)))],
            incr_canary_aborted role c)
      else canary_poll role deadline baseline c rest)"

definition canary_observe ::
  "string \<Rightarrow> u64 \<Rightarrow> upgrade_world \<Rightarrow> upgrade_counters \<Rightarrow> stage" where
  "canary_observe role secs w c =
     canary_poll role (uw_canary_start w + from_secs (unat secs)) (uw_baseline w) c (uw_canary w)"

section \<open>The walk\<close>

record rolling_request =
  req_binary_path :: "string option"
  req_include_tls :: bool
  req_canary_secs :: "u64 option"
  req_only_role :: "string option"

definition walk_targets :: "rolling_request \<Rightarrow> string list option" where
  "walk_targets req =
     (case req_only_role req of
        None \<Rightarrow> Some ([''processor'', ''plain'', ''scanner''] @ (if req_include_tls req then [''tls''] else []))
      | Some only \<Rightarrow>
          if only \<in> set [''processor'', ''plain'', ''scanner'', ''tls''] then Some [only] else None)"

definition upgrade_role ::
  "rolling_request \<Rightarrow> string \<Rightarrow> upgrade_world \<Rightarrow> upgrade_counters \<Rightarrow> stage" where
  "upgrade_role req role w c =
     (case upgrade_one role (req_binary_path req) w c of
        (Some True, effects, c') \<Rightarrow>
          (case req_canary_secs req of
             None \<Rightarrow> (Some True, effects, c')
           | Some secs \<Rightarrow>
               (case canary_observe role secs w c' of (r, es, c'') \<Rightarrow> (r, effects @ es, c'')))
      | r \<Rightarrow> r)"

fun walk ::
  "rolling_request \<Rightarrow> (string \<Rightarrow> upgrade_world) \<Rightarrow> string list \<Rightarrow> upgrade_counters \<Rightarrow> stage" where
  "walk req world [] c = (Some True, [], c)"
| "walk req world (role # rest) c =
     (case upgrade_role req role (world role) c of
        (Some True, effects, c') \<Rightarrow>
          (case walk req world rest c' of (r, es, c'') \<Rightarrow> (r, effects @ es, c''))
      | r \<Rightarrow> r)"

text \<open>\<^verbatim>\<open>free\<close> is whether the upgrade lock could be taken.\<close>

definition rolling_upgrade ::
  "bool \<Rightarrow> rolling_request \<Rightarrow> (string \<Rightarrow> upgrade_world) \<Rightarrow> upgrade_counters \<Rightarrow> stage" where
  "rolling_upgrade free req world c =
     (if \<not> free then (Some False, [Notify (UpgradeComplete False)], c)
      else case walk_targets req of
        None \<Rightarrow> (Some False, [Notify (UpgradeComplete False)], c)
      | Some targets \<Rightarrow>
          (case walk req world targets c of
             (None, effects, c') \<Rightarrow> (None, effects, c')
           | (Some ok, effects, c') \<Rightarrow> (Some ok, effects @ [Notify (UpgradeComplete ok)], c')))"

section \<open>Admin requests\<close>

record worker_control_links =
  lk_processor :: worker_link
  lk_plain :: worker_link
  lk_tls :: worker_link
  lk_scanner :: worker_link

definition link_at :: "string \<Rightarrow> worker_control_links \<Rightarrow> worker_link" where
  "link_at role l =
     (if role = ''processor'' then lk_processor l else if role = ''plain'' then lk_plain l
      else if role = ''tls'' then lk_tls l else lk_scanner l)"

definition set_link_at :: "string \<Rightarrow> worker_link \<Rightarrow> worker_control_links \<Rightarrow> worker_control_links" where
  "set_link_at role x l =
     (if role = ''processor'' then l\<lparr>lk_processor := x\<rparr> else if role = ''plain'' then l\<lparr>lk_plain := x\<rparr>
      else if role = ''tls'' then l\<lparr>lk_tls := x\<rparr> else l\<lparr>lk_scanner := x\<rparr>)"

text \<open>The roles in the order of the four links, as far as their names tell them apart.\<close>

definition same_link :: "string \<Rightarrow> string \<Rightarrow> bool" where
  "same_link r r' \<longleftrightarrow> (\<forall>n \<in> {''processor'', ''plain'', ''tls''}. r = n \<longleftrightarrow> r' = n)"

text \<open>\<^verbatim>\<open>send_upgrade\<close> takes the connection of every role the walk reaches.\<close>

definition upgrade_taken :: "walk_effect list \<Rightarrow> worker_control_links \<Rightarrow> worker_control_links" where
  "upgrade_taken es l =
     fold (\<lambda>e l. case e of
         SendUpgrade role path \<Rightarrow> set_link_at role (snd (send_upgrade path (link_at role l))) l
       | Notify _ \<Rightarrow> l) es l"

record admin_state =
  as_links :: worker_control_links
  as_watchdogs :: watchdogs
  as_counters :: upgrade_counters
  as_allow :: peer_allowlist
  as_upgrading :: bool

text \<open>What a request needs of the world: the configuration reload and the answers of the links.\<close>

record admin_world =
  aw_config :: "config result"
  aw_euid :: u32
  aw_now :: instant
  aw_replies :: "worker_status option list"
  aw_upgrade :: "string \<Rightarrow> upgrade_world"

datatype admin_effect = AdminSent "u64 \<times> control_msg" | AdminWalk walk_effect | AdminReply admin_resp

definition reload_supervisor_allowlist :: "config result \<Rightarrow> u32 \<Rightarrow> peer_allowlist \<Rightarrow> u32 list result \<times> peer_allowlist" where
  "reload_supervisor_allowlist loaded euid allow =
     (case loaded of
        Inl e \<Rightarrow> (Inl e, allow)
      | Inr cfg \<Rightarrow>
          let configured = allowed_uids (cfg_auth cfg)
          in (Inr configured, allowlist_from_config euid configured))"

definition sent :: "(u64 \<times> control_msg) option \<Rightarrow> admin_effect list" where
  "sent m = (case m of None \<Rightarrow> [] | Some x \<Rightarrow> [AdminSent x])"

definition admin_shutdown :: "u64 \<Rightarrow> worker_control_links \<Rightarrow> admin_effect list \<times> worker_control_links" where
  "admin_shutdown grace l =
     (let (m1, plain) = send_shutdown grace (lk_plain l);
          (m2, tls) = send_shutdown grace (lk_tls l);
          (m3, scanner) = send_shutdown (min grace 500) (lk_scanner l);
          (m4, processor) = send_shutdown (min grace 500) (lk_processor l)
      in (sent m1 @ sent m2 @ sent m3 @ sent m4,
          \<lparr>lk_processor = processor, lk_plain = plain, lk_tls = tls, lk_scanner = scanner\<rparr>))"

definition admin_dispatch ::
  "admin_world \<Rightarrow> control_msg \<Rightarrow> admin_state \<Rightarrow> admin_effect list \<times> admin_state" where
  "admin_dispatch w msg s =
     (case msg of
        Upgrade path tls canary only \<Rightarrow>
          (case rolling_upgrade (\<not> as_upgrading s)
                  \<lparr>req_binary_path = path, req_include_tls = tls, req_canary_secs = canary,
                   req_only_role = only\<rparr> (aw_upgrade w) (as_counters s) of
             (_, effects, c) \<Rightarrow>
               (map AdminWalk effects, s\<lparr>as_counters := c, as_links := upgrade_taken effects (as_links s)\<rparr>))
      | Shutdown grace \<Rightarrow>
          (case admin_shutdown grace (as_links s) of
             (effects, l) \<Rightarrow> (effects @ [AdminReply RespOk], s\<lparr>as_links := l\<rparr>))
      | Status \<Rightarrow>
          ([AdminReply (RespStatus (concat (map (\<lambda>a. map_or [] (\<lambda>x. [x]) a) (aw_replies w)))
              (watchdogs_snapshot (aw_now w) (as_watchdogs s)))], s)
      | Drain \<Rightarrow>
          (sent (send_drain (lk_plain (as_links s))) @ sent (send_drain (lk_tls (as_links s))) @
             [AdminReply RespOk], s)
      | Reload \<Rightarrow>
          (case reload_supervisor_allowlist (aw_config w) (aw_euid w) (as_allow s) of
             (_, allow) \<Rightarrow>
               (sent (send_reload (lk_processor (as_links s))) @ sent (send_reload (lk_plain (as_links s))) @
                sent (send_reload (lk_tls (as_links s))) @ sent (send_reload (lk_scanner (as_links s))) @
                [AdminReply RespOk], s\<lparr>as_allow := allow\<rparr>)))"

text \<open>
  \<^verbatim>\<open>line\<close> is the first line of the connection, \<^verbatim>\<open>None\<close> at its end; the outer result is an error of
  the request, which the accept loop only logs.
\<close>

definition handle_admin_request ::
  "(string \<Rightarrow> control_msg envelope result) \<Rightarrow> injected_fault option \<Rightarrow> admin_world \<Rightarrow>
     string result option \<Rightarrow> admin_state \<Rightarrow> unit result \<times> admin_effect list \<times> admin_state" where
  "handle_admin_request from_str fault w line s =
     (case line of
        None \<Rightarrow> (Inr (), [], s)
      | Some l \<Rightarrow>
          (case with_context ''admin read'' l of
             Inl e \<Rightarrow> (Inl e, [], s)
           | Inr text \<Rightarrow>
               (case with_context (''incompatible admin message: '' @ text) (parse_envelope from_str fault text) of
                  Inl e \<Rightarrow> (Inl e, [], s)
                | Inr msg \<Rightarrow> (Inr (), admin_dispatch w msg s))))"

definition accept_admin ::
  "(string \<Rightarrow> control_msg envelope result) \<Rightarrow> injected_fault option \<Rightarrow> admin_world \<Rightarrow>
     u32 result \<Rightarrow> string result option \<Rightarrow> admin_state \<Rightarrow> admin_effect list \<times> admin_state" where
  "accept_admin from_str fault w peer line s =
     (case check_peer peer (as_allow s) of
        Inl _ \<Rightarrow> ([], s)
      | Inr _ \<Rightarrow> snd (handle_admin_request from_str fault w line s))"

section \<open>Lemmas\<close>

text \<open>The roles an upgrade was sent to, and those reported done with both generations.\<close>

definition upgraded :: "walk_effect list \<Rightarrow> string list" where
  "upgraded es = concat (map (\<lambda>e. case e of SendUpgrade r _ \<Rightarrow> [r] | _ \<Rightarrow> []) es)"

definition done_steps :: "walk_effect list \<Rightarrow> (string \<times> u64 \<times> u64) list" where
  "done_steps es = concat (map (\<lambda>e. case e of
       Notify (UpgradeStep r Done (Some a) (Some b) True _) \<Rightarrow> [(r, a, b)] | _ \<Rightarrow> []) es)"

lemma effects_Nil [simp]: "upgraded [] = []" "done_steps [] = []"
  by (simp_all add: upgraded_def done_steps_def)

lemma effects_append [simp]:
  "upgraded (xs @ ys) = upgraded xs @ upgraded ys" "done_steps (xs @ ys) = done_steps xs @ done_steps ys"
  by (simp_all add: upgraded_def done_steps_def)

lemma link_at_set: "link_at r (set_link_at role x l) = (if same_link role r then x else link_at r l)"
  by (auto simp: link_at_def set_link_at_def same_link_def)

lemma link_at_same: "same_link r role \<Longrightarrow> link_at r l = link_at role l"
  by (auto simp: link_at_def same_link_def)

lemma upgrade_taken_link:
  "link_at role (upgrade_taken es l) =
     (if \<exists>r \<in> set (upgraded es). same_link r role then (link_at role l)\<lparr>pending_status := None, writer := None\<rparr> else link_at role l)"
proof (induction es arbitrary: l)
  case (Cons e es)
  then show ?case
    by (cases e) (auto simp: upgrade_taken_def upgraded_def link_at_set send_upgrade_def take_writer_def link_at_same)
qed (simp add: upgrade_taken_def)

lemma upgrade_poll_shape:
  "upgrade_poll role g d c polls = (r, es, c') \<Longrightarrow>
     upgraded es = [] \<and>
     (case r of
        None \<Rightarrow> es = [] \<and> c' = c
      | Some True \<Rightarrow> \<exists>b. g < b \<and> done_steps es = [(role, g, b)] \<and> c' = incr_committed role c
      | Some False \<Rightarrow> done_steps es = [] \<and> c' = incr_timed_out role c)"
proof (induction role g d c polls rule: upgrade_poll.induct)
  case (2 role g d c now answer rest)
  show ?case
  proof (cases "d < now")
    case True
    with "2.prems" show ?thesis by (auto simp: upgraded_def done_steps_def)
  next
    case False
    note IH = "2.IH"
    show ?thesis
    proof (cases answer)
      case None
      with "2.prems" False IH(1) [OF False None] show ?thesis by simp
    next
      case (Some st)
      show ?thesis
      proof (cases "g < ws_generation st")
        case True
        with "2.prems" False Some show ?thesis by (auto simp: upgraded_def done_steps_def)
      next
        case older: False
        with "2.prems" False Some IH(2) [OF False Some older] show ?thesis by simp
      qed
    qed
  qed
qed auto

text \<open>
  What one role contributes: at most one send, a done step exactly on success, and exactly one of
  the three outcome counters of the role on every decided attempt.
\<close>

lemma upgrade_one_shape:
  assumes "upgrade_one role path w c = (r, es, c')"
  shows "(upgraded es = [] \<and> r = Some False \<or> upgraded es = [role]) \<and>
    (r = Some True \<longrightarrow> upgraded es = [role] \<and> (\<exists>a b. a < b \<and> done_steps es = [(role, a, b)]) \<and>
       c' = incr_committed role c) \<and>
    (r = Some False \<longrightarrow> done_steps es = [] \<and> (c' = incr_timed_out role c \<or> c' = incr_skipped role c))"
proof (cases "uw_pre w")
  case None
  with assms show ?thesis by (auto simp: upgrade_one_def Let_def upgraded_def done_steps_def)
next
  case (Some pre)
  obtain r1 es1 c1 where poll: "upgrade_poll role (ws_generation pre)
      (uw_start w + from_secs (if role = ''tls'' then 10 else 5)) c (uw_polls w) = (r1, es1, c1)"
    using prod_cases3 by blast
  with assms Some have eq: "r = r1" "c' = c1"
    "es = [Notify (UpgradeStep role Starting (Some (ws_generation pre)) None True None), SendUpgrade role path] @ es1"
    by (auto simp: upgrade_one_def Let_def)
  have pre: "upgraded [Notify (UpgradeStep role Starting (Some (ws_generation pre)) None True None), SendUpgrade role path] = [role]"
    "done_steps [Notify (UpgradeStep role Starting (Some (ws_generation pre)) None True None), SendUpgrade role path] = []"
    by (simp_all add: upgraded_def done_steps_def)
  from upgrade_poll_shape [OF poll] eq show ?thesis
    by (auto simp: pre simp del: append_Cons split: option.splits bool.splits)
qed

lemma canary_poll_shape:
  "canary_poll role d base c polls = (r, es, c') \<Longrightarrow>
     upgraded es = [] \<and> done_steps es = [] \<and>
     (r = Some False \<longrightarrow> (\<exists>(now, st) \<in> set polls. now < d \<and> health_state_rank base < health_state_rank st))"
  by (induction role d base c polls rule: canary_poll.induct)
    (auto simp: upgraded_def done_steps_def split: if_splits)

lemma upgrade_role_shape:
  assumes "upgrade_role req role w c = (r, es, c')"
  shows "(upgraded es = [] \<and> r = Some False \<or> upgraded es = [role]) \<and>
    (r = Some True \<longrightarrow> upgraded es = [role] \<and> (\<exists>a b. a < b \<and> done_steps es = [(role, a, b)]))"
proof -
  obtain r1 es1 c1 where one: "upgrade_one role (req_binary_path req) w c = (r1, es1, c1)"
    using prod_cases3 by blast
  note shape = upgrade_one_shape [OF one]
  show ?thesis
  proof (cases "r1 = Some True \<and> req_canary_secs req \<noteq> None")
    case True
    then obtain secs where secs: "req_canary_secs req = Some secs" by blast
    obtain r2 es2 c2 where "canary_observe role secs w c1 = (r2, es2, c2)" using prod_cases3 by blast
    with canary_poll_shape [of role _ _ c1 _ r2 es2 c2] have "upgraded es2 = []" "done_steps es2 = []"
      "upgrade_role req role w c = (r2, es1 @ es2, c2)"
      using True one secs by (auto simp: canary_observe_def upgrade_role_def)
    with assms shape True show ?thesis by auto
  next
    case False
    then have "upgrade_role req role w c = (r1, es1, c1)"
      using one by (cases r1) (auto simp: upgrade_role_def split: bool.splits option.splits)
    with assms shape show ?thesis by auto
  qed
qed

text \<open>A walk reaches an initial part of its targets; it succeeds exactly by finishing them all.\<close>

lemma walk_shape:
  assumes "walk req world targets c = (r, es, c')"
  shows "prefix (upgraded es) targets \<and>
    (r = Some True \<longrightarrow> upgraded es = targets \<and> map fst (done_steps es) = targets \<and>
       (\<forall>(role, a, b) \<in> set (done_steps es). a < b))"
  using assms
proof (induction targets arbitrary: c r es c')
  case Nil
  then show ?case by (simp add: upgraded_def done_steps_def)
next
  case (Cons role rest)
  obtain r1 es1 c1 where one: "upgrade_role req role (world role) c = (r1, es1, c1)"
    using prod_cases3 by blast
  note shape = upgrade_role_shape [OF one]
  show ?case
  proof (cases "r1 = Some True")
    case True
    obtain r2 es2 c2 where more: "walk req world rest c1 = (r2, es2, c2)" using prod_cases3 by blast
    with Cons.prems one True have "r = r2" "es = es1 @ es2" by auto
    with Cons.IH [OF more] shape True show ?thesis by auto
  next
    case False
    with Cons.prems one have "r = r1" "es = es1" by (auto split: option.splits bool.splits)
    with shape False show ?thesis by (auto simp: prefix_def)
  qed
qed

section \<open>Properties\<close>

text \<open>
  C11 (functional). A rolling upgrade sends the upgrade to an initial part of its targets, in the
  order processor, plain, scanner and, on request, tls (or to the one role it was restricted to); it
  ends its report with the overall verdict; and the verdict is good only if every target was sent
  the upgrade and came back with a strictly higher generation.
\<close>

theorem rolling_upgrade_ordered:
  assumes "rolling_upgrade free req world c = (Some ok, es, c')"
  shows "last es = Notify (UpgradeComplete ok) \<and>
    prefix (upgraded es) (case req_only_role req of
        None \<Rightarrow> [''processor'', ''plain'', ''scanner''] @ (if req_include_tls req then [''tls''] else [])
      | Some only \<Rightarrow> [only]) \<and>
    (ok \<longrightarrow> free \<and> walk_targets req = Some (upgraded es) \<and> map fst (done_steps es) = upgraded es \<and>
       (\<forall>(role, before, after) \<in> set (done_steps es). before < after))"
proof (cases "free \<and> walk_targets req \<noteq> None")
  case False
  with assms have "es = [Notify (UpgradeComplete False)]" "\<not> ok"
    by (auto simp: rolling_upgrade_def split: if_splits)
  then show ?thesis by (simp add: upgraded_def)
next
  case True
  then obtain targets where t: "walk_targets req = Some targets" by blast
  obtain r1 es1 c1 where w: "walk req world targets c = (r1, es1, c1)" using prod_cases3 by blast
  have fin: "upgraded [Notify (UpgradeComplete ok)] = []" "done_steps [Notify (UpgradeComplete ok)] = []"
    by (simp_all add: upgraded_def done_steps_def)
  from assms True t w have "r1 = Some ok" "es = es1 @ [Notify (UpgradeComplete ok)]"
    by (auto simp: rolling_upgrade_def split: option.splits)
  with walk_shape [OF w] True t fin show ?thesis
    by (auto simp: walk_targets_def split: option.splits if_splits)
qed

text \<open>Processor and plain come back at generation 4; the scanner has no connection and is skipped, which ends the walk.\<close>

definition two_of_three :: "string \<Rightarrow> upgrade_world" where
  "two_of_three role =
     (let st = \<lparr>ws_role = role, ws_pid = 7, ws_generation = 3, ws_started_at_unix_ms = 0, ws_in_flight = 0, ws_listener_addr = None,
            ws_rate_limiter_stats = None\<rparr>
      in \<lparr>uw_baseline = Healthy, uw_pre = (if role = ''scanner'' then None else Some st), uw_start = 0,
          uw_polls = [(1, None), (2, Some st), (3, Some (st\<lparr>ws_generation := 4\<rparr>))], uw_canary_start = 0, uw_canary = []\<rparr>)"

theorem rolling_upgrade_ordered_witness:
  "\<exists>es c'. rolling_upgrade True \<lparr>req_binary_path = None, req_include_tls = True, req_canary_secs = None, req_only_role = None\<rparr>
       two_of_three upgrade_counters_new = (Some False, es, c') \<and>
     upgraded es = [''processor'', ''plain''] \<and> prefix (upgraded es) [''processor'', ''plain'', ''scanner'', ''tls''] \<and>
     done_steps es = [(''processor'', 3, 4), (''plain'', 3, 4)] \<and> last es = Notify (UpgradeComplete False)"
proof -
  let ?req = "\<lparr>req_binary_path = None, req_include_tls = True, req_canary_secs = None, req_only_role = None\<rparr>"
  obtain es c' where run: "rolling_upgrade True ?req two_of_three upgrade_counters_new = (Some False, es, c')"
    and steps: "upgraded es = [''processor'', ''plain'']" "done_steps es = [(''processor'', 3, 4), (''plain'', 3, 4)]"
    by (simp add: rolling_upgrade_def walk_targets_def upgrade_role_def upgrade_one_def Let_def two_of_three_def upgraded_def
        done_steps_def from_secs_def)
  from rolling_upgrade_ordered [OF run] have "last es = Notify (UpgradeComplete False)"
    "prefix (upgraded es) [''processor'', ''plain'', ''scanner'', ''tls'']"
    by simp_all
  with run steps show ?thesis by blast
qed

text \<open>
  The canary aborts only on a state worse than the one before the upgrade: a
  role that was flapping before and flaps throughout passes its window, and a window of zero seconds
  passes whatever the state.
\<close>

theorem canary_tolerates_baseline:
  assumes "\<And>now st. (now, st) \<in> set (uw_canary w) \<Longrightarrow>
      secs = 0 \<and> uw_canary_start w \<le> now \<or> health_state_rank st \<le> health_state_rank (uw_baseline w)"
    and "\<exists>(now, st) \<in> set (uw_canary w). uw_canary_start w + from_secs (unat secs) \<le> now"
  shows "canary_observe role secs w c = (Some True, [], c)"
proof -
  let ?d = "uw_canary_start w + from_secs (unat secs)"
  have run: "canary_poll role d base c polls = (Some True, [], c)"
    if "\<forall>p \<in> set polls. d \<le> fst p \<or> health_state_rank (snd p) \<le> health_state_rank base"
      and "\<exists>p \<in> set polls. d \<le> fst p" for d base polls
    using that by (induction role d base c polls rule: canary_poll.induct) (auto simp: not_less)
  have "\<forall>p \<in> set (uw_canary w). ?d \<le> fst p \<or>
      health_state_rank (snd p) \<le> health_state_rank (uw_baseline w)"
    using assms(1) by (fastforce simp: from_secs_def)
  moreover have "\<exists>p \<in> set (uw_canary w). ?d \<le> fst p" using assms(2) by force
  ultimately show ?thesis unfolding canary_observe_def by (rule run)
qed

theorem canary_tolerates_baseline_witness:
  "canary_observe ''plain'' 1 \<lparr>uw_baseline = Flapping, uw_pre = None, uw_start = 0, uw_polls = [],
     uw_canary_start = 0, uw_canary = [(0, Flapping), (from_secs 1, Flapping)]\<rparr> upgrade_counters_new =
     (Some True, [], upgrade_counters_new)"
  by (rule canary_tolerates_baseline) (auto simp: from_secs_def)

end
