(* ===== verification/Worker_Upgrade.thy ===== *)
theory Worker_Upgrade
  imports Rolling_Upgrade
begin

text \<open>
  Model of the two-phase upgrade the workers share (\<^verbatim>\<open>do_upgrade_plain\<close> of
  \<^verbatim>\<open>src/acceptor/upgrade.rs\<close>, \<^verbatim>\<open>do_upgrade\<close> of \<^verbatim>\<open>src/scanner/upgrade.rs\<close> and the middle of the
  processor's): hand the listener to a child, spawn it, wait for its acknowledgement, commit or roll
  back. The system calls are parameters; the close-on-exec flags of the process are the state.
\<close>

section \<open>Definitions\<close>

record upgrade_ctx =
  uc_arg :: string
  uc_generation :: u64
  uc_binary_path :: "string option"
  uc_self_exe :: self_exe
  uc_dirs :: handoff_dir_fds
  uc_sandbox_off :: bool
  uc_config_json :: "string result"

text \<open>The command a child is started with; its environment is the one the new image sees.\<close>

record upgrade_cmd =
  uc_exe :: string
  uc_args :: "string list"
  uc_env :: env

record upgrade_os =
  os_freebsd :: bool
  os_environ :: env
  os_into_std :: "raw_fd result"
  os_fcntl :: fcntl
  os_pipe :: "(raw_fd \<times> raw_fd) result"
  os_capmode :: "u32 option"
  os_pread :: pread
  os_spawn :: "upgrade_cmd \<Rightarrow> unit result"
  os_ready :: ready_read
  os_reattach :: "unit result"

text \<open>
  How an attempt ends: an error that the worker's loop propagates (the worker exits), a rollback
  that hands the listener back, or the exit with the commit code while the child serves.
\<close>

datatype upgrade_end = AttemptFailed error | RolledBack | Committed upgrade_cmd

definition handed_env :: "u64 \<Rightarrow> raw_fd \<Rightarrow> raw_fd \<Rightarrow> env" where
  "handed_env generation listener_fd child_write_fd =
     [(ENV_LISTENER_FD, dec_int listener_fd),
      (ENV_UPGRADE_GENERATION, dec (unat (generation + 1))),
      (ENV_READY_FD, dec_int child_write_fd)]"

text \<open>
  The environment of the child: the scrubbed environment of the parent with the handed variables
  set; on FreeBSD, for an upgrade to the worker's own image, the map \<^verbatim>\<open>fexecve\<close> is given.
\<close>

definition child_env :: "upgrade_os \<Rightarrow> bool \<Rightarrow> env \<Rightarrow> env \<Rightarrow> env" where
  "child_env os target_overridden handed fexecve_env =
     (if os_freebsd os \<and> \<not> target_overridden
      then fexecve_env_map (os_environ os) (fdpass_env_to_remove (os_environ os)) fexecve_env
      else fold (\<lambda>(k, v). env_set k v) handed (scrub_fdpass_env (os_environ os) (os_environ os)))"

text \<open>
  From the prepared listener to the spawned child: the capability-mode handoff on FreeBSD, the
  check for a static binary, the spawn. The guards of the handoff are returned with the command.
\<close>

definition spawn_upgrade_child ::
  "upgrade_os \<Rightarrow> upgrade_ctx \<Rightarrow> env \<Rightarrow> cloexec_flags \<Rightarrow>
     (error + (upgrade_cmd \<times> cloexec_guard list)) \<times> cloexec_flags" where
  "spawn_upgrade_child os ctx handed t =
     (let target_overridden = (uc_binary_path ctx \<noteq> None);
          exe = resolve_upgrade_exe (uc_binary_path ctx) (exe_path (uc_self_exe ctx))
      in case (if os_freebsd os
               then cap_mode_handoff (os_fcntl os) handed (uc_sandbox_off ctx) (uc_config_json ctx)
                      (uc_self_exe ctx) (uc_dirs ctx) target_overridden t
               else (Inr (handed, []), t)) of
           (Inl e, t1) \<Rightarrow> (Inl e, t1)
         | (Inr (fexecve_env, guards), t1) \<Rightarrow>
             (case (if target_overridden then Inr ()
                    else require_static_for_capmode_upgrade (os_freebsd os) (os_capmode os) (os_pread os)) of
                Inl e \<Rightarrow> (Inl e, drop_guards (os_fcntl os) guards t1)
              | Inr _ \<Rightarrow>
                  (let cmd = \<lparr>uc_exe = exe, uc_args = [uc_arg ctx],
                              uc_env = child_env os target_overridden handed fexecve_env\<rparr>
                   in case with_context ''spawn upgrade child'' (os_spawn os cmd) of
                        Inl e \<Rightarrow> (Inl e, drop_guards (os_fcntl os) guards t1)
                      | Inr _ \<Rightarrow> (Inr (cmd, guards), t1))))"

text \<open>
  After the wait. The listener's guard is committed or dropped; the guards of the handoff are
  dropped when the function returns, and not at all when the process exits.
\<close>

definition settle_upgrade ::
  "upgrade_os \<Rightarrow> unit result \<Rightarrow> upgrade_cmd \<Rightarrow> cloexec_guard \<Rightarrow> cloexec_guard list \<Rightarrow> cloexec_flags \<Rightarrow>
     upgrade_end \<times> cloexec_flags" where
  "settle_upgrade os ready cmd guard guards t =
     (case ready of
        Inr _ \<Rightarrow> (Committed cmd, guard_commit (os_fcntl os) guard t)
      | Inl _ \<Rightarrow>
          (case os_reattach os of Inl e \<Rightarrow> AttemptFailed e | Inr _ \<Rightarrow> RolledBack,
           drop_guards (os_fcntl os) (guards @ [guard]) t))"

definition do_upgrade_plain ::
  "upgrade_os \<Rightarrow> upgrade_ctx \<Rightarrow> cloexec_flags \<Rightarrow> upgrade_end \<times> cloexec_flags" where
  "do_upgrade_plain os ctx t =
     (case with_context ''listener into_std'' (os_into_std os) of
        Inl e \<Rightarrow> (AttemptFailed e, t)
      | Inr listener_fd \<Rightarrow>
         (case with_context ''clear CLOEXEC on listener'' (guard_clear (os_fcntl os) listener_fd t) of
            Inl e \<Rightarrow> (AttemptFailed e, t)
          | Inr (guard, t1) \<Rightarrow>
             (case with_context ''ready pipe'' (make_ready_pipe (os_fcntl os) (os_pipe os) t1) of
                Inl e \<Rightarrow> (AttemptFailed e, guard_drop (os_fcntl os) guard t1)
              | Inr ((parent_read, child_write_fd), t2) \<Rightarrow>
                 (case spawn_upgrade_child os ctx (handed_env (uc_generation ctx) listener_fd child_write_fd) t2 of
                    (Inl e, t3) \<Rightarrow> (AttemptFailed e, guard_drop (os_fcntl os) guard t3)
                  | (Inr (cmd, guards), t3) \<Rightarrow>
                      settle_upgrade os (wait_for_child_ready (os_ready os)) cmd guard guards t3))))"

text \<open>
  The scanner first waits for the lookups in flight, at most a second: each observation is the
  number in flight and the time read when there are some. \<^verbatim>\<open>None\<close> means the wait goes on.
\<close>

fun scanner_drain :: "instant \<Rightarrow> (nat \<times> instant) list \<Rightarrow> nat option" where
  "scanner_drain deadline [] = None"
| "scanner_drain deadline ((count, now) # rest) =
     (if count = 0 then Some 0
      else if deadline < now then Some count
      else scanner_drain deadline rest)"

definition do_upgrade_scanner ::
  "upgrade_os \<Rightarrow> upgrade_ctx \<Rightarrow> instant \<Rightarrow> (nat \<times> instant) list \<Rightarrow> cloexec_flags \<Rightarrow>
     (upgrade_end \<times> cloexec_flags) option" where
  "do_upgrade_scanner os ctx start polls t =
     (case scanner_drain (start + from_secs 1) polls of
        None \<Rightarrow> None
      | Some _ \<Rightarrow> Some (do_upgrade_plain os (ctx\<lparr>uc_arg := ''scanner''\<rparr>) t))"

section \<open>Lemmas\<close>

lemma handed_env_lookup:
  "env_var (rev (handed_env g l w)) ENV_LISTENER_FD = Some (dec_int l)"
  "env_var (rev (handed_env g l w)) ENV_READY_FD = Some (dec_int w)"
  "env_var (rev (handed_env g l w)) ENV_UPGRADE_GENERATION = Some (dec (unat (g + 1)))"
  by (simp_all add: handed_env_def env_names)

lemma cap_mode_keeps:
  assumes "cap_mode_handoff fc base off json exe dirs over t = (Inr (e, gs), t')"
    and "k \<notin> set CAP_MODE_ENV"
  shows "env_var (rev e) k = env_var (rev base) k"
proof (cases "over \<or> off")
  case True
  with assms(1) show ?thesis by (simp add: cap_mode_handoff_def)
next
  case False
  with assms(1) have "cap_mode_handoff fc base False json exe dirs False t = (Inr (e, gs), t')"
    by (simp add: cap_mode_handoff_def)
  then obtain j where e: "e = base @ [(ENV_CONFIG_JSON, j)] @
      map (\<lambda>(name, fd). (name, dec_int fd)) (cap_mode_specs exe dirs) @ [(ENV_SELF_EXE_PATH, exe_path exe)]"
    by (elim cap_mode_handoff_Inr)
  have "fst ` set (cap_mode_specs exe dirs) \<subseteq> set CAP_MODE_ENV"
    by (auto simp: cap_mode_specs_def CAP_MODE_ENV_def split: option.splits)
  with assms(2) have "k \<notin> fst ` set (cap_mode_specs exe dirs)" "k \<noteq> ENV_CONFIG_JSON" "k \<noteq> ENV_SELF_EXE_PATH"
    by (auto simp: CAP_MODE_ENV_def)
  then have "env_var (rev ([(ENV_CONFIG_JSON, j)] @ map (\<lambda>(name, fd). (name, dec_int fd)) (cap_mode_specs exe dirs) @
      [(ENV_SELF_EXE_PATH, exe_path exe)])) k = None"
    by (simp only: env_var_None_iff) force
  then show ?thesis unfolding e rev_append [of base] env_var_append by simp
qed

text \<open>Whichever way the child is started, it finds the handed variables with their values.\<close>

lemma child_env_handed:
  assumes "env_var (rev handed) k = Some v" and "env_var (rev fexecve_env) k = env_var (rev handed) k"
  shows "env_var (child_env os over handed fexecve_env) k = Some v"
  using assms by (simp add: child_env_def env_var_fexecve env_var_fold_set)

lemma spawned_env:
  assumes "spawn_upgrade_child os ctx handed t = (Inr (cmd, gs), t')"
    and "env_var (rev handed) k = Some v" and "k \<notin> set CAP_MODE_ENV"
  shows "env_var (uc_env cmd) k = Some v"
proof -
  define over where "over = (uc_binary_path ctx \<noteq> None)"
  have "\<exists>fe. uc_env cmd = child_env os over handed fe \<and> env_var (rev fe) k = env_var (rev handed) k"
  proof (cases "os_freebsd os")
    case False
    with assms(1) show ?thesis
      by (auto simp: spawn_upgrade_child_def Let_def over_def split: sum.splits if_splits)
  next
    case True
    with assms(1) obtain fe gs1 t1 where
      "cap_mode_handoff (os_fcntl os) handed (uc_sandbox_off ctx) (uc_config_json ctx)
         (uc_self_exe ctx) (uc_dirs ctx) over t = (Inr (fe, gs1), t1)"
      and "uc_env cmd = child_env os over handed fe"
      by (auto simp: spawn_upgrade_child_def Let_def over_def split: sum.splits if_splits prod.splits)
    with cap_mode_keeps [OF _ assms(3)] show ?thesis by blast
  qed
  with assms(2) child_env_handed show ?thesis by metis
qed

lemma handed_names_free:
  "ENV_LISTENER_FD \<notin> set CAP_MODE_ENV" "ENV_READY_FD \<notin> set CAP_MODE_ENV"
  "ENV_UPGRADE_GENERATION \<notin> set CAP_MODE_ENV" "ENV_SESSIONS_FD \<notin> set CAP_MODE_ENV"
  by (simp_all add: CAP_MODE_ENV_def env_names)

text \<open>Dropping armed guards only sets flags, and only those of their descriptors.\<close>

lemma drop_guards_flags:
  "drop_guards fc gs t fd \<longrightarrow> t fd \<or> fd \<in> guard_fd ` set gs" "t fd \<longrightarrow> drop_guards fc gs t fd"
proof -
  have one: "(guard_drop fc g u fd \<longrightarrow> u fd \<or> fd = guard_fd g) \<and> (u fd \<longrightarrow> guard_drop fc g u fd)" for g u
    by (auto simp: guard_drop_def set_cloexec_def change_cloexec_def split: option.splits sum.splits)
  have "(drop_guards fc gs t fd \<longrightarrow> t fd \<or> fd \<in> guard_fd ` set gs) \<and> (t fd \<longrightarrow> drop_guards fc gs t fd)"
    unfolding drop_guards_def
  proof (induction gs arbitrary: t)
    case (Cons g gs)
    show ?case using Cons.IH [of "guard_drop fc g t"] one [of g t] by auto
  qed simp
  then show "drop_guards fc gs t fd \<longrightarrow> t fd \<or> fd \<in> guard_fd ` set gs" "t fd \<longrightarrow> drop_guards fc gs t fd" by blast+
qed

lemma drop_last_guard:
  "fcntl_ok fc (guard_fd g) \<Longrightarrow> armed g \<Longrightarrow> drop_guards fc (gs @ [g]) t (guard_fd g)"
  by (simp add: drop_guards_def guard_drop_ok)

text \<open>The stages of a successful preparation, for the proofs below.\<close>

lemma do_upgrade_plain_spawned:
  fixes t :: cloexec_flags
  assumes "os_into_std os = Inr l" and "fcntl_ok (os_fcntl os) l" and "os_pipe os = Inr (r, w)"
    and "fcntl_ok (os_fcntl os) r"
  defines "t2 \<equiv> (t(l := False))(r := False, w := False, r := True)"
  shows "do_upgrade_plain os ctx t =
    (case spawn_upgrade_child os ctx (handed_env (uc_generation ctx) l w) t2 of
       (Inl e, t3) \<Rightarrow> (AttemptFailed e, guard_drop (os_fcntl os) \<lparr>guard_fd = l, armed = True\<rparr> t3)
     | (Inr (cmd, gs), t3) \<Rightarrow>
         settle_upgrade os (wait_for_child_ready (os_ready os)) cmd \<lparr>guard_fd = l, armed = True\<rparr> gs t3)"
proof -
  have "guard_clear (os_fcntl os) l t = Inr (\<lparr>guard_fd = l, armed = True\<rparr>, t(l := False))"
    using assms(2) by simp
  moreover have "make_ready_pipe (os_fcntl os) (os_pipe os) (t(l := False)) = Inr ((r, w), t2)"
    using assms(3,4) by (simp add: make_ready_pipe_def set_cloexec_def change_cloexec_def fcntl_ok_def t2_def)
  ultimately show ?thesis using assms(1) by (simp add: do_upgrade_plain_def del: guard_clear_Inr)
qed

lemma do_upgrade_plain_started:
  assumes "do_upgrade_plain os ctx t = (out, t')" and "\<nexists>e. out = AttemptFailed e"
  obtains l r w where "os_into_std os = Inr l" "fcntl_ok (os_fcntl os) l" "os_pipe os = Inr (r, w)"
    "fcntl_ok (os_fcntl os) r"
proof -
  from assms obtain l where l: "os_into_std os = Inr l"
    by (cases "os_into_std os") (auto simp: do_upgrade_plain_def)
  with assms obtain g t1 where g: "guard_clear (os_fcntl os) l t = Inr (g, t1)"
    by (cases "guard_clear (os_fcntl os) l t") (auto simp: do_upgrade_plain_def)
  with assms l obtain p t2 where p: "make_ready_pipe (os_fcntl os) (os_pipe os) t1 = Inr (p, t2)"
    by (cases "make_ready_pipe (os_fcntl os) (os_pipe os) t1") (auto simp: do_upgrade_plain_def)
  from p obtain r w where "os_pipe os = Inr (r, w)" "fcntl_ok (os_fcntl os) r"
    by (auto simp: make_ready_pipe_def and_then_Inr_iff set_cloexec_def)
  with that l g show thesis by auto
qed

section \<open>Properties\<close>

text \<open>
  An upgrade of the plain acceptor (and, after its drain, of the scanner)
  commits only on the acknowledgement of a child that was spawned and finds in its environment the
  listener's descriptor, the ready pipe and the generation plus one. It rolls back only without the
  acknowledgement, and the listener is close-on-exec again afterwards, so that no later child
  inherits it by accident.
\<close>

theorem plain_upgrade_outcomes:
  "case do_upgrade_plain os ctx t of
     (Committed cmd, t') \<Rightarrow>
       wait_for_child_ready (os_ready os) = Inr () \<and> os_spawn os cmd = Inr () \<and>
       (\<exists>l r w. os_into_std os = Inr l \<and> os_pipe os = Inr (r, w) \<and>
          env_var (uc_env cmd) ENV_LISTENER_FD = Some (dec_int l) \<and>
          env_var (uc_env cmd) ENV_READY_FD = Some (dec_int w) \<and>
          env_var (uc_env cmd) ENV_UPGRADE_GENERATION = Some (dec (unat (uc_generation ctx + 1))))
   | (RolledBack, t') \<Rightarrow>
       wait_for_child_ready (os_ready os) \<noteq> Inr () \<and> (\<exists>l. os_into_std os = Inr l \<and> t' l)
   | (AttemptFailed _, t') \<Rightarrow> True"
proof -
  obtain out t' where run: "do_upgrade_plain os ctx t = (out, t')" by fastforce
  show ?thesis
  proof (cases "\<exists>e. out = AttemptFailed e")
    case True
    with run show ?thesis by auto
  next
    case False
    then obtain l r w where ok: "os_into_std os = Inr l" "fcntl_ok (os_fcntl os) l"
      "os_pipe os = Inr (r, w)" "fcntl_ok (os_fcntl os) r"
      using run by (elim do_upgrade_plain_started) auto
    let ?g = "\<lparr>guard_fd = l, armed = True\<rparr>"
    let ?h = "handed_env (uc_generation ctx) l w"
    note E = do_upgrade_plain_spawned [OF ok, of ctx t]
    obtain cmd gs t3 where sp: "spawn_upgrade_child os ctx ?h
        ((t(l := False))(r := False, w := False, r := True)) = (Inr (cmd, gs), t3)"
      using run False E by (auto split: prod.splits sum.splits)
    with E run have set: "settle_upgrade os (wait_for_child_ready (os_ready os)) cmd ?g gs t3 = (out, t')"
      by simp
    have env: "env_var (uc_env cmd) ENV_LISTENER_FD = Some (dec_int l)"
      "env_var (uc_env cmd) ENV_READY_FD = Some (dec_int w)"
      "env_var (uc_env cmd) ENV_UPGRADE_GENERATION = Some (dec (unat (uc_generation ctx + 1)))"
      using spawned_env [OF sp] handed_env_lookup handed_names_free by blast+
    have "os_spawn os cmd = Inr ()"
      using sp by (auto simp: spawn_upgrade_child_def Let_def split: sum.splits prod.splits if_splits)
    moreover have "drop_guards (os_fcntl os) (gs @ [?g]) t3 l"
      using drop_last_guard [of "os_fcntl os" ?g] ok(2) by simp
    ultimately show ?thesis
      using run False set env ok(1,3)
      by (cases "wait_for_child_ready (os_ready os)")
        (auto simp: settle_upgrade_def split: sum.splits)
  qed
qed

text \<open>
  When no system call fails and the platform is not FreeBSD, an attempt never
  ends in an error: it commits when the child acknowledges and rolls back when it does not.
\<close>

theorem plain_upgrade_decides:
  assumes "\<not> os_freebsd os" and "os_into_std os = Inr l" and "\<And>c fd. os_fcntl os c fd = None"
    and "os_pipe os = Inr p" and "\<And>cmd. os_spawn os cmd = Inr ()" and "os_reattach os = Inr ()"
  shows "if wait_for_child_ready (os_ready os) = Inr ()
    then \<exists>cmd. fst (do_upgrade_plain os ctx t) = Committed cmd
    else fst (do_upgrade_plain os ctx t) = RolledBack"
proof -
  obtain r w where p: "p = (r, w)" by fastforce
  have ok: "fcntl_ok (os_fcntl os) fd" for fd using assms(3) by (simp add: fcntl_ok_def)
  show ?thesis
    using do_upgrade_plain_spawned [OF assms(2) ok _ ok, of r w ctx t] assms(1,4,5,6) p
    by (cases "wait_for_child_ready (os_ready os)")
      (auto simp: spawn_upgrade_child_def Let_def require_static_for_capmode_upgrade_def settle_upgrade_def)
qed

theorem plain_upgrade_decides_witness:
  "fst (do_upgrade_plain
     \<lparr>os_freebsd = False, os_environ = [], os_into_std = Inr 5, os_fcntl = (\<lambda>_ _. None),
      os_pipe = Inr (8, 9), os_capmode = None, os_pread = (\<lambda>_ _. None), os_spawn = (\<lambda>_. Inr ()),
      os_ready = ReadTimedOut, os_reattach = Inr ()\<rparr>
     \<lparr>uc_arg = ''plain'', uc_generation = 0, uc_binary_path = None,
      uc_self_exe = \<lparr>exe_path = ''/echod'', exe_fd = 3\<rparr>,
      uc_dirs = \<lparr>dir_sockets = None, dir_cert = None, dir_key = None\<rparr>, uc_sandbox_off = True,
      uc_config_json = Inr ''{}''\<rparr> (\<lambda>_. True)) = RolledBack"
  using plain_upgrade_decides [of "\<lparr>os_freebsd = False, os_environ = [], os_into_std = Inr 5,
      os_fcntl = (\<lambda>_ _. None), os_pipe = Inr (8, 9), os_capmode = None, os_pread = (\<lambda>_ _. None),
      os_spawn = (\<lambda>_. Inr ()), os_ready = ReadTimedOut, os_reattach = Inr ()\<rparr>" 5 "(8, 9)"
      "\<lparr>uc_arg = ''plain'', uc_generation = 0, uc_binary_path = None,
      uc_self_exe = \<lparr>exe_path = ''/echod'', exe_fd = 3\<rparr>,
      uc_dirs = \<lparr>dir_sockets = None, dir_cert = None, dir_key = None\<rparr>, uc_sandbox_off = True,
      uc_config_json = Inr ''{}''\<rparr>" "\<lambda>_. True"]
  by (simp add: wait_for_child_ready_def)

end
