(* ===== verification/Self_Upgrade.thy ===== *)
theory Self_Upgrade
  imports Systemd Worker_Upgrade
begin

text \<open>
  Model of the supervisor's own upgrade: \<^verbatim>\<open>src/supervisor/self_upgrade.rs\<close>, the acquisition of its
  listeners (\<^verbatim>\<open>src/supervisor/listeners.rs\<close>) and the parts of \<^verbatim>\<open>src/supervisor.rs\<close> that read
  what a predecessor handed over, take the snapshot for a successor and answer signals.
\<close>

section \<open>What is handed over\<close>

record adopted_state =
  ad_processor :: "u32 option"
  ad_plain :: "u32 option"
  ad_tls :: "u32 option"
  ad_scanner :: "u32 option"
  ad_processor_gen :: u64
  ad_plain_gen :: u64
  ad_tls_gen :: u64
  ad_scanner_gen :: u64

record control_fds =
  fd_admin :: raw_fd
  fd_processor_ctrl :: raw_fd
  fd_plain_ctrl :: raw_fd
  fd_tls_ctrl :: raw_fd
  fd_scanner_ctrl :: raw_fd
  fd_drainer :: raw_fd
  fd_spawner :: raw_fd
  fd_processor_listener :: raw_fd
  fd_plain_listener :: raw_fd
  fd_tls_listener :: raw_fd
  fd_scanner_listener :: raw_fd

definition self_upgrade_fds :: "control_fds \<Rightarrow> (raw_fd \<times> string) list" where
  "self_upgrade_fds fds =
     [(fd_admin fds, ''ctrl-admin''), (fd_processor_ctrl fds, ''ctrl-processor''),
      (fd_plain_ctrl fds, ''ctrl-plain''), (fd_tls_ctrl fds, ''ctrl-tls''),
      (fd_scanner_ctrl fds, ''ctrl-scanner''), (fd_drainer fds, ''ctrl-drainer''),
      (fd_spawner fds, ''ctrl-spawner''), (fd_processor_listener fds, ''listener-processor''),
      (fd_plain_listener fds, ''listener-plain''), (fd_tls_listener fds, ''listener-tls''),
      (fd_scanner_listener fds, ''listener-scanner'')]"

definition handed_fds :: "control_fds \<Rightarrow> env" where
  "handed_fds fds = map (\<lambda>(k, fd). (k, dec_int fd))
     [(ENV_CTRL_ADMIN_FD, fd_admin fds), (ENV_CTRL_PROCESSOR_FD, fd_processor_ctrl fds),
      (ENV_CTRL_PLAIN_FD, fd_plain_ctrl fds), (ENV_CTRL_TLS_FD, fd_tls_ctrl fds),
      (ENV_CTRL_SCANNER_FD, fd_scanner_ctrl fds), (ENV_CTRL_DRAINER_FD, fd_drainer fds),
      (ENV_CTRL_SPAWNER_FD, fd_spawner fds), (ENV_LISTENER_PROCESSOR_FD, fd_processor_listener fds),
      (ENV_LISTENER_PLAIN_FD, fd_plain_listener fds), (ENV_LISTENER_TLS_FD, fd_tls_listener fds),
      (ENV_LISTENER_SCANNER_FD, fd_scanner_listener fds)]"

definition handed_pid :: "string \<Rightarrow> string \<Rightarrow> u32 option \<Rightarrow> u64 \<Rightarrow> env" where
  "handed_pid pid_key gen_key pid g =
     (case pid of None \<Rightarrow> [] | Some p \<Rightarrow> [(pid_key, dec (unat p)), (gen_key, dec (unat g))])"

definition handed_pids :: "adopted_state \<Rightarrow> env" where
  "handed_pids pids =
     handed_pid ENV_PROCESSOR_PID ENV_PROCESSOR_GEN (ad_processor pids) (ad_processor_gen pids) @
     handed_pid ENV_PLAIN_PID ENV_PLAIN_GEN (ad_plain pids) (ad_plain_gen pids) @
     handed_pid ENV_TLS_PID ENV_TLS_GEN (ad_tls pids) (ad_tls_gen pids) @
     handed_pid ENV_SCANNER_PID ENV_SCANNER_GEN (ad_scanner pids) (ad_scanner_gen pids)"

definition self_upgrade_env :: "control_fds \<Rightarrow> adopted_state \<Rightarrow> u64 \<Rightarrow> raw_fd \<Rightarrow> env" where
  "self_upgrade_env fds pids generation child_write_fd =
     handed_fds fds @ handed_pids pids @
     [(ENV_SUP_GENERATION, dec (unat (generation + 1))), (ENV_READY_FD, dec_int child_write_fd)]"

section \<open>The attempt\<close>

text \<open>
  A failed attempt and a rollback leave the supervisor running; a commit is the exit with the
  commit code while the child serves.
\<close>

definition do_self_upgrade ::
  "upgrade_os \<Rightarrow> string result \<Rightarrow> control_fds \<Rightarrow> adopted_state \<Rightarrow> u64 \<Rightarrow> cloexec_flags \<Rightarrow>
     upgrade_end \<times> cloexec_flags" where
  "do_self_upgrade os current_exe fds pids generation t =
     (let fc = os_fcntl os in
      case clear_guards fc (map (\<lambda>(fd, label). (fd, [''clear CLOEXEC '' @ label])) (self_upgrade_fds fds)) [] t of
        (Inl e, t1) \<Rightarrow> (AttemptFailed e, t1)
      | (Inr guards, t1) \<Rightarrow>
         (case with_context ''current_exe'' current_exe of
            Inl e \<Rightarrow> (AttemptFailed e, drop_guards fc guards t1)
          | Inr exe \<Rightarrow>
             (case with_context ''ready pipe'' (make_ready_pipe fc (os_pipe os) t1) of
                Inl e \<Rightarrow> (AttemptFailed e, drop_guards fc guards t1)
              | Inr ((parent_read, child_write_fd), t2) \<Rightarrow>
                 (let cmd = \<lparr>uc_exe = exe, uc_args = [''supervisor''],
                        uc_env = fold (\<lambda>(k, v). env_set k v)
                          (self_upgrade_env fds pids generation child_write_fd)
                          (scrub_fdpass_env (os_environ os) (os_environ os))\<rparr>
                  in case with_context ''spawn self-upgrade child'' (os_spawn os cmd) of
                       Inl e \<Rightarrow> (AttemptFailed e, drop_guards fc guards t2)
                     | Inr _ \<Rightarrow>
                        (case wait_for_child_ready (os_ready os) of
                           Inr _ \<Rightarrow> (Committed cmd, fold (guard_commit fc) guards t2)
                         | Inl _ \<Rightarrow> (RolledBack, drop_guards fc guards t2))))))"

section \<open>Listeners\<close>

text \<open>
  The calls of listener acquisition: binding a path or a port, setting a socket's mode, and making a
  descriptor a listener of the runtime. The state is what the service manager passed in and the
  socket files removed.
\<close>

record open_os =
  oo_env :: env
  oo_bind_uds :: "string \<Rightarrow> raw_fd result"
  oo_bind_tcp :: "u16 \<Rightarrow> raw_fd result"
  oo_chmod :: "string \<Rightarrow> unit result"
  oo_wrap :: "raw_fd \<Rightarrow> unit result"

record open_state =
  op_sd :: sd_listeners
  op_removed :: "string list"

type_synonym acquire = "open_state \<Rightarrow> raw_fd result \<times> open_state"

text \<open>What the three functions share: the service manager first, then the environment, then a bind.\<close>

definition inherited_fd :: "open_os \<Rightarrow> string \<Rightarrow> string \<Rightarrow> open_state \<Rightarrow> raw_fd result option \<times> open_state" where
  "inherited_fd os env_key sd_name s =
     (case take_by_name sd_name (op_sd s) of
        (Some fd, rest) \<Rightarrow> (Some (Inr fd), s\<lparr>op_sd := rest\<rparr>)
      | (None, _) \<Rightarrow>
         (case env_var (oo_env os) env_key of
            None \<Rightarrow> (None, s)
          | Some fd_str \<Rightarrow>
             (Some (case parse_i32 fd_str of None \<Rightarrow> Inl [env_key] | Some fd \<Rightarrow> Inr fd), s)))"

definition unlink_stale :: "bool \<Rightarrow> string \<Rightarrow> open_state \<Rightarrow> open_state" where
  "unlink_stale is_upgrade path s = (if \<not> is_upgrade then s\<lparr>op_removed := op_removed s @ [path]\<rparr> else s)"

definition adopt_or_bind_uds_worker :: "open_os \<Rightarrow> string \<Rightarrow> string \<Rightarrow> string \<Rightarrow> bool \<Rightarrow> acquire" where
  "adopt_or_bind_uds_worker os env_key sd_name path is_upgrade s =
     (case inherited_fd os env_key sd_name s of
        (Some r, s1) \<Rightarrow> (r, s1)
      | (None, s1) \<Rightarrow>
          (and_then (with_context (''bind '' @ path) (oo_bind_uds os path)) (\<lambda>fd.
             and_then (oo_chmod os path) (\<lambda>_. Inr fd)), unlink_stale is_upgrade path s1))"

definition adopt_or_bind_tcp_worker :: "open_os \<Rightarrow> string \<Rightarrow> string \<Rightarrow> u16 \<Rightarrow> acquire" where
  "adopt_or_bind_tcp_worker os env_key sd_name port s =
     (case inherited_fd os env_key sd_name s of
        (Some r, s1) \<Rightarrow> (r, s1)
      | (None, s1) \<Rightarrow> (with_context (''bind 127.0.0.1:'' @ dec (unat port)) (oo_bind_tcp os port), s1))"

definition adopt_or_bind_control :: "open_os \<Rightarrow> string \<Rightarrow> string \<Rightarrow> string \<Rightarrow> bool \<Rightarrow> acquire" where
  "adopt_or_bind_control os env_key sd_name path is_upgrade s =
     (case inherited_fd os env_key sd_name s of
        (Some r, s1) \<Rightarrow> (and_then r (\<lambda>fd. and_then (oo_wrap os fd) (\<lambda>_. Inr fd)), s1)
      | (None, s1) \<Rightarrow>
          (with_context (''bind '' @ path) (oo_bind_uds os path), unlink_stale is_upgrade path s1))"

fun acquire_all :: "acquire list \<Rightarrow> open_state \<Rightarrow> raw_fd list result \<times> open_state" where
  "acquire_all [] s = (Inr [], s)"
| "acquire_all (f # fs) s =
     (case f s of
        (Inl e, s1) \<Rightarrow> (Inl e, s1)
      | (Inr fd, s1) \<Rightarrow>
         (case acquire_all fs s1 of (Inl e, s2) \<Rightarrow> (Inl e, s2) | (Inr fds, s2) \<Rightarrow> (Inr (fd # fds), s2)))"

definition open_worker_listener_fds :: "open_os \<Rightarrow> config \<Rightarrow> bool \<Rightarrow> acquire list" where
  "open_worker_listener_fds os cfg is_upgrade =
     [adopt_or_bind_uds_worker os ENV_LISTENER_PROCESSOR_FD ''processor'' (processor_sock cfg) is_upgrade,
      adopt_or_bind_uds_worker os ENV_LISTENER_SCANNER_FD ''scanner'' (scanner_sock cfg) is_upgrade,
      adopt_or_bind_tcp_worker os ENV_LISTENER_PLAIN_FD ''plain'' (plain_port cfg),
      adopt_or_bind_tcp_worker os ENV_LISTENER_TLS_FD ''tls'' (tls_port cfg)]"

definition open_control_listeners :: "open_os \<Rightarrow> config \<Rightarrow> bool \<Rightarrow> acquire list" where
  "open_control_listeners os cfg is_upgrade =
     [adopt_or_bind_control os ENV_CTRL_ADMIN_FD ''admin'' (admin_sock cfg) is_upgrade,
      adopt_or_bind_control os ENV_CTRL_PROCESSOR_FD ''ctrl-processor'' (control_sock cfg ''processor'') is_upgrade,
      adopt_or_bind_control os ENV_CTRL_PLAIN_FD ''ctrl-plain'' (control_sock cfg ''plain'') is_upgrade,
      adopt_or_bind_control os ENV_CTRL_TLS_FD ''ctrl-tls'' (control_sock cfg ''tls'') is_upgrade,
      adopt_or_bind_control os ENV_CTRL_SCANNER_FD ''ctrl-scanner'' (control_sock cfg ''scanner'') is_upgrade,
      adopt_or_bind_control os ENV_CTRL_DRAINER_FD ''drainer'' (drainer_sock cfg) is_upgrade,
      adopt_or_bind_control os ENV_CTRL_SPAWNER_FD ''spawner'' (spawner_sock cfg) is_upgrade]"

text \<open>The eleven descriptors in the order they were acquired; no other length occurs.\<close>

fun control_fds_of :: "raw_fd list \<Rightarrow> control_fds result" where
  "control_fds_of [admin, processor, plain, tls, scanner, drainer, spawner, l_processor, l_scanner, l_plain, l_tls] =
     Inr \<lparr>fd_admin = admin, fd_processor_ctrl = processor, fd_plain_ctrl = plain, fd_tls_ctrl = tls,
       fd_scanner_ctrl = scanner, fd_drainer = drainer, fd_spawner = spawner,
       fd_processor_listener = l_processor, fd_plain_listener = l_plain, fd_tls_listener = l_tls,
       fd_scanner_listener = l_scanner\<rparr>"
| "control_fds_of _ = Inl []"

text \<open>
  \<^verbatim>\<open>open_supervisor_listeners\<close>. The environment with the activation variables removed is only read
  for \<^verbatim>\<open>FDPASS_\<close> names from here on.
\<close>

definition open_supervisor_listeners ::
  "u32 \<Rightarrow> open_os \<Rightarrow> config \<Rightarrow> u64 \<Rightarrow> control_fds result \<times> open_state" where
  "open_supervisor_listeners pid os cfg generation =
     (case with_context ''read systemd listeners'' (sd_from_env pid (oo_env os)) of
        Inl e \<Rightarrow> (Inl e, \<lparr>op_sd = [], op_removed = []\<rparr>)
      | Inr (sd, e') \<Rightarrow>
          let os' = os\<lparr>oo_env := e'\<rparr>; is_upgrade = (0 < generation) in
          case acquire_all (open_control_listeners os' cfg is_upgrade @ open_worker_listener_fds os' cfg is_upgrade)
                 \<lparr>op_sd = sd, op_removed = []\<rparr> of
            (r, s) \<Rightarrow> (and_then r control_fds_of, s))"

section \<open>Start and signals of the supervisor\<close>

definition env_pid :: "env \<Rightarrow> string \<Rightarrow> u32 option" where
  "env_pid e key = Option.bind (env_var e key) parse_u32"

definition env_generation :: "env \<Rightarrow> string \<Rightarrow> u64" where
  "env_generation e key = (case Option.bind (env_var e key) parse_u64 of Some g \<Rightarrow> g | None \<Rightarrow> 0)"

definition adopted_from_env :: "env \<Rightarrow> adopted_state" where
  "adopted_from_env e = \<lparr>
     ad_processor = env_pid e ENV_PROCESSOR_PID, ad_plain = env_pid e ENV_PLAIN_PID,
     ad_tls = env_pid e ENV_TLS_PID, ad_scanner = env_pid e ENV_SCANNER_PID,
     ad_processor_gen = env_generation e ENV_PROCESSOR_GEN, ad_plain_gen = env_generation e ENV_PLAIN_GEN,
     ad_tls_gen = env_generation e ENV_TLS_GEN, ad_scanner_gen = env_generation e ENV_SCANNER_GEN\<rparr>"

record pid_slots =
  ps_processor :: "u32 option"
  ps_plain :: "u32 option"
  ps_tls :: "u32 option"
  ps_scanner :: "u32 option"

definition pid_slots_snapshot :: "pid_slots \<Rightarrow> worker_control_links \<Rightarrow> adopted_state" where
  "pid_slots_snapshot p l =
     (let g = (\<lambda>k. case last_generation k of Some g \<Rightarrow> g | None \<Rightarrow> 0) in \<lparr>
     ad_processor = ps_processor p, ad_plain = ps_plain p, ad_tls = ps_tls p, ad_scanner = ps_scanner p,
     ad_processor_gen = g (lk_processor l), ad_plain_gen = g (lk_plain l), ad_tls_gen = g (lk_tls l),
     ad_scanner_gen = g (lk_scanner l)\<rparr>)"

definition run_signal_upgrade ::
  "bool \<Rightarrow> (string \<Rightarrow> upgrade_world) \<Rightarrow> upgrade_counters \<Rightarrow> stage" where
  "run_signal_upgrade free world c =
     rolling_upgrade free \<lparr>req_binary_path = None, req_include_tls = False, req_canary_secs = None,
       req_only_role = None\<rparr> world c"

text \<open>\<^verbatim>\<open>SIGHUP\<close>: refused under a grandparent, whose kill of the process group would hit the successor.\<close>

definition on_sighup ::
  "upgrade_os \<Rightarrow> string result \<Rightarrow> control_fds \<Rightarrow> pid_slots \<Rightarrow> worker_control_links \<Rightarrow> u64 \<Rightarrow>
     cloexec_flags \<Rightarrow> upgrade_end option \<times> cloexec_flags" where
  "on_sighup os current_exe fds slots l generation t =
     (if env_var (os_environ os) ENV_UNDER_GRANDPARENT \<noteq> None then (None, t)
      else case do_self_upgrade os current_exe fds (pid_slots_snapshot slots l) generation t of
             (r, t') \<Rightarrow> (Some r, t'))"

text \<open>The order of a shutdown: the acceptors, the scanner, the processor, then its signal.\<close>

definition shutdown_supervisor ::
  "pid_slots \<Rightarrow> worker_control_links \<Rightarrow> admin_effect list \<times> u32 option \<times> worker_control_links" where
  "shutdown_supervisor slots l =
     (let (m1, plain) = send_shutdown 1000 (lk_plain l);
          (m2, tls) = send_shutdown 1000 (lk_tls l);
          (m3, scanner) = send_shutdown 500 (lk_scanner l);
          (m4, processor) = send_shutdown 500 (lk_processor l)
      in (sent m1 @ sent m2 @ sent m3 @ sent m4, ps_processor slots,
          \<lparr>lk_processor = processor, lk_plain = plain, lk_tls = tls, lk_scanner = scanner\<rparr>))"

definition cleanup_socket_files :: "config \<Rightarrow> string list" where
  "cleanup_socket_files cfg =
     [admin_sock cfg, control_sock cfg ''processor'', control_sock cfg ''plain'', control_sock cfg ''tls'',
      control_sock cfg ''scanner'', drainer_sock cfg, spawner_sock cfg, processor_sock cfg, scanner_sock cfg]"

section \<open>Lemmas: what the successor reads\<close>

lemma acquire_all_length: "acquire_all fs s = (Inr fds, s') \<Longrightarrow> length fds = length fs"
  by (induction fs arbitrary: s fds s') (auto split: sum.splits prod.splits)

lemma env_var_handed_pid:
  "pk \<noteq> gk \<Longrightarrow> env_var (rev (handed_pid pk gk pid g)) k =
     (if k = pk then map_option (\<lambda>p. dec (unat p)) pid
      else if k = gk then map_option (\<lambda>_. dec (unat g)) pid else None)"
  by (simp add: handed_pid_def split: option.splits)

lemma pid_names_distinct:
  "ENV_PROCESSOR_PID \<noteq> ENV_PROCESSOR_GEN" "ENV_PLAIN_PID \<noteq> ENV_PLAIN_GEN" "ENV_TLS_PID \<noteq> ENV_TLS_GEN"
  "ENV_SCANNER_PID \<noteq> ENV_SCANNER_GEN"
  by (simp_all add: env_names)

lemma handed_pids_lookup:
  "env_var (rev (handed_pids a)) ENV_PROCESSOR_PID = map_option (\<lambda>p. dec (unat p)) (ad_processor a)"
  "env_var (rev (handed_pids a)) ENV_PLAIN_PID = map_option (\<lambda>p. dec (unat p)) (ad_plain a)"
  "env_var (rev (handed_pids a)) ENV_TLS_PID = map_option (\<lambda>p. dec (unat p)) (ad_tls a)"
  "env_var (rev (handed_pids a)) ENV_SCANNER_PID = map_option (\<lambda>p. dec (unat p)) (ad_scanner a)"
  "env_var (rev (handed_pids a)) ENV_PROCESSOR_GEN = map_option (\<lambda>_. dec (unat (ad_processor_gen a))) (ad_processor a)"
  "env_var (rev (handed_pids a)) ENV_PLAIN_GEN = map_option (\<lambda>_. dec (unat (ad_plain_gen a))) (ad_plain a)"
  "env_var (rev (handed_pids a)) ENV_TLS_GEN = map_option (\<lambda>_. dec (unat (ad_tls_gen a))) (ad_tls a)"
  "env_var (rev (handed_pids a)) ENV_SCANNER_GEN = map_option (\<lambda>_. dec (unat (ad_scanner_gen a))) (ad_scanner a)"
  by (simp_all add: handed_pids_def env_var_handed_pid pid_names_distinct)
    (simp_all add: env_var_handed_pid env_names split: option.splits)

lemma handed_pids_other:
  "k \<notin> {ENV_PROCESSOR_PID, ENV_PLAIN_PID, ENV_TLS_PID, ENV_SCANNER_PID, ENV_PROCESSOR_GEN, ENV_PLAIN_GEN,
     ENV_TLS_GEN, ENV_SCANNER_GEN} \<Longrightarrow> env_var (rev (handed_pids a)) k = None"
  by (simp add: handed_pids_def env_var_handed_pid pid_names_distinct)

lemma handed_fds_other:
  "k \<notin> fst ` set (handed_fds fds) \<Longrightarrow> env_var (rev (handed_fds fds)) k = None"
  by (simp only: env_var_None_iff set_rev not_False_eq_True)

text \<open>The environment a spawned supervisor sees.\<close>

definition self_child_env :: "env \<Rightarrow> control_fds \<Rightarrow> adopted_state \<Rightarrow> u64 \<Rightarrow> raw_fd \<Rightarrow> env" where
  "self_child_env parent fds a g w =
     fold (\<lambda>(k, v). env_set k v) (self_upgrade_env fds a g w) (scrub_fdpass_env parent parent)"

lemma self_child_env_var:
  "env_var (self_child_env parent fds a g w) k =
     (case env_var (rev (self_upgrade_env fds a g w)) k of
        Some v \<Rightarrow> Some v
      | None \<Rightarrow> if starts_with ''FDPASS_'' k \<and> k \<notin> set PRESERVED_ENV then None else env_var parent k)"
  by (simp add: self_child_env_def env_var_fold_set env_var_scrub split: option.splits)

lemma self_env_fds:
  "env_var (self_child_env parent fds a g w) ENV_CTRL_ADMIN_FD = Some (dec_int (fd_admin fds))"
  "env_var (self_child_env parent fds a g w) ENV_CTRL_PROCESSOR_FD = Some (dec_int (fd_processor_ctrl fds))"
  "env_var (self_child_env parent fds a g w) ENV_CTRL_PLAIN_FD = Some (dec_int (fd_plain_ctrl fds))"
  "env_var (self_child_env parent fds a g w) ENV_CTRL_TLS_FD = Some (dec_int (fd_tls_ctrl fds))"
  "env_var (self_child_env parent fds a g w) ENV_CTRL_SCANNER_FD = Some (dec_int (fd_scanner_ctrl fds))"
  "env_var (self_child_env parent fds a g w) ENV_CTRL_DRAINER_FD = Some (dec_int (fd_drainer fds))"
  "env_var (self_child_env parent fds a g w) ENV_CTRL_SPAWNER_FD = Some (dec_int (fd_spawner fds))"
  "env_var (self_child_env parent fds a g w) ENV_LISTENER_PROCESSOR_FD = Some (dec_int (fd_processor_listener fds))"
  "env_var (self_child_env parent fds a g w) ENV_LISTENER_PLAIN_FD = Some (dec_int (fd_plain_listener fds))"
  "env_var (self_child_env parent fds a g w) ENV_LISTENER_TLS_FD = Some (dec_int (fd_tls_listener fds))"
  "env_var (self_child_env parent fds a g w) ENV_LISTENER_SCANNER_FD = Some (dec_int (fd_scanner_listener fds))"
  by (simp_all add: self_child_env_var self_upgrade_env_def handed_pids_other env_names, simp_all add: handed_fds_def env_names)

lemma self_env_pid:
  assumes "k \<in> {ENV_PROCESSOR_PID, ENV_PLAIN_PID, ENV_TLS_PID, ENV_SCANNER_PID, ENV_PROCESSOR_GEN, ENV_PLAIN_GEN,
     ENV_TLS_GEN, ENV_SCANNER_GEN}"
  shows "env_var (self_child_env parent fds a g w) k = env_var (rev (handed_pids a)) k"
proof -
  have "k \<notin> fst ` set (handed_fds fds)" "k \<noteq> ENV_SUP_GENERATION" "k \<noteq> ENV_READY_FD"
    "starts_with ''FDPASS_'' k" "k \<notin> set PRESERVED_ENV"
    using assms by (auto simp: handed_fds_def env_names starts_with_def PRESERVED_ENV_def)
  then show ?thesis
    by (simp add: self_child_env_var self_upgrade_env_def handed_fds_other split: option.splits)
qed

lemma self_env_generation:
  "env_var (self_child_env parent fds a g w) ENV_SUP_GENERATION = Some (dec (unat (g + 1)))"
  "env_var (self_child_env parent fds a g w) ENV_READY_FD = Some (dec_int w)"
  by (simp_all add: self_child_env_var self_upgrade_env_def env_names)

text \<open>A worker that is not handed over reads as absent, at generation zero.\<close>

definition handed_state :: "adopted_state \<Rightarrow> adopted_state" where
  "handed_state a = a\<lparr>
     ad_processor_gen := (if ad_processor a = None then 0 else ad_processor_gen a),
     ad_plain_gen := (if ad_plain a = None then 0 else ad_plain_gen a),
     ad_tls_gen := (if ad_tls a = None then 0 else ad_tls_gen a),
     ad_scanner_gen := (if ad_scanner a = None then 0 else ad_scanner_gen a)\<rparr>"

lemma env_pid_handed:
  assumes "env_var e k = map_option (\<lambda>p. dec (unat p)) (x :: u32 option)"
  shows "env_pid e k = x"
  using assms by (cases x) (simp_all add: env_pid_def)

lemma env_generation_handed:
  assumes "env_var e k = map_option (\<lambda>_. dec (unat g)) (x :: u32 option)"
  shows "env_generation e k = (if x = None then 0 else g)"
  using assms by (cases x) (simp_all add: env_generation_def)

lemma adopted_from_self_env: "adopted_from_env (self_child_env parent fds a g w) = handed_state a"
  by (simp add: adopted_from_env_def handed_state_def env_pid_handed [OF trans [OF self_env_pid handed_pids_lookup(1)]]
      env_pid_handed [OF trans [OF self_env_pid handed_pids_lookup(2)]]
      env_pid_handed [OF trans [OF self_env_pid handed_pids_lookup(3)]]
      env_pid_handed [OF trans [OF self_env_pid handed_pids_lookup(4)]]
      env_generation_handed [OF trans [OF self_env_pid handed_pids_lookup(5)]]
      env_generation_handed [OF trans [OF self_env_pid handed_pids_lookup(6)]]
      env_generation_handed [OF trans [OF self_env_pid handed_pids_lookup(7)]]
      env_generation_handed [OF trans [OF self_env_pid handed_pids_lookup(8)]])

lemma acquire_inherited:
  assumes "op_sd s = []" and "env_var (oo_env os) k = Some (dec_int fd)" and "i32_range fd"
  shows "adopt_or_bind_uds_worker os k n path up s = (Inr fd, s)"
    and "adopt_or_bind_tcp_worker os k n port s = (Inr fd, s)"
    and "oo_wrap os fd = Inr () \<Longrightarrow> adopt_or_bind_control os k n path up s = (Inr fd, s)"
  using assms
  by (simp_all add: inherited_fd_def adopt_or_bind_uds_worker_def adopt_or_bind_tcp_worker_def
      adopt_or_bind_control_def)

lemma listeners_inherited:
  assumes "oo_env os = self_child_env parent fds a g w" and "\<And>fd. oo_wrap os fd = Inr ()"
    and "\<And>fd l. (fd, l) \<in> set (self_upgrade_fds fds) \<Longrightarrow> i32_range fd" and "op_sd s = []"
  shows "acquire_all (open_control_listeners os cfg up @ open_worker_listener_fds os cfg up) s =
    (Inr [fd_admin fds, fd_processor_ctrl fds, fd_plain_ctrl fds, fd_tls_ctrl fds, fd_scanner_ctrl fds,
      fd_drainer fds, fd_spawner fds, fd_processor_listener fds, fd_scanner_listener fds, fd_plain_listener fds,
      fd_tls_listener fds], s)"
proof -
  have r: "i32_range (fd_admin fds)" "i32_range (fd_processor_ctrl fds)" "i32_range (fd_plain_ctrl fds)"
    "i32_range (fd_tls_ctrl fds)" "i32_range (fd_scanner_ctrl fds)" "i32_range (fd_drainer fds)"
    "i32_range (fd_spawner fds)" "i32_range (fd_processor_listener fds)" "i32_range (fd_plain_listener fds)"
    "i32_range (fd_tls_listener fds)" "i32_range (fd_scanner_listener fds)"
    using assms(3) unfolding self_upgrade_fds_def by (meson list.set_intros)+
  show ?thesis
    by (simp add: open_control_listeners_def open_worker_listener_fds_def assms(2)
        acquire_inherited [OF assms(4)] assms(1) self_env_fds r)
qed

text \<open>A successor whose environment this is, and that the service manager's variables do not name.\<close>

lemma successor_listeners:
  assumes "oo_env os = self_child_env parent fds a g w" and "\<And>fd. oo_wrap os fd = Inr ()"
    and "\<And>fd l. (fd, l) \<in> set (self_upgrade_fds fds) \<Longrightarrow> i32_range fd"
    and "\<And>s. env_var parent ''LISTEN_PID'' = Some s \<Longrightarrow> \<exists>p. parse_u32 s = Some p \<and> p \<noteq> pid"
  shows "open_supervisor_listeners pid os cfg n = (Inr fds, \<lparr>op_sd = [], op_removed = []\<rparr>)"
proof -
  have "env_var (oo_env os) ''LISTEN_PID'' = env_var parent ''LISTEN_PID''"
    by (simp add: assms(1) self_child_env_var self_upgrade_env_def handed_pids_other handed_fds_other starts_with_def
        env_names) (simp add: handed_fds_def env_names)
  with assms(4) have "sd_from_env pid (oo_env os) = Inr ([], oo_env os)"
    by (intro sd_from_env_other_process) simp
  then show ?thesis
    using listeners_inherited [OF assms(1-3)] by (simp add: open_supervisor_listeners_def)
qed

section \<open>Lemmas: the attempt\<close>

definition self_guards :: "control_fds \<Rightarrow> cloexec_guard list" where
  "self_guards fds = map (\<lambda>(fd, _). \<lparr>guard_fd = fd, armed = True\<rparr>) (self_upgrade_fds fds)"

lemma self_clear_list:
  "fst ` set (map (\<lambda>(fd, label). (fd, [''clear CLOEXEC '' @ label])) (self_upgrade_fds fds)) =
     fst ` set (self_upgrade_fds fds)"
  by (force simp: image_iff)

lemma do_self_upgrade_committed:
  assumes "do_self_upgrade os exe fds a g t = (Committed cmd, t')"
  obtains r w where "os_pipe os = Inr (r, w)" and "uc_env cmd = self_child_env (os_environ os) fds a g w"
    and "wait_for_child_ready (os_ready os) = Inr ()" and "os_spawn os cmd = Inr ()"
    and "t' = (\<lambda>fd. t fd \<and> fd \<notin> fst ` set (self_upgrade_fds fds))(r := False, w := False, r := True)"
proof -
  let ?l = "map (\<lambda>(fd, label). (fd, [''clear CLOEXEC '' @ label])) (self_upgrade_fds fds)"
  have commit: "fold (guard_commit fc) gs u = u" for fc gs u by (induction gs) simp_all
  obtain gs t1 where gs: "clear_guards (os_fcntl os) ?l [] t = (Inr gs, t1)"
    using assms by (auto simp: do_self_upgrade_def Let_def split: prod.splits sum.splits)
  have t1: "t1 = (\<lambda>fd. t fd \<and> fd \<notin> fst ` set (self_upgrade_fds fds))"
    using clear_guards_success(2) [OF gs] by (simp only: self_clear_list)
  obtain r w t2 where mk: "make_ready_pipe (os_fcntl os) (os_pipe os) t1 = Inr ((r, w), t2)"
    and fin: "wait_for_child_ready (os_ready os) = Inr ()" "os_spawn os cmd = Inr ()" "t' = t2"
    and env: "uc_env cmd = self_child_env (os_environ os) fds a g w"
    using assms gs
    by (auto simp: do_self_upgrade_def Let_def commit self_child_env_def split: prod.splits sum.splits)
  from mk have "os_pipe os = Inr (r, w)" "t2 = t1(r := False, w := False, r := True)"
    by (auto simp: make_ready_pipe_def and_then_Inr_iff set_cloexec_def)
  with that env fin t1 show thesis by blast
qed

lemma do_self_upgrade_undone:
  assumes "do_self_upgrade os exe fds a g t = (out, t')" and "\<nexists>cmd. out = Committed cmd"
    and "\<And>fd l. (fd, l) \<in> set (self_upgrade_fds fds) \<Longrightarrow> t fd"
    and "\<And>r w. os_pipe os = Inr (r, w) \<Longrightarrow> x \<noteq> r \<and> x \<noteq> w"
  shows "t' x = t x"
proof -
  let ?l = "map (\<lambda>(fd, label). (fd, [''clear CLOEXEC '' @ label])) (self_upgrade_fds fds)"
  have was: "\<And>fd. fd \<in> fst ` set ?l \<Longrightarrow> t fd" using assms(3) unfolding self_clear_list by force
  show ?thesis
  proof (cases "clear_guards (os_fcntl os) ?l [] t")
    case (Pair res t1)
    show ?thesis
    proof (cases res)
      case (Inl e)
      have "t1 = t" by (rule clear_guards_fail_restores [OF Pair [unfolded Inl] was])
      with Pair Inl assms(1) show ?thesis by (auto simp: do_self_upgrade_def Let_def)
    next
      case (Inr gs)
      note run = Pair [unfolded Inr]
      have ok: "guards_ok (os_fcntl os) gs"
        using clear_guards_outcome [OF _ run] by (simp add: guards_ok_def)
      have drop: "drop_guards (os_fcntl os) gs u x = t x" if "u x = t1 x" for u
        using clear_guards_success(3) [OF run] was that by (simp add: drop_guards_ok [OF ok] fun_eq_iff) metis
      from assms(1,2) run obtain u where u: "t' = drop_guards (os_fcntl os) gs u"
        and "u = t1 \<or> (\<exists>rw. make_ready_pipe (os_fcntl os) (os_pipe os) t1 = Inr (rw, u))"
        by (auto simp: do_self_upgrade_def Let_def split: prod.splits sum.splits)
      then have "u x = t1 x"
        using assms(4) by (auto simp: make_ready_pipe_def and_then_Inr_iff set_cloexec_def)
      with drop u show ?thesis by blast
    qed
  qed
qed

section \<open>Properties\<close>

text \<open>
  A supervisor that commits its own upgrade leaves nothing behind: the successor,
  reading the environment it was spawned with, adopts exactly the eleven sockets of its
  predecessor (none is bound anew, no socket file is removed), the process ids of the workers with
  their generations, and the next generation of its own; and the sockets are inherited across the
  exec. It needs the descriptors to fit the platform's integer and the service manager's variables
  not to name the successor.
\<close>

theorem self_upgrade_roundtrip:
  assumes "do_self_upgrade os exe fds a g t = (Committed cmd, t')"
    and "\<And>fd l. (fd, l) \<in> set (self_upgrade_fds fds) \<Longrightarrow> i32_range fd"
    and "\<And>r w. os_pipe os = Inr (r, w) \<Longrightarrow> r \<notin> fst ` set (self_upgrade_fds fds)"
    and "\<And>s. env_var (os_environ os) ''LISTEN_PID'' = Some s \<Longrightarrow> \<exists>p. parse_u32 s = Some p \<and> p \<noteq> pid"
    and "\<And>fd. oo_wrap oo fd = Inr ()" and "oo_env oo = uc_env cmd"
  shows "open_supervisor_listeners pid oo cfg (env_generation (uc_env cmd) ENV_SUP_GENERATION) =
      (Inr fds, \<lparr>op_sd = [], op_removed = []\<rparr>) \<and>
    adopted_from_env (uc_env cmd) = handed_state a \<and>
    env_generation (uc_env cmd) ENV_SUP_GENERATION = g + 1 \<and>
    (\<forall>fd \<in> fst ` set (self_upgrade_fds fds). \<not> t' fd)"
proof -
  from assms(1) obtain r w where rw: "os_pipe os = Inr (r, w)"
    and env: "uc_env cmd = self_child_env (os_environ os) fds a g w"
    and t': "t' = (\<lambda>fd. t fd \<and> fd \<notin> fst ` set (self_upgrade_fds fds))(r := False, w := False, r := True)"
    by (elim do_self_upgrade_committed)
  have "open_supervisor_listeners pid oo cfg (env_generation (uc_env cmd) ENV_SUP_GENERATION) =
      (Inr fds, \<lparr>op_sd = [], op_removed = []\<rparr>)"
    by (rule successor_listeners [OF trans [OF assms(6) env] assms(5) assms(2) assms(4)])
  moreover have "adopted_from_env (uc_env cmd) = handed_state a" by (simp add: env adopted_from_self_env)
  moreover have "env_generation (uc_env cmd) ENV_SUP_GENERATION = g + 1"
    by (simp add: env env_generation_def self_env_generation)
  moreover have "\<forall>fd \<in> fst ` set (self_upgrade_fds fds). \<not> t' fd"
  proof
    fix fd assume "fd \<in> fst ` set (self_upgrade_fds fds)"
    moreover from this have "fd \<noteq> r" using assms(3) [OF rw] by blast
    ultimately show "\<not> t' fd" by (simp add: t')
  qed
  ultimately show ?thesis by blast
qed

text \<open>A concrete world in which every call succeeds: eleven descriptors from 10 on, a ready pipe at 30, 31.\<close>

definition quiet_os :: "ready_read \<Rightarrow> upgrade_os" where
  "quiet_os ready = \<lparr>os_freebsd = False, os_environ = [(ENV_TLS_PID, ''99''), (''HOME'', ''/'')],
     os_into_std = Inr 5, os_fcntl = (\<lambda>_ _. None), os_pipe = Inr (30, 31), os_capmode = None,
     os_pread = (\<lambda>_ _. None), os_spawn = (\<lambda>_. Inr ()), os_ready = ready, os_reattach = Inr ()\<rparr>"

definition quiet_fds :: control_fds where
  "quiet_fds = \<lparr>fd_admin = 10, fd_processor_ctrl = 11, fd_plain_ctrl = 12, fd_tls_ctrl = 13, fd_scanner_ctrl = 14,
     fd_drainer = 15, fd_spawner = 16, fd_processor_listener = 17, fd_plain_listener = 18, fd_tls_listener = 19,
     fd_scanner_listener = 20\<rparr>"

definition quiet_state :: adopted_state where
  "quiet_state = \<lparr>ad_processor = Some 100, ad_plain = Some 101, ad_tls = None, ad_scanner = Some 103,
     ad_processor_gen = 2, ad_plain_gen = 0, ad_tls_gen = 7, ad_scanner_gen = 1\<rparr>"

definition quiet_cmd :: upgrade_cmd where
  "quiet_cmd = \<lparr>uc_exe = ''/echod'', uc_args = [''supervisor''],
     uc_env = self_child_env [(ENV_TLS_PID, ''99''), (''HOME'', ''/'')] quiet_fds quiet_state 4 31\<rparr>"

lemma quiet_fds_range: "(fd, l) \<in> set (self_upgrade_fds quiet_fds) \<Longrightarrow> i32_range fd \<and> fd \<noteq> 30"
  by (auto simp: self_upgrade_fds_def quiet_fds_def i32_range_def)

lemma quiet_clear:
  "clear_guards (\<lambda>_ _. None) l gs t = (Inr (gs @ map (\<lambda>(fd, _). \<lparr>guard_fd = fd, armed = True\<rparr>) l),
     \<lambda>fd. t fd \<and> fd \<notin> fst ` set l)"
  by (induction l arbitrary: gs t)
    (auto simp: guard_clear_def clear_cloexec_def change_cloexec_def fun_eq_iff)

lemma quiet_commits:
  "\<exists>t'. do_self_upgrade (quiet_os (ReadGot ready_ack)) (Inr ''/echod'') quiet_fds quiet_state 4 (\<lambda>_. True) =
     (Committed quiet_cmd, t')"
  by (simp add: do_self_upgrade_def quiet_os_def quiet_clear make_ready_pipe_def set_cloexec_def
      change_cloexec_def quiet_cmd_def self_child_env_def del: change_cloexec_Inr)

theorem self_upgrade_roundtrip_witness:
  "adopted_from_env (uc_env quiet_cmd) = quiet_state\<lparr>ad_tls_gen := 0\<rparr> \<and>
   fst (open_supervisor_listeners 7 \<lparr>oo_env = uc_env quiet_cmd, oo_bind_uds = (\<lambda>_. Inl []), oo_bind_tcp = (\<lambda>_. Inl []),
     oo_chmod = (\<lambda>_. Inl []), oo_wrap = (\<lambda>_. Inr ())\<rparr> config_default
     (env_generation (uc_env quiet_cmd) ENV_SUP_GENERATION)) = Inr quiet_fds"
proof -
  let ?oo = "\<lparr>oo_env = uc_env quiet_cmd, oo_bind_uds = (\<lambda>_. Inl []), oo_bind_tcp = (\<lambda>_. Inl []),
     oo_chmod = (\<lambda>_. Inl []), oo_wrap = (\<lambda>_. Inr ())\<rparr>"
  obtain t' where run: "do_self_upgrade (quiet_os (ReadGot ready_ack)) (Inr ''/echod'') quiet_fds quiet_state 4
      (\<lambda>_. True) = (Committed quiet_cmd, t')"
    using quiet_commits by blast
  have pipe: "r \<notin> fst ` set (self_upgrade_fds quiet_fds)" if "os_pipe (quiet_os (ReadGot ready_ack)) = Inr (r, w)" for r w
    using that quiet_fds_range by (fastforce simp: quiet_os_def)
  have sd: "\<exists>p. parse_u32 s = Some p \<and> p \<noteq> 7"
    if "env_var (os_environ (quiet_os (ReadGot ready_ack))) ''LISTEN_PID'' = Some s" for s
    using that by (simp add: quiet_os_def env_names)
  have "open_supervisor_listeners 7 ?oo config_default (env_generation (uc_env quiet_cmd) ENV_SUP_GENERATION) =
      (Inr quiet_fds, \<lparr>op_sd = [], op_removed = []\<rparr>) \<and>
    adopted_from_env (uc_env quiet_cmd) = handed_state quiet_state \<and>
    env_generation (uc_env quiet_cmd) ENV_SUP_GENERATION = 4 + 1 \<and>
    (\<forall>fd \<in> fst ` set (self_upgrade_fds quiet_fds). \<not> t' fd)"
    by (rule self_upgrade_roundtrip [OF run]) (auto dest: quiet_fds_range pipe sd)
  moreover have "handed_state quiet_state = quiet_state\<lparr>ad_tls_gen := 0\<rparr>"
    by (simp add: handed_state_def quiet_state_def)
  ultimately show ?thesis by (metis fst_conv)
qed

text \<open>
  Anything but a commit leaves the supervisor as it was: when the handed sockets were
  close-on-exec, every flag outside the ready pipe has its old value, whether a call failed half
  way through the preparation or the child did not come up. Under a grandparent the signal does
  nothing at all, so that its kill of the process group cannot hit a successor.
\<close>

theorem self_upgrade_reversible:
  assumes "on_sighup os exe fds slots l g t = (out, t')" and "\<nexists>cmd. out = Some (Committed cmd)"
    and "\<And>fd n. (fd, n) \<in> set (self_upgrade_fds fds) \<Longrightarrow> t fd"
  shows "(if env_var (os_environ os) ENV_UNDER_GRANDPARENT \<noteq> None then out = None \<and> t' = t
      else (\<forall>x. (\<nexists>r w. os_pipe os = Inr (r, w) \<and> x \<in> {r, w}) \<longrightarrow> t' x = t x) \<and>
        (out = Some RolledBack \<longleftrightarrow> (\<nexists>e. out = Some (AttemptFailed e))))"
proof (cases "env_var (os_environ os) ENV_UNDER_GRANDPARENT")
  case None
  with assms(1) obtain r where r: "do_self_upgrade os exe fds (pid_slots_snapshot slots l) g t = (r, t')" "out = Some r"
    by (auto simp: on_sighup_def split: prod.splits)
  moreover have "\<nexists>cmd. r = Committed cmd" using assms(2) r(2) by blast
  ultimately have "t' x = t x" if "\<nexists>r w. os_pipe os = Inr (r, w) \<and> x \<in> {r, w}" for x
    using that by (intro do_self_upgrade_undone [OF r(1)] assms(3)) auto
  with None r(2) assms(2) show ?thesis by (cases r) auto
next
  case (Some v)
  with assms(1) show ?thesis by (simp add: on_sighup_def)
qed

theorem self_upgrade_reversible_witness:
  "snd (on_sighup (quiet_os ReadTimedOut) (Inr ''/echod'') quiet_fds
     \<lparr>ps_processor = None, ps_plain = None, ps_tls = None, ps_scanner = None\<rparr>
     \<lparr>lk_processor = worker_link_default, lk_plain = worker_link_default, lk_tls = worker_link_default,
       lk_scanner = worker_link_default\<rparr> 4 (\<lambda>_. True)) 17"
proof -
  let ?s = "\<lparr>ps_processor = None, ps_plain = None, ps_tls = None, ps_scanner = None\<rparr>"
  let ?l = "\<lparr>lk_processor = worker_link_default, lk_plain = worker_link_default, lk_tls = worker_link_default,
       lk_scanner = worker_link_default\<rparr>"
  let ?run = "on_sighup (quiet_os ReadTimedOut) (Inr ''/echod'') quiet_fds ?s ?l 4 (\<lambda>_. True)"
  have "fst ?run = Some RolledBack"
    by (simp add: on_sighup_def do_self_upgrade_def quiet_os_def quiet_clear make_ready_pipe_def set_cloexec_def
        change_cloexec_def wait_for_child_ready_def env_names del: change_cloexec_Inr)
  then have "\<nexists>cmd. fst ?run = Some (Committed cmd)" by simp
  with self_upgrade_reversible [of "quiet_os ReadTimedOut" "Inr ''/echod''" quiet_fds ?s ?l 4 "\<lambda>_. True"
      "fst ?run" "snd ?run"]
  show ?thesis by (simp add: quiet_os_def env_names)
qed

end
