(* ===== verification/Utf8.thy ===== *)
theory Utf8
  imports Prelude
begin

text \<open>
  The two operations on text of the standard library that the workers apply to bytes from a peer:
  lossy decoding (\<^verbatim>\<open>String::from_utf8_lossy\<close>) and trimming (\<^verbatim>\<open>str::trim\<close>). A string is its
  UTF-8 encoding here, one character per byte, so both map bytes to bytes.
\<close>

section \<open>Lossy decoding\<close>

abbreviation byte :: "char \<Rightarrow> nat" where
  "byte c \<equiv> of_char c"

text \<open>The length a first byte announces, zero for a byte that cannot start a character.\<close>

definition utf8_width :: "nat \<Rightarrow> nat" where
  "utf8_width b =
     (if b < 0x80 then 1
      else if 0xC2 \<le> b \<and> b \<le> 0xDF then 2
      else if 0xE0 \<le> b \<and> b \<le> 0xEF then 3
      else if 0xF0 \<le> b \<and> b \<le> 0xF4 then 4
      else 0)"

definition continuation :: "char \<Rightarrow> bool" where
  "continuation c \<longleftrightarrow> 0x80 \<le> byte c \<and> byte c \<le> 0xBF"

text \<open>Overlong forms, surrogates and values past the last code point show in the second byte.\<close>

definition second_ok :: "nat \<Rightarrow> char \<Rightarrow> bool" where
  "second_ok b c \<longleftrightarrow>
     (if b = 0xE0 then 0xA0 \<le> byte c \<and> byte c \<le> 0xBF
      else if b = 0xED then 0x80 \<le> byte c \<and> byte c \<le> 0x9F
      else if b = 0xF0 then 0x90 \<le> byte c \<and> byte c \<le> 0xBF
      else if b = 0xF4 then 0x80 \<le> byte c \<and> byte c \<le> 0x8F
      else continuation c)"

fun tail_length :: "nat \<Rightarrow> nat \<Rightarrow> string \<Rightarrow> nat" where
  "tail_length b n [] = 0"
| "tail_length b n (c # cs) =
     (if n = 0 \<or> \<not> second_ok b c then 0 else Suc (length (takeWhile continuation (take (n - 1) cs))))"

text \<open>Whether the text starts with a well-formed character, and how many bytes are taken either way.\<close>

fun utf8_step :: "string \<Rightarrow> bool \<times> nat" where
  "utf8_step [] = (False, 0)"
| "utf8_step (c # cs) =
     (let w = utf8_width (byte c); n = Suc (tail_length (byte c) (w - 1) cs) in (n = w, n))"

definition replacement :: string where
  "replacement = [CHR 0xEF, CHR 0xBF, CHR 0xBD]"

lemma utf8_step_bounds: "snd (utf8_step (c # cs)) \<noteq> 0" "snd (utf8_step s) \<le> length s"
proof -
  show "snd (utf8_step (c # cs)) \<noteq> 0"
    by (simp add: Let_def)
  show "snd (utf8_step s) \<le> length s"
  proof (cases s)
    case (Cons c cs)
    have "length (takeWhile continuation (take m ds)) \<le> length ds" for m ds
      by (rule order_trans [OF length_takeWhile_le]) simp
    then show ?thesis
      using Cons by (cases cs) (auto simp: Let_def)
  qed simp
qed

fun utf8_lossy :: "string \<Rightarrow> string" where
  "utf8_lossy [] = []"
| "utf8_lossy (c # cs) =
     (case utf8_step (c # cs) of
        (ok, n) \<Rightarrow> (if ok then take n (c # cs) else replacement) @ utf8_lossy (drop (n - 1) cs))"

section \<open>Trimming\<close>

text \<open>The encodings of the characters with the property White_Space.\<close>

definition white_space :: "string list" where
  "white_space =
     map (\<lambda>n. [char_of n]) [9, 10, 11, 12, 13, 32 :: nat] @
     [[CHR 0xC2, CHR 0x85], [CHR 0xC2, CHR 0xA0], [CHR 0xE1, CHR 0x9A, CHR 0x80]] @
     map (\<lambda>n. [CHR 0xE2, CHR 0x80, char_of n])
       [0x80, 0x81, 0x82, 0x83, 0x84, 0x85, 0x86, 0x87, 0x88, 0x89, 0x8A, 0xA8, 0xA9, 0xAF :: nat] @
     [[CHR 0xE2, CHR 0x81, CHR 0x9F], [CHR 0xE3, CHR 0x80, CHR 0x80]]"

function strip_start :: "string list \<Rightarrow> string \<Rightarrow> string" where
  "strip_start ws s =
     (case List.find (\<lambda>w. w \<noteq> [] \<and> starts_with w s) ws of
        None \<Rightarrow> s
      | Some w \<Rightarrow> strip_start ws (drop (length w) s))"
  by pat_completeness auto
termination
proof (relation "measure (\<lambda>(ws, s). length s)")
  fix ws s w
  assume "List.find (\<lambda>w. w \<noteq> [] \<and> starts_with w s) ws = Some w"
  then have "w \<noteq> []" "starts_with w s"
    by (auto simp: find_Some_iff)
  then have "w \<noteq> []" "s \<noteq> []"
    by (auto simp: starts_with_def)
  then show "((ws, drop (length w) s), ws, s) \<in> measure (\<lambda>(ws, s). length s)"
    by simp
qed simp

declare strip_start.simps [simp del]

definition trim :: "string \<Rightarrow> string" where
  "trim s = rev (strip_start (map rev white_space) (rev (strip_start white_space s)))"

section \<open>Lemmas\<close>

lemma utf8_lossy_step:
  assumes "s \<noteq> []"
  shows "utf8_lossy s = (if fst (utf8_step s) then take (snd (utf8_step s)) s else replacement) @
    utf8_lossy (drop (snd (utf8_step s)) s)"
proof -
  obtain c cs where s: "s = c # cs"
    using assms by (cases s) auto
  obtain m where "snd (utf8_step s) = Suc m"
    using utf8_step_bounds(1) [of c cs] s not0_implies_Suc by auto
  then show ?thesis
    using s by (cases "utf8_step s") auto
qed

text \<open>A well-formed character is recognised whatever follows it.\<close>

lemma utf8_step_local:
  assumes "utf8_step s = (True, n)"
  shows "utf8_step (take n s @ t) = (True, n)"
proof (cases s)
  case (Cons c cs)
  let ?w = "utf8_width (byte c)"
  have n: "n = ?w" "n = Suc (tail_length (byte c) (?w - 1) cs)"
    using assms Cons by (auto simp: Let_def)
  show ?thesis
  proof (cases cs)
    case Nil
    then have "?w = 1"
      using n by simp
    then show ?thesis
      using Cons Nil n by (cases t) (auto simp: Let_def)
  next
    case (Cons d ds)
    note cs = this
    show ?thesis
    proof (cases "?w - 1 = 0 \<or> \<not> second_ok (byte c) d")
      case True
      then have "?w = 1"
        using n cs by auto
      then show ?thesis
        using \<open>s = c # cs\<close> cs n by (cases t) (auto simp: Let_def)
    next
      case False
      let ?k = "?w - 2"
      have "length (takeWhile continuation (take ?k ds)) = ?k"
        using n cs False by (auto simp: numeral_2_eq_2)
      then have all: "takeWhile continuation (take ?k ds) = take ?k ds" "length (take ?k ds) = ?k"
        using length_takeWhile_le [of continuation "take ?k ds"] takeWhile_eq_take [of continuation "take ?k ds"]
        by auto
      have "take n s @ t = c # d # (take ?k ds @ t)"
        using \<open>s = c # cs\<close> cs n False by (auto simp: numeral_2_eq_2 take_Cons' split: nat.splits)
      moreover have "take ?k (take ?k ds @ t) = take ?k ds"
        using all(2) by simp
      ultimately show ?thesis
        using n False all cs by (auto simp: Let_def numeral_2_eq_2)
    qed
  qed
qed (use assms in simp)

lemma utf8_lossy_keeps:
  assumes "utf8_step s = (True, n)"
  shows "utf8_lossy (take n s @ t) = take n s @ utf8_lossy t"
proof -
  have "s \<noteq> []"
    using assms by auto
  then have "n \<noteq> 0" "n \<le> length s"
    using assms utf8_step_bounds(1) [of "hd s" "tl s"] utf8_step_bounds(2) [of s] by auto
  then have "take n s \<noteq> []" "length (take n s) = n"
    using \<open>s \<noteq> []\<close> by auto
  then show ?thesis
    using utf8_lossy_step [of "take n s @ t"] utf8_step_local [OF assms, of t] by simp
qed

lemma utf8_lossy_replacement: "utf8_lossy (replacement @ t) = replacement @ utf8_lossy t"
proof -
  have "utf8_step replacement = (True, 3)"
    by (simp add: replacement_def utf8_width_def second_ok_def continuation_def Let_def)
  from utf8_lossy_keeps [OF this, of t] show ?thesis
    by (simp add: replacement_def)
qed

text \<open>Decoding yields well-formed text: decoding it again changes nothing.\<close>

lemma utf8_lossy_idem: "utf8_lossy (utf8_lossy s) = utf8_lossy s"
proof (induction s rule: length_induct)
  case (1 s)
  show ?case
  proof (cases s)
    case (Cons c cs)
    obtain ok n where step: "utf8_step s = (ok, n)"
      by fastforce
    have "n \<noteq> 0"
      using utf8_step_bounds(1) [of c cs] step Cons by simp
    then have IH: "utf8_lossy (utf8_lossy (drop n s)) = utf8_lossy (drop n s)"
      using 1 Cons by simp
    have eq: "utf8_lossy s = (if ok then take n s else replacement) @ utf8_lossy (drop n s)"
      using utf8_lossy_step [of s] step Cons by simp
    show ?thesis
    proof (cases ok)
      case True
      then show ?thesis
        using eq IH step utf8_lossy_keeps [of s n] by simp
    next
      case False
      then show ?thesis
        using eq IH by (simp add: utf8_lossy_replacement)
    qed
  qed simp
qed

lemma utf8_lossy_ascii: "\<forall>c \<in> set s. byte c < 0x80 \<Longrightarrow> utf8_lossy s = s"
proof (induction s)
  case (Cons c cs)
  have "utf8_step (c # cs) = (True, 1)"
    using Cons.prems by (cases cs) (simp_all add: utf8_width_def Let_def)
  with Cons show ?case
    by simp
qed simp

lemma utf8_lossy_length: "length (utf8_lossy s) \<le> 3 * length s"
proof (induction s rule: length_induct)
  case (1 s)
  show ?case
  proof (cases s)
    case (Cons c cs)
    obtain ok n where step: "utf8_step s = (ok, n)"
      by fastforce
    have n: "n \<noteq> 0" "n \<le> length s"
      using utf8_step_bounds(1) [of c cs] utf8_step_bounds(2) [of s] step Cons by simp_all
    then have "length (utf8_lossy (drop n s)) \<le> 3 * (length s - n)"
      using 1 Cons by (metis diff_less length_drop length_greater_0_conv list.distinct(1) neq0_conv)
    then show ?thesis
      using utf8_lossy_step [of s] step Cons n by (auto simp: replacement_def)
  qed simp
qed

lemma strip_start_length: "length (strip_start ws s) \<le> length s"
proof (induction ws s rule: strip_start.induct)
  case (1 ws s)
  then show ?case
    by (subst strip_start.simps) (fastforce split: option.splits)
qed

lemma trim_length: "length (trim s) \<le> length s"
  using strip_start_length [of "map rev white_space" "rev (strip_start white_space s)"]
    strip_start_length [of white_space s] by (simp add: trim_def)

end
