(* ===== verification/Worker_Common.thy ===== *)
theory Worker_Common
  imports Self_Upgrade Auth Utf8
begin

text \<open>
  Model of what the workers share: bounded dialing (\<^verbatim>\<open>src/worker_common/dial.rs\<close>), the passing of
  a descriptor over a socket (\<^verbatim>\<open>src/worker_common/scm.rs\<close>), the acquisition of a listener
  (\<^verbatim>\<open>src/worker_common/listeners.rs\<close>), and the supervisor's side of that exchange
  (\<^verbatim>\<open>src/supervisor/spawner.rs\<close>). Connecting, the message calls and JSON are parameters.
\<close>

section \<open>Dialing\<close>

definition dial_delay :: "nat \<Rightarrow> duration" where
  "dial_delay attempt = from_millis (if attempt < 5 then 100 else 300)"

definition DIAL_ATTEMPTS :: nat where
  "DIAL_ATTEMPTS = 50"

text \<open>
  \<^verbatim>\<open>dial_with_retry\<close>: the connection or the last error, with the time slept; \<^verbatim>\<open>connect n\<close> is what
  attempt \<open>n\<close> comes to.
\<close>

fun dial_from :: "(nat \<Rightarrow> 'a result) \<Rightarrow> nat list \<Rightarrow> error option \<Rightarrow> 'a result \<times> duration" where
  "dial_from connect [] last_err =
     (Inl (case last_err of Some e \<Rightarrow> e | None \<Rightarrow> [''dial budget exhausted'']), 0)"
| "dial_from connect (n # ns) last_err =
     (case connect n of
        Inr s \<Rightarrow> (Inr s, 0)
      | Inl e \<Rightarrow> (case dial_from connect ns (Some e) of (r, d) \<Rightarrow> (r, dial_delay n + d)))"

definition dial_with_retry :: "(nat \<Rightarrow> 'a result) \<Rightarrow> 'a result \<times> duration" where
  "dial_with_retry connect = dial_from connect [0..<DIAL_ATTEMPTS] None"

fun dial_plane_from :: "(nat \<Rightarrow> 'a result) \<Rightarrow> nat list \<Rightarrow> 'a option \<times> duration" where
  "dial_plane_from dial [] = (None, 0)"
| "dial_plane_from dial (n # ns) =
     (case dial n of
        Inr s \<Rightarrow> (Some s, 0)
      | Inl _ \<Rightarrow> (case dial_plane_from dial ns of (r, d) \<Rightarrow> (r, dial_delay n + d)))"

definition dial_control_plane :: "(nat \<Rightarrow> 'a result) \<Rightarrow> 'a option \<times> duration" where
  "dial_control_plane dial = dial_plane_from dial [0..<DIAL_ATTEMPTS]"

section \<open>Passing a descriptor\<close>

text \<open>An attempt at a non-blocking call; the wrappers wait for readiness and try again.\<close>

datatype 'a attempt = WouldBlock | Failed_call error | Done_call 'a

fun until_ready :: "'a attempt list \<Rightarrow> 'a result option" where
  "until_ready [] = None"
| "until_ready (WouldBlock # rest) = until_ready rest"
| "until_ready (Failed_call e # rest) = Some (Inl e)"
| "until_ready (Done_call x # rest) = Some (Inr x)"

definition send_fd_sync :: "string \<Rightarrow> nat attempt \<Rightarrow> unit attempt" where
  "send_fd_sync payload sendmsg =
     (case sendmsg of
        WouldBlock \<Rightarrow> WouldBlock
      | Failed_call e \<Rightarrow> Failed_call e
      | Done_call n \<Rightarrow>
          if n \<noteq> length payload
          then Failed_call [''short SCM_RIGHTS send: sent '' @ dec n @ '' of '' @ dec (length payload) @ '' payload bytes'']
          else Done_call ())"

datatype cmsg = ScmRights "raw_fd list" | OtherCmsg

fun first_scm_rights_fd :: "cmsg list \<Rightarrow> raw_fd option" where
  "first_scm_rights_fd (ScmRights (fd # _) # _) = Some fd"
| "first_scm_rights_fd (_ # rest) = first_scm_rights_fd rest"
| "first_scm_rights_fd [] = None"

text \<open>\<^verbatim>\<open>msg\<close> is what \<^verbatim>\<open>recvmsg\<close> delivered: the inline bytes and the control messages.\<close>

definition recv_fd_sync ::
  "injected_fault option \<Rightarrow> (string \<times> (cmsg list) result) attempt \<Rightarrow> (raw_fd \<times> string) attempt" where
  "recv_fd_sync fault msg =
     (case fault of
        Some f \<Rightarrow> Failed_call (into_io_error f)
      | None \<Rightarrow>
         (case msg of
            WouldBlock \<Rightarrow> WouldBlock
          | Failed_call e \<Rightarrow> Failed_call e
          | Done_call (inline, cmsgs) \<Rightarrow>
             (let buf = take 256 inline in
              if buf = [] then Failed_call [''spawner closed before sending FD'']
              else case cmsgs of
                Inl e \<Rightarrow> Failed_call e
              | Inr cs \<Rightarrow>
                 (case first_scm_rights_fd cs of
                    None \<Rightarrow> Failed_call [''spawner reply missing SCM_RIGHTS attachment'']
                  | Some fd \<Rightarrow> Done_call (fd, buf)))))"

section \<open>The spawner service of the supervisor\<close>

record spawner_fds =
  sf_processor :: raw_fd
  sf_plain :: raw_fd
  sf_tls :: raw_fd
  sf_scanner :: raw_fd

definition spawner_fds_of :: "control_fds \<Rightarrow> spawner_fds" where
  "spawner_fds_of fds = \<lparr>sf_processor = fd_processor_listener fds, sf_plain = fd_plain_listener fds,
     sf_tls = fd_tls_listener fds, sf_scanner = fd_scanner_listener fds\<rparr>"

text \<open>What the spawner writes back: nothing, a descriptor with a payload, or text alone.\<close>

datatype spawn_reply = NoReply | ReplyFd raw_fd string | ReplyText string

definition role_listener :: "spawner_fds \<Rightarrow> string \<Rightarrow> raw_fd option" where
  "role_listener fds role =
     (if role = ''processor'' then Some (sf_processor fds)
      else if role = ''plain'' then Some (sf_plain fds)
      else if role = ''tls'' then Some (sf_tls fds)
      else if role = ''scanner'' then Some (sf_scanner fds)
      else None)"

definition handle_spawn_request ::
  "(string \<Rightarrow> string result) \<Rightarrow> string result option \<Rightarrow> spawner_fds \<Rightarrow> spawn_reply result" where
  "handle_spawn_request from_json frame fds =
     (case frame of
        None \<Rightarrow> Inr NoReply
      | Some (Inl e) \<Rightarrow> Inl (''spawn request decode'' # e)
      | Some (Inr line) \<Rightarrow>
          and_then (from_json line) (\<lambda>role.
            case role_listener fds role of
              None \<Rightarrow> Inr (ReplyText (''err: unknown role '' @ role @ [nl]))
            | Some fd \<Rightarrow> Inr (ReplyFd fd (''ok'' @ [nl]))))"

text \<open>One accepted connection of \<^verbatim>\<open>accept_spawner\<close>.\<close>

definition serve_spawner ::
  "u32 result \<Rightarrow> peer_allowlist \<Rightarrow> (string \<Rightarrow> string result) \<Rightarrow> string result option \<Rightarrow> spawner_fds \<Rightarrow>
     spawn_reply result" where
  "serve_spawner peer allow from_json frame fds =
     and_then (check_peer peer allow) (\<lambda>_. handle_spawn_request from_json frame fds)"

section \<open>The listener of a worker\<close>

text \<open>\<^verbatim>\<open>put_line\<close> sends the request line, \<^verbatim>\<open>recv\<close> is what came back over the same socket.\<close>

definition request_listener_fd ::
  "config \<Rightarrow> unit result \<Rightarrow> (string \<Rightarrow> string result) \<Rightarrow> (string \<Rightarrow> unit result) \<Rightarrow> (raw_fd \<times> string) result \<Rightarrow>
     string \<Rightarrow> raw_fd result" where
  "request_listener_fd cfg dial to_json put_line recv role =
     and_then (with_context (''dial spawner '' @ spawner_sock cfg) dial) (\<lambda>_.
       and_then (to_json role) (\<lambda>line.
         and_then (put_line (line @ [nl])) (\<lambda>_.
           and_then recv (\<lambda>(fd, payload).
             if \<not> starts_with ''ok'' payload then Inl [''spawner replied: '' @ trim payload]
             else Inr fd))))"

text \<open>
  \<^verbatim>\<open>adopt_or_bind_uds_listener\<close> and its TCP counterpart: the listener's descriptor and the socket
  files removed. \<^verbatim>\<open>request\<close> is the outcome of the request to the spawner, which is only made when the
  environment names no descriptor.
\<close>

definition adopt_or_bind_uds_listener ::
  "open_os \<Rightarrow> raw_fd result \<Rightarrow> string \<Rightarrow> raw_fd result \<times> string list" where
  "adopt_or_bind_uds_listener os request sock_path =
     (case env_var (oo_env os) ENV_LISTENER_FD of
        Some fd_str \<Rightarrow>
         (case parse_i32 fd_str of
            None \<Rightarrow> (Inl [ENV_LISTENER_FD], [])
          | Some fd \<Rightarrow> (and_then (oo_wrap os fd) (\<lambda>_. Inr fd), []))
      | None \<Rightarrow>
         (case request of
            Inr fd \<Rightarrow> (and_then (oo_wrap os fd) (\<lambda>_. Inr fd), [])
          | Inl _ \<Rightarrow>
             (and_then (with_context (''bind '' @ sock_path) (oo_bind_uds os sock_path)) (\<lambda>fd.
                and_then (oo_chmod os sock_path) (\<lambda>_. Inr fd)), [sock_path])))"

definition adopt_or_bind_tcp_listener :: "open_os \<Rightarrow> raw_fd result \<Rightarrow> u16 \<Rightarrow> raw_fd result" where
  "adopt_or_bind_tcp_listener os request port =
     (case env_var (oo_env os) ENV_LISTENER_FD of
        Some fd_str \<Rightarrow>
         (case parse_i32 fd_str of
            None \<Rightarrow> Inl [ENV_LISTENER_FD]
          | Some fd \<Rightarrow> and_then (oo_wrap os fd) (\<lambda>_. Inr fd))
      | None \<Rightarrow>
         (case request of
            Inr fd \<Rightarrow> and_then (oo_wrap os fd) (\<lambda>_. Inr fd)
          | Inl _ \<Rightarrow> with_context (''bind 127.0.0.1:'' @ dec (unat port)) (oo_bind_tcp os port)))"

text \<open>The generation a worker reads at its start.\<close>

definition worker_generation :: "env \<Rightarrow> u64" where
  "worker_generation e = env_generation e ENV_UPGRADE_GENERATION"

section \<open>Lemmas: dialing\<close>

lemma dial_plane_prefix:
  assumes "\<And>n. n \<in> set ns \<Longrightarrow> \<exists>e. dial n = Inl e"
  shows "dial_plane_from dial (ns @ ms) =
    (fst (dial_plane_from dial ms), sum_list (map dial_delay ns) + snd (dial_plane_from dial ms))"
  using assms
proof (induction ns)
  case (Cons n ns)
  then obtain e where "dial n = Inl e" by fastforce
  with Cons show ?case by simp
qed simp

lemma dial_from_plane:
  "dial_from dial ns e = (case dial_plane_from dial ns of
     (Some s, d) \<Rightarrow> (Inr s, d)
   | (None, d) \<Rightarrow> (Inl (case (if ns = [] then e else Some (projl (dial (last ns)))) of
        Some x \<Rightarrow> x | None \<Rightarrow> [''dial budget exhausted'']), d))"
  by (induction ns arbitrary: e) (auto split: sum.splits prod.splits option.splits)

lemma dial_budget: "sum_list (map dial_delay [0..<DIAL_ATTEMPTS]) = from_secs 14"
proof -
  have "[0..<DIAL_ATTEMPTS] = [0..<5] @ [5..<50]"
    using upt_add_eq_append [of 0 5 45] by (simp add: DIAL_ATTEMPTS_def)
  moreover have "sum_list (map dial_delay [0..<5]) = sum_list (map (\<lambda>_. from_millis 100) [0..<5])"
    "sum_list (map dial_delay [5..<50]) = sum_list (map (\<lambda>_. from_millis 300) [5..<50])"
    by (rule arg_cong [where f = sum_list], rule map_cong [OF refl], simp add: dial_delay_def del: upt_rec_numeral)+
  ultimately show ?thesis
    by (simp add: sum_list_triv from_secs_def from_millis_def del: upt_rec_numeral)
qed

lemma dial_delay_mono: "k \<le> DIAL_ATTEMPTS \<Longrightarrow> sum_list (map dial_delay [0..<k]) \<le> from_secs 14"
proof -
  assume "k \<le> DIAL_ATTEMPTS"
  then have "[0..<DIAL_ATTEMPTS] = [0..<k] @ [k..<DIAL_ATTEMPTS]" using upt_add_eq_append [of 0 k "DIAL_ATTEMPTS - k"] by simp
  then show ?thesis using dial_budget by simp
qed

lemma dial_control_plane_succeeds:
  assumes "k < DIAL_ATTEMPTS" and "dial k = Inr s" and "\<And>n. n < k \<Longrightarrow> \<exists>e. dial n = Inl e"
  shows "dial_control_plane dial = (Some s, sum_list (map dial_delay [0..<k]))"
proof -
  have "[0..<DIAL_ATTEMPTS] = [0..<k] @ k # [Suc k..<DIAL_ATTEMPTS]"
    using assms(1) by (metis less_imp_le_nat upt_add_eq_append upt_conv_Cons le0 le_add_diff_inverse)
  moreover have "dial_plane_from dial (k # [Suc k..<DIAL_ATTEMPTS]) = (Some s, 0)" using assms(2) by simp
  ultimately show ?thesis
    using dial_plane_prefix [of "[0..<k]" dial "k # [Suc k..<DIAL_ATTEMPTS]"] assms(3)
    by (simp add: dial_control_plane_def)
qed

lemma dial_control_plane_fails:
  assumes "\<And>n. n < DIAL_ATTEMPTS \<Longrightarrow> \<exists>e. dial n = Inl e"
  shows "dial_control_plane dial = (None, from_secs 14)"
  using dial_plane_prefix [of "[0..<DIAL_ATTEMPTS]" dial "[]"] assms dial_budget
  by (simp add: dial_control_plane_def)

section \<open>Properties\<close>

text \<open>
  Both dialers come to the same as asking for the first of fifty attempts that
  succeeds: the connection of that attempt, reached after the delays of the failed ones, and the
  error of the last attempt (or nothing) when all fail, after fourteen seconds. They never wait
  longer than that.
\<close>

theorem dial_is_first_success:
  "dial_control_plane dial =
     (case find (\<lambda>n. \<not> isl (dial n)) [0..<50] of
        Some k \<Rightarrow> (Some (projr (dial k)), sum_list (map dial_delay [0..<k]))
      | None \<Rightarrow> (None, from_secs 14)) \<and>
   dial_with_retry dial =
     (case find (\<lambda>n. \<not> isl (dial n)) [0..<50] of
        Some k \<Rightarrow> (dial k, sum_list (map dial_delay [0..<k]))
      | None \<Rightarrow> (dial 49, from_secs 14)) \<and>
   snd (dial_control_plane dial) \<le> from_secs 14"
proof -
  have retry: "dial_with_retry dial = (case dial_control_plane dial of
      (Some s, d) \<Rightarrow> (Inr s, d) | (None, d) \<Rightarrow> (Inl (projl (dial 49)), d))"
    by (simp add: dial_with_retry_def dial_control_plane_def dial_from_plane DIAL_ATTEMPTS_def
        split: option.splits prod.splits)
  show ?thesis
  proof (cases "find (\<lambda>n. \<not> isl (dial n)) [0..<50]")
    case None
    then have none: "\<exists>e. dial n = Inl e" if "n < 50" for n
      using that by (cases "dial n") (auto simp: find_None_iff)
    then have "dial_control_plane dial = (None, from_secs 14)"
      by (intro dial_control_plane_fails) (simp add: DIAL_ATTEMPTS_def)
    moreover obtain e where "dial 49 = Inl e" using none [of 49] by auto
    ultimately show ?thesis using None retry by simp
  next
    case (Some k)
    then have k: "k < 50" "\<not> isl (dial k)" "\<And>n. n < k \<Longrightarrow> isl (dial n)"
      by (auto simp: find_Some_iff)
    then obtain s where s: "dial k = Inr s" by (cases "dial k") auto
    have "\<exists>e. dial n = Inl e" if "n < k" for n using k(3) [OF that] by (cases "dial n") auto
    with k(1) s have "dial_control_plane dial = (Some s, sum_list (map dial_delay [0..<k]))"
      by (intro dial_control_plane_succeeds) (simp_all add: DIAL_ATTEMPTS_def)
    moreover have "sum_list (map dial_delay [0..<k]) \<le> from_secs 14"
      using k(1) by (intro dial_delay_mono) (simp add: DIAL_ATTEMPTS_def)
    ultimately show ?thesis using Some retry s by simp
  qed
qed

lemma until_ready_blocked: "until_ready (replicate n WouldBlock @ as) = until_ready as"
  by (induction n) simp_all

text \<open>
  A worker started without a listener in its environment ends up with the very
  socket the supervisor keeps for its role, however often the receive has to wait: its request
  is understood by the spawner, the descriptor comes back under the number the kernel gave it, and
  nothing is bound and no socket file is removed. A worker started by its predecessor keeps the
  descriptor it was handed, whatever a request would have answered. Assumed are that JSON reads back
  what it wrote and that the kernel delivers payload and descriptor together.
\<close>

theorem worker_listener_roundtrip:
  assumes json: "\<And>r s. to_json r = Inr s \<Longrightarrow> from_json s = Inr r"
    and deliver: "\<And>fd p. deliver (ReplyFd fd p) = Done_call (p, Inr [ScmRights [mint fd]])"
    and sent: "to_json role = Inr line" "put_line (line @ [nl]) = Inr ()"
    and peer: "check_peer peer allow = Inr uid"
    and fd: "role_listener (spawner_fds_of fds) role = Some fd"
    and fresh: "env_var (oo_env os) ENV_LISTENER_FD = None" "oo_wrap os (mint fd) = Inr ()"
    and heir: "env_var (oo_env os') ENV_LISTENER_FD = Some (dec_int fd')" "i32_range fd'" "oo_wrap os' fd' = Inr ()"
  shows "\<exists>reply recv.
      serve_spawner peer allow from_json (Some (Inr line)) (spawner_fds_of fds) = Inr reply \<and>
      until_ready (replicate n WouldBlock @ [recv_fd_sync None (deliver reply)]) = Some recv \<and>
      adopt_or_bind_uds_listener os (request_listener_fd cfg (Inr ()) to_json put_line recv role) path = (Inr (mint fd), []) \<and>
      adopt_or_bind_tcp_listener os (request_listener_fd cfg (Inr ()) to_json put_line recv role) port = Inr (mint fd) \<and>
      adopt_or_bind_uds_listener os' any path = (Inr fd', []) \<and> adopt_or_bind_tcp_listener os' any port = Inr fd'"
proof -
  let ?ok = "''ok'' @ [nl]"
  have "serve_spawner peer allow from_json (Some (Inr line)) (spawner_fds_of fds) = Inr (ReplyFd fd ?ok)"
    by (simp add: serve_spawner_def handle_spawn_request_def peer json [OF sent(1)] fd)
  moreover have "until_ready (replicate n WouldBlock @ [recv_fd_sync None (deliver (ReplyFd fd ?ok))]) =
      Some (Inr (mint fd, ?ok))"
    unfolding until_ready_blocked by (simp add: recv_fd_sync_def deliver)
  moreover have "request_listener_fd cfg (Inr ()) to_json put_line (Inr (mint fd, ?ok)) role = Inr (mint fd)"
    by (simp add: request_listener_fd_def sent starts_with_def)
  then have "adopt_or_bind_uds_listener os (request_listener_fd cfg (Inr ()) to_json put_line (Inr (mint fd, ?ok)) role) path =
        (Inr (mint fd), [])"
    "adopt_or_bind_tcp_listener os (request_listener_fd cfg (Inr ()) to_json put_line (Inr (mint fd, ?ok)) role) port =
        Inr (mint fd)"
    by (simp_all add: adopt_or_bind_uds_listener_def adopt_or_bind_tcp_listener_def fresh)
  moreover have "adopt_or_bind_uds_listener os' any path = (Inr fd', [])" "adopt_or_bind_tcp_listener os' any port = Inr fd'"
    by (simp_all add: adopt_or_bind_uds_listener_def adopt_or_bind_tcp_listener_def heir)
  ultimately show ?thesis by blast
qed

theorem worker_listener_roundtrip_witness:
  "\<exists>reply recv.
     serve_spawner (Inr 7) (from_uids [7]) Inr (Some (Inr ''tls'')) (spawner_fds_of quiet_fds) = Inr reply \<and>
     until_ready (replicate 2 WouldBlock @ [recv_fd_sync None
       (case reply of ReplyFd fd p \<Rightarrow> Done_call (p, Inr [ScmRights [fd + 100]])
        | _ \<Rightarrow> Done_call ([], Inr []))]) = Some recv \<and>
     adopt_or_bind_tcp_listener \<lparr>oo_env = [], oo_bind_uds = (\<lambda>_. Inl []), oo_bind_tcp = (\<lambda>_. Inl []),
       oo_chmod = (\<lambda>_. Inl []), oo_wrap = (\<lambda>_. Inr ())\<rparr>
       (request_listener_fd config_default (Inr ()) Inr (\<lambda>_. Inr ()) recv ''tls'') 7071 = Inr 119"
proof -
  let ?os = "\<lambda>e. \<lparr>oo_env = e, oo_bind_uds = (\<lambda>_. Inl []), oo_bind_tcp = (\<lambda>_. Inl []),
       oo_chmod = (\<lambda>_. Inl []), oo_wrap = (\<lambda>_. Inr ())\<rparr> :: open_os"
  let ?d = "\<lambda>reply. case reply of ReplyFd fd p \<Rightarrow> Done_call (p, Inr [ScmRights [fd + 100]])
        | _ \<Rightarrow> Done_call ([], Inr [])"
  have "check_peer (Inr 7) (from_uids [7]) = Inr 7" by (simp add: check_peer_Inr_iff from_uids_def)
  moreover have "role_listener (spawner_fds_of quiet_fds) ''tls'' = Some 19"
    by (simp add: role_listener_def spawner_fds_of_def quiet_fds_def)
  ultimately show ?thesis
    using worker_listener_roundtrip [where to_json = "Inr" and from_json = "Inr" and deliver = "?d" and mint = "\<lambda>fd. fd + 100"
        and role = "''tls''" and line = "''tls''" and put_line = "\<lambda>_. Inr ()" and peer = "Inr 7" and allow = "from_uids [7]"
        and uid = "7" and fds = "quiet_fds" and fd = "19" and os = "?os []" and os' = "?os [(ENV_LISTENER_FD, dec_int 5)]"
        and fd' = "5" and n = "2" and cfg = "config_default" and path = "[]" and port = "7071" and any = "Inl []"]
    by (simp add: i32_range_def) blast
qed

end
