(* ===== verification/Session.thy ===== *)
theory Session
  imports Worker_Upgrade "HOL-Library.Sublist"
begin

text \<open>
  Model of one echo session of \<^verbatim>\<open>src/processor.rs\<close> (\<^verbatim>\<open>spawn_session\<close>, \<^verbatim>\<open>echo_loop\<close>) and of its
  handoff to another process image (\<^verbatim>\<open>framed_with_lookahead\<close> of \<^verbatim>\<open>src/processor/upgrade.rs\<close>). The
  line codec is a library's and is a parameter: how it cuts a frame off a buffer, what it yields of
  the rest at the end of the stream, and how it encodes a line. A session's socket is seen from both
  ends: the bytes of the client not yet read and the bytes delivered to it.
\<close>

section \<open>Definitions\<close>

text \<open>
  \<open>lc_eof\<close> is \<^verbatim>\<open>None\<close> when nothing is left at the end of the stream, or something that is not UTF-8: the echo
  loop returns on the end and on the error alike.
\<close>

datatype frame = NeedMore | Frame bytes bytes | FrameError

record line_codec =
  lc_decode :: "bytes \<Rightarrow> frame"
  lc_eof :: "bytes \<Rightarrow> bytes option"
  lc_encode :: "bytes \<Rightarrow> bytes"

text \<open>
  Where the session task is: completing the flush of an adopted write buffer, waiting for a line,
  sending an echo, ended by the end of the stream, or ended by a failed write.
\<close>

datatype phase = Flushing | Reading | Sending | Ended | Broken

record session =
  s_fd :: raw_fd
  s_peer :: string
  s_trace_id :: string
  s_connected_at :: u64
  s_count :: u64
  s_read :: bytes
  s_write :: bytes
  s_phase :: phase
  s_unread :: bytes
  s_delivered :: bytes

text \<open>The handoff record the cancel branch of the task sends, and the session built from one.\<close>

definition session_handoff_of :: "session \<Rightarrow> session_handoff" where
  "session_handoff_of s = \<lparr>
     uds_fd = s_fd s, transport = Uds, partial_line_bytes = s_read s, pending_write_bytes = s_write s,
     lines_echoed = s_count s, connected_at_unix_ms = s_connected_at s, sh_peer = s_peer s,
     sh_ident = None, sh_trace_id = s_trace_id s, sh_version = SCHEMA_VERSION\<rparr>"

definition start_phase :: "bytes \<Rightarrow> phase" where
  "start_phase write_buffer = (if write_buffer \<noteq> [] then Flushing else Reading)"

text \<open>The socket's two ends stay what they are; the buffers come from the handoff.\<close>

definition adopted_session :: "session_handoff \<Rightarrow> bytes \<Rightarrow> bytes \<Rightarrow> session" where
  "adopted_session h unread delivered = \<lparr>
     s_fd = uds_fd h, s_peer = sh_peer h, s_trace_id = sh_trace_id h,
     s_connected_at = connected_at_unix_ms h, s_count = lines_echoed h,
     s_read = partial_line_bytes h, s_write = pending_write_bytes h,
     s_phase = start_phase (pending_write_bytes h), s_unread = unread, s_delivered = delivered\<rparr>"

definition fresh_session :: "raw_fd \<Rightarrow> string \<Rightarrow> string \<Rightarrow> u64 \<Rightarrow> bytes \<Rightarrow> session" where
  "fresh_session fd peer trace now input = \<lparr>
     s_fd = fd, s_peer = peer, s_trace_id = trace, s_connected_at = now, s_count = 0,
     s_read = [], s_write = [], s_phase = Reading, s_unread = input, s_delivered = []\<rparr>"

text \<open>
  What can happen to a session: the socket delivers some bytes, a line is taken from the buffer,
  some of the write buffer goes out, the stream has ended, a write fails, the task is cancelled and
  the session continues in the image that adopts it.
\<close>

datatype session_event = Recv nat | Decode | WriteSome nat | Eof | WriteFailed | Handoff

fun session_step :: "line_codec \<Rightarrow> session \<Rightarrow> session_event \<Rightarrow> session" where
  "session_step c s (Recv n) =
     (if s_phase s = Reading
      then s\<lparr>s_read := s_read s @ take n (s_unread s), s_unread := drop n (s_unread s)\<rparr> else s)"
| "session_step c s Decode =
     (if s_phase s = Reading
      then case lc_decode c (s_read s) of
             Frame l rest \<Rightarrow> s\<lparr>s_read := rest, s_write := lc_encode c l, s_phase := Sending\<rparr>
           | FrameError \<Rightarrow> s\<lparr>s_phase := Ended\<rparr>
           | NeedMore \<Rightarrow> s
      else s)"
| "session_step c s Eof =
     (if s_phase s = Reading \<and> s_unread s = [] \<and> lc_decode c (s_read s) = NeedMore
      then case lc_eof c (s_read s) of
             Some l \<Rightarrow> s\<lparr>s_read := [], s_write := lc_encode c l, s_phase := Sending\<rparr>
           | None \<Rightarrow> s\<lparr>s_phase := Ended\<rparr>
      else s)"
| "session_step c s (WriteSome n) =
     (if s_phase s \<in> {Flushing, Sending}
      then let rest = drop n (s_write s);
               s1 = s\<lparr>s_delivered := s_delivered s @ take n (s_write s), s_write := rest\<rparr>
           in if rest \<noteq> [] then s1
              else s1\<lparr>s_count := (if s_phase s = Sending then s_count s + 1 else s_count s),
                      s_phase := Reading\<rparr>
      else s)"
| "session_step c s WriteFailed = (if s_phase s \<in> {Flushing, Sending} then s\<lparr>s_phase := Broken\<rparr> else s)"
| "session_step c s Handoff =
     (if s_phase s \<in> {Reading, Sending}
      then adopted_session (session_handoff_of s) (s_unread s) (s_delivered s) else s)"

section \<open>Lemmas: the stream a client receives\<close>

text \<open>
  What the documentation of the line codec says of it: a frame or an error cut off a buffer does
  not depend on bytes that arrive later, and a frame consumes something.
\<close>

definition codec_laws :: "line_codec \<Rightarrow> bool" where
  "codec_laws c \<longleftrightarrow>
     (\<forall>b l r x. lc_decode c b = Frame l r \<longrightarrow> lc_decode c (b @ x) = Frame l (r @ x) \<and> length r < length b) \<and>
     (\<forall>b x. lc_decode c b = FrameError \<longrightarrow> lc_decode c (b @ x) = FrameError) \<and>
     lc_decode c [] = NeedMore \<and> lc_eof c [] = None"

text \<open>The specification: the echo of a whole stream, line by line, up to an undecodable part.\<close>

fun echo_lines :: "line_codec \<Rightarrow> nat \<Rightarrow> bytes \<Rightarrow> bytes" where
  "echo_lines c 0 b = []"
| "echo_lines c (Suc n) b =
     (case lc_decode c b of
        Frame l r \<Rightarrow> lc_encode c l @ echo_lines c n r
      | FrameError \<Rightarrow> []
      | NeedMore \<Rightarrow> (case lc_eof c b of Some l \<Rightarrow> lc_encode c l | None \<Rightarrow> []))"

definition echo_stream :: "line_codec \<Rightarrow> bytes \<Rightarrow> bytes" where
  "echo_stream c b = echo_lines c (Suc (length b)) b"

lemma echo_lines_enough:
  "codec_laws c \<Longrightarrow> length b < n \<Longrightarrow> length b < m \<Longrightarrow> echo_lines c n b = echo_lines c m b"
proof (induction c n b arbitrary: m rule: echo_lines.induct)
  case (2 c n b)
  obtain m' where m: "m = Suc m'" using "2.prems"(3) by (cases m) auto
  show ?case
  proof (cases "lc_decode c b")
    case (Frame l r)
    then have "length r < length b" using "2.prems"(1) unfolding codec_laws_def by blast
    with "2.IH" [OF Frame "2.prems"(1), of m'] "2.prems" m have "echo_lines c n r = echo_lines c m' r" by simp
    with Frame m show ?thesis by simp
  qed (simp_all add: m)
qed simp

lemma echo_stream_eq:
  assumes "codec_laws c"
  shows "echo_stream c b =
    (case lc_decode c b of
       Frame l r \<Rightarrow> lc_encode c l @ echo_stream c r
     | FrameError \<Rightarrow> []
     | NeedMore \<Rightarrow> (case lc_eof c b of Some l \<Rightarrow> lc_encode c l | None \<Rightarrow> []))"
proof (cases "lc_decode c b")
  case (Frame l r)
  then have "length r < length b" using assms unfolding codec_laws_def by blast
  with Frame echo_lines_enough [OF assms, of r "length b" "Suc (length r)"] show ?thesis
    by (simp add: echo_stream_def)
qed (simp_all add: echo_stream_def)

text \<open>The whole stream a client will have received: sent, buffered, and the echo of what is left.\<close>

definition total_echo :: "line_codec \<Rightarrow> session \<Rightarrow> bytes" where
  "total_echo c s = s_delivered s @ s_write s @ echo_stream c (s_read s @ s_unread s)"

text \<open>
  A session waiting for a line or ended has nothing in its write buffer; one that ended has
  nothing left to echo.
\<close>

definition session_inv :: "line_codec \<Rightarrow> session \<Rightarrow> bool" where
  "session_inv c s \<longleftrightarrow>
     (s_phase s \<in> {Reading, Ended} \<longrightarrow> s_write s = []) \<and>
     (s_phase s = Ended \<longrightarrow> echo_stream c (s_read s @ s_unread s) = [])"

lemma session_step_echo:
  assumes "codec_laws c" and "session_inv c s"
  shows "total_echo c (session_step c s ev) = total_echo c s \<and> session_inv c (session_step c s ev)"
proof (cases ev)
  case Decode
  show ?thesis
  proof (cases "s_phase s = Reading")
    case True
    with assms(2) have w: "s_write s = []" by (simp add: session_inv_def)
    show ?thesis
    proof (cases "lc_decode c (s_read s)")
      case (Frame l r)
      then have "lc_decode c (s_read s @ s_unread s) = Frame l (r @ s_unread s)"
        using assms(1) unfolding codec_laws_def by blast
      with Frame w True echo_stream_eq [OF assms(1), of "s_read s @ s_unread s"] show ?thesis
        by (simp add: Decode total_echo_def session_inv_def)
    next
      case FrameError
      then have "lc_decode c (s_read s @ s_unread s) = FrameError"
        using assms(1) unfolding codec_laws_def by blast
      with FrameError w True echo_stream_eq [OF assms(1), of "s_read s @ s_unread s"] show ?thesis
        by (simp add: Decode total_echo_def session_inv_def)
    next
      case NeedMore
      with assms(2) True show ?thesis by (simp add: Decode)
    qed
  next
    case False
    with assms(2) show ?thesis by (simp add: Decode)
  qed
next
  case Eof
  have "lc_decode c [] = NeedMore" "lc_eof c [] = None" using assms(1) unfolding codec_laws_def by blast+
  then have "echo_stream c [] = []" using echo_stream_eq [OF assms(1), of "[]"] by simp
  with assms(2) echo_stream_eq [OF assms(1), of "s_read s"] show ?thesis
    by (auto simp: Eof total_echo_def session_inv_def split: option.splits)
next
  case (WriteSome n)
  show ?thesis
  proof (cases "s_phase s \<in> {Flushing, Sending}")
    case True
    have "take n (s_write s) @ drop n (s_write s) = s_write s" by simp
    with True show ?thesis
      by (auto simp: WriteSome total_echo_def session_inv_def Let_def simp del: append_take_drop_id)
  next
    case False
    with assms(2) show ?thesis by (auto simp: WriteSome)
  qed
qed (use assms(2) in \<open>auto simp: total_echo_def session_inv_def adopted_session_def session_handoff_of_def
       start_phase_def\<close>)

lemma session_run_echo:
  assumes "codec_laws c" and "session_inv c s"
  shows "total_echo c (foldl (session_step c) s evs) = total_echo c s \<and>
    session_inv c (foldl (session_step c) s evs)"
  using assms(2)
proof (induction evs arbitrary: s)
  case (Cons ev evs)
  from session_step_echo [OF assms(1) Cons.prems, of ev] Cons.IH [of "session_step c s ev"]
  show ?case by simp
qed simp

lemma fresh_session_inv: "session_inv c (fresh_session fd peer trace now input)"
  by (simp add: session_inv_def fresh_session_def)

text \<open>What was delivered is the beginning of the echo, and all of it at the end.\<close>

lemma delivered_prefix:
  assumes "codec_laws c"
  shows "prefix (s_delivered (foldl (session_step c) (fresh_session fd peer trace now input) evs)) (echo_stream c input)"
    and "s_phase (foldl (session_step c) (fresh_session fd peer trace now input) evs) = Ended \<Longrightarrow>
      s_delivered (foldl (session_step c) (fresh_session fd peer trace now input) evs) = echo_stream c input"
proof -
  let ?s = "foldl (session_step c) (fresh_session fd peer trace now input) evs"
  have "total_echo c (fresh_session fd peer trace now input) = echo_stream c input"
    by (simp add: total_echo_def fresh_session_def)
  then have T: "total_echo c ?s = echo_stream c input" and I: "session_inv c ?s"
    using session_run_echo [OF assms fresh_session_inv] by simp_all
  have "prefix (s_delivered ?s) (total_echo c ?s)"
    by (simp add: total_echo_def)
  then show "prefix (s_delivered ?s) (echo_stream c input)"
    by (simp add: T)
  show "s_phase ?s = Ended \<Longrightarrow> s_delivered ?s = echo_stream c input"
    using T I by (auto simp: total_echo_def session_inv_def)
qed

section \<open>A concrete codec for the witnesses\<close>

definition newline_codec :: line_codec where
  "newline_codec = \<lparr>
     lc_decode = (\<lambda>b. if 10 \<in> set b then Frame (takeWhile (\<lambda>x. x \<noteq> 10) b) (tl (dropWhile (\<lambda>x. x \<noteq> 10) b))
                      else NeedMore),
     lc_eof = (\<lambda>b. if b = [] then None else Some b),
     lc_encode = (\<lambda>l. l @ [10])\<rparr>"

lemma newline_codec_laws: "codec_laws newline_codec"
proof -
  have app: "takeWhile (\<lambda>x. x \<noteq> 10) (b @ x) = takeWhile (\<lambda>x. x \<noteq> 10) b \<and>
      tl (dropWhile (\<lambda>x. x \<noteq> 10) (b @ x)) = tl (dropWhile (\<lambda>x. x \<noteq> 10) b) @ x \<and>
      length (tl (dropWhile (\<lambda>x. x \<noteq> 10) b)) < length b"
    if "(10 :: u8) \<in> set b" for b x :: bytes
    using that
  proof (induction b)
    case (Cons y b)
    show ?case
    proof (cases "y = 10")
      case False
      with Cons.prems have "10 \<in> set b" by simp
      from Cons.IH [OF this] False show ?thesis by auto
    qed simp
  qed simp
  show ?thesis unfolding codec_laws_def newline_codec_def using app by auto
qed

section \<open>Properties\<close>

text \<open>
  C1 (refinement). A client sees no upgrade: however reads, writes and any number of handoffs to
  new process images interleave, the bytes delivered to it, together with those still buffered and
  the echo of its input not yet processed, always make up the echo of its whole input, line by line;
  when the session has ended, everything has been delivered.
\<close>

theorem echo_survives_handoffs:
  assumes "codec_laws c"
  shows "let s = foldl (session_step c) (fresh_session fd peer trace now input) evs in
    total_echo c s = echo_stream c input \<and> (s_phase s = Ended \<longrightarrow> s_delivered s = echo_stream c input)"
proof -
  note R = session_run_echo [OF assms(1) fresh_session_inv, of fd peer trace now input evs]
  have "total_echo c (fresh_session fd peer trace now input) = echo_stream c input"
    by (simp add: total_echo_def fresh_session_def)
  with R show ?thesis by (auto simp: Let_def session_inv_def total_echo_def)
qed

theorem echo_survives_handoffs_witness:
  "s_delivered (foldl (session_step newline_codec) (fresh_session 7 ''p'' ''t'' 0 [104, 105, 10, 104])
     [Recv 3, Decode, WriteSome 1, Handoff, WriteSome 9, Recv 9, Eof, Handoff, WriteSome 2, Eof]) =
   [104, 105, 10, 104, 10]"
proof -
  let ?s = "foldl (session_step newline_codec) (fresh_session 7 ''p'' ''t'' 0 [104, 105, 10, 104])
     [Recv 3, Decode, WriteSome 1, Handoff, WriteSome 9, Recv 9, Eof, Handoff, WriteSome 2, Eof]"
  have "s_phase ?s = Ended"
    by (simp add: fresh_session_def newline_codec_def adopted_session_def session_handoff_of_def
        start_phase_def Let_def)
  moreover have "echo_stream newline_codec [104, 105, 10, 104] = [104, 105, 10, 104, 10]"
    by (simp add: echo_stream_def newline_codec_def)
  ultimately show ?thesis
    using echo_survives_handoffs [OF newline_codec_laws, of 7 "''p''" "''t''" 0 "[104, 105, 10, 104]"
        "[Recv 3, Decode, WriteSome 1, Handoff, WriteSome 9, Recv 9, Eof, Handoff, WriteSome 2, Eof]"]
    by (simp only: Let_def)
qed

text \<open>
  An adopted session with bytes to flush does not listen for a cancel until
  they are out: as long as its client takes none of them and the write does not fail, the next
  upgrade gets no handoff from it, whatever else happens.
\<close>

theorem adopted_flush_blocks_handoff:
  assumes "s_phase s = Flushing" and "s_write s \<noteq> []"
    and "\<And>ev. ev \<in> set evs \<Longrightarrow> ev \<noteq> WriteFailed \<and> (\<forall>n. ev = WriteSome n \<longrightarrow> n = 0)"
  shows "foldl (session_step c) s evs = s"
  using assms
proof (induction evs)
  case (Cons ev evs)
  have "session_step c s ev = s" using Cons.prems(1,2) Cons.prems(3) [of ev] by (cases ev) (auto simp: Let_def)
  moreover have "foldl (session_step c) s evs = s" using Cons.prems by (intro Cons.IH) auto
  ultimately show ?case by simp
qed simp

theorem adopted_flush_blocks_handoff_witness:
  "foldl (session_step newline_codec)
     (adopted_session (session_handoff_of (fresh_session 7 ''p'' ''t'' 0 []\<lparr>s_write := [10]\<rparr>)) [] [])
     [Handoff, WriteSome 0, Handoff] =
   adopted_session (session_handoff_of (fresh_session 7 ''p'' ''t'' 0 []\<lparr>s_write := [10]\<rparr>)) [] []"
  by (rule adopted_flush_blocks_handoff)
    (auto simp: adopted_session_def session_handoff_of_def start_phase_def fresh_session_def)

end
