(* ===== verification/Processor.thy ===== *)
theory Processor
  imports Session
begin

text \<open>
  Model of \<^verbatim>\<open>src/processor.rs\<close>, \<^verbatim>\<open>src/processor/sidecar.rs\<close> and \<^verbatim>\<open>src/processor/upgrade.rs\<close>: the
  registry of sessions with the metadata of the sidecar, the dispatch of connections, the drain of
  all sessions into handoff records, their adoption by a successor or, on a rollback, by the
  processor itself, and the upgrade that ties them together. The hash maps are association lists in
  their iteration order.
\<close>

section \<open>Registry and sidecar\<close>

record session_registry =
  reg_next_id :: u64
  reg_sessions :: "(u64 \<times> string) list"
  reg_metadata :: "(string \<times> session_metadata) list"

definition session_registry_default :: session_registry where
  "session_registry_default = \<lparr>reg_next_id = 0, reg_sessions = [], reg_metadata = []\<rparr>"

definition register_session :: "string \<Rightarrow> session_registry \<Rightarrow> u64 \<times> session_registry" where
  "register_session peer r =
     (let sid = reg_next_id r
      in (sid, r\<lparr>reg_next_id := sid + 1, reg_sessions := AList.update sid peer (reg_sessions r)\<rparr>))"

definition peer_active :: "string \<Rightarrow> session_registry \<Rightarrow> bool" where
  "peer_active peer r \<longleftrightarrow> (\<exists>x \<in> set (reg_sessions r). snd x = peer)"

definition unregister_session :: "u64 \<Rightarrow> session_registry \<Rightarrow> session_registry" where
  "unregister_session sid r = r\<lparr>reg_sessions := AList.delete sid (reg_sessions r)\<rparr>"

text \<open>The two ways a session task leaves by itself: its echo loop ends, or the first flush fails.\<close>

definition session_ended :: "u64 \<Rightarrow> string \<Rightarrow> session_registry \<Rightarrow> session_registry" where
  "session_ended sid peer r =
     (let r1 = unregister_session sid r
      in if \<not> peer_active peer r1 then r1\<lparr>reg_metadata := AList.delete peer (reg_metadata r1)\<rparr> else r1)"

definition session_flush_failed :: "u64 \<Rightarrow> session_registry \<Rightarrow> session_registry" where
  "session_flush_failed sid r = unregister_session sid r"

definition store_metadata_if_session_active ::
  "session_metadata \<Rightarrow> session_registry \<Rightarrow> bool \<times> session_registry" where
  "store_metadata_if_session_active meta r =
     (if peer_active (sm_peer meta) r
      then (True, r\<lparr>reg_metadata := AList.update (sm_peer meta) meta (reg_metadata r)\<rparr>)
      else (False, r))"

text \<open>\<^verbatim>\<open>run_sidecar\<close> over the frames of the connection; a frame that does not parse is skipped.\<close>

fun run_sidecar ::
  "(string \<Rightarrow> session_metadata result) \<Rightarrow> string result list \<Rightarrow> session_registry \<Rightarrow> session_registry" where
  "run_sidecar from_json [] r = r"
| "run_sidecar from_json (Inl e # rest) r = r"
| "run_sidecar from_json (Inr line # rest) r =
     run_sidecar from_json rest
       (case from_json line of Inl _ \<Rightarrow> r | Inr meta \<Rightarrow> snd (store_metadata_if_session_active meta r))"

section \<open>Connections\<close>

datatype dispatch = DropConnection | StartSession string string | StartSidecar

definition dispatch_incoming ::
  "(string \<Rightarrow> processor_preamble result) \<Rightarrow> injected_fault option \<Rightarrow> string result option \<Rightarrow> dispatch" where
  "dispatch_incoming from_json fault line =
     (case fault of
        Some _ \<Rightarrow> DropConnection
      | None \<Rightarrow>
         (case line of
            None \<Rightarrow> DropConnection
          | Some (Inl _) \<Rightarrow> DropConnection
          | Some (Inr l) \<Rightarrow>
             (case from_json l of
                Inl _ \<Rightarrow> DropConnection
              | Inr (PreambleSession peer role trace) \<Rightarrow> StartSession peer trace
              | Inr PreambleSidecar \<Rightarrow> StartSidecar)))"

text \<open>The processor: its registry, the session tasks by id, and the descriptors it closed.\<close>

record processor =
  p_registry :: session_registry
  p_tasks :: "(u64 \<times> session) list"
  p_closed :: "raw_fd list"

definition spawn_session :: "session \<Rightarrow> processor \<Rightarrow> processor" where
  "spawn_session s p =
     (case register_session (s_peer s) (p_registry p) of
        (sid, r) \<Rightarrow> p\<lparr>p_registry := r, p_tasks := AList.update sid s (p_tasks p)\<rparr>)"

definition handle_processor_accept ::
  "(string \<Rightarrow> processor_preamble result) \<Rightarrow> injected_fault option \<Rightarrow> peer_allowlist \<Rightarrow> u64 \<Rightarrow>
     (raw_fd \<times> u32 result \<times> string result option \<times> bytes) result \<Rightarrow> processor \<Rightarrow> processor" where
  "handle_processor_accept from_json fault allow now conn p =
     (case conn of
        Inl _ \<Rightarrow> p
      | Inr (fd, peer_uid, line, input) \<Rightarrow>
         (case check_peer peer_uid allow of
            Inl _ \<Rightarrow> p
          | Inr _ \<Rightarrow>
             (case dispatch_incoming from_json fault line of
                StartSession peer trace \<Rightarrow> spawn_session (fresh_session fd peer trace now input) p
              | _ \<Rightarrow> p)))"

section \<open>Draining\<close>

definition enrich_handoff :: "(string \<times> session_metadata) list \<Rightarrow> session_handoff \<Rightarrow> session_handoff" where
  "enrich_handoff metadata h =
     (case map_of metadata (sh_peer h) of Some m \<Rightarrow> h\<lparr>sh_ident := sm_ident m\<rparr> | None \<Rightarrow> h)"

text \<open>
  \<^verbatim>\<open>await_session_handoff\<close>: \<^verbatim>\<open>rx\<close> is what the task sends, \<^verbatim>\<open>None\<close> when it ended without. The
  result carries the descriptors closed and the flags.
\<close>

definition await_session_handoff ::
  "fcntl \<Rightarrow> injected_fault option \<Rightarrow> session_handoff option \<Rightarrow> cloexec_flags \<Rightarrow>
     session_handoff option \<times> raw_fd list \<times> cloexec_flags" where
  "await_session_handoff fc fault rx t =
     (if fault = Some FaultSkip
      then (None, case rx of None \<Rightarrow> [] | Some h \<Rightarrow> [uds_fd h], t)
      else case rx of
        None \<Rightarrow> (None, [], t)
      | Some h \<Rightarrow>
          (case clear_cloexec fc (uds_fd h) t of
             Inl _ \<Rightarrow> (None, [uds_fd h], t)
           | Inr t' \<Rightarrow> (Some h, [], t')))"

fun await_all ::
  "fcntl \<Rightarrow> (string \<times> session_metadata) list \<Rightarrow> (injected_fault option \<times> session_handoff option) list \<Rightarrow>
     cloexec_flags \<Rightarrow> session_handoff list \<times> raw_fd list \<times> cloexec_flags" where
  "await_all fc metadata [] t = ([], [], t)"
| "await_all fc metadata ((fault, rx) # rest) t =
     (case await_session_handoff fc fault rx t of
        (h, closed, t1) \<Rightarrow>
          (case await_all fc metadata rest t1 of
             (hs, closed', t2) \<Rightarrow>
               (case h of None \<Rightarrow> hs | Some h \<Rightarrow> enrich_handoff metadata h # hs, closed @ closed', t2)))"

text \<open>
  \<^verbatim>\<open>sends\<close> says what each task answers to its cancel: the fault at the await and whether the task
  still sends its record.
\<close>

definition drain_session_handoffs ::
  "fcntl \<Rightarrow> (u64 \<Rightarrow> injected_fault option \<times> bool) \<Rightarrow> processor \<Rightarrow> cloexec_flags \<Rightarrow>
     session_handoff list \<times> processor \<times> cloexec_flags" where
  "drain_session_handoffs fc sends p t =
     (case await_all fc (reg_metadata (p_registry p))
             (map (\<lambda>(sid, s). (fst (sends sid), if snd (sends sid) then Some (session_handoff_of s) else None))
                (p_tasks p)) t of
        (hs, closed, t') \<Rightarrow>
          (hs, p\<lparr>p_registry := (p_registry p)\<lparr>reg_sessions := []\<rparr>, p_tasks := [],
                 p_closed := p_closed p @ closed\<rparr>, t'))"

section \<open>Adoption\<close>

text \<open>
  The sockets of the system, by descriptor: the bytes unread and delivered. \<^verbatim>\<open>reconstruct\<close> is
  whether the descriptor can be made a stream; on failure the owned stream is dropped, which closes
  the descriptor, before the caller closes it again.
\<close>

type_synonym sockets = "raw_fd \<Rightarrow> bytes \<times> bytes"

definition adopt_one ::
  "(raw_fd \<Rightarrow> unit result) \<Rightarrow> sockets \<Rightarrow> session_handoff \<Rightarrow> processor \<Rightarrow> processor" where
  "adopt_one reconstruct socks h p =
     (let p1 = (case sh_ident h of
                  None \<Rightarrow> p
                | Some ident \<Rightarrow>
                    p\<lparr>p_registry := (p_registry p)\<lparr>reg_metadata := AList.update (sh_peer h)
                        \<lparr>sm_peer = sh_peer h, sm_ident = Some ident, sm_trace_id = sh_trace_id h\<rparr>
                        (reg_metadata (p_registry p))\<rparr>\<rparr>)
      in case transport h of
           Uds \<Rightarrow>
             (case reconstruct (uds_fd h) of
                Inr _ \<Rightarrow> spawn_session (adopted_session h (fst (socks (uds_fd h))) (snd (socks (uds_fd h)))) p1
              | Inl _ \<Rightarrow> p1\<lparr>p_closed := p_closed p1 @ [uds_fd h, uds_fd h]\<rparr>)
         | Tcp \<Rightarrow> p1\<lparr>p_closed := p_closed p1 @ [uds_fd h]\<rparr>)"

definition readopt_sessions ::
  "(raw_fd \<Rightarrow> unit result) \<Rightarrow> sockets \<Rightarrow> session_handoff list \<Rightarrow> processor \<Rightarrow> processor" where
  "readopt_sessions reconstruct socks hs p = fold (adopt_one reconstruct socks) hs p"

datatype handoff_source = SourceFd | SourceEnv

definition read_handoff_sessions_json ::
  "env \<Rightarrow> (raw_fd \<Rightarrow> string result) \<Rightarrow> (string \<times> handoff_source) option result" where
  "read_handoff_sessions_json e read_fd =
     (case env_var e ENV_SESSIONS_FD of
        Some fd_str \<Rightarrow>
         (case parse_i32 fd_str of
            None \<Rightarrow> Inl [''parse '' @ ENV_SESSIONS_FD]
          | Some fd \<Rightarrow>
              and_then (with_context (''read '' @ ENV_SESSIONS_FD @ '' fd '' @ dec_int fd) (read_fd fd))
                (\<lambda>json. Inr (Some (json, SourceFd))))
      | None \<Rightarrow> Inr (map_option (\<lambda>json. (json, SourceEnv)) (env_var e ENV_SESSIONS)))"

definition parse_handoff_sessions_payload ::
  "(string \<Rightarrow> session_handoff list result) \<Rightarrow> string \<times> handoff_source \<Rightarrow> session_handoff list option result" where
  "parse_handoff_sessions_payload from_json payload =
     (case from_json (fst payload) of
        Inr v \<Rightarrow> Inr (Some v)
      | Inl e \<Rightarrow>
         (case snd payload of
            SourceFd \<Rightarrow> Inl (''parse session handoff JSON from FDPASS_SESSIONS_FD'' # e)
          | SourceEnv \<Rightarrow> Inr None))"

definition adopt_inflight_sessions ::
  "env \<Rightarrow> (raw_fd \<Rightarrow> string result) \<Rightarrow> (string \<Rightarrow> session_handoff list result) \<Rightarrow>
     (raw_fd \<Rightarrow> unit result) \<Rightarrow> sockets \<Rightarrow> processor \<Rightarrow> processor result" where
  "adopt_inflight_sessions e read_fd from_json reconstruct socks p =
     and_then (read_handoff_sessions_json e read_fd) (\<lambda>payload.
       case payload of
         None \<Rightarrow> Inr p
       | Some payload \<Rightarrow>
           and_then (parse_handoff_sessions_payload from_json payload) (\<lambda>sessions.
             case sessions of
               None \<Rightarrow> Inr p
             | Some sessions \<Rightarrow>
                 Inr (fold (adopt_one reconstruct socks)
                        (filter (\<lambda>h. is_schema_compatible (sh_version h)) sessions) p)))"

definition cleanup_generation_zero_socket :: "u64 \<Rightarrow> string \<Rightarrow> string list" where
  "cleanup_generation_zero_socket generation sock_path = (if generation = 0 then [sock_path] else [])"

section \<open>Upgrade\<close>

definition make_sessions_pipe ::
  "fcntl \<Rightarrow> (raw_fd \<times> raw_fd) result \<Rightarrow> cloexec_flags \<Rightarrow> ((raw_fd \<times> raw_fd) \<times> cloexec_flags) result" where
  "make_sessions_pipe fc pipe t =
     and_then (with_context ''session handoff pipe'' pipe) (\<lambda>(read_end, write_end).
       and_then (with_context ''clear CLOEXEC on session handoff read fd''
                   (clear_cloexec fc read_end (t(read_end := False, write_end := False)))) (\<lambda>t1.
         and_then (with_context ''set CLOEXEC on session handoff write fd'' (set_cloexec fc write_end t1)) (\<lambda>t2.
           Inr ((read_end, write_end), t2))))"

definition processor_handed_env :: "u64 \<Rightarrow> raw_fd \<Rightarrow> raw_fd \<Rightarrow> raw_fd \<Rightarrow> env" where
  "processor_handed_env generation listener_fd sessions_fd child_write_fd =
     [(ENV_LISTENER_FD, dec_int listener_fd), (ENV_SESSIONS_FD, dec_int sessions_fd),
      (ENV_UPGRADE_GENERATION, dec (unat (generation + 1))), (ENV_READY_FD, dec_int child_write_fd)]"

text \<open>The calls only the processor makes, beside those of the shared record.\<close>

record processor_os =
  po_sends :: "u64 \<Rightarrow> injected_fault option \<times> bool"
  po_to_json :: "session_handoff list \<Rightarrow> string result"
  po_sessions_pipe :: "(raw_fd \<times> raw_fd) result"
  po_ready_fault :: "injected_fault option"
  po_writer :: "unit result"
  po_reconstruct :: "raw_fd \<Rightarrow> unit result"
  po_sockets :: sockets

text \<open>How the attempt ends, with the payload written to a committed child's session pipe.\<close>

datatype processor_end = ProcFailed error | ProcRolledBack | ProcCommitted upgrade_cmd raw_fd string

definition processor_ready :: "upgrade_os \<Rightarrow> processor_os \<Rightarrow> unit result" where
  "processor_ready os po =
     (case po_ready_fault po of
        Some f \<Rightarrow> Inl (''synthetic: upgrade child never signaled ready'' # into_anyhow f)
      | None \<Rightarrow> wait_for_child_ready (os_ready os))"

definition finish_upgrade_attempt ::
  "upgrade_os \<Rightarrow> processor_os \<Rightarrow> session_handoff list \<Rightarrow> upgrade_cmd \<times> raw_fd \<times> string \<Rightarrow> processor \<Rightarrow>
     processor_end \<times> processor" where
  "finish_upgrade_attempt os po hs out p =
     (case processor_ready os po of
        Inl _ \<Rightarrow>
         (case os_reattach os of
            Inl e \<Rightarrow> (ProcFailed e, p)
          | Inr _ \<Rightarrow> (ProcRolledBack, readopt_sessions (po_reconstruct po) (po_sockets po) hs p))
      | Inr _ \<Rightarrow>
         (case po_writer po of
            Inl e \<Rightarrow> (ProcFailed e, p)
          | Inr _ \<Rightarrow> (case out of (cmd, fd, json) \<Rightarrow> (ProcCommitted cmd fd json, p))))"

text \<open>
  After the drain, up to the child: every failure here is returned to the accept loop, which ends
  the processor; the drained sessions are in the local list only.
\<close>

definition processor_start_child ::
  "upgrade_os \<Rightarrow> processor_os \<Rightarrow> upgrade_ctx \<Rightarrow> raw_fd \<Rightarrow> session_handoff list \<Rightarrow> cloexec_flags \<Rightarrow>
     (error + upgrade_cmd \<times> raw_fd \<times> string) \<times> cloexec_guard list \<times> cloexec_flags" where
  "processor_start_child os po ctx listener_fd hs t =
     (case with_context ''ready pipe'' (make_ready_pipe (os_fcntl os) (os_pipe os) t) of
        Inl e \<Rightarrow> (Inl e, [], t)
      | Inr ((parent_read, child_write_fd), t1) \<Rightarrow>
         (case po_to_json po hs of
            Inl e \<Rightarrow> (Inl e, [], t1)
          | Inr json \<Rightarrow>
             (case make_sessions_pipe (os_fcntl os) (po_sessions_pipe po) t1 of
                Inl e \<Rightarrow> (Inl e, [], t1)
              | Inr ((sessions_read, sessions_write), t2) \<Rightarrow>
                 (case spawn_upgrade_child os (ctx\<lparr>uc_arg := ''processor''\<rparr>)
                         (processor_handed_env (uc_generation ctx) listener_fd sessions_read child_write_fd) t2 of
                    (Inl e, t3) \<Rightarrow> (Inl e, [], t3)
                  | (Inr (cmd, guards), t3) \<Rightarrow> (Inr (cmd, sessions_read, json), guards, t3)))))"

definition processor_do_upgrade ::
  "upgrade_os \<Rightarrow> processor_os \<Rightarrow> upgrade_ctx \<Rightarrow> processor \<Rightarrow> cloexec_flags \<Rightarrow>
     processor_end \<times> processor \<times> cloexec_flags" where
  "processor_do_upgrade os po ctx p t =
     (case with_context ''listener into_std'' (os_into_std os) of
        Inl e \<Rightarrow> (ProcFailed e, p, t)
      | Inr listener_fd \<Rightarrow>
         (case with_context ''clear CLOEXEC on processor listener'' (guard_clear (os_fcntl os) listener_fd t) of
            Inl e \<Rightarrow> (ProcFailed e, p, t)
          | Inr (guard, t1) \<Rightarrow>
             (case drain_session_handoffs (os_fcntl os) (po_sends po) p t1 of
                (hs, p1, t2) \<Rightarrow>
                 (case processor_start_child os po ctx listener_fd hs t2 of
                    (Inl e, _, t3) \<Rightarrow> (ProcFailed e, p1, guard_drop (os_fcntl os) guard t3)
                  | (Inr out, guards, t3) \<Rightarrow>
                     (case finish_upgrade_attempt os po hs out p1 of
                        (ProcCommitted cmd fd json, p2) \<Rightarrow>
                          (ProcCommitted cmd fd json, p2, guard_commit (os_fcntl os) guard t3)
                      | (r, p2) \<Rightarrow> (r, p2, drop_guards (os_fcntl os) (guards @ [guard]) t3))))))"

section \<open>Lemmas: the registry\<close>

interpretation sessions: id_registry reg_next_id "\<lambda>r. fst ` set (reg_sessions r)" register_session unregister_session
  by unfold_locales
    (auto simp: register_session_def unregister_session_def Let_def AList.delete_eq dom_update)

lemma update_fresh: "k \<notin> fst ` set xs \<Longrightarrow> AList.update k v xs = xs @ [(k, v)]"
  by (induction xs) auto

text \<open>
  Everything that changes the registry: a session starts, its echo loop ends (a late end finds its
  handle already taken by a drain), its first flush fails, the sidecar sends a frame, an upgrade drains
  all sessions, a record is adopted by a successor or after a rollback.
\<close>

datatype registry_op =
    OpenSession session
  | SessionEnds u64 string
  | FlushFails u64
  | SidecarFrame session_metadata
  | DrainSessions fcntl "u64 \<Rightarrow> injected_fault option \<times> bool" cloexec_flags
  | AdoptRecord "raw_fd \<Rightarrow> unit result" sockets session_handoff

fun registry_step :: "processor \<Rightarrow> registry_op \<Rightarrow> processor" where
  "registry_step p (OpenSession s) = spawn_session s p"
| "registry_step p (SessionEnds sid peer) =
     (if map_of (reg_sessions (p_registry p)) sid \<in> {None, Some peer}
      then p\<lparr>p_registry := session_ended sid peer (p_registry p), p_tasks := AList.delete sid (p_tasks p)\<rparr> else p)"
| "registry_step p (FlushFails sid) =
     p\<lparr>p_registry := session_flush_failed sid (p_registry p), p_tasks := AList.delete sid (p_tasks p)\<rparr>"
| "registry_step p (SidecarFrame m) = p\<lparr>p_registry := snd (store_metadata_if_session_active m (p_registry p))\<rparr>"
| "registry_step p (DrainSessions fc sends t) = fst (snd (drain_session_handoffs fc sends p t))"
| "registry_step p (AdoptRecord reconstruct socks h) = adopt_one reconstruct socks h p"

text \<open>
  The peers whose metadata has lost its session: to a failed flush, a drain, or a record that brought
  its metadata but no session. A new session of the peer takes it over, and its last end drops it.
\<close>

definition live_peers :: "session_registry \<Rightarrow> string set" where
  "live_peers r = snd ` set (reg_sessions r)"

definition adoptable :: "(raw_fd \<Rightarrow> unit result) \<Rightarrow> session_handoff \<Rightarrow> bool" where
  "adoptable reconstruct h \<longleftrightarrow> transport h = Uds \<and> \<not> isl (reconstruct (uds_fd h))"

fun stranded :: "session_registry \<Rightarrow> registry_op \<Rightarrow> string set \<Rightarrow> string set" where
  "stranded r (OpenSession s) ps = ps - {s_peer s}"
| "stranded r (SessionEnds sid peer) ps =
     (if map_of (reg_sessions r) sid \<in> {None, Some peer} \<and> \<not> peer_active peer (unregister_session sid r)
      then ps - {peer} else ps)"
| "stranded r (FlushFails sid) ps = ps \<union> set_option (map_of (reg_sessions r) sid)"
| "stranded r (SidecarFrame m) ps = ps"
| "stranded r (DrainSessions fc sends t) ps = ps \<union> live_peers r"
| "stranded r (AdoptRecord reconstruct socks h) ps =
     (if adoptable reconstruct h then ps - {sh_peer h} else if sh_ident h = None then ps else insert (sh_peer h) ps)"

fun left_behind :: "processor \<Rightarrow> string set \<Rightarrow> registry_op list \<Rightarrow> string set" where
  "left_behind p ps [] = ps"
| "left_behind p ps (ev # evs) = left_behind (registry_step p ev) (stranded (p_registry p) ev ps) evs"

definition empty_processor :: processor where
  "empty_processor = \<lparr>p_registry = session_registry_default, p_tasks = [], p_closed = []\<rparr>"

definition registry_inv :: "nat \<Rightarrow> string set \<Rightarrow> session_registry \<Rightarrow> bool" where
  "registry_inv n ps r \<longleftrightarrow>
     sessions.counted n r \<and> distinct (map fst (reg_sessions r)) \<and> fst ` set (reg_metadata r) \<subseteq> live_peers r \<union> ps"

lemma peer_active_live: "peer_active peer r \<longleftrightarrow> peer \<in> live_peers r"
  by (auto simp: peer_active_def live_peers_def)

lemma register_session_inv:
  assumes inv: "registry_inv n ps r" and "Suc n < 2 ^ 64"
  shows "registry_inv (Suc n) (ps - {peer}) (snd (register_session peer r))"
proof -
  have fresh: "reg_next_id r \<notin> fst ` set (reg_sessions r)"
    using inv sessions.enter_fresh [of n r peer] by (simp add: registry_inv_def sessions.enter_id)
  then have "reg_sessions (snd (register_session peer r)) = reg_sessions r @ [(reg_next_id r, peer)]"
    by (simp add: register_session_def Let_def update_fresh)
  moreover have "reg_metadata (snd (register_session peer r)) = reg_metadata r"
    by (simp add: register_session_def Let_def)
  ultimately show ?thesis
    using inv fresh sessions.enter_counted [OF _ assms(2)] by (auto simp: registry_inv_def live_peers_def)
qed

lemma unregister_metadata [simp]: "reg_metadata (unregister_session i r) = reg_metadata r"
  by (simp add: unregister_session_def)

lemma unregister_peers:
  assumes "distinct (map fst (reg_sessions r))"
  shows "live_peers r \<subseteq> live_peers (unregister_session i r) \<union> set_option (map_of (reg_sessions r) i)"
proof
  fix q assume "q \<in> live_peers r"
  then obtain j where j: "(j, q) \<in> set (reg_sessions r)" by (auto simp: live_peers_def)
  then have "map_of (reg_sessions r) j = Some q" using assms by simp
  with j show "q \<in> live_peers (unregister_session i r) \<union> set_option (map_of (reg_sessions r) i)"
    by (cases "j = i") (auto simp: live_peers_def unregister_session_def AList.delete_eq image_iff intro!: bexI)
qed

lemma unregister_inv:
  assumes "registry_inv n ps r"
  shows "registry_inv n (ps \<union> set_option (map_of (reg_sessions r) i)) (unregister_session i r)"
  using assms unregister_peers [of r i] sessions.leave_counted [of n r i]
  by (auto simp: registry_inv_def unregister_session_def distinct_delete)

lemma session_ended_inv:
  assumes inv: "registry_inv n ps r" and peer: "map_of (reg_sessions r) i \<in> {None, Some peer}"
  shows "registry_inv n (stranded r (SessionEnds i peer) ps) (session_ended i peer r)"
proof -
  let ?r = "unregister_session i r"
  have u: "registry_inv n (ps \<union> set_option (map_of (reg_sessions r) i)) ?r" using inv by (rule unregister_inv)
  show ?thesis
  proof (cases "peer_active peer ?r")
    case True
    with u peer show ?thesis by (auto simp: session_ended_def Let_def registry_inv_def peer_active_live)
  next
    case False
    then have "session_ended i peer r = ?r\<lparr>reg_metadata := AList.delete peer (reg_metadata r)\<rparr>"
      by (simp add: session_ended_def Let_def)
    with u peer False show ?thesis
      by (auto simp: registry_inv_def sessions.counted_def live_peers_def AList.delete_eq)
  qed
qed

lemma update_metadata_inv:
  assumes "registry_inv n ps r" and "peer \<in> live_peers r \<union> qs" and "ps \<subseteq> qs"
  shows "registry_inv n qs (r\<lparr>reg_metadata := AList.update peer m (reg_metadata r)\<rparr>)"
  using assms by (auto simp: registry_inv_def sessions.counted_def live_peers_def dom_update)

lemma store_metadata_inv:
  assumes "registry_inv n ps r" shows "registry_inv n ps (snd (store_metadata_if_session_active m r))"
  using assms update_metadata_inv [OF assms, of "sm_peer m" ps m]
  by (auto simp: store_metadata_if_session_active_def peer_active_live)

lemma spawn_session_inv:
  assumes "registry_inv n ps (p_registry p)" and "Suc n < 2 ^ 64"
  shows "registry_inv (Suc n) (ps - {s_peer s}) (p_registry (spawn_session s p))"
  using register_session_inv [OF assms, of "s_peer s"] by (simp add: spawn_session_def case_prod_beta)

lemma adopt_one_inv:
  assumes inv: "registry_inv n ps (p_registry p)" and small: "Suc n < 2 ^ 64"
  shows "\<exists>m. n \<le> m \<and> m \<le> Suc n \<and>
    registry_inv m (stranded (p_registry p) (AdoptRecord reconstruct socks h) ps) (p_registry (adopt_one reconstruct socks h p))"
proof -
  define p1 where "p1 = (case sh_ident h of None \<Rightarrow> p | Some ident \<Rightarrow>
      p\<lparr>p_registry := (p_registry p)\<lparr>reg_metadata := AList.update (sh_peer h)
          \<lparr>sm_peer = sh_peer h, sm_ident = Some ident, sm_trace_id = sh_trace_id h\<rparr> (reg_metadata (p_registry p))\<rparr>\<rparr>)"
  have p1: "registry_inv n (if sh_ident h = None then ps else insert (sh_peer h) ps) (p_registry p1)"
    using inv update_metadata_inv [OF inv, of "sh_peer h" "insert (sh_peer h) ps"]
    by (auto simp: p1_def split: option.splits)
  show ?thesis
  proof (cases "adoptable reconstruct h")
    case True
    then have run: "adopt_one reconstruct socks h p =
        spawn_session (adopted_session h (fst (socks (uds_fd h))) (snd (socks (uds_fd h)))) p1"
      by (auto simp: adopt_one_def adoptable_def p1_def [symmetric] isl_def split: sum.splits)
    have "(if sh_ident h = None then ps else insert (sh_peer h) ps) - {sh_peer h} = ps - {sh_peer h}" by auto
    with spawn_session_inv [OF p1 small, of "adopted_session h (fst (socks (uds_fd h))) (snd (socks (uds_fd h)))"] True run
    show ?thesis by (intro exI [of _ "Suc n"]) (simp add: adopted_session_def)
  next
    case False
    then have "p_registry (adopt_one reconstruct socks h p) = p_registry p1"
      by (auto simp: adopt_one_def adoptable_def p1_def [symmetric] Let_def isl_def split: sum.splits transport.splits)
    with p1 False show ?thesis by (intro exI [of _ n]) auto
  qed
qed

lemma drain_inv:
  assumes "registry_inv n ps (p_registry p)"
  shows "registry_inv n (ps \<union> live_peers (p_registry p)) (p_registry (fst (snd (drain_session_handoffs fc sends p t))))"
  using assms
  by (auto simp: drain_session_handoffs_def registry_inv_def sessions.counted_def live_peers_def split: prod.splits)

lemma registry_step_inv:
  assumes "registry_inv n ps (p_registry p)" and "Suc n < 2 ^ 64"
  shows "\<exists>m. n \<le> m \<and> m \<le> Suc n \<and> registry_inv m (stranded (p_registry p) ev ps) (p_registry (registry_step p ev))"
proof (cases ev)
  case (OpenSession s)
  with spawn_session_inv [OF assms, of s] show ?thesis by (intro exI [of _ "Suc n"]) simp
next
  case (SessionEnds sid peer)
  with session_ended_inv [OF assms(1)] assms(1) show ?thesis
    by (intro exI [of _ n]) (simp del: stranded.simps, simp)
next
  case (FlushFails sid)
  with unregister_inv [OF assms(1), of sid] show ?thesis
    by (intro exI [of _ n]) (simp add: session_flush_failed_def)
next
  case (SidecarFrame m)
  with store_metadata_inv [OF assms(1)] show ?thesis by (intro exI [of _ n]) simp
next
  case (DrainSessions fc sends t)
  with drain_inv [OF assms(1)] show ?thesis by (intro exI [of _ n]) simp
next
  case (AdoptRecord reconstruct socks h)
  with adopt_one_inv [OF assms] show ?thesis by simp
qed

lemma registry_run_inv:
  assumes "registry_inv n ps (p_registry p)" and "n + length evs < 2 ^ 64"
  shows "\<exists>m. registry_inv m (left_behind p ps evs) (p_registry (foldl registry_step p evs))"
  using assms
proof (induction evs arbitrary: n ps p)
  case (Cons ev evs)
  have "Suc n < 2 ^ 64" by (rule le_less_trans [OF _ Cons.prems(2)]) simp
  from registry_step_inv [OF Cons.prems(1) this, of ev] obtain m where m: "m \<le> Suc n"
    "registry_inv m (stranded (p_registry p) ev ps) (p_registry (registry_step p ev))" by blast
  have "m + length evs < 2 ^ 64" by (rule le_less_trans [OF _ Cons.prems(2)]) (use m(1) in simp)
  from Cons.IH [OF m(2) this] show ?case by simp
qed auto

text \<open>What leaves nothing behind: ordinary steps, and a drain all of whose records are adopted again.\<close>

fun ordinary :: "registry_op \<Rightarrow> bool" where
  "ordinary (FlushFails sid) = False"
| "ordinary (DrainSessions fc sends t) = False"
| "ordinary (AdoptRecord reconstruct socks h) = (adoptable reconstruct h \<or> sh_ident h = None)"
| "ordinary ev = True"

lemma ordinary_strands: "ordinary ev \<Longrightarrow> stranded r ev ps \<subseteq> ps"
  by (cases ev) auto

lemma ordinary_leaves: "list_all ordinary evs \<Longrightarrow> left_behind p {} evs = {}"
proof (induction evs arbitrary: p)
  case (Cons ev evs)
  then have "stranded (p_registry p) ev {} = {}" using ordinary_strands [of ev "p_registry p" "{}"] by simp
  with Cons show ?case by simp
qed simp

lemma adopted_back:
  assumes "list_all (adoptable reconstruct) hs"
  shows "left_behind p ps (map (AdoptRecord reconstruct socks) hs) = ps - sh_peer ` set hs"
  using assms by (induction hs arbitrary: p ps) auto

section \<open>Lemmas: handing sessions over\<close>

definition processor_inv :: "nat \<Rightarrow> processor \<Rightarrow> bool" where
  "processor_inv n p \<longleftrightarrow>
     sessions.counted n (p_registry p) \<and>
     fst ` set (p_tasks p) = fst ` set (reg_sessions (p_registry p))"

lemma spawn_session_tasks:
  assumes "processor_inv n p" and "Suc n < 2 ^ 64"
  shows "map snd (p_tasks (spawn_session s p)) = map snd (p_tasks p) @ [s]"
    and "processor_inv (Suc n) (spawn_session s p)"
    and "p_closed (spawn_session s p) = p_closed p"
proof -
  have fresh: "reg_next_id (p_registry p) \<notin> fst ` set (p_tasks p)"
    using assms(1) sessions.enter_fresh [of n "p_registry p" "s_peer s"]
    by (simp add: processor_inv_def sessions.enter_id)
  then have tasks: "p_tasks (spawn_session s p) = p_tasks p @ [(reg_next_id (p_registry p), s)]"
    by (simp add: spawn_session_def register_session_def Let_def update_fresh)
  then show "map snd (p_tasks (spawn_session s p)) = map snd (p_tasks p) @ [s]" by simp
  have "p_registry (spawn_session s p) = snd (register_session (s_peer s) (p_registry p))"
    by (simp add: spawn_session_def split: prod.splits)
  with assms sessions.enter_counted [of n "p_registry p" "s_peer s"]
    sessions.enter_live [of "s_peer s" "p_registry p"] tasks
  show "processor_inv (Suc n) (spawn_session s p)" by (auto simp: processor_inv_def)
  show "p_closed (spawn_session s p) = p_closed p"
    by (simp add: spawn_session_def split: prod.splits)
qed

lemma adopt_one_ok:
  assumes "processor_inv n p" and "Suc n < 2 ^ 64" and "transport h = Uds" and "rc (uds_fd h) = Inr ()"
  shows "map snd (p_tasks (adopt_one rc socks h p)) = map snd (p_tasks p) @
      [adopted_session h (fst (socks (uds_fd h))) (snd (socks (uds_fd h)))]"
    and "processor_inv (Suc n) (adopt_one rc socks h p)"
    and "p_closed (adopt_one rc socks h p) = p_closed p"
proof -
  define p1 where "p1 = (case sh_ident h of
      None \<Rightarrow> p
    | Some ident \<Rightarrow>
        p\<lparr>p_registry := (p_registry p)\<lparr>reg_metadata := AList.update (sh_peer h)
            \<lparr>sm_peer = sh_peer h, sm_ident = Some ident, sm_trace_id = sh_trace_id h\<rparr>
            (reg_metadata (p_registry p))\<rparr>\<rparr>)"
  have "processor_inv n p1" "p_tasks p1 = p_tasks p" "p_closed p1 = p_closed p"
    using assms(1) by (auto simp: p1_def processor_inv_def sessions.counted_def split: option.splits)
  moreover have "adopt_one rc socks h p =
      spawn_session (adopted_session h (fst (socks (uds_fd h))) (snd (socks (uds_fd h)))) p1"
    using assms(3,4) by (simp add: adopt_one_def p1_def [symmetric])
  ultimately show "map snd (p_tasks (adopt_one rc socks h p)) = map snd (p_tasks p) @
      [adopted_session h (fst (socks (uds_fd h))) (snd (socks (uds_fd h)))]"
    "processor_inv (Suc n) (adopt_one rc socks h p)" "p_closed (adopt_one rc socks h p) = p_closed p"
    using spawn_session_tasks [of n p1] assms(2) by simp_all
qed

lemma adopt_all_ok:
  assumes "processor_inv n p" and "n + length hs < 2 ^ 64"
    and "\<And>h. h \<in> set hs \<Longrightarrow> transport h = Uds \<and> rc (uds_fd h) = Inr ()"
  shows "map snd (p_tasks (fold (adopt_one rc socks) hs p)) = map snd (p_tasks p) @
      map (\<lambda>h. adopted_session h (fst (socks (uds_fd h))) (snd (socks (uds_fd h)))) hs \<and>
    p_closed (fold (adopt_one rc socks) hs p) = p_closed p"
  using assms
proof (induction hs arbitrary: n p)
  case (Cons h hs)
  have "Suc n < 2 ^ 64" using Cons.prems(2) by (rule le_less_trans [rotated]) simp
  note one = adopt_one_ok [OF Cons.prems(1) this, of h rc socks]
  have "map snd (p_tasks (fold (adopt_one rc socks) hs (adopt_one rc socks h p))) =
      map snd (p_tasks (adopt_one rc socks h p)) @
      map (\<lambda>h. adopted_session h (fst (socks (uds_fd h))) (snd (socks (uds_fd h)))) hs \<and>
      p_closed (fold (adopt_one rc socks) hs (adopt_one rc socks h p)) = p_closed (adopt_one rc socks h p)"
    using one Cons.prems by (intro Cons.IH [of "Suc n"]) auto
  with one Cons.prems(3) show ?case by simp
qed simp

text \<open>
  The records of a drain in which every task answers and no descriptor is refused: one per task,
  in order, with the identity of the sidecar added.
\<close>

lemma await_all_ok:
  assumes "\<And>f rx. (f, rx) \<in> set xs \<Longrightarrow> f \<noteq> Some FaultSkip \<and> (\<exists>h. rx = Some h \<and> fcntl_ok fc (uds_fd h))"
  shows "\<exists>t'. await_all fc meta xs t = (map (\<lambda>(f, rx). enrich_handoff meta (the rx)) xs, [], t') \<and>
    (\<forall>fd. t' fd \<longleftrightarrow> t fd \<and> (\<forall>f h. (f, Some h) \<in> set xs \<longrightarrow> fd \<noteq> uds_fd h))"
  using assms
proof (induction xs arbitrary: t)
  case (Cons x xs)
  obtain f rx where x: "x = (f, rx)" by fastforce
  from Cons.prems [of f rx] x obtain h where f: "f \<noteq> Some FaultSkip" "rx = Some h" "fcntl_ok fc (uds_fd h)"
    by auto
  have "await_session_handoff fc f rx t = (Some h, [], t(uds_fd h := False))"
    using f by (simp add: await_session_handoff_def clear_cloexec_def change_cloexec_def fcntl_ok_def)
  moreover obtain t' where t': "await_all fc meta xs (t(uds_fd h := False)) =
      (map (\<lambda>(f, rx). enrich_handoff meta (the rx)) xs, [], t')"
    "\<forall>fd. t' fd \<longleftrightarrow> (t(uds_fd h := False)) fd \<and> (\<forall>f h. (f, Some h) \<in> set xs \<longrightarrow> fd \<noteq> uds_fd h)"
    using Cons.IH [OF Cons.prems, of "t(uds_fd h := False)"] by (auto simp only: list.set_intros)
  ultimately show ?case using f x by auto
qed simp

lemma enrich_content [simp]:
  "uds_fd (enrich_handoff m h) = uds_fd h" "transport (enrich_handoff m h) = transport h"
  "sh_version (enrich_handoff m h) = sh_version h"
  "adopted_session (enrich_handoff m h) a b = adopted_session h a b"
  by (simp_all add: enrich_handoff_def adopted_session_def split: option.splits)

text \<open>What a task becomes when it is handed over: the same session, restarted at its buffers.\<close>

definition restarted :: "session \<Rightarrow> session" where
  "restarted s = s\<lparr>s_phase := start_phase (s_write s)\<rparr>"

lemma adopted_handoff:
  "adopted_session (session_handoff_of s) (s_unread s) (s_delivered s) = restarted s"
  by (simp add: adopted_session_def session_handoff_of_def restarted_def)

definition drainable :: "upgrade_os \<Rightarrow> processor_os \<Rightarrow> processor \<Rightarrow> bool" where
  "drainable os po p \<longleftrightarrow>
     (\<forall>i s. (i, s) \<in> set (p_tasks p) \<longrightarrow>
        fst (po_sends po i) \<noteq> Some FaultSkip \<and> snd (po_sends po i) \<and> fcntl_ok (os_fcntl os) (s_fd s) \<and>
        po_reconstruct po (s_fd s) = Inr () \<and> po_sockets po (s_fd s) = (s_unread s, s_delivered s))"

definition drained_records :: "processor \<Rightarrow> session_handoff list" where
  "drained_records p =
     map (\<lambda>(i, s). enrich_handoff (reg_metadata (p_registry p)) (session_handoff_of s)) (p_tasks p)"

lemma drain_ok:
  assumes "drainable os po p"
  shows "\<exists>t'. drain_session_handoffs (os_fcntl os) (po_sends po) p t =
      (drained_records p, p\<lparr>p_registry := (p_registry p)\<lparr>reg_sessions := []\<rparr>, p_tasks := []\<rparr>, t') \<and>
    (\<forall>fd. t' fd \<longleftrightarrow> t fd \<and> fd \<notin> (\<lambda>(i, s). s_fd s) ` set (p_tasks p))"
proof -
  let ?xs = "map (\<lambda>(i, s). (fst (po_sends po i), if snd (po_sends po i) then Some (session_handoff_of s) else None))
      (p_tasks p)"
  have fd [simp]: "uds_fd (session_handoff_of s) = s_fd s" for s by (simp add: session_handoff_of_def)
  have "f \<noteq> Some FaultSkip \<and> (\<exists>h. rx = Some h \<and> fcntl_ok (os_fcntl os) (uds_fd h))" if "(f, rx) \<in> set ?xs" for f rx
    using that assms by (fastforce simp: drainable_def)
  from await_all_ok [OF this] obtain t' where t':
    "await_all (os_fcntl os) (reg_metadata (p_registry p)) ?xs t =
      (map (\<lambda>(f, rx). enrich_handoff (reg_metadata (p_registry p)) (the rx)) ?xs, [], t')"
    "\<forall>fd. t' fd \<longleftrightarrow> t fd \<and> (\<forall>f h. (f, Some h) \<in> set ?xs \<longrightarrow> fd \<noteq> uds_fd h)" by blast
  have recs: "map (\<lambda>(f, rx). enrich_handoff (reg_metadata (p_registry p)) (the rx)) ?xs = drained_records p"
    using assms by (auto simp: drained_records_def drainable_def)
  have "(\<forall>f h. (f, Some h) \<in> set ?xs \<longrightarrow> fd \<noteq> uds_fd h) \<longleftrightarrow> fd \<notin> (\<lambda>(i, s). s_fd s) ` set (p_tasks p)" for fd
    using assms by (fastforce simp: drainable_def image_iff)
  with t' recs show ?thesis by (simp add: drain_session_handoffs_def)
qed

lemma readopt_drained:
  assumes "drainable os po p" and "processor_inv n q" and "n + length (p_tasks p) < 2 ^ 64"
  shows "map snd (p_tasks (fold (adopt_one (po_reconstruct po) (po_sockets po)) (drained_records p) q)) =
      map snd (p_tasks q) @ map (\<lambda>(i, s). restarted s) (p_tasks p) \<and>
    p_closed (fold (adopt_one (po_reconstruct po) (po_sockets po)) (drained_records p) q) = p_closed q"
proof -
  have "transport h = Uds \<and> po_reconstruct po (uds_fd h) = Inr ()" if "h \<in> set (drained_records p)" for h
    using that assms(1) by (auto simp: drained_records_def drainable_def session_handoff_of_def)
  moreover have "n + length (drained_records p) < 2 ^ 64" using assms(3) by (simp add: drained_records_def)
  moreover have "map (\<lambda>h. adopted_session h (fst (po_sockets po (uds_fd h))) (snd (po_sockets po (uds_fd h))))
      (drained_records p) = map (\<lambda>(i, s). restarted s) (p_tasks p)"
  proof -
    have "adopted_session (session_handoff_of s) (fst (po_sockets po (s_fd s))) (snd (po_sockets po (s_fd s))) =
        restarted s" if "(i, s) \<in> set (p_tasks p)" for i s
      using that assms(1) adopted_handoff by (fastforce simp: drainable_def)
    then show ?thesis by (auto simp: drained_records_def session_handoff_of_def)
  qed
  ultimately show ?thesis using adopt_all_ok [OF assms(2), of "drained_records p" "po_reconstruct po" "po_sockets po"]
    by simp
qed

section \<open>Lemmas: the attempt\<close>

lemma processor_handed_lookup:
  "env_var (rev (processor_handed_env g l sr w)) ENV_SESSIONS_FD = Some (dec_int sr)"
  by (simp add: processor_handed_env_def env_names)

lemma start_child_Inr:
  assumes "processor_start_child os po ctx l hs t = (Inr (cmd, fd, json), gs, t')"
  shows "po_to_json po hs = Inr json" and "env_var (uc_env cmd) ENV_SESSIONS_FD = Some (dec_int fd)"
proof -
  from assms obtain r w t1 where 1: "make_ready_pipe (os_fcntl os) (os_pipe os) t = Inr ((r, w), t1)"
    by (cases "make_ready_pipe (os_fcntl os) (os_pipe os) t") (auto simp: processor_start_child_def)
  with assms have json: "\<exists>j. po_to_json po hs = Inr j"
    by (cases "po_to_json po hs") (auto simp: processor_start_child_def)
  then obtain j where j: "po_to_json po hs = Inr j" by blast
  with assms 1 obtain sr sw t2 where 2: "make_sessions_pipe (os_fcntl os) (po_sessions_pipe po) t1 = Inr ((sr, sw), t2)"
    by (cases "make_sessions_pipe (os_fcntl os) (po_sessions_pipe po) t1") (auto simp: processor_start_child_def)
  let ?sp = "spawn_upgrade_child os (ctx\<lparr>uc_arg := ''processor''\<rparr>)
      (processor_handed_env (uc_generation ctx) l sr w) t2"
  obtain out t3 where sp: "?sp = (out, t3)" by fastforce
  with assms 1 j 2 have "out = Inr (cmd, gs)" "fd = sr" "json = j"
    by (auto simp: processor_start_child_def split: sum.splits)
  with j spawned_env [of os "ctx\<lparr>uc_arg := ''processor''\<rparr>" _ t2 cmd gs t3 ENV_SESSIONS_FD "dec_int sr"] sp
    processor_handed_lookup handed_names_free
  show "po_to_json po hs = Inr json" "env_var (uc_env cmd) ENV_SESSIONS_FD = Some (dec_int fd)" by auto
qed

text \<open>An attempt that got past the drain ran the child's stages on the drained records.\<close>

lemma attempt_stages:
  assumes "processor_do_upgrade os po ctx p t = (r, p', t')" and "drainable os po p"
    and "os_into_std os = Inr l" and "fcntl_ok (os_fcntl os) l"
  defines "p1 \<equiv> p\<lparr>p_registry := (p_registry p)\<lparr>reg_sessions := []\<rparr>, p_tasks := []\<rparr>"
  shows "(\<exists>e. r = ProcFailed e \<and> p' = p1) \<or>
    (\<exists>out gs t2 t3. processor_start_child os po ctx l (drained_records p) t2 = (Inr out, gs, t3) \<and>
       finish_upgrade_attempt os po (drained_records p) out p1 = (r, p'))"
proof -
  have g: "guard_clear (os_fcntl os) l t = Inr (\<lparr>guard_fd = l, armed = True\<rparr>, t(l := False))"
    using assms(4) by simp
  from drain_ok [OF assms(2), of "t(l := False)"] obtain t2 where
    d: "drain_session_handoffs (os_fcntl os) (po_sends po) p (t(l := False)) = (drained_records p, p1, t2)"
    by (auto simp: p1_def)
  obtain out gs t3 where c: "processor_start_child os po ctx l (drained_records p) t2 = (out, gs, t3)"
    using prod_cases3 by blast
  show ?thesis
  proof (cases out)
    case (Inl e)
    with assms(1,3) g d c show ?thesis
      by (auto simp: processor_do_upgrade_def simp del: guard_clear_Inr)
  next
    case (Inr x)
    obtain r1 q where f: "finish_upgrade_attempt os po (drained_records p) x p1 = (r1, q)" by fastforce
    with assms(1,3) g d c Inr have "r1 = r" "q = p'"
      by (auto simp: processor_do_upgrade_def simp del: guard_clear_Inr split: processor_end.splits)
    with c f Inr show ?thesis by blast
  qed
qed

lemma attempt_guarded:
  assumes "processor_do_upgrade os po ctx p t = (r, p', t')" and "\<nexists>e. r = ProcFailed e"
  obtains l where "os_into_std os = Inr l" "fcntl_ok (os_fcntl os) l"
proof -
  from assms obtain l where l: "os_into_std os = Inr l"
    by (cases "os_into_std os") (auto simp: processor_do_upgrade_def)
  with assms obtain g t1 where "guard_clear (os_fcntl os) l t = Inr (g, t1)"
    by (cases "guard_clear (os_fcntl os) l t") (auto simp: processor_do_upgrade_def)
  with that l show thesis by auto
qed

lemma drained_inv:
  "processor_inv n p \<Longrightarrow> processor_inv n (p\<lparr>p_registry := (p_registry p)\<lparr>reg_sessions := []\<rparr>, p_tasks := []\<rparr>)"
  by (simp add: processor_inv_def sessions.counted_def)

section \<open>A concrete system for the witnesses\<close>

definition calm_os :: "ready_read \<Rightarrow> (upgrade_cmd \<Rightarrow> unit result) \<Rightarrow> upgrade_os" where
  "calm_os ready spawn = \<lparr>os_freebsd = False, os_environ = [], os_into_std = Inr 5, os_fcntl = (\<lambda>_ _. None),
     os_pipe = Inr (8, 9), os_capmode = None, os_pread = (\<lambda>_ _. None), os_spawn = spawn,
     os_ready = ready, os_reattach = Inr ()\<rparr>"

definition calm_ctx :: upgrade_ctx where
  "calm_ctx = \<lparr>uc_arg = ''processor'', uc_generation = 0, uc_binary_path = None,
     uc_self_exe = \<lparr>exe_path = ''/echod'', exe_fd = 3\<rparr>,
     uc_dirs = \<lparr>dir_sockets = None, dir_cert = None, dir_key = None\<rparr>, uc_sandbox_off = True,
     uc_config_json = Inr ''{}''\<rparr>"

definition calm_session :: session where
  "calm_session = (fresh_session 20 ''1.2.3.4:5'' ''t'' 7 [104])\<lparr>s_read := [105], s_write := [10], s_phase := Sending\<rparr>"

definition calm_processor :: processor where
  "calm_processor = \<lparr>p_registry = snd (register_session ''1.2.3.4:5'' session_registry_default),
     p_tasks = [(0, calm_session)], p_closed = []\<rparr>"

definition calm_po :: processor_os where
  "calm_po = \<lparr>po_sends = (\<lambda>_. (None, True)),
     po_to_json = (\<lambda>hs. if hs = [session_handoff_of calm_session] then Inr ''[..]'' else Inl []),
     po_sessions_pipe = Inr (10, 11), po_ready_fault = None, po_writer = Inr (),
     po_reconstruct = (\<lambda>_. Inr ()), po_sockets = (\<lambda>_. ([104], []))\<rparr>"

lemma calm_drainable: "drainable (calm_os ready spawn) calm_po calm_processor"
  by (simp add: drainable_def calm_os_def calm_po_def calm_processor_def calm_session_def fresh_session_def
      fcntl_ok_def)

lemma calm_inv: "processor_inv 1 calm_processor"
  by (simp add: processor_inv_def sessions.counted_def calm_processor_def register_session_def Let_def
      session_registry_default_def)

lemmas calm_defs = calm_os_def calm_po_def calm_processor_def calm_ctx_def register_session_def
  session_registry_default_def processor_do_upgrade_def drain_session_handoffs_def await_session_handoff_def
  clear_cloexec_def change_cloexec_def set_cloexec_def guard_clear_def enrich_handoff_def
  processor_start_child_def make_ready_pipe_def make_sessions_pipe_def spawn_upgrade_child_def
  require_static_for_capmode_upgrade_def finish_upgrade_attempt_def processor_ready_def
  processor_handed_env_def child_env_def scrub_fdpass_env_def fdpass_env_to_remove_def resolve_upgrade_exe_def

lemma calm_commit:
  "\<exists>cmd p' t'. processor_do_upgrade (calm_os (ReadGot ready_ack) (\<lambda>_. Inr ())) calm_po calm_ctx calm_processor
     (\<lambda>_. True) = (ProcCommitted cmd 10 ''[..]'', p', t')"
  by (simp add: calm_defs Let_def del: guard_clear_Inr change_cloexec_Inr)

lemma calm_rollback:
  "\<exists>p' t'. processor_do_upgrade (calm_os ReadTimedOut (\<lambda>_. Inr ())) calm_po calm_ctx calm_processor
     (\<lambda>_. True) = (ProcRolledBack, p', t')"
  by (simp add: calm_defs Let_def wait_for_child_ready_def del: guard_clear_Inr change_cloexec_Inr)

section \<open>Properties\<close>

text \<open>
  C4 (roundtrip). When an upgrade of the processor commits, the successor, started in the
  environment it was given, adopts exactly the sessions of its predecessor, in order, each with its
  descriptor, peer, trace id, line count and both codec buffers, and closes none; provided every
  session answers the drain, descriptors can be rebuilt, and the JSON reader inverts the writer.
\<close>

theorem processor_commit_hands_over:
  assumes "processor_do_upgrade os po ctx p t = (ProcCommitted cmd fd json, p', t')"
    and "drainable os po p" and "length (p_tasks p) < 2 ^ 64" and "i32_range fd"
    and "\<And>hs j. po_to_json po hs = Inr j \<Longrightarrow> from_json j = Inr hs" and "read_fd fd = Inr json"
  shows "\<exists>q. adopt_inflight_sessions (uc_env cmd) read_fd from_json (po_reconstruct po) (po_sockets po)
      \<lparr>p_registry = session_registry_default, p_tasks = [], p_closed = []\<rparr> = Inr q \<and>
    map snd (p_tasks q) = map (\<lambda>(i, s). restarted s) (p_tasks p) \<and> p_closed q = []"
proof -
  let ?q = "\<lparr>p_registry = session_registry_default, p_tasks = [], p_closed = []\<rparr>"
  let ?adopted = "fold (adopt_one (po_reconstruct po) (po_sockets po)) (drained_records p) ?q"
  obtain l where l: "os_into_std os = Inr l" "fcntl_ok (os_fcntl os) l"
    using attempt_guarded [OF assms(1)] by auto
  from attempt_stages [OF assms(1,2) l] obtain out gs t2 t3 where
    c: "processor_start_child os po ctx l (drained_records p) t2 = (Inr out, gs, t3)" and
    f: "finish_upgrade_attempt os po (drained_records p) out
      (p\<lparr>p_registry := (p_registry p)\<lparr>reg_sessions := []\<rparr>, p_tasks := []\<rparr>) = (ProcCommitted cmd fd json, p')"
    by auto
  from f have "out = (cmd, fd, json)"
    by (cases out) (auto simp: finish_upgrade_attempt_def split: sum.splits)
  note S = start_child_Inr [OF c [unfolded this]]
  have json: "from_json json = Inr (drained_records p)" using assms(5) S(1) by blast
  have compat: "filter (\<lambda>h. is_schema_compatible (sh_version h)) (drained_records p) = drained_records p"
    by (auto simp: drained_records_def filter_id_conv session_handoff_of_def is_schema_compatible_iff
        SCHEMA_VERSION_def)
  have "processor_inv 0 ?q"
    by (simp add: processor_inv_def sessions.counted_def session_registry_default_def)
  from readopt_drained [OF assms(2) this] assms(3) have
    "map snd (p_tasks ?adopted) = map (\<lambda>(i, s). restarted s) (p_tasks p) \<and> p_closed ?adopted = []" by simp
  moreover have "adopt_inflight_sessions (uc_env cmd) read_fd from_json (po_reconstruct po) (po_sockets po) ?q =
      Inr ?adopted"
    using S(2) assms(4,6) json compat
    by (simp add: adopt_inflight_sessions_def read_handoff_sessions_json_def parse_handoff_sessions_payload_def)
  ultimately show ?thesis by blast
qed

theorem processor_commit_hands_over_witness:
  "\<exists>(cmd :: upgrade_cmd) q. adopt_inflight_sessions (uc_env cmd) (\<lambda>_. Inr ''[..]'') (\<lambda>_. Inr [session_handoff_of calm_session])
      (\<lambda>_. Inr ()) (\<lambda>_. ([104], []))
      \<lparr>p_registry = session_registry_default, p_tasks = [], p_closed = []\<rparr> = Inr q \<and>
    map snd (p_tasks q) = [restarted calm_session]"
proof -
  from calm_commit obtain cmd p' t' where run: "processor_do_upgrade (calm_os (ReadGot ready_ack) (\<lambda>_. Inr ()))
      calm_po calm_ctx calm_processor (\<lambda>_. True) = (ProcCommitted cmd 10 ''[..]'', p', t')" by blast
  have "\<exists>q. adopt_inflight_sessions (uc_env cmd) (\<lambda>_. Inr ''[..]'') (\<lambda>_. Inr [session_handoff_of calm_session])
      (po_reconstruct calm_po) (po_sockets calm_po)
      \<lparr>p_registry = session_registry_default, p_tasks = [], p_closed = []\<rparr> = Inr q \<and>
    map snd (p_tasks q) = map (\<lambda>(i, s). restarted s) (p_tasks calm_processor) \<and> p_closed q = []"
    by (rule processor_commit_hands_over [OF run calm_drainable])
      (simp_all add: calm_processor_def calm_po_def i32_range_def split: if_splits)
  then obtain q where "adopt_inflight_sessions (uc_env cmd) (\<lambda>_. Inr ''[..]'')
      (\<lambda>_. Inr [session_handoff_of calm_session]) (po_reconstruct calm_po) (po_sockets calm_po)
      \<lparr>p_registry = session_registry_default, p_tasks = [], p_closed = []\<rparr> = Inr q"
    "map snd (p_tasks q) = map (\<lambda>(i, s). restarted s) (p_tasks calm_processor)" by blast
  then show ?thesis by (intro exI [of _ cmd] exI [of _ q]) (simp add: calm_processor_def calm_po_def)
qed

text \<open>
  C5 (roundtrip). When an upgrade of the processor rolls back, the processor itself takes the
  same sessions up again with their buffers and counts, and closes none of them.
\<close>

theorem processor_rollback_restores:
  assumes "processor_do_upgrade os po ctx p t = (ProcRolledBack, p', t')"
    and "drainable os po p" and "processor_inv n p" and "n + length (p_tasks p) < 2 ^ 64"
  shows "map snd (p_tasks p') = map (\<lambda>(i, s). restarted s) (p_tasks p) \<and> p_closed p' = p_closed p"
proof -
  obtain l where l: "os_into_std os = Inr l" "fcntl_ok (os_fcntl os) l"
    using attempt_guarded [OF assms(1)] by auto
  let ?p1 = "p\<lparr>p_registry := (p_registry p)\<lparr>reg_sessions := []\<rparr>, p_tasks := []\<rparr>"
  from attempt_stages [OF assms(1,2) l] obtain out where
    "finish_upgrade_attempt os po (drained_records p) out ?p1 = (ProcRolledBack, p')" by auto
  then have "p' = readopt_sessions (po_reconstruct po) (po_sockets po) (drained_records p) ?p1"
    by (auto simp: finish_upgrade_attempt_def split: sum.splits prod.splits)
  with readopt_drained [OF assms(2) drained_inv [OF assms(3)] assms(4)] show ?thesis
    by (simp add: readopt_sessions_def)
qed

theorem processor_rollback_restores_witness:
  "\<exists>p' t'. processor_do_upgrade (calm_os ReadTimedOut (\<lambda>_. Inr ())) calm_po calm_ctx calm_processor (\<lambda>_. True) =
     (ProcRolledBack, p', t') \<and> map snd (p_tasks p') = [restarted calm_session]"
proof -
  from calm_rollback obtain p' t' where run: "processor_do_upgrade (calm_os ReadTimedOut (\<lambda>_. Inr ()))
      calm_po calm_ctx calm_processor (\<lambda>_. True) = (ProcRolledBack, p', t')" by blast
  have "map snd (p_tasks p') = map (\<lambda>(i, s). restarted s) (p_tasks calm_processor) \<and>
      p_closed p' = p_closed calm_processor"
    by (rule processor_rollback_restores [OF run calm_drainable calm_inv]) (simp add: calm_processor_def)
  with run show ?thesis by (auto simp: calm_processor_def)
qed

text \<open>
  C39 (error). A failure between the drain and the child (a pipe, the serialization, the spawn)
  is not rolled back: the attempt ends in an error, which ends the processor, and the drained
  sessions are in no registry any more.
\<close>

theorem failed_attempt_loses_sessions:
  assumes "drainable os po p" and "os_into_std os = Inr l" and "fcntl_ok (os_fcntl os) l"
    and "\<And>cmd. os_spawn os cmd = Inl e"
  shows "\<exists>e' p' t'. processor_do_upgrade os po ctx p t = (ProcFailed e', p', t') \<and>
    p_tasks p' = [] \<and> reg_sessions (p_registry p') = []"
proof -
  obtain r p' t' where run: "processor_do_upgrade os po ctx p t = (r, p', t')" using prod_cases3 by blast
  have "\<exists>e1 gs t3. processor_start_child os po ctx l (drained_records p) t2 = (Inl e1, gs, t3)" for t2
    using assms(4)
    by (auto simp: processor_start_child_def spawn_upgrade_child_def Let_def split: sum.splits prod.splits)
  then have "\<not> (\<exists>out gs t2 t3. processor_start_child os po ctx l (drained_records p) t2 = (Inr out, gs, t3))"
    by (metis Inl_Inr_False prod.inject)
  with attempt_stages [OF run assms(1,2,3)] run show ?thesis by fastforce
qed

theorem failed_attempt_loses_sessions_witness:
  "\<exists>e' p' t'. processor_do_upgrade (calm_os ReadTimedOut (\<lambda>_. Inl [''ENOENT''])) calm_po calm_ctx
     calm_processor (\<lambda>_. True) = (ProcFailed e', p', t') \<and> p_tasks p' = [] \<and> reg_sessions (p_registry p') = []"
  by (rule failed_attempt_loses_sessions [OF calm_drainable, where l = 5 and e = "[''ENOENT'']"])
    (simp_all add: calm_os_def fcntl_ok_def)

text \<open>
  C36 (invariant). Over fewer than \<open>2 ^ 64\<close> steps session ids never collide, and the sidecar's metadata does not pile up: however
  sessions start, end and fail, metadata arrives, upgrades drain the sessions and records are adopted,
  every peer with metadata has a live session or was left behind. Only a failed first flush of an
  adopted session, a drain and a record that brings metadata without a usable descriptor leave a peer
  behind, and a rollback that adopts the record of every drained session takes all of them back.
\<close>

theorem metadata_bounded_by_sessions:
  assumes "length evs < 2 ^ 64"
  defines "p \<equiv> foldl registry_step empty_processor evs" and "ps \<equiv> left_behind empty_processor {} evs"
  shows "distinct (map fst (reg_sessions (p_registry p))) \<and>
    fst (register_session peer (p_registry p)) \<notin> fst ` set (reg_sessions (p_registry p)) \<and>
    fst ` set (reg_metadata (p_registry p)) \<subseteq> live_peers (p_registry p) \<union> ps \<and>
    (list_all ordinary evs \<longrightarrow> ps = {}) \<and>
    (list_all (adoptable reconstruct) hs \<and> live_peers (p_registry p) \<subseteq> sh_peer ` set hs \<longrightarrow>
      left_behind p ps (DrainSessions fc sends t # map (AdoptRecord reconstruct socks) hs) \<subseteq> ps)"
proof -
  have "registry_inv 0 {} (p_registry empty_processor)"
    by (simp add: registry_inv_def empty_processor_def session_registry_default_def sessions.counted_def)
  then obtain n where n: "registry_inv n ps (p_registry p)"
    using registry_run_inv [of 0 "{}" empty_processor evs] assms(1) by (auto simp: p_def ps_def)
  then have "fst (register_session peer (p_registry p)) \<notin> fst ` set (reg_sessions (p_registry p))"
    using sessions.enter_fresh [of n "p_registry p" peer] by (simp add: registry_inv_def)
  with n show ?thesis
    using ordinary_leaves [of evs empty_processor] adopted_back [of reconstruct hs]
    by (auto simp: registry_inv_def ps_def)
qed

text \<open>A session with metadata, and an adopted one whose first flush fails.\<close>

definition observed :: registry_op where
  "observed = SidecarFrame \<lparr>sm_peer = ''1.2.3.4:5'', sm_ident = Some ''joe'', sm_trace_id = []\<rparr>"

theorem metadata_bounded_by_sessions_witness:
  "fst ` set (reg_metadata (p_registry (foldl registry_step empty_processor [OpenSession calm_session, observed]))) =
     {''1.2.3.4:5''} \<and>
   live_peers (p_registry (foldl registry_step empty_processor [OpenSession calm_session, observed])) = {''1.2.3.4:5''} \<and>
   left_behind empty_processor {} [OpenSession calm_session, observed] = {} \<and>
   fst ` set (reg_metadata (p_registry (foldl registry_step empty_processor
     [OpenSession calm_session, observed, FlushFails 0]))) \<subseteq>
   live_peers (p_registry (foldl registry_step empty_processor [OpenSession calm_session, observed, FlushFails 0])) \<union>
   left_behind empty_processor {} [OpenSession calm_session, observed, FlushFails 0]"
proof -
  have "list_all ordinary [OpenSession calm_session, observed]" by (simp add: observed_def)
  then have "left_behind empty_processor {} [OpenSession calm_session, observed] = {}"
    using metadata_bounded_by_sessions [of "[OpenSession calm_session, observed]"] by (simp del: left_behind.simps)
  moreover have "fst ` set (reg_metadata (p_registry (foldl registry_step empty_processor
      [OpenSession calm_session, observed, FlushFails 0]))) \<subseteq>
    live_peers (p_registry (foldl registry_step empty_processor [OpenSession calm_session, observed, FlushFails 0])) \<union>
    left_behind empty_processor {} [OpenSession calm_session, observed, FlushFails 0]"
    using metadata_bounded_by_sessions [of "[OpenSession calm_session, observed, FlushFails 0]"]
    by (simp del: left_behind.simps foldl.simps)
  ultimately show ?thesis
    by (simp add: observed_def calm_session_def fresh_session_def empty_processor_def spawn_session_def register_session_def
        session_registry_default_def store_metadata_if_session_active_def peer_active_def live_peers_def Let_def
        del: left_behind.simps)
qed

end
