(* ===== verification/Control_Client.thy ===== *)
theory Control_Client
  imports Worker_Common Processor
begin

text \<open>
  Model of the workers' side of the control link: \<^verbatim>\<open>run_control_client\<close> and the status snapshot of
  \<^verbatim>\<open>src/processor/control.rs\<close>, and the loop of \<^verbatim>\<open>src/processor.rs\<close> that it feeds. The scanner
  and the acceptors have clients of the same shape (\<^verbatim>\<open>src/scanner/control.rs\<close>,
  \<^verbatim>\<open>src/acceptor/control.rs\<close>); the shape is the locale below, which each of them interprets.
\<close>

section \<open>The shape of a client\<close>

text \<open>
  What handling one message comes to: the loop goes on, the connection is dropped (a reply could
  not be written), or the client ends because the worker was asked to stop or to upgrade.
\<close>

datatype reaction = Continue | Disconnect | Terminal

text \<open>
  One connection, as the frames it delivers until it ends: each frame is a line or a decode error,
  with the injected fault its parsing meets and what the handler needs of the world at that moment.
  The result says whether the client is to end.
\<close>

type_synonym 'x frame_in = "string result \<times> injected_fault option \<times> 'x"

fun client_lines ::
  "(string \<Rightarrow> control_msg envelope result) \<Rightarrow> ('x \<Rightarrow> control_msg \<Rightarrow> 'w \<Rightarrow> reaction \<times> 'w) \<Rightarrow> 'x frame_in list \<Rightarrow>
     'w \<Rightarrow> bool \<times> 'w" where
  "client_lines from_str handle [] w = (False, w)"
| "client_lines from_str handle ((Inl _, _, _) # _) w = (False, w)"
| "client_lines from_str handle ((Inr line, fault, x) # rest) w =
     (case parse_envelope from_str fault line of
        Inl _ \<Rightarrow> client_lines from_str handle rest w
      | Inr m \<Rightarrow>
         (case handle x m w of
            (Terminal, w') \<Rightarrow> (True, w')
          | (Disconnect, w') \<Rightarrow> (False, w')
          | (Continue, w') \<Rightarrow> client_lines from_str handle rest w'))"

datatype client_end = GaveUp | Obeyed

text \<open>
  The client over its successive connections, each with the outcomes of its dial attempts. The
  result is \<^verbatim>\<open>None\<close> while it would dial again.
\<close>

fun run_control_client ::
  "(string \<Rightarrow> control_msg envelope result) \<Rightarrow> ('x \<Rightarrow> control_msg \<Rightarrow> 'w \<Rightarrow> reaction \<times> 'w) \<Rightarrow>
     ((nat \<Rightarrow> unit result) \<times> 'x frame_in list) list \<Rightarrow> 'w \<Rightarrow> client_end option \<times> 'w" where
  "run_control_client from_str handle [] w = (None, w)"
| "run_control_client from_str handle ((dial, frames) # rest) w =
     (case fst (dial_control_plane dial) of
        None \<Rightarrow> (Some GaveUp, w)
      | Some _ \<Rightarrow>
         (case client_lines from_str handle frames w of
            (True, w') \<Rightarrow> (Some Obeyed, w')
          | (False, w') \<Rightarrow> run_control_client from_str handle rest w'))"

section \<open>The processor's client\<close>

text \<open>What the client asks of the worker's loop, through its two channels.\<close>

datatype worker_request = ReqShutdown | ReqUpgrade "string option"

record worker_channels =
  ch_requests :: "worker_request list"
  ch_allow :: peer_allowlist
  ch_replies :: "worker_status list"

text \<open>The world at one message: the reloaded configuration, the user, the status, the reply's fate.\<close>

record msg_world =
  mw_config :: "config result"
  mw_euid :: u32
  mw_status :: worker_status
  mw_write_ok :: bool

definition worker_control_msg :: "msg_world \<Rightarrow> control_msg \<Rightarrow> worker_channels \<Rightarrow> reaction \<times> worker_channels" where
  "worker_control_msg x m w =
     (case m of
        Shutdown _ \<Rightarrow> (Terminal, w\<lparr>ch_requests := ch_requests w @ [ReqShutdown]\<rparr>)
      | Upgrade path _ _ _ \<Rightarrow> (Terminal, w\<lparr>ch_requests := ch_requests w @ [ReqUpgrade path]\<rparr>)
      | Status \<Rightarrow>
          if mw_write_ok x then (Continue, w\<lparr>ch_replies := ch_replies w @ [mw_status x]\<rparr>) else (Disconnect, w)
      | Drain \<Rightarrow> (Continue, w)
      | Reload \<Rightarrow>
         (case mw_config x of
            Inr new \<Rightarrow>
              (Continue, w\<lparr>ch_allow := allowlist_from_config (mw_euid x) (allowed_uids (cfg_auth new))\<rparr>)
          | Inl _ \<Rightarrow> (Continue, w)))"

definition processor_status :: "u32 \<Rightarrow> u64 \<Rightarrow> u64 \<Rightarrow> string \<Rightarrow> session_registry \<Rightarrow> worker_status" where
  "processor_status pid generation started addr reg = \<lparr>
     ws_role = ''processor'', ws_pid = pid, ws_generation = generation, ws_started_at_unix_ms = started,
     ws_in_flight = of_nat (length (reg_sessions reg)), ws_listener_addr = Some addr,
     ws_rate_limiter_stats = None\<rparr>"

section \<open>The processor's loop\<close>

text \<open>
  How a worker's loop ends: \<open>LoopCommitted\<close> is the exit after a committed upgrade, \<open>LoopWaiting\<close>
  that what was observed leaves it inside a turn.
\<close>

datatype 'c loop_end = LoopReturned | LoopFailed error | LoopCommitted 'c | LoopWaiting

text \<open>
  A worker's loop over what its \<^verbatim>\<open>select\<close> returns turn by turn; a turn gives the end of the loop,
  if it ends it, and the new state.
\<close>

fun run_loop :: "('e \<Rightarrow> 's \<Rightarrow> 'c loop_end option \<times> 's) \<Rightarrow> 'e list \<Rightarrow> 's \<Rightarrow> 'c loop_end option \<times> 's" where
  "run_loop step [] s = (None, s)"
| "run_loop step (e # es) s =
     (case step e s of
        (Some r, s') \<Rightarrow> (Some r, s')
      | (None, s') \<Rightarrow> run_loop step es s')"

text \<open>What the processor's \<^verbatim>\<open>select\<close> returns; an accept carries what the connection goes on to deliver.\<close>

datatype processor_event =
    LoopAccept "injected_fault option" u64 "(raw_fd \<times> u32 result \<times> string result option \<times> bytes) result"
  | LoopSignal
  | LoopShutdown bool
  | LoopUpgrade "string option option" upgrade_os processor_os

record processor_runtime =
  rt_processor :: processor
  rt_flags :: cloexec_flags
  rt_allow :: peer_allowlist
  rt_ctx :: upgrade_ctx
  rt_clients :: nat

fun processor_loop_step ::
  "(string \<Rightarrow> processor_preamble result) \<Rightarrow> processor_event \<Rightarrow> processor_runtime \<Rightarrow>
     (upgrade_cmd \<times> raw_fd \<times> string) loop_end option \<times> processor_runtime" where
  "processor_loop_step from_json (LoopAccept fault now conn) rt =
     (None, rt\<lparr>rt_processor := handle_processor_accept from_json fault (rt_allow rt) now conn (rt_processor rt)\<rparr>)"
| "processor_loop_step from_json LoopSignal rt = (Some LoopReturned, rt)"
| "processor_loop_step from_json (LoopShutdown b) rt = (if b then Some LoopReturned else None, rt)"
| "processor_loop_step from_json (LoopUpgrade None os po) rt = (None, rt)"
| "processor_loop_step from_json (LoopUpgrade (Some path) os po) rt =
     (case processor_do_upgrade os po ((rt_ctx rt)\<lparr>uc_binary_path := path\<rparr>) (rt_processor rt) (rt_flags rt) of
        (ProcFailed e, p, t) \<Rightarrow> (Some (LoopFailed e), rt\<lparr>rt_processor := p, rt_flags := t\<rparr>)
      | (ProcCommitted cmd fd json, p, t) \<Rightarrow>
          (Some (LoopCommitted (cmd, fd, json)), rt\<lparr>rt_processor := p, rt_flags := t\<rparr>)
      | (ProcRolledBack, p, t) \<Rightarrow>
          (None, rt\<lparr>rt_processor := p, rt_flags := t, rt_clients := rt_clients rt + 1\<rparr>))"

definition run_processor_loop ::
  "(string \<Rightarrow> processor_preamble result) \<Rightarrow> processor_event list \<Rightarrow> processor_runtime \<Rightarrow>
     (upgrade_cmd \<times> raw_fd \<times> string) loop_end option \<times> processor_runtime" where
  "run_processor_loop from_json = run_loop (processor_loop_step from_json)"

section \<open>The contract of a client\<close>

text \<open>
  \<open>requests\<close> are the requests the client has passed on. A message ends the client exactly when it
  is a shutdown or an upgrade, which is then passed on; no other message passes anything on.
\<close>

locale control_client =
  fixes handle :: "'x \<Rightarrow> control_msg \<Rightarrow> 'w \<Rightarrow> reaction \<times> 'w"
    and requests :: "'w \<Rightarrow> 'r list"
    and request_of :: "control_msg \<Rightarrow> 'r option"
  assumes terminal: "request_of m = Some r \<Longrightarrow>
      fst (handle x m w) = Terminal \<and> requests (snd (handle x m w)) = requests w @ [r]"
    and ordinary: "request_of m = None \<Longrightarrow>
      fst (handle x m w) \<noteq> Terminal \<and> requests (snd (handle x m w)) = requests w"
begin

lemma handle_request: "handle x m w = (r, w') \<Longrightarrow>
    (case request_of m of
       Some q \<Rightarrow> r = Terminal \<and> requests w' = requests w @ [q]
     | None \<Rightarrow> r \<noteq> Terminal \<and> requests w' = requests w)"
  using terminal [of m _ x w] ordinary [of m x w] by (cases "request_of m") auto

lemma lines_requests:
  assumes "client_lines from_str handle frames w = (stop, w')"
  shows "if stop
    then \<exists>line fault x m q. (Inr line, fault, x) \<in> set frames \<and>
      parse_envelope from_str fault line = Inr m \<and> request_of m = Some q \<and> requests w' = requests w @ [q]
    else requests w' = requests w"
  using assms
proof (induction frames arbitrary: w w')
  case (Cons fr frames)
  obtain b fault x where fr: "fr = (b, fault, x)"
    by (cases fr)
  show ?case
  proof (cases b)
    case (Inr line)
    note b = this
    show ?thesis
    proof (cases "parse_envelope from_str fault line")
      case (Inl e)
      then have "client_lines from_str handle frames w = (stop, w')"
        using Cons.prems fr b by simp
      from Cons.IH [OF this] show ?thesis
        by (auto split: if_splits)
    next
      case (Inr m)
      obtain r v where r: "handle x m w = (r, v)"
        by fastforce
      note hr = handle_request [OF r]
      show ?thesis
      proof (cases r)
        case Continue
        then have rest: "client_lines from_str handle frames v = (stop, w')"
          using Cons.prems fr b Inr r by simp
        have "requests v = requests w"
          using hr Continue by (auto split: option.splits)
        with Cons.IH [OF rest] show ?thesis
          by (auto split: if_splits)
      next
        case Disconnect
        then show ?thesis
          using Cons.prems fr b Inr r hr by (auto split: option.splits)
      next
        case Terminal
        then obtain q where "request_of m = Some q" "requests v = requests w @ [q]"
          using hr by (auto split: option.splits)
        then show ?thesis
          using Cons.prems fr b Inr r Terminal by auto
      qed
    qed
  qed (use Cons.prems fr in simp)
qed simp

lemma run_requests:
  assumes "run_control_client from_str handle conns w = (res, w')"
  shows "if res = Some Obeyed
    then \<exists>q. requests w' = requests w @ [q] \<and>
      (\<exists>(dial, frames) \<in> set conns. \<exists>line fault x m. (Inr line, fault, x) \<in> set frames \<and>
        parse_envelope from_str fault line = Inr m \<and> request_of m = Some q)
    else requests w' = requests w"
  using assms
proof (induction conns arbitrary: w)
  case (Cons c conns)
  obtain dial frames where c: "c = (dial, frames)"
    by fastforce
  obtain stop v where v: "client_lines from_str handle frames w = (stop, v)"
    by fastforce
  note ln = lines_requests [OF v]
  show ?case
  proof (cases "fst (dial_control_plane dial)")
    case None
    then show ?thesis
      using Cons.prems c by auto
  next
    case (Some u)
    show ?thesis
    proof (cases stop)
      case True
      then show ?thesis
        using Cons.prems c v Some ln by fastforce
    next
      case False
      then have "run_control_client from_str handle conns v = (res, w')" "requests v = requests w"
        using Cons.prems c v Some ln by auto
      with Cons.IH show ?thesis
        by (fastforce split: if_splits)
    qed
  qed
qed simp

end

section \<open>The processor's client keeps the contract\<close>

definition request_of :: "control_msg \<Rightarrow> worker_request option" where
  "request_of m = (case m of Shutdown _ \<Rightarrow> Some ReqShutdown | Upgrade path _ _ _ \<Rightarrow> Some (ReqUpgrade path) | _ \<Rightarrow> None)"

interpretation wc: control_client worker_control_msg ch_requests request_of
  by unfold_locales
    (auto simp: worker_control_msg_def request_of_def split: control_msg.splits sum.splits)

lemma worker_control_msg_allow:
  "snd (worker_control_msg x m w) = w' \<Longrightarrow> ch_allow w' \<noteq> ch_allow w \<Longrightarrow>
     m = Reload \<and> (\<exists>new. mw_config x = Inr new \<and>
       ch_allow w' = allowlist_from_config (mw_euid x) (allowed_uids (cfg_auth new)))"
  by (auto simp: worker_control_msg_def split: control_msg.splits sum.splits if_splits)

section \<open>The contract of a loop\<close>

text \<open>
  \<open>clients\<close> counts the control clients started, \<open>upgrade_asked\<close> are the turns that take an
  upgrade request. A turn that does not end the loop starts one client for each such request.
\<close>

locale worker_loop =
  fixes step :: "'e \<Rightarrow> 's \<Rightarrow> 'c loop_end option \<times> 's"
    and upgrade_asked :: "'e \<Rightarrow> bool"
    and clients :: "'s \<Rightarrow> nat"
    and fixed :: "'s \<Rightarrow> 'f"
  assumes turn: "step e s = (None, s') \<Longrightarrow>
      clients s' = clients s + of_bool (upgrade_asked e) \<and> fixed s' = fixed s"
begin

lemma keeps_client:
  assumes "run_loop step es s = (None, s')"
  shows "clients s' = clients s + length (filter upgrade_asked es) \<and> fixed s' = fixed s"
  using assms
proof (induction es arbitrary: s)
  case (Cons e es)
  then obtain v where now: "step e s = (None, v)" and rest: "run_loop step es v = (None, s')"
    by (auto split: prod.splits option.splits)
  show ?case
    using turn [OF now] Cons.IH [OF rest] by simp
qed simp

end

lemma run_loop_append:
  "run_loop step (es @ fs) s =
     (case run_loop step es s of (Some r, s') \<Rightarrow> (Some r, s') | (None, s') \<Rightarrow> run_loop step fs s')"
  by (induction es arbitrary: s) (auto split: prod.splits option.splits)

definition processor_upgrade_asked :: "processor_event \<Rightarrow> bool" where
  "processor_upgrade_asked e = (case e of LoopUpgrade (Some _) _ _ \<Rightarrow> True | _ \<Rightarrow> False)"

interpretation processor_loop:
  worker_loop "processor_loop_step from_json" processor_upgrade_asked rt_clients "\<lambda>rt. (rt_allow rt, rt_ctx rt)"
proof unfold_locales
  fix e and s s' :: processor_runtime
  assume "processor_loop_step from_json e s = (None, s')"
  then show "rt_clients s' = rt_clients s + of_bool (processor_upgrade_asked e) \<and>
      (rt_allow s', rt_ctx s') = (rt_allow s, rt_ctx s)"
    by (cases "(from_json, e, s)" rule: processor_loop_step.cases)
      (auto simp: processor_upgrade_asked_def split: if_splits prod.splits processor_end.splits)
qed

text \<open>A quiet world for the examples: the configuration cannot be read and replies are written.\<close>

definition quiet_world :: msg_world where
  "quiet_world = \<lparr>mw_config = Inl [''unreadable''], mw_euid = 0,
     mw_status = processor_status 1 0 0 ''proc'' session_registry_default, mw_write_ok = True\<rparr>"

definition upgrade_frames :: "((nat \<Rightarrow> unit result) \<times> msg_world frame_in list) list" where
  "upgrade_frames = [(\<lambda>_. Inr (), [(Inl [''decode''], None, quiet_world)]),
     (\<lambda>_. Inr (), [(Inr ''upgrade'', None, quiet_world)])]"

lemma dial_control_plane_first [simp]: "fst (dial_control_plane (\<lambda>_. Inr ())) = Some ()"
  by (simp add: dial_control_plane_def DIAL_ATTEMPTS_def upt_rec)

section \<open>Properties\<close>

text \<open>
  A worker's control client passes at most one request on to the worker's loop over all
  its connections: when it ends obeying the supervisor it has passed on exactly the one shutdown or
  upgrade request that a frame of some connection carries, and when it gives up or is still
  running it has passed on none, whatever else was received: decode errors, unknown or incompatible
  frames, status, drain and reload messages, failed replies, reconnects.
\<close>

theorem control_client_one_request:
  assumes "run_control_client from_str worker_control_msg conns w = (res, w')"
  shows "if res = Some Obeyed
    then \<exists>q. ch_requests w' = ch_requests w @ [q] \<and>
      (\<exists>(dial, frames) \<in> set conns. \<exists>line fault x m. (Inr line, fault, x) \<in> set frames \<and>
        parse_envelope from_str fault line = Inr m \<and> request_of m = Some q)
    else ch_requests w' = ch_requests w"
  by (rule wc.run_requests [OF assms])

theorem control_client_one_request_witness:
  "\<exists>w'. run_control_client (\<lambda>_. Inr \<lparr>envelope_version = SCHEMA_VERSION, envelope_msg = Upgrade None True None None\<rparr>)
       worker_control_msg upgrade_frames \<lparr>ch_requests = [], ch_allow = current_user_only 0, ch_replies = []\<rparr> =
       (Some Obeyed, w') \<and> (\<exists>q. ch_requests w' = [q])"
proof -
  let ?json = "\<lambda>_. Inr \<lparr>envelope_version = SCHEMA_VERSION, envelope_msg = Upgrade None True None None\<rparr>"
  let ?w = "\<lparr>ch_requests = [], ch_allow = current_user_only 0, ch_replies = []\<rparr>"
  have run: "run_control_client ?json worker_control_msg upgrade_frames ?w =
      (Some Obeyed, ?w\<lparr>ch_requests := [ReqUpgrade None]\<rparr>)"
    by (simp add: upgrade_frames_def worker_control_msg_def parse_envelope_def and_then_def into_msg_def
        is_schema_compatible_def MIN_COMPATIBLE_VERSION_def SCHEMA_VERSION_def)
  show ?thesis
    using control_client_one_request [OF run] run by auto
qed

text \<open>
  The processor's loop keeps a control client: as long as it has not ended, every
  upgrade request it took, which ends the client that passed it on, was rolled back and answered
  with the start of one new client; the peer allowlist and the loop's generation and configuration are unchanged.
\<close>

theorem processor_loop_keeps_client:
  assumes "run_processor_loop from_json es rt = (None, rt')"
  shows "rt_clients rt' = rt_clients rt + length (filter processor_upgrade_asked es) \<and>
    rt_allow rt' = rt_allow rt \<and> rt_ctx rt' = rt_ctx rt"
  using processor_loop.keeps_client [OF assms [unfolded run_processor_loop_def]] by simp

theorem processor_loop_keeps_client_witness:
  "\<exists>rt'. run_processor_loop (\<lambda>_. Inl [''bad''])
       [LoopShutdown False, LoopUpgrade (Some None) (calm_os ReadTimedOut (\<lambda>_. Inr ())) calm_po]
       \<lparr>rt_processor = calm_processor, rt_flags = \<lambda>_. True, rt_allow = current_user_only 0, rt_ctx = calm_ctx, rt_clients = 1\<rparr> =
       (None, rt') \<and> rt_clients rt' = 2"
proof -
  let ?rt = "\<lparr>rt_processor = calm_processor, rt_flags = \<lambda>_. True, rt_allow = current_user_only 0, rt_ctx = calm_ctx, rt_clients = 1\<rparr>"
  have [simp]: "calm_ctx\<lparr>uc_binary_path := None\<rparr> = calm_ctx"
    by (simp add: calm_ctx_def)
  obtain p' t' where "processor_do_upgrade (calm_os ReadTimedOut (\<lambda>_. Inr ())) calm_po calm_ctx calm_processor
      (\<lambda>_. True) = (ProcRolledBack, p', t')"
    using calm_rollback by blast
  then have run: "run_processor_loop (\<lambda>_. Inl [''bad''])
      [LoopShutdown False, LoopUpgrade (Some None) (calm_os ReadTimedOut (\<lambda>_. Inr ())) calm_po] ?rt =
      (None, ?rt\<lparr>rt_processor := p', rt_flags := t', rt_clients := 2\<rparr>)"
    by (simp add: run_processor_loop_def)
  show ?thesis
    using processor_loop_keeps_client [OF run] run by (auto simp: processor_upgrade_asked_def)
qed

end
