(* ===== verification/Scanner.thy ===== *)
theory Scanner
  imports Control_Client
begin

text \<open>
  Model of the scanner (\<^verbatim>\<open>src/scanner.rs\<close>, \<^verbatim>\<open>src/scanner/sidecar.rs\<close>, \<^verbatim>\<open>src/scanner/control.rs\<close>):
  the table of lookups in flight, the ident exchange, the bounded channel to the publisher, the
  publisher that forwards metadata to the processor, and the scanner's loop. A lookup is a task
  between its registration and its end; the steps of several tasks interleave freely.
\<close>

section \<open>Requests and the table of lookups\<close>

datatype scan_request =
  SessionObserved (sr_client_ip: string) (sr_client_port: u16) (sr_server_port: u16) (sr_role: string)
    (sr_trace_id: string)

record scanner_registry =
  sc_next_id :: u64
  sc_in_flight :: "u64 set"

definition scanner_registry_default :: scanner_registry where
  "scanner_registry_default = \<lparr>sc_next_id = 0, sc_in_flight = {}\<rparr>"

definition enter_scan :: "scan_request \<Rightarrow> scanner_registry \<Rightarrow> u64 \<times> scanner_registry" where
  "enter_scan req r =
     (sc_next_id r, r\<lparr>sc_next_id := sc_next_id r + 1, sc_in_flight := insert (sc_next_id r) (sc_in_flight r)\<rparr>)"

definition leave_scan :: "u64 \<Rightarrow> scanner_registry \<Rightarrow> scanner_registry" where
  "leave_scan sid r = r\<lparr>sc_in_flight := sc_in_flight r - {sid}\<rparr>"

definition scanner_status :: "u32 \<Rightarrow> u64 \<Rightarrow> u64 \<Rightarrow> string \<Rightarrow> scanner_registry \<Rightarrow> worker_status" where
  "scanner_status pid generation started addr reg = \<lparr>
     ws_role = ''scanner'', ws_pid = pid, ws_generation = generation, ws_started_at_unix_ms = started,
     ws_in_flight = of_nat (card (sc_in_flight reg)), ws_listener_addr = Some addr,
     ws_rate_limiter_stats = None\<rparr>"

text \<open>
  The scanner's control client: the same loop over connections, and arm for arm the messages the
  processor's client handles, a drain being nothing to either.
\<close>

definition run_scanner_control ::
  "(string \<Rightarrow> control_msg envelope result) \<Rightarrow> ((nat \<Rightarrow> unit result) \<times> msg_world frame_in list) list \<Rightarrow>
     worker_channels \<Rightarrow> client_end option \<times> worker_channels" where
  "run_scanner_control from_str = run_control_client from_str worker_control_msg"

lemma scanner_control_one_request:
  assumes "run_scanner_control from_str conns w = (res, w')"
  shows "if res = Some Obeyed then \<exists>q. ch_requests w' = ch_requests w @ [q] else ch_requests w' = ch_requests w"
  using wc.run_requests [OF assms [unfolded run_scanner_control_def]] by (auto split: if_splits)

section \<open>The ident exchange\<close>

text \<open>A call under a timeout.\<close>

datatype 'a timed = TimedOut | InTime 'a

text \<open>The connected stream: the outcome of writing the query and of one read of at most \<open>n\<close> bytes.\<close>

record ident_stream =
  is_write :: "string \<Rightarrow> unit result timed"
  is_read :: "nat \<Rightarrow> string result timed"

definition ident_query :: "u16 \<Rightarrow> u16 \<Rightarrow> string" where
  "ident_query client_port server_port = dec (unat client_port) @ '','' @ dec (unat server_port) @ [cr, nl]"

definition ident_exchange :: "ident_stream \<Rightarrow> u16 \<Rightarrow> u16 \<Rightarrow> string option" where
  "ident_exchange stream client_port server_port =
     (case is_write stream (ident_query client_port server_port) of
        InTime (Inr _) \<Rightarrow>
         (case is_read stream 256 of
            TimedOut \<Rightarrow> None
          | InTime r \<Rightarrow>
             (let buf = (case r of Inr bs \<Rightarrow> bs | Inl _ \<Rightarrow> [])
              in if buf = [] then None else Some (trim (utf8_lossy buf))))
      | _ \<Rightarrow> None)"

text \<open>\<^verbatim>\<open>connect\<close> is the dial of an address under its timeout.\<close>

definition ident_lookup ::
  "(string \<Rightarrow> ident_stream result timed) \<Rightarrow> string \<Rightarrow> u16 \<Rightarrow> u16 \<Rightarrow> u16 \<Rightarrow> string option" where
  "ident_lookup connect client_ip client_port server_port iport =
     (case connect (client_ip @ '':'' @ dec (unat iport)) of
        InTime (Inr stream) \<Rightarrow> ident_exchange stream client_port server_port
      | _ \<Rightarrow> None)"

section \<open>The channel to the publisher\<close>

definition SIDECAR_CAPACITY :: nat where
  "SIDECAR_CAPACITY = 256"

record metadata_channel =
  mc_queue :: "session_metadata list"
  mc_closed :: bool

definition try_send :: "session_metadata \<Rightarrow> metadata_channel \<Rightarrow> metadata_channel" where
  "try_send m ch =
     (if mc_closed ch \<or> SIDECAR_CAPACITY \<le> length (mc_queue ch) then ch
      else ch\<lparr>mc_queue := mc_queue ch @ [m]\<rparr>)"

definition scan_peer :: "scan_request \<Rightarrow> string" where
  "scan_peer req = sr_client_ip req @ '':'' @ dec (unat (sr_client_port req))"

definition scan_metadata :: "scan_request \<Rightarrow> string option \<Rightarrow> session_metadata" where
  "scan_metadata req ident = \<lparr>sm_peer = scan_peer req, sm_ident = ident, sm_trace_id = sr_trace_id req\<rparr>"

section \<open>Requests as tasks\<close>

record scanner =
  sn_registry :: scanner_registry
  sn_tasks :: "(u64 \<times> scan_request) list"
  sn_channel :: metadata_channel

definition scanner_start :: scanner where
  "scanner_start = \<lparr>sn_registry = scanner_registry_default, sn_tasks = [],
     sn_channel = \<lparr>mc_queue = [], mc_closed = False\<rparr>\<rparr>"

text \<open>The request the one line of a connection carries, if it carries one.\<close>

definition requested :: "(string \<Rightarrow> scan_request result) \<Rightarrow> string result option \<Rightarrow> scan_request option" where
  "requested from_json frame =
     (case frame of
        Some (Inr line) \<Rightarrow> (case from_json line of Inl _ \<Rightarrow> None | Inr req \<Rightarrow> Some req)
      | _ \<Rightarrow> None)"

text \<open>\<^verbatim>\<open>spawn_request\<close> up to the lookup, from its end on, and as a whole.\<close>

definition start_request :: "scan_request \<Rightarrow> scanner \<Rightarrow> u64 \<times> scanner" where
  "start_request req s =
     (case enter_scan req (sn_registry s) of
        (sid, reg) \<Rightarrow> (sid, s\<lparr>sn_registry := reg, sn_tasks := (sid, req) # sn_tasks s\<rparr>))"

definition end_request :: "u64 \<Rightarrow> string option \<Rightarrow> scanner \<Rightarrow> scanner" where
  "end_request sid ident s =
     (case map_of (sn_tasks s) sid of
        None \<Rightarrow> s
      | Some req \<Rightarrow>
          s\<lparr>sn_channel := try_send (scan_metadata req ident) (sn_channel s),
            sn_registry := leave_scan sid (sn_registry s),
            sn_tasks := AList.delete sid (sn_tasks s)\<rparr>)"

definition spawn_request ::
  "(string \<Rightarrow> scan_request result) \<Rightarrow> (string \<Rightarrow> ident_stream result timed) \<Rightarrow> u16 \<Rightarrow> string result option \<Rightarrow>
     scanner \<Rightarrow> scanner" where
  "spawn_request from_json connect iport frame s =
     (case requested from_json frame of
        None \<Rightarrow> s
      | Some req \<Rightarrow>
         (case start_request req s of
            (sid, s') \<Rightarrow>
              end_request sid
                (ident_lookup connect (sr_client_ip req) (sr_client_port req) (sr_server_port req) iport) s'))"

text \<open>\<^verbatim>\<open>handle_scanner_accept\<close>, with the task of the connection run up to its lookup.\<close>

definition handle_scanner_accept ::
  "(string \<Rightarrow> scan_request result) \<Rightarrow> peer_allowlist \<Rightarrow> (u32 result \<times> string result option) result \<Rightarrow> scanner \<Rightarrow>
     scanner" where
  "handle_scanner_accept from_json allow conn s =
     (case conn of
        Inl _ \<Rightarrow> s
      | Inr (peer_uid, frame) \<Rightarrow>
         (case check_peer peer_uid allow of
            Inl _ \<Rightarrow> s
          | Inr _ \<Rightarrow> (case requested from_json frame of None \<Rightarrow> s | Some req \<Rightarrow> snd (start_request req s))))"

section \<open>The publisher\<close>

text \<open>
  One connection: the outcomes of its writes, the metadata taken from the channel in order. The
  result is what reached the processor, what is still queued and whether the connection broke; the
  metadata whose write failed is in neither.
\<close>

fun publish_lines ::
  "(session_metadata \<Rightarrow> string result) \<Rightarrow> unit result list \<Rightarrow> session_metadata list \<Rightarrow>
     session_metadata list \<times> session_metadata list \<times> bool" where
  "publish_lines to_json ws [] = ([], [], False)"
| "publish_lines to_json ws (m # ms) =
     (case to_json m of
        Inl _ \<Rightarrow> publish_lines to_json ws ms
      | Inr _ \<Rightarrow>
         (case ws of
            [] \<Rightarrow> ([], m # ms, False)
          | Inl _ # _ \<Rightarrow> ([], ms, True)
          | Inr _ # ws' \<Rightarrow> (case publish_lines to_json ws' ms of (ds, rest, broke) \<Rightarrow> (m # ds, rest, broke))))"

text \<open>
  The publisher over its successive connections: dial, preamble, lines. Failed dials and preambles
  take nothing from the channel.
\<close>

fun run_sidecar_publisher ::
  "string result \<Rightarrow> (session_metadata \<Rightarrow> string result) \<Rightarrow> (unit result \<times> unit result \<times> unit result list) list \<Rightarrow>
     session_metadata list \<Rightarrow> session_metadata list list \<times> session_metadata list" where
  "run_sidecar_publisher preamble to_json [] ms = ([], ms)"
| "run_sidecar_publisher preamble to_json ((dial, pre, ws) # conns) ms =
     (case dial of
        Inl _ \<Rightarrow> run_sidecar_publisher preamble to_json conns ms
      | Inr _ \<Rightarrow>
         (case preamble of
            Inl _ \<Rightarrow> ([], ms)
          | Inr _ \<Rightarrow>
             (case pre of
                Inl _ \<Rightarrow> run_sidecar_publisher preamble to_json conns ms
              | Inr _ \<Rightarrow>
                 (case publish_lines to_json ws ms of
                    (ds, rest, False) \<Rightarrow> ([ds], rest)
                  | (ds, rest, True) \<Rightarrow>
                     (case run_sidecar_publisher preamble to_json conns rest of
                        (dss, rest') \<Rightarrow> (ds # dss, rest'))))))"

section \<open>The scanner's loop\<close>

datatype scanner_event =
    ScanAccept "(u32 result \<times> string result option) result"
  | ScanSignal
  | ScanShutdown bool
  | ScanUpgrade "string option option" upgrade_os instant "(nat \<times> instant) list"

record scanner_runtime =
  sl_scanner :: scanner
  sl_flags :: cloexec_flags
  sl_allow :: peer_allowlist
  sl_ctx :: upgrade_ctx
  sl_clients :: nat

text \<open>
  An upgrade waits for the lookups in flight; the polls of the event are what that wait observed.
\<close>

fun scanner_loop_step ::
  "(string \<Rightarrow> scan_request result) \<Rightarrow> scanner_event \<Rightarrow> scanner_runtime \<Rightarrow> upgrade_cmd loop_end option \<times> scanner_runtime" where
  "scanner_loop_step from_json (ScanAccept conn) rt =
     (None, rt\<lparr>sl_scanner := handle_scanner_accept from_json (sl_allow rt) conn (sl_scanner rt)\<rparr>)"
| "scanner_loop_step from_json ScanSignal rt = (Some LoopReturned, rt)"
| "scanner_loop_step from_json (ScanShutdown b) rt = (if b then Some LoopReturned else None, rt)"
| "scanner_loop_step from_json (ScanUpgrade None os start polls) rt = (None, rt)"
| "scanner_loop_step from_json (ScanUpgrade (Some path) os start polls) rt =
     (case do_upgrade_scanner os ((sl_ctx rt)\<lparr>uc_binary_path := path\<rparr>) start polls (sl_flags rt) of
        None \<Rightarrow> (Some LoopWaiting, rt)
      | Some (AttemptFailed e, t) \<Rightarrow> (Some (LoopFailed e), rt\<lparr>sl_flags := t\<rparr>)
      | Some (Committed cmd, t) \<Rightarrow> (Some (LoopCommitted cmd), rt\<lparr>sl_flags := t\<rparr>)
      | Some (RolledBack, t) \<Rightarrow> (None, rt\<lparr>sl_flags := t, sl_clients := sl_clients rt + 1\<rparr>))"

definition run_scanner_loop ::
  "(string \<Rightarrow> scan_request result) \<Rightarrow> scanner_event list \<Rightarrow> scanner_runtime \<Rightarrow>
     upgrade_cmd loop_end option \<times> scanner_runtime" where
  "run_scanner_loop from_json = run_loop (scanner_loop_step from_json)"

section \<open>Interleaved lookups\<close>

datatype scan_event = ScanArrives scan_request | ScanEnds u64 "string option" | PublisherTakes

fun scan_step :: "scanner \<Rightarrow> scan_event \<Rightarrow> scanner" where
  "scan_step s (ScanArrives req) = snd (start_request req s)"
| "scan_step s (ScanEnds sid ident) = end_request sid ident s"
| "scan_step s PublisherTakes = s\<lparr>sn_channel := (sn_channel s)\<lparr>mc_queue := tl (mc_queue (sn_channel s))\<rparr>\<rparr>"

interpretation scans: id_registry sc_next_id sc_in_flight enter_scan leave_scan
  by unfold_locales (auto simp: enter_scan_def leave_scan_def)

definition scanner_inv :: "nat \<Rightarrow> scanner \<Rightarrow> bool" where
  "scanner_inv n s \<longleftrightarrow>
     scans.counted n (sn_registry s) \<and> distinct (map fst (sn_tasks s)) \<and>
     sc_in_flight (sn_registry s) = fst ` set (sn_tasks s) \<and>
     length (mc_queue (sn_channel s)) \<le> SIDECAR_CAPACITY"

lemma try_send_bound:
  "length (mc_queue ch) \<le> SIDECAR_CAPACITY \<Longrightarrow> length (mc_queue (try_send m ch)) \<le> SIDECAR_CAPACITY"
  by (simp add: try_send_def)

lemma start_request_inv:
  assumes "scanner_inv n s" and "Suc n < 2 ^ 64"
  shows "scanner_inv (Suc n) (snd (start_request req s))"
proof -
  have "fst (enter_scan req (sn_registry s)) \<notin> sc_in_flight (sn_registry s)"
    using assms(1) scans.enter_fresh unfolding scanner_inv_def by blast
  moreover have "scans.counted (Suc n) (snd (enter_scan req (sn_registry s)))"
    using assms scans.enter_counted by (auto simp: scanner_inv_def)
  ultimately show ?thesis
    using assms(1) by (auto simp: scanner_inv_def start_request_def enter_scan_def)
qed

lemma end_request_inv:
  assumes "scanner_inv n s"
  shows "scanner_inv n (end_request sid ident s)"
proof (cases "map_of (sn_tasks s) sid")
  case (Some req)
  have "scans.counted n (leave_scan sid (sn_registry s))"
    using assms scans.leave_counted by (auto simp: scanner_inv_def)
  moreover have "fst ` set (AList.delete sid (sn_tasks s)) = fst ` set (sn_tasks s) - {sid}"
    by (auto simp: AList.delete_eq)
  ultimately show ?thesis
    using assms Some try_send_bound distinct_delete [of "sn_tasks s" sid]
    by (auto simp: scanner_inv_def end_request_def leave_scan_def)
qed (use assms in \<open>simp add: end_request_def\<close>)

lemma scan_steps_inv:
  assumes "scanner_inv n s" and "n + length evs < 2 ^ 64"
  shows "\<exists>k \<le> n + length evs. scanner_inv k (foldl scan_step s evs)"
  using assms
proof (induction evs arbitrary: n s)
  case (Cons e evs)
  have "\<exists>k \<le> Suc n. scanner_inv k (scan_step s e)"
  proof (cases e)
    case (ScanArrives req)
    then show ?thesis
      using start_request_inv [of n s req] Cons.prems by auto
  next
    case (ScanEnds sid ident)
    then show ?thesis
      using end_request_inv [of n s] Cons.prems by (auto intro!: exI [of _ n])
  next
    case PublisherTakes
    then show ?thesis
      using Cons.prems by (auto simp: scanner_inv_def intro!: exI [of _ n])
  qed
  then obtain k where "k \<le> Suc n" "scanner_inv k (scan_step s e)"
    by blast
  moreover from this obtain j where "j \<le> k + length evs" "scanner_inv j (foldl scan_step (scan_step s e) evs)"
    using Cons.IH [of k "scan_step s e"] Cons.prems by auto
  ultimately show ?case
    by (intro exI [of _ j]) simp
qed auto

section \<open>The loop keeps a client\<close>

definition scanner_upgrade_asked :: "scanner_event \<Rightarrow> bool" where
  "scanner_upgrade_asked e = (case e of ScanUpgrade (Some _) _ _ _ \<Rightarrow> True | _ \<Rightarrow> False)"

interpretation scanner_loop:
  worker_loop "scanner_loop_step from_json" scanner_upgrade_asked sl_clients "\<lambda>rt. (sl_allow rt, sl_ctx rt)"
proof unfold_locales
  fix e and s s' :: scanner_runtime
  assume "scanner_loop_step from_json e s = (None, s')"
  then show "sl_clients s' = sl_clients s + of_bool (scanner_upgrade_asked e) \<and>
      (sl_allow s', sl_ctx s') = (sl_allow s, sl_ctx s)"
    by (cases "(from_json, e, s)" rule: scanner_loop_step.cases)
      (auto simp: scanner_upgrade_asked_def split: if_splits prod.splits option.splits upgrade_end.splits)
qed

lemma scanner_loop_keeps_client:
  assumes "run_scanner_loop from_json es rt = (None, rt')"
  shows "sl_clients rt' = sl_clients rt + length (filter scanner_upgrade_asked es)"
  using scanner_loop.keeps_client [OF assms [unfolded run_scanner_loop_def]] by simp

section \<open>Order and loss on the sidecar\<close>

abbreviation serialisable :: "(session_metadata \<Rightarrow> string result) \<Rightarrow> session_metadata \<Rightarrow> bool" where
  "serialisable to_json m \<equiv> \<not> isl (to_json m)"

lemma publish_lines_taken:
  assumes "publish_lines to_json ws ms = (ds, rest, broke)"
  shows "\<exists>taken. ms = taken @ rest \<and> subseq ds taken \<and>
    length (filter (serialisable to_json) taken) = length ds + of_bool broke \<and> (broke \<longrightarrow> (\<exists>e. Inl e \<in> set ws))"
  using assms
proof (induction ms arbitrary: ws ds)
  case (Cons m ms)
  show ?case
  proof (cases "to_json m")
    case (Inl e)
    then have "publish_lines to_json ws ms = (ds, rest, broke)"
      using Cons.prems by simp
    from Cons.IH [OF this] obtain taken where "ms = taken @ rest" "subseq ds taken"
      "length (filter (serialisable to_json) taken) = length ds + of_bool broke" "broke \<longrightarrow> (\<exists>e. Inl e \<in> set ws)"
      by blast
    then show ?thesis
      using Inl by (intro exI [of _ "m # taken"]) auto
  next
    case (Inr j)
    note j = this
    show ?thesis
    proof (cases ws)
      case Nil
      then show ?thesis
        using Cons.prems j by auto
    next
      case (Cons w ws')
      note w = this
      show ?thesis
      proof (cases w)
        case (Inl e)
        then show ?thesis
          using Cons.prems j w by (auto intro!: exI [of _ "[m]"])
      next
        case (Inr u)
        then obtain ds' where run: "publish_lines to_json ws' ms = (ds', rest, broke)" and ds: "ds = m # ds'"
          using Cons.prems j w by (auto split: prod.splits)
        from Cons.IH [OF run] obtain taken where "ms = taken @ rest" "subseq ds' taken"
          "length (filter (serialisable to_json) taken) = length ds' + of_bool broke" "broke \<longrightarrow> (\<exists>e. Inl e \<in> set ws')"
          by blast
        then show ?thesis
          using ds w j by (intro exI [of _ "m # taken"]) auto
      qed
    qed
  qed
qed auto

section \<open>Properties\<close>

text \<open>
  However lookups and the publisher interleave (fewer than \<open>2 ^ 64\<close> steps), the
  table of lookups in flight, which the status report counts and the upgrade waits on, is exactly the
  set of unfinished tasks under distinct ids, and the channel never holds more than its 256 entries.
\<close>

theorem scanner_tasks_exact:
  assumes "length evs < 2 ^ 64"
  shows "case foldl scan_step scanner_start evs of s \<Rightarrow>
    sc_in_flight (sn_registry s) = fst ` set (sn_tasks s) \<and> distinct (map fst (sn_tasks s)) \<and>
    card (sc_in_flight (sn_registry s)) = length (sn_tasks s) \<and> length (mc_queue (sn_channel s)) \<le> 256"
proof -
  have "scanner_inv 0 scanner_start"
    by (simp add: scanner_inv_def scans.counted_def scanner_start_def scanner_registry_default_def)
  then obtain k where "scanner_inv k (foldl scan_step scanner_start evs)"
    using scan_steps_inv [of 0 scanner_start evs] assms by auto
  then show ?thesis
    by (auto simp: scanner_inv_def SIDECAR_CAPACITY_def) (metis distinct_card length_map list.set_map)
qed

theorem scanner_tasks_exact_witness:
  "case foldl scan_step scanner_start [ScanArrives (SessionObserved ''1.2.3.4'' 5 7070 ''plain'' ''t''),
       ScanArrives (SessionObserved ''1.2.3.4'' 6 7070 ''plain'' ''u''), ScanEnds 0 (Some ''joe''), PublisherTakes] of s \<Rightarrow>
     sc_in_flight (sn_registry s) = {1} \<and> card (sc_in_flight (sn_registry s)) = length (sn_tasks s)"
  using scanner_tasks_exact [of "[ScanArrives (SessionObserved ''1.2.3.4'' 5 7070 ''plain'' ''t''),
       ScanArrives (SessionObserved ''1.2.3.4'' 6 7070 ''plain'' ''u''), ScanEnds 0 (Some ''joe''), PublisherTakes]"]
  by (auto simp: scanner_start_def scanner_registry_default_def start_request_def enter_scan_def end_request_def
      leave_scan_def try_send_def SIDECAR_CAPACITY_def)

text \<open>
  A lookup reports an identity only when the host was dialed, took the query and
  answered within its timeouts with something; what is reported is the decoded and trimmed answer,
  at most three bytes for each of the 256 read.
\<close>

theorem ident_reply_bounded:
  assumes "ident_lookup connect ip cport sport iport = Some v"
    and read_contract: "\<And>stream n bs. connect (ip @ '':'' @ dec (unat iport)) = InTime (Inr stream) \<Longrightarrow>
      is_read stream n = InTime (Inr bs) \<Longrightarrow> length bs \<le> n"
  shows "\<exists>stream reply. connect (ip @ '':'' @ dec (unat iport)) = InTime (Inr stream) \<and>
    is_write stream (ident_query cport sport) = InTime (Inr ()) \<and> is_read stream 256 = InTime (Inr reply) \<and>
    reply \<noteq> [] \<and> v = trim (utf8_lossy reply) \<and> length v \<le> 768"
proof -
  obtain stream where c: "connect (ip @ '':'' @ dec (unat iport)) = InTime (Inr stream)"
    and ex: "ident_exchange stream cport sport = Some v"
    using assms(1) by (auto simp: ident_lookup_def split: timed.splits sum.splits)
  then obtain reply where r: "is_write stream (ident_query cport sport) = InTime (Inr ())"
      "is_read stream 256 = InTime (Inr reply)" "reply \<noteq> []" "v = trim (utf8_lossy reply)"
    by (auto simp: ident_exchange_def Let_def split: timed.splits sum.splits if_splits)
  moreover have "length v \<le> 768"
    using read_contract [OF c r(2)] trim_length [of "utf8_lossy reply"] utf8_lossy_length [of reply] r(4) by simp
  ultimately show ?thesis
    using c by blast
qed

definition calm_identd :: "string \<Rightarrow> ident_stream result timed" where
  "calm_identd addr = InTime (Inr \<lparr>is_write = (\<lambda>_. InTime (Inr ())), is_read = (\<lambda>n. InTime (Inr (take n ''joe'')))\<rparr>)"

theorem ident_reply_bounded_witness:
  "\<exists>v. ident_lookup calm_identd ''1.2.3.4'' 5 7070 113 = Some v \<and> length v \<le> 768"
proof -
  have run: "ident_lookup calm_identd ''1.2.3.4'' 5 7070 113 = Some (trim (utf8_lossy ''joe''))"
    by (simp add: ident_lookup_def ident_exchange_def calm_identd_def del: utf8_lossy.simps)
  have "\<exists>stream reply. calm_identd (''1.2.3.4'' @ '':'' @ dec (unat (113 :: u16))) = InTime (Inr stream) \<and>
      is_write stream (ident_query 5 7070) = InTime (Inr ()) \<and> is_read stream 256 = InTime (Inr reply) \<and>
      reply \<noteq> [] \<and> trim (utf8_lossy ''joe'') = trim (utf8_lossy reply) \<and> length (trim (utf8_lossy ''joe'')) \<le> 768"
    by (rule ident_reply_bounded [OF run]) (auto simp: calm_identd_def)
  with run show ?thesis
    by blast
qed

text \<open>
  The publisher delivers metadata in the order it was queued, each at most once, over
  however many reconnects; what it took and did not deliver could not be serialized or is the one
  entry whose write broke a connection.
\<close>

theorem sidecar_publisher_ordered:
  assumes "run_sidecar_publisher preamble to_json conns ms = (dss, rest)"
  shows "\<exists>taken. ms = taken @ rest \<and> subseq (concat dss) taken \<and>
    length (filter (serialisable to_json) taken) \<le>
      length (concat dss) + length (filter (\<lambda>(_, _, ws). list_ex isl ws) conns)"
  using assms
proof (induction conns arbitrary: ms dss)
  case (Cons conn conns)
  obtain dial pre ws where conn: "conn = (dial, pre, ws)"
    using prod_cases3 by blast
  consider (again) "isl dial \<or> (\<not> isl preamble \<and> isl pre)" | (stop) "\<not> isl dial" "isl preamble"
    | (lines) "\<not> isl dial" "\<not> isl preamble" "\<not> isl pre"
    by blast
  then show ?case
  proof cases
    case again
    then have "run_sidecar_publisher preamble to_json conns ms = (dss, rest)"
      using Cons.prems conn by (auto split: sum.splits)
    from Cons.IH [OF this] show ?thesis
      by fastforce
  next
    case stop
    then show ?thesis
      using Cons.prems conn by (auto split: sum.splits)
  next
    case lines
    obtain ds mid broke where pl: "publish_lines to_json ws ms = (ds, mid, broke)"
      using prod_cases3 by blast
    obtain taken where t: "ms = taken @ mid" "subseq ds taken"
      "length (filter (serialisable to_json) taken) = length ds + of_bool broke" "broke \<longrightarrow> list_ex isl ws"
      using publish_lines_taken [OF pl] by (force simp: list_ex_iff)
    show ?thesis
    proof (cases broke)
      case False
      then show ?thesis
        using Cons.prems conn lines pl t by (auto split: sum.splits)
    next
      case True
      obtain dss' where run: "run_sidecar_publisher preamble to_json conns mid = (dss', rest)" and dss: "dss = ds # dss'"
        using Cons.prems conn lines pl True by (auto split: sum.splits prod.splits)
      from Cons.IH [OF run] obtain taken' where "mid = taken' @ rest" "subseq (concat dss') taken'"
        "length (filter (serialisable to_json) taken') \<le>
           length (concat dss') + length (filter (\<lambda>(_, _, ws). list_ex isl ws) conns)"
        by blast
      then show ?thesis
        using t True dss conn by (intro exI [of _ "taken @ taken'"]) (auto intro: list_emb_append_mono)
    qed
  qed
qed auto

theorem sidecar_publisher_ordered_witness:
  "\<exists>dss rest. run_sidecar_publisher (Inr ''sidecar'') (\<lambda>m. Inr (sm_peer m))
       [(Inl [''refused''], Inr (), []), (Inr (), Inr (), [Inr (), Inl [''broken'']]), (Inr (), Inr (), [Inr ()])]
       [\<lparr>sm_peer = ''a'', sm_ident = None, sm_trace_id = ''1''\<rparr>, \<lparr>sm_peer = ''b'', sm_ident = None, sm_trace_id = ''2''\<rparr>,
        \<lparr>sm_peer = ''c'', sm_ident = None, sm_trace_id = ''3''\<rparr>] = (dss, rest) \<and>
     (\<exists>taken. [\<lparr>sm_peer = ''a'', sm_ident = None, sm_trace_id = ''1''\<rparr>, \<lparr>sm_peer = ''b'', sm_ident = None, sm_trace_id = ''2''\<rparr>,
        \<lparr>sm_peer = ''c'', sm_ident = None, sm_trace_id = ''3''\<rparr>] = taken @ rest \<and> subseq (concat dss) taken)"
proof -
  let ?ms = "[\<lparr>sm_peer = ''a'', sm_ident = None, sm_trace_id = ''1''\<rparr>, \<lparr>sm_peer = ''b'', sm_ident = None, sm_trace_id = ''2''\<rparr>,
        \<lparr>sm_peer = ''c'', sm_ident = None, sm_trace_id = ''3''\<rparr>]"
  obtain dss rest where run: "run_sidecar_publisher (Inr ''sidecar'') (\<lambda>m. Inr (sm_peer m))
       [(Inl [''refused''], Inr (), []), (Inr (), Inr (), [Inr (), Inl [''broken'']]), (Inr (), Inr (), [Inr ()])] ?ms = (dss, rest)"
    by fastforce
  from sidecar_publisher_ordered [OF run] run show ?thesis
    by blast
qed

end
