(* ===== verification/Bridge.thy ===== *)
theory Bridge
  imports Scanner
begin

text \<open>
  Model of the acceptors' data path: the pump of the plain bridge (\<^verbatim>\<open>src/acceptor/data.rs\<close>) and the
  bridge of a TLS session with its idle timeout and its cancellation (\<^verbatim>\<open>copy_direction\<close> and
  \<^verbatim>\<open>bidirectional_with_idle\<close> of \<^verbatim>\<open>src/acceptor/tls_client.rs\<close>). The TLS bridge is a machine whose
  events are what its concurrent parts meet, so that every interleaving of the two
  directions, the watchdog and the cancellation is a run.
\<close>

section \<open>The plain pump\<close>

text \<open>
  One round of a pump: the outcome of a read (\<^verbatim>\<open>Inr []\<close> is the end of the stream) and what became
  of writing the bytes, \<^verbatim>\<open>None\<close> when all went out, \<^verbatim>\<open>Some k\<close> when it failed after \<open>k\<close> of them. The
  result is what was delivered, what was read and whether the pump has closed its writer.
\<close>

fun pump :: "(bytes result \<times> nat option) list \<Rightarrow> bytes \<times> bytes \<times> bool" where
  "pump [] = ([], [], False)"
| "pump ((r, w) # rest) =
     (case r of
        Inl _ \<Rightarrow> ([], [], True)
      | Inr bs \<Rightarrow>
         (if bs = [] then ([], [], True)
          else case w of
                 Some k \<Rightarrow> (take k bs, bs, True)
               | None \<Rightarrow> (case pump rest of (out, inp, fin) \<Rightarrow> (bs @ out, bs @ inp, fin))))"

section \<open>The TLS bridge\<close>

definition BRIDGE_DRAIN_GRACE :: duration where
  "BRIDGE_DRAIN_GRACE = from_millis 500"

datatype bridge_exit = BridgeEnded | BridgeCancelled

text \<open>
  A direction waits for a read, is writing out the rest of what it read, or has wound down. What it
  has read and what it has written so far are kept as ghost state.
\<close>

datatype dir_phase = DirReading | DirWriting bytes | DirDone

record direction =
  d_phase :: dir_phase
  d_read :: bytes
  d_written :: bytes

datatype side = AtoB | BtoA

record bridge =
  br_dirs :: "side \<Rightarrow> direction"
  br_token :: bool
  br_upgrade :: bool
  br_external_done :: bool
  br_last_ms :: u64
  br_exit :: "bridge_exit option"

definition bridge_start :: "u64 \<Rightarrow> bridge" where
  "bridge_start now = \<lparr>
     br_dirs = (\<lambda>_. \<lparr>d_phase = DirReading, d_read = [], d_written = []\<rparr>), br_token = False, br_upgrade = False,
     br_external_done = False, br_last_ms = now, br_exit = None\<rparr>"

text \<open>
  What the parts of the bridge meet: a read returns bytes or the stream's end (or an error), a write
  takes some bytes (with the time read once all are out) or fails, a direction that waits observes the
  token, the watchdog wakes, the upgrade's cancel arrives, the cancel's future observes the token,
  all parts have ended, the grace after the token has passed.
\<close>

datatype bridge_event =
    ReadSome side bytes
  | ReadStop side
  | WriteSomeTo side nat u64
  | WriteFails side
  | SeesToken side
  | WatchdogWakes u64
  | UpgradeCancel
  | ExternalSeesToken
  | AllJoined
  | GraceElapsed

definition set_dir :: "side \<Rightarrow> direction \<Rightarrow> bridge \<Rightarrow> bridge" where
  "set_dir d x b = b\<lparr>br_dirs := (br_dirs b)(d := x)\<rparr>"

definition cancel_token :: "bridge \<Rightarrow> bridge" where
  "cancel_token b = b\<lparr>br_token := True\<rparr>"

definition idle_expired :: "duration \<Rightarrow> u64 \<Rightarrow> u64 \<Rightarrow> bool" where
  "idle_expired idle now last_ms \<longleftrightarrow> idle \<noteq> 0 \<and> duration_millis_u64 idle < saturating_sub now last_ms"

definition watchdog_interval :: "duration \<Rightarrow> duration" where
  "watchdog_interval idle = max (idle div 4) (from_millis 100)"

definition exit_of :: "bridge \<Rightarrow> bridge_exit" where
  "exit_of b = (if br_upgrade b then BridgeCancelled else BridgeEnded)"

text \<open>An event that the state does not allow leaves it unchanged.\<close>

fun bridge_act :: "duration \<Rightarrow> bridge \<Rightarrow> bridge_event \<Rightarrow> bridge" where
  "bridge_act idle b (ReadSome d bs) =
     (let x = br_dirs b d in
      if d_phase x = DirReading \<and> \<not> br_token b \<and> bs \<noteq> []
      then set_dir d (x\<lparr>d_phase := DirWriting bs, d_read := d_read x @ bs\<rparr>) b else b)"
| "bridge_act idle b (ReadStop d) =
     (let x = br_dirs b d in
      if d_phase x = DirReading \<and> \<not> br_token b
      then cancel_token (set_dir d (x\<lparr>d_phase := DirDone\<rparr>) b) else b)"
| "bridge_act idle b (WriteSomeTo d n now) =
     (let x = br_dirs b d in
      case d_phase x of
        DirWriting bs \<Rightarrow>
         (if drop n bs = []
          then set_dir d (x\<lparr>d_phase := DirReading, d_written := d_written x @ bs\<rparr>) (b\<lparr>br_last_ms := now\<rparr>)
          else set_dir d (x\<lparr>d_phase := DirWriting (drop n bs), d_written := d_written x @ take n bs\<rparr>) b)
      | _ \<Rightarrow> b)"
| "bridge_act idle b (WriteFails d) =
     (let x = br_dirs b d in
      case d_phase x of
        DirWriting _ \<Rightarrow> cancel_token (set_dir d (x\<lparr>d_phase := DirDone\<rparr>) b)
      | _ \<Rightarrow> b)"
| "bridge_act idle b (SeesToken d) =
     (let x = br_dirs b d in
      if d_phase x = DirReading \<and> br_token b then set_dir d (x\<lparr>d_phase := DirDone\<rparr>) b else b)"
| "bridge_act idle b (WatchdogWakes now) =
     (if \<not> br_token b \<and> idle_expired idle now (br_last_ms b) then cancel_token b else b)"
| "bridge_act idle b UpgradeCancel =
     (if \<not> br_external_done b then cancel_token (b\<lparr>br_upgrade := True, br_external_done := True\<rparr>) else b)"
| "bridge_act idle b ExternalSeesToken = (if br_token b then b\<lparr>br_external_done := True\<rparr> else b)"
| "bridge_act idle b AllJoined =
     (if (\<forall>d \<in> {AtoB, BtoA}. d_phase (br_dirs b d) = DirDone) \<and> br_external_done b
      then b\<lparr>br_exit := Some (exit_of b)\<rparr> else b)"
| "bridge_act idle b GraceElapsed = (if br_token b then b\<lparr>br_exit := Some (exit_of b)\<rparr> else b)"

text \<open>Once the bridge has returned nothing more happens.\<close>

definition bridge_step :: "duration \<Rightarrow> bridge \<Rightarrow> bridge_event \<Rightarrow> bridge" where
  "bridge_step idle b e = (if br_exit b = None then bridge_act idle b e else b)"

section \<open>Lemmas: the pump\<close>

lemma pump_prefix: "pump rounds = (out, inp, fin) \<Longrightarrow> prefix out inp"
  by (induction rounds arbitrary: out inp)
    (auto simp: take_is_prefix split: sum.splits if_splits option.splits prod.splits)

lemma pump_complete:
  "pump rounds = (out, inp, fin) \<Longrightarrow> \<forall>(r, w) \<in> set rounds. w = None \<Longrightarrow> out = inp"
  by (induction rounds arbitrary: out inp)
    (auto split: sum.splits if_splits option.splits prod.splits)

section \<open>Lemmas: the bridge\<close>

definition pending_of :: "direction \<Rightarrow> bytes" where
  "pending_of x = (case d_phase x of DirWriting bs \<Rightarrow> bs | _ \<Rightarrow> [])"

text \<open>
  What a direction has read is what it has written and what it is still writing, until a write of it
  fails; then what it has written is a part of it.
\<close>

definition dir_ok :: "bool \<Rightarrow> direction \<Rightarrow> bool" where
  "dir_ok failed x \<longleftrightarrow>
     (if failed then prefix (d_written x) (d_read x) \<and> d_phase x = DirDone
      else d_read x = d_written x @ pending_of x)"

definition fails :: "side \<Rightarrow> bridge_event \<Rightarrow> bool" where
  "fails d e \<longleftrightarrow> e = WriteFails d"

lemma set_dir_simps [simp]:
  "br_dirs (set_dir d x b) = (br_dirs b)(d := x)" "br_token (set_dir d x b) = br_token b"
  "br_upgrade (set_dir d x b) = br_upgrade b" "br_exit (set_dir d x b) = br_exit b"
  "br_last_ms (set_dir d x b) = br_last_ms b" "br_external_done (set_dir d x b) = br_external_done b"
  "br_dirs (cancel_token b) = br_dirs b" "br_token (cancel_token b) = True"
  "br_upgrade (cancel_token b) = br_upgrade b" "br_exit (cancel_token b) = br_exit b"
  "br_last_ms (cancel_token b) = br_last_ms b" "br_external_done (cancel_token b) = br_external_done b"
  by (simp_all add: set_dir_def cancel_token_def)

lemma bridge_act_dir:
  assumes "dir_ok failed (br_dirs b d)"
  shows "\<exists>failed'. dir_ok failed' (br_dirs (bridge_act idle b e) d) \<and> (failed' \<longrightarrow> failed \<or> fails d e)"
  using assms
  by (cases "(idle, b, e)" rule: bridge_act.cases)
    (auto simp: Let_def dir_ok_def pending_of_def fails_def exit_of_def
      split: dir_phase.splits if_splits
      intro!: exI [of _ "failed \<or> fails d e \<and> pending_of (br_dirs b d) \<noteq> []"])

lemma bridge_run_dir:
  assumes "dir_ok failed (br_dirs b d)"
  shows "\<exists>failed'. dir_ok failed' (br_dirs (foldl (bridge_step idle) b evs) d) \<and>
    (failed' \<longrightarrow> failed \<or> WriteFails d \<in> set evs)"
  using assms
proof (induction evs arbitrary: b failed)
  case (Cons e evs)
  obtain f where "dir_ok f (br_dirs (bridge_step idle b e) d)" "f \<longrightarrow> failed \<or> fails d e"
    using bridge_act_dir [OF Cons.prems, of idle e] Cons.prems unfolding bridge_step_def by metis
  with Cons.IH [of f "bridge_step idle b e"] show ?case
    by (auto simp: fails_def)
qed auto

lemma dir_ok_start: "dir_ok False (br_dirs (bridge_start now) d)"
  by (simp add: dir_ok_def bridge_start_def pending_of_def)

text \<open>A bridge that returned without the grace has wound both directions down.\<close>

definition exit_ok :: "bool \<Rightarrow> bridge \<Rightarrow> bool" where
  "exit_ok cancelled b \<longleftrightarrow>
     (br_exit b \<noteq> None \<longrightarrow> (\<forall>d. d_phase (br_dirs b d) = DirDone) \<and> br_exit b = Some (exit_of b)) \<and>
     (br_upgrade b \<longrightarrow> cancelled)"

lemma side_all: "(\<forall>d. P d) \<longleftrightarrow> P AtoB \<and> P BtoA"
  by (metis side.exhaust)

lemma bridge_step_exit:
  assumes "exit_ok c b" and "e \<noteq> GraceElapsed"
  shows "exit_ok (c \<or> e = UpgradeCancel) (bridge_step idle b e)"
  using assms
  by (cases "(idle, b, e)" rule: bridge_act.cases)
    (auto simp: Let_def exit_ok_def exit_of_def bridge_step_def side_all split: dir_phase.splits if_splits)

lemma bridge_run_exit:
  assumes "exit_ok c b" and "GraceElapsed \<notin> set evs"
  shows "exit_ok (c \<or> UpgradeCancel \<in> set evs) (foldl (bridge_step idle) b evs)"
  using assms
proof (induction evs arbitrary: b c)
  case (Cons e evs)
  have "exit_ok (c \<or> e = UpgradeCancel) (bridge_step idle b e)"
    using bridge_step_exit [OF Cons.prems(1)] Cons.prems(2) by auto
  from Cons.IH [OF this] Cons.prems(2) show ?case
    by (simp add: disj_ac eq_commute)
qed simp

lemma token_cause:
  assumes "\<not> br_token b" and "br_token (bridge_step idle b e)"
  shows "(\<exists>d. e = ReadStop d \<or> e = WriteFails d) \<or> e = UpgradeCancel \<or>
    (\<exists>now. e = WatchdogWakes now \<and> idle_expired idle now (br_last_ms b))"
  using assms
  by (cases "(idle, b, e)" rule: bridge_act.cases)
    (auto simp: Let_def bridge_step_def split: dir_phase.splits if_splits)

text \<open>A bridge that stopped on its own has delivered what it read, unless a write failed.\<close>

lemma bridge_lossless:
  assumes "br_exit (foldl (bridge_step idle) (bridge_start now) evs) \<noteq> None" and "GraceElapsed \<notin> set evs"
    and "WriteFails d \<notin> set evs"
  shows "d_written (br_dirs (foldl (bridge_step idle) (bridge_start now) evs) d) =
    d_read (br_dirs (foldl (bridge_step idle) (bridge_start now) evs) d)"
proof -
  let ?b = "foldl (bridge_step idle) (bridge_start now) evs"
  have "dir_ok False (br_dirs ?b d)"
    using bridge_run_dir [OF dir_ok_start] assms(3) by metis
  moreover have "exit_ok (UpgradeCancel \<in> set evs) ?b"
    using bridge_run_exit [of False "bridge_start now" evs idle] assms(2) by (simp add: exit_ok_def bridge_start_def)
  ultimately show ?thesis
    using assms(1) by (simp add: dir_ok_def exit_ok_def pending_of_def)
qed

section \<open>Properties\<close>

text \<open>
  C9 (safety). A TLS bridge never invents or reorders bytes, and when it stops without its grace
  period having to cut a write short, whatever stopped it, a direction none of whose writes failed
  has delivered every byte it read. In particular the streams that a cancelled bridge hands to the
  drain process carry no bytes that were read and not written, and it reports itself cancelled only
  after the upgrade's cancel.
\<close>

theorem bridge_stop_lossless:
  "let b = foldl (bridge_step idle) (bridge_start now) evs in
     prefix (d_written (br_dirs b d)) (d_read (br_dirs b d)) \<and>
     (br_exit b \<noteq> None \<and> GraceElapsed \<notin> set evs \<longrightarrow>
        (WriteFails d \<notin> set evs \<longrightarrow> d_written (br_dirs b d) = d_read (br_dirs b d)) \<and>
        (br_exit b = Some BridgeCancelled \<longrightarrow> UpgradeCancel \<in> set evs))"
proof -
  let ?b = "foldl (bridge_step idle) (bridge_start now) evs"
  obtain f where "dir_ok f (br_dirs ?b d)"
    using bridge_run_dir [OF dir_ok_start] by blast
  then have "prefix (d_written (br_dirs ?b d)) (d_read (br_dirs ?b d))"
    by (auto simp: dir_ok_def split: if_splits)
  moreover have "exit_ok (UpgradeCancel \<in> set evs) ?b" if "GraceElapsed \<notin> set evs"
    using bridge_run_exit [of False "bridge_start now" evs idle] that
    by (simp add: exit_ok_def bridge_start_def)
  ultimately show ?thesis
    using bridge_lossless [of idle now evs d] by (auto simp: Let_def exit_ok_def exit_of_def split: if_splits)
qed

theorem bridge_stop_lossless_witness:
  "let b = foldl (bridge_step 0) (bridge_start 0)
       [ReadSome AtoB [1, 2], UpgradeCancel, WriteSomeTo AtoB 2 9, SeesToken BtoA, SeesToken AtoB, AllJoined] in
     br_exit b = Some BridgeCancelled \<and> d_written (br_dirs b AtoB) = d_read (br_dirs b AtoB)"
proof -
  let ?evs = "[ReadSome AtoB [1, 2], UpgradeCancel, WriteSomeTo AtoB 2 9, SeesToken BtoA, SeesToken AtoB, AllJoined]"
  have "br_exit (foldl (bridge_step 0) (bridge_start 0) ?evs) = Some BridgeCancelled"
    by (simp add: bridge_step_def bridge_start_def exit_of_def set_dir_def cancel_token_def Let_def)
  then show ?thesis
    using bridge_stop_lossless [of 0 0 ?evs AtoB] by (simp only: Let_def) simp
qed

text \<open>
  The grace period makes an exception to that: when it passes while a write is
  stuck, the bridge still reports itself cancelled and its streams are handed on, with bytes that
  were read and are lost.
\<close>

theorem bridge_grace_drops_bytes:
  "let b = foldl (bridge_step idle) (bridge_start now)
       [ReadSome AtoB [1, 2], WriteSomeTo AtoB 1 now, UpgradeCancel, SeesToken BtoA, GraceElapsed] in
     br_exit b = Some BridgeCancelled \<and> d_read (br_dirs b AtoB) = [1, 2] \<and> d_written (br_dirs b AtoB) = [1]"
  by (simp add: bridge_step_def bridge_start_def exit_of_def set_dir_def cancel_token_def Let_def)

text \<open>
  Nothing stops a TLS session but the end or failure of a stream, the upgrade's
  cancel, or the watchdog finding, with the timeout enabled, that more than the timeout has passed
  since a write was last completed.
\<close>

theorem bridge_stops_for_cause:
  assumes "br_token (foldl (bridge_step idle) (bridge_start now) evs)"
  shows "\<exists>pre e post. evs = pre @ e # post \<and>
    ((\<exists>d. e = ReadStop d \<or> e = WriteFails d) \<or> e = UpgradeCancel \<or>
     (\<exists>t. e = WatchdogWakes t \<and> idle \<noteq> 0 \<and>
       duration_millis_u64 idle < saturating_sub t (br_last_ms (foldl (bridge_step idle) (bridge_start now) pre))))"
  using assms
proof (induction evs rule: rev_induct)
  case Nil
  then show ?case
    by (simp add: bridge_start_def)
next
  case (snoc e evs)
  show ?case
  proof (cases "br_token (foldl (bridge_step idle) (bridge_start now) evs)")
    case True
    then obtain pre x post where "evs = pre @ x # post" and
      c: "(\<exists>d. x = ReadStop d \<or> x = WriteFails d) \<or> x = UpgradeCancel \<or>
        (\<exists>t. x = WatchdogWakes t \<and> idle \<noteq> 0 \<and>
          duration_millis_u64 idle < saturating_sub t (br_last_ms (foldl (bridge_step idle) (bridge_start now) pre)))"
      using snoc.IH by blast
    then have "evs @ [e] = pre @ x # (post @ [e])"
      by simp
    with c show ?thesis
      by blast
  next
    case False
    from token_cause [OF this, where e = e] snoc.prems show ?thesis
      by (intro exI [of _ evs] exI [of _ e] exI [of _ "[]"]) (auto simp: idle_expired_def)
  qed
qed

theorem bridge_stops_for_cause_witness:
  "\<exists>pre e post. [WatchdogWakes 150, ReadSome AtoB [1], WriteSomeTo AtoB 1 200, WatchdogWakes 301] = pre @ e # post \<and>
    ((\<exists>d. e = ReadStop d \<or> e = WriteFails d) \<or> e = UpgradeCancel \<or>
     (\<exists>t. e = WatchdogWakes t \<and> from_millis 100 \<noteq> 0 \<and>
       duration_millis_u64 (from_millis 100) <
         saturating_sub t (br_last_ms (foldl (bridge_step (from_millis 100)) (bridge_start 50) pre))))"
  by (rule bridge_stops_for_cause)
    (simp add: bridge_step_def bridge_start_def set_dir_def cancel_token_def Let_def idle_expired_def
      duration_millis_u64_def saturating_sub_def from_millis_def as_millis_def)

end
