(* ===== verification/Tls_Session.thy ===== *)
theory Tls_Session
  imports Bridge
begin

text \<open>
  Model of a TLS client in the acceptor (\<^verbatim>\<open>run_tls_client\<close> of \<^verbatim>\<open>src/acceptor/tls_client.rs\<close> and the
  client registry of \<^verbatim>\<open>src/acceptor/data.rs\<close>) and of the upgrade that keeps it alive: the harvest
  of the live sessions, the fork and the exec of the new image (\<^verbatim>\<open>src/acceptor/tls_drain.rs\<close>). The
  state of a TLS connection is the library's, a value of any type that is passed on.
\<close>

section \<open>The client registry\<close>

text \<open>A handle says whether the client will answer a cancel with a handoff.\<close>

record client_registry =
  cr_next_id :: u64
  cr_clients :: "(u64 \<times> bool) list"

definition client_registry_default :: client_registry where
  "client_registry_default = \<lparr>cr_next_id = 0, cr_clients = []\<rparr>"

definition enter_client :: "bool \<Rightarrow> client_registry \<Rightarrow> u64 \<times> client_registry" where
  "enter_client tls r =
     (cr_next_id r, r\<lparr>cr_next_id := cr_next_id r + 1, cr_clients := AList.update (cr_next_id r) tls (cr_clients r)\<rparr>)"

definition leave_client :: "u64 \<Rightarrow> client_registry \<Rightarrow> client_registry" where
  "leave_client cid r = r\<lparr>cr_clients := AList.delete cid (cr_clients r)\<rparr>"

section \<open>A TLS client\<close>

record 'c tls_handoff =
  th_tcp_fd :: raw_fd
  th_uds_fd :: raw_fd
  th_conn :: 'c
  th_peer :: string

text \<open>What the receiver of a task's handoff sees: nothing yet, a dropped sender, a handoff.\<close>

datatype 'c handoff_rx = RxPending | RxDropped | RxSent "'c tls_handoff"

text \<open>A step of the task raced with the upgrade's cancel.\<close>

datatype 'a raced = RaceCancelled | RaceDone 'a

record 'c tls_stages =
  st_handshake :: "'c result raced"
  st_open :: "unit result raced"
  st_exit :: bridge_exit
  st_tcp_std :: "raw_fd result"
  st_uds_std :: "raw_fd result"

definition open_processor_session ::
  "unit result \<Rightarrow> (processor_preamble \<Rightarrow> string result) \<Rightarrow> (string \<Rightarrow> unit result) \<Rightarrow> string \<Rightarrow> string \<Rightarrow> string \<Rightarrow>
     unit result" where
  "open_processor_session dial to_json put peer role trace_id =
     and_then dial (\<lambda>_.
       and_then (to_json (PreambleSession peer role trace_id)) (\<lambda>line. put (line @ [nl])))"

text \<open>
  \<^verbatim>\<open>run_tls_client\<close> between its registration and the removal of its entry, which every path
  ends with: what becomes of its handoff.
\<close>

definition run_tls_client :: "'c tls_stages \<Rightarrow> string \<Rightarrow> 'c handoff_rx" where
  "run_tls_client st peer =
     (case st_handshake st of
        RaceCancelled \<Rightarrow> RxDropped
      | RaceDone (Inl _) \<Rightarrow> RxDropped
      | RaceDone (Inr conn) \<Rightarrow>
         (case st_open st of
            RaceCancelled \<Rightarrow> RxDropped
          | RaceDone (Inl _) \<Rightarrow> RxDropped
          | RaceDone (Inr _) \<Rightarrow>
             (if st_exit st = BridgeCancelled
              then case st_tcp_std st of
                     Inl _ \<Rightarrow> RxDropped
                   | Inr tfd \<Rightarrow>
                      (case st_uds_std st of
                         Inl _ \<Rightarrow> RxDropped
                       | Inr ufd \<Rightarrow>
                           RxSent \<lparr>th_tcp_fd = tfd, th_uds_fd = ufd, th_conn = conn, th_peer = peer\<rparr>)
              else RxDropped)))"

section \<open>Harvest\<close>

text \<open>The harvest waits for each answer in turn; \<^verbatim>\<open>None\<close> while one is outstanding.\<close>

fun await_handoffs :: "'c handoff_rx list \<Rightarrow> 'c tls_handoff list option" where
  "await_handoffs [] = Some []"
| "await_handoffs (RxPending # _) = None"
| "await_handoffs (RxDropped # rest) = await_handoffs rest"
| "await_handoffs (RxSent h # rest) = map_option ((#) h) (await_handoffs rest)"

definition harvest_tls_handoffs ::
  "(u64 \<Rightarrow> 'c handoff_rx) \<Rightarrow> client_registry \<Rightarrow> 'c tls_handoff list option \<times> client_registry" where
  "harvest_tls_handoffs rx r =
     (await_handoffs (map (rx \<circ> fst) (filter snd (cr_clients r))), r\<lparr>cr_clients := []\<rparr>)"

section \<open>Fork and exec\<close>

definition tls_handed_env :: "u64 \<Rightarrow> raw_fd \<Rightarrow> env" where
  "tls_handed_env generation listener_fd =
     [(ENV_LISTENER_FD, dec_int listener_fd), (ENV_UPGRADE_GENERATION, dec (unat (generation + 1)))]"

text \<open>
  How the attempt ends: an error, which ends the acceptor, or the new image in its place. The
  sessions are those of the forked drain process, \<^verbatim>\<open>None\<close> when there is none. A successful
  \<^verbatim>\<open>os_spawn\<close> is the exec that does not return. On FreeBSD the hook that makes the exec does not return
  when it fails either, but leaves with status 127; the model keeps that end of the acceptor as an
  error too, and drops the guards of a process that is gone.
\<close>

datatype tls_upgrade_end = TlsFailed error | TlsExeced upgrade_cmd

definition exec_new_image ::
  "upgrade_os \<Rightarrow> upgrade_ctx \<Rightarrow> env \<Rightarrow> cloexec_guard \<Rightarrow> cloexec_flags \<Rightarrow> tls_upgrade_end \<times> cloexec_flags" where
  "exec_new_image os ctx handed guard t =
     (let target_overridden = (uc_binary_path ctx \<noteq> None);
          exe = resolve_upgrade_exe (uc_binary_path ctx) (exe_path (uc_self_exe ctx))
      in case (if os_freebsd os
               then cap_mode_handoff (os_fcntl os) handed (uc_sandbox_off ctx) (uc_config_json ctx)
                      (uc_self_exe ctx) (uc_dirs ctx) target_overridden t
               else (Inr (handed, []), t)) of
           (Inl e, t1) \<Rightarrow> (TlsFailed e, guard_drop (os_fcntl os) guard t1)
         | (Inr (fexecve_env, guards), t1) \<Rightarrow>
             (case (if target_overridden then Inr ()
                    else require_static_for_capmode_upgrade (os_freebsd os) (os_capmode os) (os_pread os)) of
                Inl e \<Rightarrow> (TlsFailed e, drop_guards (os_fcntl os) (guards @ [guard]) t1)
              | Inr _ \<Rightarrow>
                  (let cmd = \<lparr>uc_exe = exe, uc_args = [uc_arg ctx],
                              uc_env = child_env os target_overridden handed fexecve_env\<rparr>;
                       t2 = guard_commit (os_fcntl os) guard t1
                   in case os_spawn os cmd of
                        Inr _ \<Rightarrow> (TlsExeced cmd, t2)
                      | Inl e \<Rightarrow> (TlsFailed [''execve failed: '' @ concat e], drop_guards (os_fcntl os) guards t2))))"

definition do_upgrade_tls_fork_drain ::
  "upgrade_os \<Rightarrow> u32 result \<Rightarrow> upgrade_ctx \<Rightarrow> 'c tls_handoff list \<Rightarrow> cloexec_flags \<Rightarrow>
     tls_upgrade_end \<times> 'c tls_handoff list option \<times> cloexec_flags" where
  "do_upgrade_tls_fork_drain os fork_res ctx handoffs t =
     (case with_context ''listener into_std'' (os_into_std os) of
        Inl e \<Rightarrow> (TlsFailed e, None, t)
      | Inr listener_fd \<Rightarrow>
         (case with_context ''clear CLOEXEC on listener'' (guard_clear (os_fcntl os) listener_fd t) of
            Inl e \<Rightarrow> (TlsFailed e, None, t)
          | Inr (guard, t1) \<Rightarrow>
             (case fork_res of
                Inl e \<Rightarrow> (TlsFailed [''fork failed: '' @ concat e], None, guard_drop (os_fcntl os) guard t1)
              | Inr _ \<Rightarrow>
                 (case exec_new_image os ctx (tls_handed_env (uc_generation ctx) listener_fd) guard t1 of
                    (r, t2) \<Rightarrow> (r, Some handoffs, t2)))))"

section \<open>Lemmas\<close>

interpretation clients: id_registry cr_next_id "\<lambda>r. fst ` set (cr_clients r)" enter_client leave_client
  by unfold_locales (auto simp: enter_client_def leave_client_def AList.delete_eq dom_update)

lemma await_handoffs_Some:
  "await_handoffs rxs = Some hs \<longleftrightarrow> RxPending \<notin> set rxs \<and> hs = [h. RxSent h \<leftarrow> rxs]"
proof (induction rxs arbitrary: hs rule: await_handoffs.induct)
  case (4 h rest)
  then show ?case
    by (cases "await_handoffs rest") auto
qed auto

lemma tls_handed_env_lookup:
  "env_var (rev (tls_handed_env g l)) ENV_LISTENER_FD = Some (dec_int l)"
  "env_var (rev (tls_handed_env g l)) ENV_UPGRADE_GENERATION = Some (dec (unat (g + 1)))"
  by (simp_all add: tls_handed_env_def env_names)

lemma execed_env:
  assumes "exec_new_image os ctx handed guard t = (TlsExeced cmd, t')"
    and "env_var (rev handed) k = Some v" and "k \<notin> set CAP_MODE_ENV"
  shows "env_var (uc_env cmd) k = Some v"
proof -
  define over where "over = (uc_binary_path ctx \<noteq> None)"
  have "\<exists>fe. uc_env cmd = child_env os over handed fe \<and> env_var (rev fe) k = env_var (rev handed) k"
  proof (cases "os_freebsd os")
    case False
    with assms(1) show ?thesis
      by (auto simp: exec_new_image_def Let_def over_def split: sum.splits if_splits)
  next
    case True
    with assms(1) obtain fe gs t1 where
      "cap_mode_handoff (os_fcntl os) handed (uc_sandbox_off ctx) (uc_config_json ctx)
         (uc_self_exe ctx) (uc_dirs ctx) over t = (Inr (fe, gs), t1)"
      and "uc_env cmd = child_env os over handed fe"
      by (auto simp: exec_new_image_def Let_def over_def split: sum.splits if_splits prod.splits)
    with cap_mode_keeps [OF _ assms(3)] show ?thesis by blast
  qed
  with assms(2) child_env_handed show ?thesis by metis
qed

lemma cap_mode_handoff_flags:
  assumes "cap_mode_handoff fc base off json exe dirs over t = (Inr (e, gs), t')"
    and "fd \<notin> snd ` set (cap_mode_specs exe dirs)"
  shows "t' fd = t fd"
proof (cases "over \<or> off")
  case True
  with assms(1) show ?thesis
    by (simp add: cap_mode_handoff_def)
next
  case False
  with assms(1) have "cap_mode_handoff fc base False json exe dirs False t = (Inr (e, gs), t')"
    by (simp add: cap_mode_handoff_def)
  then have "clear_guards fc (map (\<lambda>(_, fd). (fd, [])) (cap_mode_specs exe dirs)) [] t = (Inr gs, t')"
    by (elim cap_mode_handoff_Inr)
  from clear_guards_success(2) [OF this] show ?thesis
    using assms(2) by (force simp: image_iff)
qed

lemma exec_new_image_flags:
  assumes "exec_new_image os ctx handed guard t = (TlsExeced cmd, t')"
    and "fd \<notin> snd ` set (cap_mode_specs (uc_self_exe ctx) (uc_dirs ctx))"
  shows "t' fd = t fd"
proof (cases "os_freebsd os")
  case False
  with assms(1) show ?thesis
    by (auto simp: exec_new_image_def Let_def split: sum.splits if_splits)
next
  case True
  with assms(1) obtain over fe gs where
    "cap_mode_handoff (os_fcntl os) handed (uc_sandbox_off ctx) (uc_config_json ctx)
       (uc_self_exe ctx) (uc_dirs ctx) over t = (Inr (fe, gs), t')"
    by (auto simp: exec_new_image_def Let_def split: sum.splits if_splits prod.splits)
  from cap_mode_handoff_flags [OF this assms(2)] show ?thesis .
qed

lemma fork_drain_execed:
  assumes "do_upgrade_tls_fork_drain os fork_res ctx hs t = (TlsExeced cmd, drainer, t')"
  obtains l where "os_into_std os = Inr l" "drainer = Some hs" "\<exists>pid. fork_res = Inr pid"
    "exec_new_image os ctx (tls_handed_env (uc_generation ctx) l) \<lparr>guard_fd = l, armed = True\<rparr> (t(l := False)) =
       (TlsExeced cmd, t')"
proof -
  from assms obtain l where l: "os_into_std os = Inr l"
    by (cases "os_into_std os") (auto simp: do_upgrade_tls_fork_drain_def)
  with assms obtain g t1 where "guard_clear (os_fcntl os) l t = Inr (g, t1)"
    by (cases "guard_clear (os_fcntl os) l t") (auto simp: do_upgrade_tls_fork_drain_def)
  with assms l that show thesis
    by (auto simp: do_upgrade_tls_fork_drain_def simp del: guard_clear_Inr split: sum.splits prod.splits) auto
qed

section \<open>Properties\<close>

text \<open>
  C7 (roundtrip). When a TLS acceptor has become its new image, every session that answered the
  harvest is with the forked drain process, and the new image adopts the same listening socket at the
  next generation. Of all descriptors only the listener (and, on FreeBSD, those handed over for
  capability mode) lost its close-on-exec flag, so the sessions' sockets are the drain process's alone.
\<close>

theorem tls_upgrade_keeps_sessions:
  assumes harvest: "harvest_tls_handoffs rx reg = (Some hs, reg')"
    and run: "do_upgrade_tls_fork_drain os fork_res ctx hs t = (TlsExeced cmd, drainer, t')"
    and l: "os_into_std os = Inr l" "i32_range l" "l \<notin> snd ` set (cap_mode_specs (uc_self_exe ctx) (uc_dirs ctx))"
    and wrap: "oo_env os' = uc_env cmd" "oo_wrap os' l = Inr ()"
  shows "drainer = Some hs \<and> hs = [h. RxSent h \<leftarrow> map (rx \<circ> fst) (filter snd (cr_clients reg))] \<and>
    adopt_or_bind_tcp_listener os' any port = Inr l \<and> worker_generation (uc_env cmd) = uc_generation ctx + 1 \<and>
    \<not> t' l \<and> (\<forall>fd. fd \<noteq> l \<and> fd \<notin> snd ` set (cap_mode_specs (uc_self_exe ctx) (uc_dirs ctx)) \<longrightarrow> t' fd = t fd)"
proof -
  from run obtain "drainer = Some hs" and
    x: "exec_new_image os ctx (tls_handed_env (uc_generation ctx) l) \<lparr>guard_fd = l, armed = True\<rparr> (t(l := False)) =
       (TlsExeced cmd, t')"
    using l(1) by (elim fork_drain_execed) auto
  moreover have "env_var (uc_env cmd) ENV_LISTENER_FD = Some (dec_int l)"
    "env_var (uc_env cmd) ENV_UPGRADE_GENERATION = Some (dec (unat (uc_generation ctx + 1)))"
    using execed_env [OF x] tls_handed_env_lookup handed_names_free by blast+
  then have "adopt_or_bind_tcp_listener os' any port = Inr l" "worker_generation (uc_env cmd) = uc_generation ctx + 1"
    using l(2) wrap by (simp_all add: adopt_or_bind_tcp_listener_def worker_generation_def env_generation_def)
  moreover have "hs = [h. RxSent h \<leftarrow> map (rx \<circ> fst) (filter snd (cr_clients reg))]"
    using harvest by (simp add: harvest_tls_handoffs_def await_handoffs_Some)
  ultimately show ?thesis
    using exec_new_image_flags [OF x] l(3) by auto
qed

definition calm_tls_os :: "unit result \<Rightarrow> upgrade_os" where
  "calm_tls_os exec = \<lparr>os_freebsd = False, os_environ = [], os_into_std = Inr 5, os_fcntl = (\<lambda>_ _. None),
     os_pipe = Inr (8, 9), os_capmode = None, os_pread = (\<lambda>_ _. None), os_spawn = (\<lambda>_. exec),
     os_ready = ReadTimedOut, os_reattach = Inr ()\<rparr>"

definition calm_tls_ctx :: upgrade_ctx where
  "calm_tls_ctx = \<lparr>uc_arg = ''tls'', uc_generation = 3, uc_binary_path = None,
     uc_self_exe = \<lparr>exe_path = ''/echod'', exe_fd = 3\<rparr>,
     uc_dirs = \<lparr>dir_sockets = None, dir_cert = None, dir_key = None\<rparr>, uc_sandbox_off = True,
     uc_config_json = Inr ''{}''\<rparr>"

definition calm_handoff :: "unit tls_handoff" where
  "calm_handoff = \<lparr>th_tcp_fd = 20, th_uds_fd = 21, th_conn = (), th_peer = ''1.2.3.4:5''\<rparr>"

lemma calm_tls_execs:
  "\<exists>cmd. do_upgrade_tls_fork_drain (calm_tls_os (Inr ())) (Inr 77) calm_tls_ctx [calm_handoff] (\<lambda>_. True) =
     (TlsExeced cmd, Some [calm_handoff], (\<lambda>_. True)(5 := False))"
proof -
  have "guard_clear (\<lambda>_ _. None) 5 t = Inr (\<lparr>guard_fd = 5, armed = True\<rparr>, t(5 := False))" for t
    by (simp add: fcntl_ok_def)
  then show ?thesis
    by (simp add: do_upgrade_tls_fork_drain_def calm_tls_os_def calm_tls_ctx_def exec_new_image_def
        require_static_for_capmode_upgrade_def del: guard_clear_Inr)
qed

theorem tls_upgrade_keeps_sessions_witness:
  "\<exists>cmd t'. do_upgrade_tls_fork_drain (calm_tls_os (Inr ())) (Inr 77) calm_tls_ctx [calm_handoff] (\<lambda>_. True) =
     (TlsExeced cmd, Some [calm_handoff], t') \<and> worker_generation (uc_env cmd) = 4 \<and> \<not> t' 5 \<and> t' 20 \<and> t' 21"
proof -
  obtain cmd where run: "do_upgrade_tls_fork_drain (calm_tls_os (Inr ())) (Inr 77) calm_tls_ctx [calm_handoff] (\<lambda>_. True) =
     (TlsExeced cmd, Some [calm_handoff], (\<lambda>_. True)(5 := False))"
    using calm_tls_execs by blast
  have h: "harvest_tls_handoffs (\<lambda>_. RxSent calm_handoff) (snd (enter_client True client_registry_default)) =
      (Some [calm_handoff], (snd (enter_client True client_registry_default))\<lparr>cr_clients := []\<rparr>)"
    by (simp add: harvest_tls_handoffs_def enter_client_def client_registry_default_def)
  show ?thesis
    using tls_upgrade_keeps_sessions [OF h run, of 5 "\<lparr>oo_env = uc_env cmd, oo_bind_uds = (\<lambda>_. Inl []),
        oo_bind_tcp = (\<lambda>_. Inl []), oo_chmod = (\<lambda>_. Inl []), oo_wrap = (\<lambda>_. Inr ())\<rparr>"] run
    by (auto simp: calm_tls_os_def calm_tls_ctx_def cap_mode_specs_def i32_range_def)
qed

end
