(* ===== verification/Tls_Drainer.thy ===== *)
theory Tls_Drainer
  imports Tls_Session
begin

text \<open>
  Model of the forked drain process (\<^verbatim>\<open>src/acceptor/tls_drain.rs\<close>, below the fork) and of the
  supervisor's side of its reports (\<^verbatim>\<open>src/supervisor/drainer.rs\<close>): the threads with their count of
  remaining sessions, the deadline, the report stream, and the loop that drives one session. The
  threads are a machine whose events are the atomic steps of the threads, in any order.
\<close>

section \<open>Reports\<close>

text \<open>The report stream: whether it is connected, and what went through it.\<close>

record reporter =
  rep_connected :: bool
  rep_delivered :: "drainer_event list"

definition send_drainer_event :: "bool \<Rightarrow> drainer_event \<Rightarrow> reporter \<Rightarrow> reporter" where
  "send_drainer_event write_ok ev r =
     (if \<not> rep_connected r then r
      else if write_ok then r\<lparr>rep_delivered := rep_delivered r @ [ev]\<rparr>
      else r\<lparr>rep_connected := False\<rparr>)"

section \<open>The drain process\<close>

text \<open>A thread drains its session, has reported the outcome, has counted itself out.\<close>

datatype thread_pc = Draining | Reported | Counted

record drainer =
  dr_peers :: "string list"
  dr_threads :: "thread_pc list"
  dr_remaining :: nat
  dr_loaded :: "nat option"
  dr_expired :: bool
  dr_complete :: bool
  dr_exited :: bool
  dr_reporter :: reporter
  dr_emitted :: "drainer_event list"

definition emit :: "bool \<Rightarrow> drainer_event \<Rightarrow> drainer \<Rightarrow> drainer" where
  "emit ok ev d = d\<lparr>dr_reporter := send_drainer_event ok ev (dr_reporter d), dr_emitted := dr_emitted d @ [ev]\<rparr>"

definition drainer_start :: "bool \<Rightarrow> bool \<Rightarrow> u32 \<Rightarrow> u64 \<Rightarrow> string list \<Rightarrow> drainer" where
  "drainer_start connected ok pid generation peers =
     emit ok (Hello ''tls'' pid generation (length peers)) \<lparr>
       dr_peers = peers, dr_threads = replicate (length peers) Draining, dr_remaining = length peers,
       dr_loaded = None, dr_expired = False, dr_complete = False, dr_exited = False,
       dr_reporter = \<lparr>rep_connected = connected, rep_delivered = []\<rparr>, dr_emitted = []\<rparr>"

text \<open>
  The steps: thread \<open>i\<close> ends its session and reports, thread \<open>i\<close> decrements the count, the deadline
  thread reads the count after its five seconds, it reports, the process exits at the deadline, the
  main thread has joined all threads and reports, it exits. Each report carries whether its write succeeds.
\<close>

datatype drainer_move =
    ThreadReports nat session_outcome bool
  | ThreadCounts nat
  | DeadlineLoads
  | DeadlineReports bool
  | DeadlineKills
  | MainReports bool
  | MainExits

fun drainer_act :: "drainer \<Rightarrow> drainer_move \<Rightarrow> drainer" where
  "drainer_act d (ThreadReports i outcome ok) =
     (if i < length (dr_threads d) \<and> dr_threads d ! i = Draining
      then emit ok (SessionDone (dr_peers d ! i) outcome) (d\<lparr>dr_threads := (dr_threads d)[i := Reported]\<rparr>) else d)"
| "drainer_act d (ThreadCounts i) =
     (if i < length (dr_threads d) \<and> dr_threads d ! i = Reported
      then d\<lparr>dr_threads := (dr_threads d)[i := Counted], dr_remaining := dr_remaining d - 1\<rparr> else d)"
| "drainer_act d DeadlineLoads = (if dr_loaded d = None then d\<lparr>dr_loaded := Some (dr_remaining d)\<rparr> else d)"
| "drainer_act d (DeadlineReports ok) =
     (case dr_loaded d of
        Some r \<Rightarrow> if dr_expired d then d else emit ok (DeadlineExit r) (d\<lparr>dr_expired := True\<rparr>)
      | None \<Rightarrow> d)"
| "drainer_act d DeadlineKills = (if dr_expired d then d\<lparr>dr_exited := True\<rparr> else d)"
| "drainer_act d (MainReports ok) =
     (if list_all ((=) Counted) (dr_threads d) \<and> \<not> dr_complete d
      then emit ok Complete (d\<lparr>dr_complete := True\<rparr>) else d)"
| "drainer_act d MainExits = (if dr_complete d then d\<lparr>dr_exited := True\<rparr> else d)"

definition drainer_step :: "drainer \<Rightarrow> drainer_move \<Rightarrow> drainer" where
  "drainer_step d e = (if dr_exited d then d else drainer_act d e)"

section \<open>One session\<close>

text \<open>A non-blocking call.\<close>

datatype 'a io = Got 'a | Blocked | IoFailed error

datatype poll_result =
    PollInterrupted
  | PollFailed error
  | PollIdle instant
  | PollReady bool bool

text \<open>
  What one turn of the loop meets. \<open>tr_flush_first\<close> is the write of pending TLS records, when there
  are some; then the poll; the bytes of the client: the TLS read (zero at its end), the
  check of the packets, the plaintext read from the connection chunk by chunk, each with the writes to the
  processor's socket; the bytes of the processor (empty at its end), whether the connection took
  them and the flushes after that. \<open>tr_now\<close> is the clock of the turn.
\<close>

record drain_turn =
  tr_now :: instant
  tr_flush_first :: "unit io option"
  tr_poll :: poll_result
  tr_read_tls :: "nat io"
  tr_packets :: "unit result"
  tr_plain :: "(bytes io \<times> nat io list) list"
  tr_uds :: "bytes io"
  tr_writer :: "unit result"
  tr_flushes :: "unit io list"

text \<open>The session: the time of the last progress, and the bytes taken and given on each side.\<close>

record drained =
  dn_last_progress :: instant
  dn_plain_taken :: bytes
  dn_to_processor :: bytes
  dn_from_processor :: bytes

text \<open>After a turn the loop goes on, has returned, or is still inside the turn, writing a chunk out.\<close>

datatype drain_result = Going drained | Finished "unit result" drained | StillIn drained

definition IDLE_TIMEOUT :: duration where
  "IDLE_TIMEOUT = from_millis 1500"

text \<open>
  Writing one chunk to the processor's socket: what went out, and whether all of it did. A blocked
  write is tried again, a write of nothing ends the session.
\<close>

datatype chunk_end = AllOut | Stopped "unit result" | StillWriting

fun write_chunk :: "bytes \<Rightarrow> nat io list \<Rightarrow> bytes \<times> chunk_end" where
  "write_chunk [] ws = ([], AllOut)"
| "write_chunk (b # bs) [] = ([], StillWriting)"
| "write_chunk (b # bs) (Blocked # ws) = write_chunk (b # bs) ws"
| "write_chunk (b # bs) (IoFailed e # ws) = ([], Stopped (Inl e))"
| "write_chunk (b # bs) (Got n # ws) =
     (if n = 0 then ([], Stopped (Inr ()))
      else case write_chunk (drop n (b # bs)) ws of (out, r) \<Rightarrow> (take n (b # bs) @ out, r))"

fun forward_plain :: "instant \<Rightarrow> (bytes io \<times> nat io list) list \<Rightarrow> drained \<Rightarrow> drain_result" where
  "forward_plain now [] s = Going s"
| "forward_plain now ((Blocked, _) # _) s = Going s"
| "forward_plain now ((IoFailed e, _) # _) s = Finished (Inl e) s"
| "forward_plain now ((Got bs, ws) # rest) s =
     (if bs = [] then Going s
      else case write_chunk bs ws of
             (out, r) \<Rightarrow>
               let s' = s\<lparr>dn_plain_taken := dn_plain_taken s @ bs, dn_to_processor := dn_to_processor s @ out\<rparr>
               in case r of
                    Stopped e \<Rightarrow> Finished e s'
                  | StillWriting \<Rightarrow> StillIn s'
                  | AllOut \<Rightarrow> forward_plain now rest (s'\<lparr>dn_last_progress := now\<rparr>))"

definition from_client :: "drain_turn \<Rightarrow> drained \<Rightarrow> drain_result" where
  "from_client tr s =
     (case tr_read_tls tr of
        Got n \<Rightarrow>
         (if n = 0 then Finished (Inr ()) s
          else case tr_packets tr of
                 Inl e \<Rightarrow> Finished (Inl e) s
               | Inr _ \<Rightarrow> forward_plain (tr_now tr) (tr_plain tr) s)
      | Blocked \<Rightarrow> Going s
      | IoFailed e \<Rightarrow> Finished (Inl e) s)"

fun flush_tls :: "unit io list \<Rightarrow> unit result" where
  "flush_tls [] = Inr ()"
| "flush_tls (Got _ # rest) = flush_tls rest"
| "flush_tls (Blocked # _) = Inr ()"
| "flush_tls (IoFailed e # _) = Inl e"

definition from_processor :: "drain_turn \<Rightarrow> drained \<Rightarrow> drain_result" where
  "from_processor tr s =
     (case tr_uds tr of
        Got bs \<Rightarrow>
         (if bs = [] then Finished (Inr ()) s
          else case tr_writer tr of
                 Inl e \<Rightarrow> Finished (Inl e) s
               | Inr _ \<Rightarrow>
                   let s' = s\<lparr>dn_from_processor := dn_from_processor s @ bs, dn_last_progress := tr_now tr\<rparr>
                   in case flush_tls (tr_flushes tr) of Inl e \<Rightarrow> Finished (Inl e) s' | Inr _ \<Rightarrow> Going s')
      | Blocked \<Rightarrow> Going s
      | IoFailed e \<Rightarrow> Finished (Inl e) s)"

definition and_go :: "drain_result \<Rightarrow> (drained \<Rightarrow> drain_result) \<Rightarrow> drain_result" where
  "and_go r f = (case r of Going s \<Rightarrow> f s | _ \<Rightarrow> r)"

definition flush_first :: "drain_turn \<Rightarrow> drained \<Rightarrow> drain_result" where
  "flush_first tr s =
     (case tr_flush_first tr of
        None \<Rightarrow> Going s
      | Some (Got _) \<Rightarrow> Going (s\<lparr>dn_last_progress := tr_now tr\<rparr>)
      | Some Blocked \<Rightarrow> Going s
      | Some (IoFailed e) \<Rightarrow> Finished (Inl e) s)"

definition drain_turn_step :: "drain_turn \<Rightarrow> drained \<Rightarrow> drain_result" where
  "drain_turn_step tr s0 =
     and_go (flush_first tr s0) (\<lambda>s.
       case tr_poll tr of
         PollInterrupted \<Rightarrow> Going s
       | PollFailed e \<Rightarrow> Finished (Inl e) s
       | PollIdle now \<Rightarrow> if IDLE_TIMEOUT < now - dn_last_progress s then Finished (Inr ()) s else Going s
       | PollReady tcp uds \<Rightarrow>
           and_go (if tcp then from_client tr s else Going s) (\<lambda>s.
             if uds then from_processor tr s else Going s))"

fun drain_turns :: "drain_turn list \<Rightarrow> drained \<Rightarrow> drain_result" where
  "drain_turns [] s = Going s"
| "drain_turns (tr # trs) s = and_go (drain_turn_step tr s) (drain_turns trs)"

text \<open>The whole session; the two calls that make its sockets non-blocking come first.\<close>

definition drain_one_tls_session :: "unit result \<Rightarrow> unit result \<Rightarrow> instant \<Rightarrow> drain_turn list \<Rightarrow> drain_result" where
  "drain_one_tls_session tcp_nb uds_nb now trs =
     (let s = \<lparr>dn_last_progress = now, dn_plain_taken = [], dn_to_processor = [], dn_from_processor = []\<rparr>
      in case tcp_nb of
           Inl e \<Rightarrow> Finished (Inl e) s
         | Inr _ \<Rightarrow> (case uds_nb of Inl e \<Rightarrow> Finished (Inl e) s | Inr _ \<Rightarrow> drain_turns trs s))"

definition session_outcome_of :: "unit result \<Rightarrow> session_outcome" where
  "session_outcome_of r = (case r of Inr _ \<Rightarrow> CleanEof | Inl e \<Rightarrow> OutcomeError (concat e))"

section \<open>The supervisor's side\<close>

text \<open>The log of one connection: the events read until it ends or a frame cannot be decoded.\<close>

fun handle_drainer_connection :: "(string \<Rightarrow> drainer_event result) \<Rightarrow> string result list \<Rightarrow> drainer_event list" where
  "handle_drainer_connection from_json [] = []"
| "handle_drainer_connection from_json (Inl _ # _) = []"
| "handle_drainer_connection from_json (Inr line # rest) =
     (case from_json line of
        Inr ev \<Rightarrow> ev # handle_drainer_connection from_json rest
      | Inl _ \<Rightarrow> handle_drainer_connection from_json rest)"

definition accept_drainer ::
  "(string \<Rightarrow> drainer_event result) \<Rightarrow> peer_allowlist \<Rightarrow> (u32 result \<times> string result list) result \<Rightarrow>
     drainer_event list" where
  "accept_drainer from_json allow conn =
     (case conn of
        Inl _ \<Rightarrow> []
      | Inr (peer_uid, frames) \<Rightarrow>
         (case check_peer peer_uid allow of Inl _ \<Rightarrow> [] | Inr _ \<Rightarrow> handle_drainer_connection from_json frames))"

text \<open>The signal a pid is sent: none when it is outside the range of the platform's pids.\<close>

definition send_sigterm :: "u32 \<Rightarrow> int option" where
  "send_sigterm pid = (if unat pid < 2 ^ 31 then Some (int (unat pid)) else None)"

section \<open>Lemmas: the reports\<close>

definition is_done :: "drainer_event \<Rightarrow> bool" where
  "is_done ev = (case ev of SessionDone _ _ \<Rightarrow> True | _ \<Rightarrow> False)"

definition count_pc :: "thread_pc set \<Rightarrow> drainer \<Rightarrow> nat" where
  "count_pc pcs d = length (filter (\<lambda>pc. pc \<in> pcs) (dr_threads d))"

lemma count_update:
  assumes "i < length xs" and "P (xs ! i)" and "\<not> P v"
  shows "Suc (length (filter P (xs[i := v]))) = length (filter P xs)"
  using assms
proof (induction xs arbitrary: i)
  case (Cons x xs)
  then show ?case
    by (cases i) auto
qed simp

lemma count_update_same:
  assumes "i < length xs" and "P (xs ! i) = P v"
  shows "length (filter P (xs[i := v])) = length (filter P xs)"
  using assms
proof (induction xs arbitrary: i)
  case (Cons x xs)
  then show ?case
    by (cases i) auto
qed simp

definition reports_ok :: "reporter \<Rightarrow> drainer_event list \<Rightarrow> bool" where
  "reports_ok r evs \<longleftrightarrow> prefix (rep_delivered r) evs \<and> (rep_connected r \<longrightarrow> rep_delivered r = evs)"

lemma reports_ok_send: "reports_ok r evs \<Longrightarrow> reports_ok (send_drainer_event ok ev r) (evs @ [ev])"
  by (auto simp: reports_ok_def send_drainer_event_def)

definition drainer_inv :: "drainer_event \<Rightarrow> drainer \<Rightarrow> bool" where
  "drainer_inv hello d \<longleftrightarrow>
     \<not> is_done hello \<and> (\<exists>evs. dr_emitted d = hello # evs) \<and> reports_ok (dr_reporter d) (dr_emitted d) \<and>
     length (dr_threads d) = length (dr_peers d) \<and>
     dr_remaining d = count_pc {Draining, Reported} d \<and>
     length (filter is_done (dr_emitted d)) = count_pc {Reported, Counted} d \<and>
     (\<forall>r. dr_loaded d = Some r \<longrightarrow> dr_remaining d \<le> r \<and> r \<le> length (dr_peers d)) \<and>
     (dr_complete d \<longrightarrow> list_all ((=) Counted) (dr_threads d))"

lemma emit_simps [simp]:
  "dr_peers (emit ok ev d) = dr_peers d" "dr_threads (emit ok ev d) = dr_threads d"
  "dr_remaining (emit ok ev d) = dr_remaining d" "dr_loaded (emit ok ev d) = dr_loaded d"
  "dr_expired (emit ok ev d) = dr_expired d" "dr_complete (emit ok ev d) = dr_complete d"
  "dr_exited (emit ok ev d) = dr_exited d" "dr_emitted (emit ok ev d) = dr_emitted d @ [ev]"
  "dr_reporter (emit ok ev d) = send_drainer_event ok ev (dr_reporter d)"
  "count_pc pcs (emit ok ev d) = count_pc pcs d"
  by (simp_all add: emit_def count_pc_def)

lemma count_pc_le: "count_pc pcs d \<le> length (dr_threads d)"
  by (simp add: count_pc_def)

lemma drainer_step_inv:
  assumes "drainer_inv hello d"
  shows "drainer_inv hello (drainer_step d e)"
proof (cases "dr_exited d")
  case False
  show ?thesis
  proof (cases e)
    case (ThreadReports i outcome ok)
    show ?thesis
    proof (cases "i < length (dr_threads d) \<and> dr_threads d ! i = Draining")
      case True
      let ?ts = "(dr_threads d)[i := Reported]"
      have same: "(dr_threads d)[i := Draining] = dr_threads d"
        using True list_update_id [of "dr_threads d" i] by simp
      have c: "length (filter (\<lambda>pc. pc \<in> {Draining, Reported}) ?ts) = count_pc {Draining, Reported} d"
        "length (filter (\<lambda>pc. pc \<in> {Reported, Counted}) ?ts) = Suc (count_pc {Reported, Counted} d)"
        using True count_update_same [of i "dr_threads d" "\<lambda>pc. pc \<in> {Draining, Reported}" Reported]
          count_update [of i ?ts "\<lambda>pc. pc \<in> {Reported, Counted}" Draining]
        by (simp_all add: count_pc_def same)
      have "\<not> list_all ((=) Counted) (dr_threads d)"
        using True by (auto simp: list_all_length)
      then show ?thesis
        using assms True ThreadReports False c
        by (auto simp: drainer_inv_def drainer_step_def reports_ok_send is_done_def count_pc_def)
    qed (use assms ThreadReports False in \<open>auto simp: drainer_step_def\<close>)
  next
    case (ThreadCounts i)
    show ?thesis
    proof (cases "i < length (dr_threads d) \<and> dr_threads d ! i = Reported")
      case True
      let ?ts = "(dr_threads d)[i := Counted]"
      have c: "Suc (length (filter (\<lambda>pc. pc \<in> {Draining, Reported}) ?ts)) = count_pc {Draining, Reported} d"
        "length (filter (\<lambda>pc. pc \<in> {Reported, Counted}) ?ts) = count_pc {Reported, Counted} d"
        using True count_update_same [of i "dr_threads d" "\<lambda>pc. pc \<in> {Reported, Counted}" Counted]
          count_update [of i "dr_threads d" "\<lambda>pc. pc \<in> {Draining, Reported}" Counted]
        by (simp_all add: count_pc_def)
      have "\<not> list_all ((=) Counted) (dr_threads d)"
        using True by (auto simp: list_all_length)
      then show ?thesis
        using assms True ThreadCounts False c
        by (auto simp: drainer_inv_def drainer_step_def count_pc_def)
    qed (use assms ThreadCounts False in \<open>auto simp: drainer_step_def\<close>)
  qed (use assms False count_pc_le [of "{Draining, Reported}" d] in
      \<open>auto simp: drainer_inv_def drainer_step_def reports_ok_send is_done_def count_pc_def split: option.splits\<close>)
qed (use assms in \<open>simp add: drainer_step_def\<close>)

interpretation drainer_system: step_system drainer_step "drainer_inv hello"
  by unfold_locales (rule drainer_step_inv)

lemma drainer_start_inv:
  "drainer_inv (Hello ''tls'' pid g (length peers)) (drainer_start connected ok pid g peers)"
  by (auto simp: drainer_inv_def drainer_start_def is_done_def reports_ok_def send_drainer_event_def count_pc_def)

section \<open>Lemmas: one session\<close>

fun drained_of :: "drain_result \<Rightarrow> drained" where
  "drained_of (Going s) = s"
| "drained_of (Finished r s) = s"
| "drained_of (StillIn s) = s"

text \<open>What reached the processor is a prefix of what was taken, and all of it while the loop goes on.\<close>

definition forwarded :: "drain_result \<Rightarrow> bool" where
  "forwarded r \<longleftrightarrow> prefix (dn_to_processor (drained_of r)) (dn_plain_taken (drained_of r)) \<and>
     (\<forall>s. r = Going s \<longrightarrow> dn_to_processor s = dn_plain_taken s)"

lemma write_chunk_out:
  "write_chunk bs ws = (out, r) \<Longrightarrow> prefix out bs \<and> (r = AllOut \<longrightarrow> out = bs)"
proof (induction bs ws arbitrary: out r rule: write_chunk.induct)
  case (5 b bs n ws)
  show ?case
  proof (cases "n = 0")
    case False
    then obtain out' where o: "write_chunk (drop n (b # bs)) ws = (out', r)" "out = take n (b # bs) @ out'"
      using 5 by (auto split: prod.splits)
    from "5.IH" [OF False o(1)] have "prefix out' (drop n (b # bs))" "r = AllOut \<longrightarrow> out' = drop n (b # bs)"
      by blast+
    then show ?thesis
      using o(2) by (metis append_take_drop_id same_prefix_prefix)
  qed (use 5 in auto)
qed auto

lemma forward_plain_forwarded: "forwarded (Going s) \<Longrightarrow> forwarded (forward_plain now chunks s)"
proof (induction now chunks s rule: forward_plain.induct)
  case (4 now bs ws rest s)
  obtain out r where w: "write_chunk bs ws = (out, r)"
    by fastforce
  note out = write_chunk_out [OF w]
  let ?s = "s\<lparr>dn_plain_taken := dn_plain_taken s @ bs, dn_to_processor := dn_to_processor s @ out\<rparr>"
  show ?case
  proof (cases "bs = []")
    case False
    show ?thesis
    proof (cases r)
      case AllOut
      then have "forwarded (Going (?s\<lparr>dn_last_progress := now\<rparr>))"
        using 4 out by (simp add: forwarded_def)
      then show ?thesis
        using 4(1) [OF False w [symmetric] refl AllOut] False w AllOut by (simp add: Let_def)
    qed (use 4 out w False in \<open>auto simp: forwarded_def Let_def\<close>)
  qed (use 4 in simp)
qed (auto simp: forwarded_def)

lemma and_go_forwarded:
  "forwarded r \<Longrightarrow> (\<And>s. forwarded (Going s) \<Longrightarrow> forwarded (f s)) \<Longrightarrow> forwarded (and_go r f)"
  by (auto simp: and_go_def split: drain_result.splits)

lemma finished_forwarded: "forwarded (Going s) \<Longrightarrow> forwarded (Finished r s)"
  by (simp add: forwarded_def)

lemma from_client_forwarded: "forwarded (Going s) \<Longrightarrow> forwarded (from_client tr s)"
  by (simp add: from_client_def finished_forwarded forward_plain_forwarded split: io.split sum.split)

lemma from_processor_forwarded: "forwarded (Going s) \<Longrightarrow> forwarded (from_processor tr s)"
  by (auto simp: from_processor_def forwarded_def Let_def split: io.splits sum.splits)

lemma flush_first_forwarded: "forwarded (Going s) \<Longrightarrow> forwarded (flush_first tr s)"
  by (auto simp: flush_first_def forwarded_def split: option.splits io.splits)

lemma drain_turn_forwarded: "forwarded (Going s) \<Longrightarrow> forwarded (drain_turn_step tr s)"
  unfolding drain_turn_step_def
  by (rule and_go_forwarded [OF flush_first_forwarded])
    (simp_all add: finished_forwarded and_go_forwarded from_client_forwarded from_processor_forwarded
      split: poll_result.split)

lemma drain_turns_forwarded: "forwarded (Going s) \<Longrightarrow> forwarded (drain_turns trs s)"
proof (induction trs arbitrary: s)
  case (Cons tr trs)
  show ?case
    unfolding drain_turns.simps
    by (rule and_go_forwarded [OF drain_turn_forwarded [OF Cons.prems] Cons.IH])
qed simp

lemma drain_one_forwarded: "forwarded (drain_one_tls_session tcp_nb uds_nb now trs)"
  using drain_turns_forwarded [of "\<lparr>dn_last_progress = now, dn_plain_taken = [], dn_to_processor = [],
      dn_from_processor = []\<rparr>" trs]
  by (auto simp: drain_one_tls_session_def Let_def forwarded_def split: sum.splits)

text \<open>A turn in which the client's socket is not readable takes no plaintext.\<close>

definition client_silent :: "drain_turn \<Rightarrow> bool" where
  "client_silent tr = (case tr_poll tr of PollReady tcp _ \<Rightarrow> \<not> tcp | _ \<Rightarrow> True)"

lemma silent_turn_takes_nothing:
  "client_silent tr \<Longrightarrow> dn_plain_taken (drained_of (drain_turn_step tr s)) = dn_plain_taken s"
  by (auto simp: drain_turn_step_def and_go_def flush_first_def from_processor_def client_silent_def Let_def
      split: option.splits io.splits poll_result.splits sum.splits drain_result.splits)

lemma silent_turns_take_nothing:
  "list_all client_silent trs \<Longrightarrow> dn_plain_taken (drained_of (drain_turns trs s)) = dn_plain_taken s"
proof (induction trs arbitrary: s)
  case (Cons tr trs)
  then show ?case
    using silent_turn_takes_nothing [of tr s] Cons.IH by (auto simp: and_go_def split: drain_result.splits)
qed simp

section \<open>Properties\<close>

text \<open>
  C30 (invariant). Whatever the order of the drain process's threads, the supervisor receives its
  reports in order and without gaps up to the first failed write; there is one report per session that ended,
  the completion is reported only when every session was, and the count of a forced exit is never below
  the number of sessions not yet counted out.
\<close>

theorem drainer_reports_account:
  "case foldl drainer_step (drainer_start connected ok pid g peers) steps of d \<Rightarrow>
     prefix (rep_delivered (dr_reporter d)) (dr_emitted d) \<and>
     hd (dr_emitted d) = Hello ''tls'' pid g (length peers) \<and>
     length (filter is_done (dr_emitted d)) = count_pc {Reported, Counted} d \<and>
     dr_remaining d = count_pc {Draining, Reported} d \<and>
     (dr_complete d \<longrightarrow> length (filter is_done (dr_emitted d)) = length (dr_threads d)) \<and>
     (\<forall>r. dr_loaded d = Some r \<longrightarrow> count_pc {Draining, Reported} d \<le> r)"
proof -
  let ?d = "foldl drainer_step (drainer_start connected ok pid g peers) steps"
  have inv: "drainer_inv (Hello ''tls'' pid g (length peers)) ?d"
    by (rule drainer_system.run_invariant [OF drainer_start_inv])
  moreover have "count_pc {Reported, Counted} ?d = length (dr_threads ?d)" if "list_all ((=) Counted) (dr_threads ?d)"
    using that by (simp add: count_pc_def list_all_iff) (metis (mono_tags, lifting) filter_True)
  ultimately show ?thesis
    by (auto simp: drainer_inv_def reports_ok_def)
qed

theorem drainer_reports_account_witness:
  "rep_delivered (dr_reporter (foldl drainer_step (drainer_start True True 9 1 [''a'', ''b''])
     [ThreadReports 1 CleanEof True, DeadlineLoads, ThreadCounts 1, DeadlineReports True])) =
     [Hello ''tls'' 9 1 2, SessionDone ''b'' CleanEof, DeadlineExit 2] \<and>
   dr_remaining (foldl drainer_step (drainer_start True True 9 1 [''a'', ''b''])
     [ThreadReports 1 CleanEof True, DeadlineLoads, ThreadCounts 1, DeadlineReports True]) \<le> 2"
  using drainer_reports_account [of True True 9 1 "[''a'', ''b'']"
      "[ThreadReports 1 CleanEof True, DeadlineLoads, ThreadCounts 1, DeadlineReports True]"]
  by (simp add: drainer_step_def drainer_start_def emit_def send_drainer_event_def count_pc_def)

text \<open>
  A drained session loses none of the client's plaintext it takes from the TLS
  connection while it goes on: the processor has received all of it, and a prefix of it when the
  session has ended in the middle of a write.
\<close>

theorem drain_forwards_taken:
  "case drain_one_tls_session tcp_nb uds_nb now trs of r \<Rightarrow>
     prefix (dn_to_processor (drained_of r)) (dn_plain_taken (drained_of r)) \<and>
     (\<forall>s. r = Going s \<longrightarrow> dn_to_processor s = dn_plain_taken s)"
  using drain_one_forwarded [of tcp_nb uds_nb now trs] by (simp add: forwarded_def)

text \<open>
  Plaintext that the TLS library had already decrypted when a session was handed
  over stays there until the client sends more: as long as the client's socket is not readable,
  nothing reaches the processor, whatever the connection holds; a session that is idle for one and a half
  seconds is then closed as drained.
\<close>

theorem held_plaintext_waits_for_client:
  assumes "list_all client_silent trs"
  shows "dn_to_processor (drained_of (drain_one_tls_session tcp_nb uds_nb now trs)) = []"
proof -
  have "dn_plain_taken (drained_of (drain_one_tls_session tcp_nb uds_nb now trs)) = []"
    using silent_turns_take_nothing [OF assms]
    by (simp add: drain_one_tls_session_def Let_def split: sum.splits)
  then show ?thesis
    using drain_one_forwarded [of tcp_nb uds_nb now trs] by (simp add: forwarded_def)
qed

theorem held_plaintext_waits_for_client_witness:
  "let tr = \<lparr>tr_now = 0, tr_flush_first = None, tr_poll = PollIdle (from_millis 1600), tr_read_tls = Blocked,
       tr_packets = Inr (), tr_plain = [(Got [104], [Got 1])], tr_uds = Blocked, tr_writer = Inr (), tr_flushes = []\<rparr>;
     r = drain_one_tls_session (Inr ()) (Inr ()) 0 [tr]
   in (\<exists>s. r = Finished (Inr ()) s) \<and> dn_to_processor (drained_of r) = []"
proof -
  let ?tr = "\<lparr>tr_now = 0, tr_flush_first = None, tr_poll = PollIdle (from_millis 1600), tr_read_tls = Blocked,
       tr_packets = Inr (), tr_plain = [(Got [104], [Got 1])], tr_uds = Blocked, tr_writer = Inr (), tr_flushes = []\<rparr>"
  have "\<exists>s. drain_one_tls_session (Inr ()) (Inr ()) 0 [?tr] = Finished (Inr ()) s"
    by (simp add: drain_one_tls_session_def drain_turn_step_def and_go_def flush_first_def IDLE_TIMEOUT_def from_millis_def)
  moreover have "list_all client_silent [?tr]"
    by (simp add: client_silent_def)
  ultimately show ?thesis
    using held_plaintext_waits_for_client [of "[?tr]" "Inr ()" "Inr ()" 0] by (simp only: Let_def)
qed

end
