(* ===== verification/Resource_Limits.thy ===== *)
theory Resource_Limits
  imports Complex_Main Config
begin

text \<open>
  Model of \<^verbatim>\<open>src/limits.rs\<close>: the session cap as a shared counter that threads raise by
  compare-and-swap, and the per-IP token buckets. Token counts are rationals; every floating
  operation goes through a rounding function, a parameter, so that the invariants hold of the
  rounded arithmetic too. The bucket table is an association list: the order a hash map would
  iterate in is the order of the list, and the lemmas hold for every order.
\<close>

section \<open>Session cap\<close>

record session_cap =
  in_flight :: u64
  cap :: u64

definition session_cap_new :: "u64 \<Rightarrow> session_cap" where
  "session_cap_new c = \<lparr>in_flight = 0, cap = c\<rparr>"

text \<open>
  \<^verbatim>\<open>try_acquire\<close> with no other thread between the load and the compare-and-swap; the
  result says whether a guard was handed out.
\<close>

definition try_acquire :: "session_cap \<Rightarrow> bool \<times> session_cap" where
  "try_acquire c =
     (if cap c = 0 then (True, c\<lparr>in_flight := in_flight c + 1\<rparr>)
      else if cap c \<le> in_flight c then (False, c)
      else (True, c\<lparr>in_flight := in_flight c + 1\<rparr>))"

definition session_guard_drop :: "session_cap \<Rightarrow> session_cap" where
  "session_guard_drop c = c\<lparr>in_flight := in_flight c - 1\<rparr>"

definition current_sessions :: "session_cap \<Rightarrow> u64" where
  "current_sessions c = in_flight c"

text \<open>
  The loop under interleaving. A thread is outside, has loaded a value below the cap, holds a
  guard, or was refused. One event is one atomic operation of one thread: the load (or the
  \<^verbatim>\<open>fetch_add\<close> when the cap is off), the compare-and-swap, the drop of a guard.
\<close>

datatype cap_pc = Outside | Loaded u64 | Holding | Refused

datatype cap_event = LoadBy nat | CasBy nat | DropBy nat

record cap_system =
  shared :: session_cap
  pcs :: "cap_pc list"

definition set_pc :: "nat \<Rightarrow> cap_pc \<Rightarrow> cap_system \<Rightarrow> cap_system" where
  "set_pc i p s = s\<lparr>pcs := (pcs s)[i := p]\<rparr>"

definition set_in_flight :: "u64 \<Rightarrow> cap_system \<Rightarrow> cap_system" where
  "set_in_flight n s = s\<lparr>shared := (shared s)\<lparr>in_flight := n\<rparr>\<rparr>"

fun cap_step :: "cap_system \<Rightarrow> cap_event \<Rightarrow> cap_system" where
  "cap_step s (LoadBy i) =
     (if i < length (pcs s) \<and> pcs s ! i \<noteq> Holding
      then let cur = in_flight (shared s) in
           if cap (shared s) = 0 then set_in_flight (cur + 1) (set_pc i Holding s)
           else if cap (shared s) \<le> cur then set_pc i Refused s
           else set_pc i (Loaded cur) s
      else s)"
| "cap_step s (CasBy i) =
     (if i < length (pcs s)
      then case pcs s ! i of
             Loaded cur \<Rightarrow>
               if in_flight (shared s) = cur
               then set_in_flight (cur + 1) (set_pc i Holding s)
               else set_pc i Outside s
           | _ \<Rightarrow> s
      else s)"
| "cap_step s (DropBy i) =
     (if i < length (pcs s) \<and> pcs s ! i = Holding
      then set_in_flight (in_flight (shared s) - 1) (set_pc i Outside s)
      else s)"

definition cap_system_new :: "u64 \<Rightarrow> nat \<Rightarrow> cap_system" where
  "cap_system_new c n = \<lparr>shared = session_cap_new c, pcs = replicate n Outside\<rparr>"

section \<open>Token buckets\<close>

datatype ip_addr = V4 "32 word" | V6 "128 word"

record bucket =
  tokens :: rat
  last_refill :: instant
  last_touch :: instant

record limiter_inner =
  buckets :: "(ip_addr \<times> bucket) list"
  idle_evictions :: u64
  lru_evictions :: u64
  cap_refused :: u64

record rate_limiter =
  inner :: limiter_inner
  rl_capacity :: rat
  rl_refill_per_sec :: rat
  rl_idle_ttl :: duration
  rl_max_tracked :: nat

type_synonym rounding = "rat \<Rightarrow> rat"

definition with_limits :: "u32 \<Rightarrow> u32 \<Rightarrow> nat \<Rightarrow> u64 \<Rightarrow> rate_limiter" where
  "with_limits refill burst max_tracked idle_ttl_secs = \<lparr>
     inner = \<lparr>buckets = [], idle_evictions = 0, lru_evictions = 0, cap_refused = 0\<rparr>,
     rl_capacity = of_nat (unat (max burst 1)),
     rl_refill_per_sec = of_nat (unat refill),
     rl_idle_ttl = from_secs (unat idle_ttl_secs),
     rl_max_tracked = max_tracked\<rparr>"

definition limiter_enabled :: "rate_limiter \<Rightarrow> bool" where
  "limiter_enabled r \<longleftrightarrow> rl_refill_per_sec r > 0"

text \<open>\<^verbatim>\<open>Duration::as_secs_f64\<close>: whole seconds plus the rounded fraction.\<close>

definition as_secs_f64 :: "rounding \<Rightarrow> duration \<Rightarrow> rat" where
  "as_secs_f64 rnd d =
     rnd (rnd (of_nat (d div 1000000000)) + rnd (of_nat (d mod 1000000000) / 1000000000))"

definition evict_idle_buckets :: "instant \<Rightarrow> duration \<Rightarrow> limiter_inner \<Rightarrow> limiter_inner" where
  "evict_idle_buckets now idle_ttl l =
     (let kept = filter (\<lambda>(_, b). now - last_touch b < idle_ttl) (buckets l)
      in l\<lparr>buckets := kept,
           idle_evictions := idle_evictions l + of_nat (length (buckets l) - length kept)\<rparr>)"

text \<open>One round of the scan for the eviction candidate.\<close>

definition better_candidate :: "rat \<times> instant \<Rightarrow> rat \<times> instant \<Rightarrow> bool" where
  "better_candidate new best \<longleftrightarrow>
     fst new > fst best \<or> (fst new = fst best \<and> snd new < snd best)"

fun scan_bucket ::
  "(ip_addr \<times> rat \<times> instant) option \<times> bool \<Rightarrow> ip_addr \<times> bucket \<Rightarrow>
     (ip_addr \<times> rat \<times> instant) option \<times> bool" where
  "scan_bucket (best, all_throttled) (ip, b) =
     (case best of
        Some (_, best_tokens, best_touch) \<Rightarrow>
          if better_candidate (tokens b, last_touch b) (best_tokens, best_touch)
          then Some (ip, tokens b, last_touch b) else best
      | None \<Rightarrow> Some (ip, tokens b, last_touch b),
      all_throttled \<and> \<not> tokens b \<ge> 1)"

definition evict_at_cap :: "limiter_inner \<Rightarrow> bool \<times> limiter_inner" where
  "evict_at_cap l =
     (case foldl scan_bucket (None, True) (buckets l) of
        (best, all_throttled) \<Rightarrow>
          if all_throttled then (False, l)
          else case best of
            Some (ip, _, _) \<Rightarrow>
              (True, l\<lparr>buckets := AList.delete ip (buckets l),
                       lru_evictions := lru_evictions l + 1\<rparr>)
          | None \<Rightarrow> (False, l))"

text \<open>The refill and the take on the bucket of one address, inserted full when missing.\<close>

definition refilled :: "rounding \<Rightarrow> instant \<Rightarrow> rat \<Rightarrow> rat \<Rightarrow> bucket \<Rightarrow> bucket" where
  "refilled rnd now capacity refill b = \<lparr>
     tokens = min (rnd (tokens b + rnd (as_secs_f64 rnd (now - last_refill b) * refill))) capacity,
     last_refill = now,
     last_touch = now\<rparr>"

definition take_token ::
  "rounding \<Rightarrow> instant \<Rightarrow> ip_addr \<Rightarrow> rat \<Rightarrow> rat \<Rightarrow> limiter_inner \<Rightarrow> bool \<times> limiter_inner" where
  "take_token rnd now ip capacity refill l =
     (let b = (case map_of (buckets l) ip of
                 Some b \<Rightarrow> b
               | None \<Rightarrow> \<lparr>tokens = capacity, last_refill = now, last_touch = now\<rparr>);
          b' = refilled rnd now capacity refill b
      in if tokens b' \<ge> 1
         then (True, l\<lparr>buckets := AList.update ip (b'\<lparr>tokens := rnd (tokens b' - 1)\<rparr>) (buckets l)\<rparr>)
         else (False, l\<lparr>buckets := AList.update ip b' (buckets l)\<rparr>))"

definition try_take_at ::
  "rounding \<Rightarrow> instant \<Rightarrow> ip_addr \<Rightarrow> rat \<Rightarrow> rat \<Rightarrow> duration \<Rightarrow> nat \<Rightarrow> limiter_inner \<Rightarrow>
     bool \<times> limiter_inner" where
  "try_take_at rnd now ip capacity refill idle_ttl max_tracked l0 =
     (let l = evict_idle_buckets now idle_ttl l0 in
      if max_tracked > 0 \<and> length (buckets l) \<ge> max_tracked \<and> map_of (buckets l) ip = None
      then case evict_at_cap l of
             (False, l') \<Rightarrow> (False, l'\<lparr>cap_refused := cap_refused l' + 1\<rparr>)
           | (True, l') \<Rightarrow> take_token rnd now ip capacity refill l'
      else take_token rnd now ip capacity refill l)"

definition try_take :: "rounding \<Rightarrow> instant \<Rightarrow> ip_addr \<Rightarrow> rate_limiter \<Rightarrow> bool \<times> rate_limiter" where
  "try_take rnd now ip r =
     (if \<not> limiter_enabled r then (True, r)
      else case try_take_at rnd now ip (rl_capacity r) (rl_refill_per_sec r) (rl_idle_ttl r)
                  (rl_max_tracked r) (inner r) of
             (ok, l) \<Rightarrow> (ok, r\<lparr>inner := l\<rparr>))"

definition limiter_stats :: "rate_limiter \<Rightarrow> nat \<times> u64 \<times> u64 \<times> u64" where
  "limiter_stats r =
     (length (buckets (inner r)), idle_evictions (inner r), lru_evictions (inner r),
      cap_refused (inner r))"

record acceptor_limits =
  al_sessions :: session_cap
  al_rate :: rate_limiter

definition acceptor_limits_from_config :: "limits_config \<Rightarrow> acceptor_limits" where
  "acceptor_limits_from_config cfg = \<lparr>
     al_sessions = session_cap_new (max_in_flight_per_role cfg),
     al_rate = with_limits (accept_rate_per_ip cfg) (accept_rate_burst cfg)
       (rate_limit_max_tracked_ips cfg) (rate_limit_bucket_idle_ttl_secs cfg)\<rparr>"

section \<open>Lemmas: the session cap under every interleaving\<close>

definition holders :: "cap_system \<Rightarrow> nat" where
  "holders s = count_list (pcs s) Holding"

text \<open>
  The counter is the number of guards alive, no thread's loaded value reaches the cap, and the
  counter stays within an enabled cap.
\<close>

definition cap_inv :: "cap_system \<Rightarrow> bool" where
  "cap_inv s \<longleftrightarrow>
     length (pcs s) < 2 ^ 64 \<and>
     unat (in_flight (shared s)) = holders s \<and>
     (cap (shared s) \<noteq> 0 \<longrightarrow>
        in_flight (shared s) \<le> cap (shared s) \<and>
        (\<forall>cur. Loaded cur \<in> set (pcs s) \<longrightarrow> cur < cap (shared s)))"

lemma count_list_update:
  "i < length xs \<Longrightarrow>
     count_list (xs[i := y]) x + (if xs ! i = x then 1 else 0) =
     count_list xs x + (if y = x then 1 else 0)"
proof (induction xs arbitrary: i)
  case Nil
  then show ?case by simp
next
  case (Cons z xs)
  show ?case
  proof (cases i)
    case 0
    then show ?thesis by simp
  next
    case (Suc j)
    with Cons.prems have "j < length xs" by simp
    from Cons.IH [OF this] show ?thesis by (auto simp: Suc split: if_splits)
  qed
qed

lemma set_list_update_member: "x \<in> set (xs[i := y]) \<Longrightarrow> x = y \<or> x \<in> set xs"
  using set_update_subset_insert by fastforce

lemma set_pc_simps [simp]:
  "shared (set_pc i p s) = shared s" "pcs (set_pc i p s) = (pcs s)[i := p]"
  by (simp_all add: set_pc_def)

lemma set_in_flight_simps [simp]:
  "pcs (set_in_flight n s) = pcs s" "in_flight (shared (set_in_flight n s)) = n"
  "cap (shared (set_in_flight n s)) = cap (shared s)"
  by (simp_all add: set_in_flight_def)

lemma holders_bound: "holders s \<le> length (pcs s)"
  by (simp add: holders_def count_le_length)

lemma cap_inv_take:
  assumes inv: "cap_inv s" and i: "i < length (pcs s)" "pcs s ! i \<noteq> Holding"
    and room: "cap (shared s) \<noteq> 0 \<Longrightarrow> in_flight (shared s) < cap (shared s)"
  shows "cap_inv (set_in_flight (in_flight (shared s) + 1) (set_pc i Holding s))"
proof -
  have count: "count_list ((pcs s)[i := Holding]) Holding = Suc (holders s)"
    using count_list_update [OF i(1), of Holding Holding] i(2) by (simp add: holders_def)
  then have "Suc (holders s) \<le> length (pcs s)"
    by (metis count_le_length length_list_update)
  with inv have "unat (in_flight (shared s)) + 1 < 2 ^ 64" by (simp add: cap_inv_def)
  then have suc: "unat (in_flight (shared s) + 1) = Suc (holders s)"
    using inv by (simp add: unat_word_ariths cap_inv_def)
  have "in_flight (shared s) + 1 \<le> cap (shared s)" if "cap (shared s) \<noteq> 0"
    using room [OF that] suc inv by (simp add: word_le_nat_alt word_less_nat_alt cap_inv_def)
  with inv count suc show ?thesis
    by (auto simp: cap_inv_def holders_def dest: set_list_update_member)
qed

lemma cap_inv_set_pc:
  assumes "cap_inv s" and "i < length (pcs s)" and "pcs s ! i \<noteq> Holding" and "p \<noteq> Holding"
    and "\<And>cur. p = Loaded cur \<Longrightarrow> cap (shared s) \<noteq> 0 \<Longrightarrow> cur < cap (shared s)"
  shows "cap_inv (set_pc i p s)"
proof -
  have "count_list ((pcs s)[i := p]) Holding = holders s"
    using count_list_update [OF assms(2), of p Holding] assms(3,4) by (simp add: holders_def)
  with assms show ?thesis
    by (auto simp: cap_inv_def holders_def dest: set_list_update_member)
qed

lemma cap_inv_drop:
  assumes inv: "cap_inv s" and i: "i < length (pcs s)" "pcs s ! i = Holding"
  shows "cap_inv (set_in_flight (in_flight (shared s) - 1) (set_pc i Outside s))"
proof -
  have count: "Suc (count_list ((pcs s)[i := Outside]) Holding) = holders s"
    using count_list_update [OF i(1), of Outside Holding] i(2) by (simp add: holders_def)
  with inv have pos: "0 < unat (in_flight (shared s))" by (simp add: cap_inv_def)
  then have "1 \<le> in_flight (shared s)" by (simp add: word_le_nat_alt)
  then have dec: "unat (in_flight (shared s) - 1) = unat (in_flight (shared s)) - 1"
    by (simp add: unat_sub)
  then have "in_flight (shared s) - 1 \<le> in_flight (shared s)" by (simp add: word_le_nat_alt)
  with inv count dec show ?thesis
    by (auto simp: cap_inv_def holders_def dest: set_list_update_member order_trans)
qed

lemma cap_step_inv: "cap_inv s \<Longrightarrow> cap_inv (cap_step s e)"
proof (induction s e rule: cap_step.induct)
  case (1 s i)
  then show ?case
    by (auto simp: Let_def intro!: cap_inv_take cap_inv_set_pc)
next
  case (2 s i)
  have loaded: "in_flight (shared s) < cap (shared s)"
    if "i < length (pcs s)" "pcs s ! i = Loaded (in_flight (shared s))" "cap (shared s) \<noteq> 0"
    using that "2.prems" by (metis cap_inv_def nth_mem)
  from "2.prems" show ?case
    by (auto split: cap_pc.splits intro!: cap_inv_take cap_inv_set_pc loaded)
next
  case (3 s i)
  then show ?case by (auto intro: cap_inv_drop)
qed

interpretation cap_runs: step_system cap_step cap_inv
  by unfold_locales (rule cap_step_inv)

lemma cap_inv_new: "n < 2 ^ 64 \<Longrightarrow> cap_inv (cap_system_new c n)"
  by (auto simp: cap_inv_def cap_system_new_def session_cap_new_def holders_def count_list_0_iff)

lemma cap_step_cap [simp]: "cap (shared (cap_step s e)) = cap (shared s)"
  by (cases e) (auto simp: Let_def split: cap_pc.splits)

lemma cap_run_cap [simp]: "cap (shared (foldl cap_step s es)) = cap (shared s)"
  by (induction es arbitrary: s) simp_all

text \<open>
  The one-shot operation of the sequential model is the thread's load followed directly by its
  compare-and-swap.
\<close>

lemma try_acquire_is_uninterrupted:
  assumes "i < length (pcs s)" and "pcs s ! i = Outside"
  shows "shared (cap_step (cap_step s (LoadBy i)) (CasBy i)) = snd (try_acquire (shared s)) \<and>
    (pcs (cap_step (cap_step s (LoadBy i)) (CasBy i)) ! i = Holding \<longleftrightarrow> fst (try_acquire (shared s)))"
  using assms by (auto simp: try_acquire_def Let_def set_in_flight_def set_pc_def)

section \<open>Lemmas: buckets stay within bounds\<close>

text \<open>What the invariants need of the rounding: it is monotone and exact on small integers.\<close>

definition float_rounding :: "rounding \<Rightarrow> bool" where
  "float_rounding rnd \<longleftrightarrow>
     (\<forall>x y. x \<le> y \<longrightarrow> rnd x \<le> rnd y) \<and> (\<forall>n::nat. n \<le> 2 ^ 53 \<longrightarrow> rnd (of_nat n) = of_nat n)"

lemma float_rounding_id: "float_rounding (\<lambda>x. x)"
  by (simp add: float_rounding_def)

lemma float_rounding_zero: "float_rounding rnd \<Longrightarrow> rnd 0 = 0"
proof -
  assume "float_rounding rnd"
  then have "rnd (of_nat 0) = of_nat 0" unfolding float_rounding_def by blast
  then show ?thesis by simp
qed

lemma float_rounding_nonneg:
  assumes "float_rounding rnd" and "0 \<le> x"
  shows "0 \<le> rnd x"
proof -
  from assms have "rnd 0 \<le> rnd x" unfolding float_rounding_def by blast
  with float_rounding_zero [OF assms(1)] show ?thesis by simp
qed

definition bucket_ok :: "rat \<Rightarrow> bucket \<Rightarrow> bool" where
  "bucket_ok capacity b \<longleftrightarrow> 0 \<le> tokens b \<and> tokens b \<le> capacity"

definition limiter_ok :: "rat \<Rightarrow> limiter_inner \<Rightarrow> bool" where
  "limiter_ok capacity l \<longleftrightarrow>
     distinct (map fst (buckets l)) \<and> (\<forall>ip b. (ip, b) \<in> set (buckets l) \<longrightarrow> bucket_ok capacity b)"

lemma as_secs_f64_nonneg: "float_rounding rnd \<Longrightarrow> 0 \<le> as_secs_f64 rnd d"
  by (simp add: as_secs_f64_def float_rounding_nonneg)

lemma refilled_ok:
  assumes "float_rounding rnd" "0 \<le> refill" "0 \<le> capacity" "bucket_ok capacity b"
  shows "bucket_ok capacity (refilled rnd now capacity refill b)"
proof -
  let ?gain = "rnd (as_secs_f64 rnd (now - last_refill b) * refill)"
  have "0 \<le> as_secs_f64 rnd (now - last_refill b) * refill"
    using as_secs_f64_nonneg [OF assms(1)] assms(2) by simp
  then have "0 \<le> ?gain" by (rule float_rounding_nonneg [OF assms(1)])
  with assms(4) have "0 \<le> tokens b + ?gain" by (simp add: bucket_ok_def)
  then have "0 \<le> rnd (tokens b + ?gain)" by (rule float_rounding_nonneg [OF assms(1)])
  with assms(3) show ?thesis by (simp add: bucket_ok_def refilled_def)
qed

lemma update_values: "(k', b) \<in> set (AList.update k v xs) \<Longrightarrow> b = v \<or> (k', b) \<in> set xs"
  by (induction xs) (auto split: if_splits)

lemma delete_values: "(k', b) \<in> set (AList.delete k xs) \<Longrightarrow> (k', b) \<in> set xs"
  by (simp add: AList.delete_eq)

lemma length_update:
  "length (AList.update k v xs) = (if map_of xs k = None then Suc (length xs) else length xs)"
  by (induction xs) auto

lemma length_delete: "map_of xs k \<noteq> None \<Longrightarrow> length (AList.delete k xs) < length xs"
proof -
  assume "map_of xs k \<noteq> None"
  then obtain v where "(k, v) \<in> set xs" by (auto dest: map_of_SomeD)
  then show ?thesis
    unfolding AList.delete_eq by (rule length_filter_less) simp
qed

lemma evict_idle_ok: "limiter_ok capacity l \<Longrightarrow> limiter_ok capacity (evict_idle_buckets now ttl l)"
  by (auto simp: limiter_ok_def evict_idle_buckets_def Let_def distinct_map_filter)

lemma take_token_ok:
  assumes rnd: "float_rounding rnd" and "0 \<le> refill" and cap: "capacity = of_nat c" "c \<le> 2 ^ 53"
    and ok: "limiter_ok capacity l"
  shows "limiter_ok capacity (snd (take_token rnd now ip capacity refill l))"
proof -
  define b where "b = (case map_of (buckets l) ip of
      Some b \<Rightarrow> b | None \<Rightarrow> \<lparr>tokens = capacity, last_refill = now, last_touch = now\<rparr>)"
  have "bucket_ok capacity b"
    using ok cap(1) by (auto simp: b_def bucket_ok_def limiter_ok_def split: option.splits
        dest!: map_of_SomeD)
  then have b': "bucket_ok capacity (refilled rnd now capacity refill b)"
    using assms by (intro refilled_ok) simp_all
  let ?t = "tokens (refilled rnd now capacity refill b)"
  have "bucket_ok capacity ((refilled rnd now capacity refill b)\<lparr>tokens := rnd (?t - 1)\<rparr>)" if "1 \<le> ?t"
  proof -
    have "0 \<le> rnd (?t - 1)" using rnd that by (simp add: float_rounding_nonneg)
    moreover have "rnd (?t - 1) \<le> rnd capacity"
      using rnd b' by (simp add: float_rounding_def bucket_ok_def)
    moreover have "rnd capacity = capacity"
      using rnd cap by (simp add: float_rounding_def)
    ultimately show ?thesis by (simp add: bucket_ok_def)
  qed
  with ok b' show ?thesis
    by (auto simp: take_token_def Let_def b_def [symmetric] limiter_ok_def distinct_update
        dest!: update_values)
qed

section \<open>Lemmas: the eviction candidate\<close>

lemma better_candidate_trans:
  "\<not> better_candidate x y \<Longrightarrow> better_candidate z y \<Longrightarrow> \<not> better_candidate x z"
  by (auto simp: better_candidate_def)

lemma better_candidate_irrefl [simp]: "\<not> better_candidate x x"
  by (simp add: better_candidate_def)

lemma scan_throttled:
  "snd (foldl scan_bucket acc bs) \<longleftrightarrow> snd acc \<and> (\<forall>ip b. (ip, b) \<in> set bs \<longrightarrow> tokens b < 1)"
proof (induction bs arbitrary: acc)
  case Nil
  then show ?case by simp
next
  case (Cons p bs)
  obtain best thr where "acc = (best, thr)" by fastforce
  moreover obtain ip b where "p = (ip, b)" by fastforce
  ultimately show ?case by (auto simp: Cons.IH not_le)
qed

definition candidate_in :: "(ip_addr \<times> bucket) list \<Rightarrow> (ip_addr \<times> rat \<times> instant) option \<Rightarrow> bool" where
  "candidate_in bs best \<longleftrightarrow>
     (case best of
        None \<Rightarrow> bs = []
      | Some (ip, t, u) \<Rightarrow>
          (\<exists>b. (ip, b) \<in> set bs \<and> tokens b = t \<and> last_touch b = u) \<and>
          (\<forall>ip b. (ip, b) \<in> set bs \<longrightarrow> \<not> better_candidate (tokens b, last_touch b) (t, u)))"

lemma candidate_in_snoc:
  assumes "candidate_in bs best"
  shows "candidate_in (bs @ [(ip, b)]) (fst (scan_bucket (best, thr) (ip, b)))"
proof (cases best)
  case None
  with assms show ?thesis by (simp add: candidate_in_def)
next
  case (Some q)
  then obtain ip0 t0 u0 where q: "best = Some (ip0, t0, u0)" by (cases q) auto
  with assms obtain b0 where old: "(ip0, b0) \<in> set bs" "tokens b0 = t0" "last_touch b0 = u0"
    and max: "\<And>ip' b'. (ip', b') \<in> set bs \<Longrightarrow>
      \<not> better_candidate (tokens b', last_touch b') (t0, u0)"
    by (auto simp: candidate_in_def)
  show ?thesis
  proof (cases "better_candidate (tokens b, last_touch b) (t0, u0)")
    case True
    then have "\<not> better_candidate (tokens b', last_touch b') (tokens b, last_touch b)"
      if "(ip', b') \<in> set bs" for ip' b'
      using max [OF that] by (rule better_candidate_trans [rotated])
    with True q show ?thesis by (auto simp: candidate_in_def)
  next
    case False
    with q old max show ?thesis by (auto simp: candidate_in_def)
  qed
qed

lemma scan_candidate: "candidate_in bs (fst (foldl scan_bucket (None, True) bs))"
proof (induction bs rule: rev_induct)
  case Nil
  then show ?case by (simp add: candidate_in_def)
next
  case (snoc p bs)
  obtain ip b where "p = (ip, b)" by fastforce
  with candidate_in_snoc [OF snoc.IH] show ?case
    by (metis foldl_append foldl_Cons foldl_Nil prod.collapse)
qed

text \<open>
  Eviction at the cap fails exactly when no tracked bucket holds a whole token; otherwise it
  drops one bucket that no other bucket beats on tokens, and among equals on age.
\<close>

lemma evict_at_cap_cases:
  assumes "evict_at_cap l = (ok, l')"
  shows "(ok \<longleftrightarrow> (\<exists>ip b. (ip, b) \<in> set (buckets l) \<and> tokens b \<ge> 1)) \<and>
    (if ok
     then \<exists>ip b. (ip, b) \<in> set (buckets l) \<and>
       (\<forall>ip' b'. (ip', b') \<in> set (buckets l) \<longrightarrow>
          \<not> better_candidate (tokens b', last_touch b') (tokens b, last_touch b)) \<and>
       l' = l\<lparr>buckets := AList.delete ip (buckets l), lru_evictions := lru_evictions l + 1\<rparr>
     else l' = l)"
proof -
  obtain best thr where scan: "foldl scan_bucket (None, True) (buckets l) = (best, thr)" by fastforce
  have thr: "thr \<longleftrightarrow> (\<forall>ip b. (ip, b) \<in> set (buckets l) \<longrightarrow> tokens b < 1)"
    using scan_throttled [of "(None, True)" "buckets l"] scan by simp
  have S: "candidate_in (buckets l) best"
    using scan_candidate [of "buckets l"] scan by simp
  show ?thesis
  proof (cases thr)
    case True
    with assms scan have "\<not> ok" "l' = l" by (simp_all add: evict_at_cap_def)
    with True thr show ?thesis by (auto simp: not_le)
  next
    case False
    with thr S obtain ip t u where best: "best = Some (ip, t, u)"
      by (cases best) (auto simp: candidate_in_def)
    with S obtain b where b: "(ip, b) \<in> set (buckets l)" "tokens b = t" "last_touch b = u"
      by (auto simp: candidate_in_def)
    from assms scan False best have "ok"
      "l' = l\<lparr>buckets := AList.delete ip (buckets l), lru_evictions := lru_evictions l + 1\<rparr>"
      by (simp_all add: evict_at_cap_def)
    moreover from False thr have "\<exists>ip b. (ip, b) \<in> set (buckets l) \<and> tokens b \<ge> 1"
      by (auto simp: not_less)
    moreover from S best b have "\<forall>ip' b'. (ip', b') \<in> set (buckets l) \<longrightarrow>
        \<not> better_candidate (tokens b', last_touch b') (tokens b, last_touch b)"
      by (simp add: candidate_in_def)
    ultimately show ?thesis using b(1) by (simp; blast)
  qed
qed

lemma take_token_length:
  "length (buckets (snd (take_token rnd now ip capacity refill l))) =
     (if map_of (buckets l) ip = None then Suc (length (buckets l)) else length (buckets l))"
  by (simp add: take_token_def Let_def length_update)

lemma evict_at_cap_length:
  assumes "evict_at_cap l = (True, l')"
  shows "length (buckets l') < length (buckets l)"
proof -
  from evict_at_cap_cases [OF assms] obtain ip b where
    "(ip, b) \<in> set (buckets l)" and l': "buckets l' = AList.delete ip (buckets l)" by auto
  then have "map_of (buckets l) ip \<noteq> None" by (auto simp: map_of_eq_None_iff intro: rev_image_eqI)
  with l' show ?thesis by (simp add: length_delete)
qed

lemma limiter_ok_delete:
  "limiter_ok capacity l \<Longrightarrow> limiter_ok capacity (l\<lparr>buckets := AList.delete ip (buckets l)\<rparr>)"
  using delete_values by (fastforce simp: limiter_ok_def distinct_delete)

lemma limiter_ok_stats [simp]:
  "limiter_ok capacity (l\<lparr>lru_evictions := a\<rparr>) = limiter_ok capacity l"
  "limiter_ok capacity (l\<lparr>cap_refused := a\<rparr>) = limiter_ok capacity l"
  by (simp_all add: limiter_ok_def)

lemma evict_at_cap_ok:
  assumes "evict_at_cap l = (ok, l')" and "limiter_ok capacity l"
  shows "limiter_ok capacity l'"
proof -
  from evict_at_cap_cases [OF assms(1)] have "l' = l \<or>
      (\<exists>ip a. l' = l\<lparr>buckets := AList.delete ip (buckets l), lru_evictions := a\<rparr>)"
    by (auto split: if_splits)
  with assms(2) limiter_ok_delete show ?thesis by auto
qed

lemma evict_idle_length: "length (buckets (evict_idle_buckets now ttl l)) \<le> length (buckets l)"
  by (simp add: evict_idle_buckets_def Let_def)

lemma try_take_at_ok:
  assumes "float_rounding rnd" "0 \<le> refill" "capacity = of_nat c" "c \<le> 2 ^ 53"
    and "limiter_ok capacity l"
  shows "limiter_ok capacity (snd (try_take_at rnd now ip capacity refill ttl m l))"
proof -
  let ?l = "evict_idle_buckets now ttl l"
  have ok: "limiter_ok capacity ?l"
    using assms(5) by (rule evict_idle_ok)
  obtain b l' where ev: "evict_at_cap ?l = (b, l')" by fastforce
  with ok have "limiter_ok capacity l'" by (rule evict_at_cap_ok [rotated])
  with ok ev take_token_ok [OF assms(1,2,3,4)] show ?thesis
    by (cases b) (simp_all add: try_take_at_def Let_def)
qed

lemma try_take_at_bounded:
  assumes "0 < m" and "length (buckets l) \<le> m"
  shows "length (buckets (snd (try_take_at rnd now ip capacity refill ttl m l))) \<le> m"
proof -
  let ?l = "evict_idle_buckets now ttl l"
  have le: "length (buckets ?l) \<le> m" using evict_idle_length assms(2) by (rule order_trans)
  obtain ok l' where ev: "evict_at_cap ?l = (ok, l')" by fastforce
  have "ok \<Longrightarrow> length (buckets l') < m"
    using ev evict_at_cap_length le by fastforce
  moreover have "\<not> ok \<Longrightarrow> l' = ?l"
    using evict_at_cap_cases [OF ev] by simp
  ultimately show ?thesis
    using ev le assms(1) by (cases ok) (auto simp: try_take_at_def Let_def take_token_length)
qed

section \<open>Lemmas: the long-run rate\<close>

text \<open>A sequence of accepts, each with its time and address, and what the limiter answered.\<close>

fun take_run :: "rounding \<Rightarrow> rate_limiter \<Rightarrow> (instant \<times> ip_addr) list \<Rightarrow> bool list" where
  "take_run rnd r [] = []"
| "take_run rnd r ((now, ip) # reqs) =
     (case try_take rnd now ip r of (ok, r') \<Rightarrow> ok # take_run rnd r' reqs)"

fun accepted :: "ip_addr \<Rightarrow> (instant \<times> ip_addr) list \<Rightarrow> bool list \<Rightarrow> nat" where
  "accepted ip ((_, ip') # reqs) (ok # oks) =
     (if ok \<and> ip' = ip then 1 else 0) + accepted ip reqs oks"
| "accepted ip _ _ = 0"

fun ordered_from :: "instant \<Rightarrow> (instant \<times> ip_addr) list \<Rightarrow> bool" where
  "ordered_from t [] = True"
| "ordered_from t ((now, _) # reqs) = (t \<le> now \<and> ordered_from now reqs)"

lemma as_secs_exact: "as_secs_f64 (\<lambda>x. x) d = of_nat d / 1000000000"
proof -
  have "rat_of_nat d = of_nat (d div 1000000000 * 1000000000 + d mod 1000000000)"
    by simp
  also have "\<dots> = of_nat (d div 1000000000) * 1000000000 + of_nat (d mod 1000000000)"
    by (simp only: of_nat_add of_nat_mult of_nat_numeral)
  finally show ?thesis by (simp add: as_secs_f64_def field_simps)
qed

text \<open>What an address could take at a time: its refilled tokens, or a full bucket.\<close>

definition avail :: "rat \<Rightarrow> rat \<Rightarrow> limiter_inner \<Rightarrow> instant \<Rightarrow> ip_addr \<Rightarrow> rat" where
  "avail capacity rate l now ip =
     (case map_of (buckets l) ip of
        None \<Rightarrow> capacity
      | Some b \<Rightarrow> min (tokens b + of_nat (now - last_refill b) / 1000000000 * rate) capacity)"

definition timely :: "instant \<Rightarrow> limiter_inner \<Rightarrow> bool" where
  "timely now l \<longleftrightarrow>
     (\<forall>ip b. map_of (buckets l) ip = Some b \<longrightarrow> last_refill b = last_touch b \<and> last_touch b \<le> now)"

lemma map_of_ok: "limiter_ok capacity l \<Longrightarrow> map_of (buckets l) ip = Some b \<Longrightarrow> bucket_ok capacity b"
  by (auto simp: limiter_ok_def dest: map_of_SomeD)

lemma avail_nonneg:
  assumes "limiter_ok capacity l" "0 \<le> capacity" "0 \<le> rate"
  shows "0 \<le> avail capacity rate l now ip"
  using assms map_of_ok [OF assms(1), of ip]
  by (auto simp: avail_def bucket_ok_def split: option.splits)

lemma avail_later:
  assumes "timely t l" "t \<le> now" "0 \<le> rate" "limiter_ok capacity l"
  shows "avail capacity rate l now ip \<le>
    avail capacity rate l t ip + of_nat (now - t) / 1000000000 * rate"
proof (cases "map_of (buckets l) ip")
  case None
  with assms(3) show ?thesis by (simp add: avail_def)
next
  case (Some b)
  with assms(1) have "last_refill b \<le> t" by (simp add: timely_def)
  with assms(2) have "now - last_refill b = (t - last_refill b) + (now - t)" by simp
  then have split: "rat_of_nat (now - last_refill b) = of_nat (t - last_refill b) + of_nat (now - t)"
    by (metis of_nat_add)
  have "0 \<le> rat_of_nat (now - t) / 1000000000 * rate" using assms(3) by simp
  then show ?thesis
    unfolding avail_def Some option.case split add_divide_distrib distrib_right by linarith
qed

lemma map_of_filter_distinct:
  "distinct (map fst xs) \<Longrightarrow>
     map_of (filter (\<lambda>(_, b). P b) xs) k =
       (case map_of xs k of None \<Rightarrow> None | Some b \<Rightarrow> if P b then Some b else None)"
  by (induction xs) (auto simp: map_of_eq_None_iff split: option.splits)

text \<open>A bucket idle for the whole lifetime is full, so dropping it changes nothing.\<close>

lemma evict_idle_avail:
  assumes ok: "limiter_ok capacity l" and "timely now l" and "0 \<le> rate"
    and full: "capacity \<le> of_nat ttl / 1000000000 * rate"
  shows "avail capacity rate (evict_idle_buckets now ttl l) now ip = avail capacity rate l now ip"
proof (cases "map_of (buckets l) ip")
  case None
  with ok show ?thesis
    by (simp add: avail_def evict_idle_buckets_def Let_def limiter_ok_def map_of_filter_distinct)
next
  case (Some b)
  show ?thesis
  proof (cases "now - last_touch b < ttl")
    case True
    with ok Some show ?thesis
      by (simp add: avail_def evict_idle_buckets_def Let_def limiter_ok_def map_of_filter_distinct)
  next
    case False
    from assms(2) Some have touch: "last_refill b = last_touch b" by (simp add: timely_def)
    with False have "rat_of_nat ttl \<le> of_nat (now - last_refill b)" by simp
    then have "of_nat ttl / 1000000000 * rate \<le> of_nat (now - last_refill b) / 1000000000 * rate"
      using assms(3) by (intro mult_right_mono divide_right_mono) simp_all
    moreover have "0 \<le> tokens b" using map_of_ok [OF ok Some] by (simp add: bucket_ok_def)
    ultimately have "avail capacity rate l now ip = capacity"
      using full Some by (simp add: avail_def)
    moreover have "map_of (buckets (evict_idle_buckets now ttl l)) ip = None"
      using ok Some False
      by (simp add: evict_idle_buckets_def Let_def limiter_ok_def map_of_filter_distinct)
    ultimately show ?thesis by (simp add: avail_def)
  qed
qed

lemma evict_idle_timely:
  "limiter_ok capacity l \<Longrightarrow> timely now l \<Longrightarrow> timely now (evict_idle_buckets now ttl l)"
  by (auto simp: timely_def evict_idle_buckets_def Let_def limiter_ok_def map_of_filter_distinct
      split: option.splits if_splits)

lemma timely_later: "timely t l \<Longrightarrow> t \<le> now \<Longrightarrow> timely now l"
  by (force simp: timely_def)

lemma take_token_avail:
  assumes "take_token (\<lambda>x. x) now ip' capacity rate l = (ok, l')" and "timely now l"
  shows "avail capacity rate l' now ip =
      avail capacity rate l now ip - (if ok \<and> ip' = ip then 1 else 0)"
    and "timely now l'"
proof -
  let ?b = "case map_of (buckets l) ip' of
      Some b \<Rightarrow> b | None \<Rightarrow> \<lparr>tokens = capacity, last_refill = now, last_touch = now\<rparr>"
  let ?r = "refilled (\<lambda>x. x) now capacity rate ?b"
  have fill: "tokens ?r = avail capacity rate l now ip'"
    by (simp add: refilled_def avail_def as_secs_exact split: option.splits)
  have le: "avail capacity rate l now ip' \<le> capacity"
    by (simp add: avail_def split: option.splits)
  have now: "last_refill ?r = now" "last_touch ?r = now" by (simp_all add: refilled_def)
  have l': "\<exists>v. buckets l' = AList.update ip' v (buckets l) \<and> last_refill v = now \<and>
      last_touch v = now \<and> tokens v = avail capacity rate l now ip' - (if ok then 1 else 0)"
    using assms(1) fill now by (auto simp: take_token_def Let_def split: if_splits)
  then obtain v where v: "buckets l' = AList.update ip' v (buckets l)" "last_refill v = now"
    "last_touch v = now" "tokens v = avail capacity rate l now ip' - (if ok then 1 else 0)" by blast
  with le show "avail capacity rate l' now ip =
      avail capacity rate l now ip - (if ok \<and> ip' = ip then 1 else 0)"
    by (auto simp: avail_def update_conv' split: if_splits)
  from v assms(2) show "timely now l'"
    by (auto simp: timely_def update_conv' split: if_splits)
qed

text \<open>The table once the evictions of a request are made, before its own bucket is consulted.\<close>

definition evicted :: "instant \<Rightarrow> ip_addr \<Rightarrow> rate_limiter \<Rightarrow> limiter_inner" where
  "evicted now ip r =
     (let l = evict_idle_buckets now (rl_idle_ttl r) (inner r) in
      if rl_max_tracked r > 0 \<and> length (buckets l) \<ge> rl_max_tracked r \<and> map_of (buckets l) ip = None
      then snd (evict_at_cap l) else l)"

text \<open>
  A request makes the limiter forget an address when the evictions leave no bucket for it although it
  could not have taken its whole burst; how often that happens in a run.
\<close>

definition forgets :: "ip_addr \<Rightarrow> instant \<Rightarrow> ip_addr \<Rightarrow> rate_limiter \<Rightarrow> bool" where
  "forgets ip now ip' r \<longleftrightarrow>
     map_of (buckets (evicted now ip' r)) ip = None \<and>
     avail (rl_capacity r) (rl_refill_per_sec r) (inner r) now ip < rl_capacity r"

fun forgotten :: "ip_addr \<Rightarrow> rate_limiter \<Rightarrow> (instant \<times> ip_addr) list \<Rightarrow> nat" where
  "forgotten ip r [] = 0"
| "forgotten ip r ((now, ip') # reqs) =
     (if forgets ip now ip' r then 1 else 0) + forgotten ip (snd (try_take (\<lambda>x. x) now ip' r)) reqs"

lemma evict_at_cap_lookup:
  assumes "limiter_ok capacity l"
  shows "map_of (buckets (snd (evict_at_cap l))) ip \<in> {None, map_of (buckets l) ip}"
proof -
  obtain ok l' where ev: "evict_at_cap l = (ok, l')" by fastforce
  from evict_at_cap_cases [OF ev] have "buckets l' = buckets l \<or> (\<exists>i. buckets l' = AList.delete i (buckets l))"
    by (auto split: if_splits)
  with ev show ?thesis by (auto simp: delete_conv')
qed

lemma evict_idle_lookup:
  assumes "limiter_ok capacity l"
  shows "map_of (buckets (evict_idle_buckets now ttl l)) ip \<in> {None, map_of (buckets l) ip}"
  using assms
  by (auto simp: evict_idle_buckets_def Let_def limiter_ok_def map_of_filter_distinct split: option.splits)

lemma evicted_keeps:
  assumes "limiter_ok capacity (inner r)"
  shows "limiter_ok capacity (evicted now ip' r)"
    and "map_of (buckets (evicted now ip' r)) ip \<in> {None, map_of (buckets (inner r)) ip}"
proof -
  let ?l = "evict_idle_buckets now (rl_idle_ttl r) (inner r)"
  have ok: "limiter_ok capacity ?l" using assms by (rule evict_idle_ok)
  then have "limiter_ok capacity (snd (evict_at_cap ?l))" using evict_at_cap_ok [OF prod.collapse [symmetric]] by metis
  with ok show "limiter_ok capacity (evicted now ip' r)" by (simp add: evicted_def Let_def)
  show "map_of (buckets (evicted now ip' r)) ip \<in> {None, map_of (buckets (inner r)) ip}"
    using evict_at_cap_lookup [OF ok, of ip] evict_idle_lookup [OF assms, of now "rl_idle_ttl r" ip]
    by (auto simp: evicted_def Let_def)
qed

lemma evicted_timely: "limiter_ok capacity (inner r) \<Longrightarrow> timely now (inner r) \<Longrightarrow> timely now (evicted now ip' r)"
  using evicted_keeps(2) [of capacity r now ip'] unfolding timely_def by (metis empty_iff insert_iff option.distinct(1))

lemma evicted_avail:
  assumes "limiter_ok (rl_capacity r) (inner r)" and "0 \<le> rl_capacity r" and "0 \<le> rl_refill_per_sec r"
  shows "avail (rl_capacity r) (rl_refill_per_sec r) (evicted now ip' r) now ip \<le>
    avail (rl_capacity r) (rl_refill_per_sec r) (inner r) now ip + (if forgets ip now ip' r then rl_capacity r else 0)"
proof (cases "map_of (buckets (evicted now ip' r)) ip = None")
  case True
  then show ?thesis
    using avail_nonneg [OF assms, of now ip] by (auto simp: forgets_def avail_def)
next
  case False
  then have "map_of (buckets (evicted now ip' r)) ip = map_of (buckets (inner r)) ip"
    using evicted_keeps(2) [OF assms(1), of now ip' ip] by auto
  with False assms(2) show ?thesis by (simp add: avail_def)
qed

lemma try_take_evicted:
  assumes "limiter_enabled r" and "try_take rnd now ip r = (ok, r')"
  shows "r' = r\<lparr>inner := inner r'\<rparr> \<and>
    (\<not> ok \<and> buckets (inner r') = buckets (evicted now ip r) \<or>
     take_token rnd now ip (rl_capacity r) (rl_refill_per_sec r) (evicted now ip r) = (ok, inner r'))"
  using assms by (auto simp: try_take_def try_take_at_def evicted_def Let_def split: prod.splits bool.splits if_splits)

text \<open>The limiter in exact arithmetic: the state the rate bound is proved for.\<close>

definition steady :: "nat \<Rightarrow> nat \<Rightarrow> rate_limiter \<Rightarrow> bool" where
  "steady c rate r \<longleftrightarrow>
     0 < rate \<and> c \<le> 2 ^ 53 \<and> rl_capacity r = of_nat c \<and> rl_refill_per_sec r = of_nat rate \<and>
     limiter_ok (of_nat c) (inner r)"

lemma same_buckets:
  assumes "buckets l = buckets l'"
  shows "limiter_ok capacity l = limiter_ok capacity l'" "timely now l = timely now l'"
    "avail capacity rate l = avail capacity rate l'"
  using assms by (simp_all add: limiter_ok_def timely_def avail_def fun_eq_iff)

lemma try_take_steady:
  assumes st: "steady c rate r" and "timely t (inner r)" and "t \<le> now"
    and take: "try_take (\<lambda>x. x) now ip' r = (ok, r')"
  shows "steady c rate r'" and "timely now (inner r')"
    and "avail (of_nat c) (of_nat rate) (inner r') now ip + (if ok \<and> ip' = ip then 1 else 0) \<le>
      avail (of_nat c) (of_nat rate) (inner r) now ip + (if forgets ip now ip' r then of_nat c else 0)"
proof -
  have ok: "limiter_ok (of_nat c) (inner r)" and par: "rl_capacity r = of_nat c" "rl_refill_per_sec r = of_nat rate"
    and pos: "limiter_enabled r" "c \<le> 2 ^ 53"
    using st by (auto simp: steady_def limiter_enabled_def)
  let ?l = "evicted now ip' r"
  have l: "limiter_ok (of_nat c) ?l" using ok by (rule evicted_keeps)
  have "timely now ?l" using ok timely_later [OF assms(2,3)] by (rule evicted_timely)
  note T = take_token_avail [OF _ this]
  from try_take_evicted [OF pos(1) take, unfolded par] have r': "r' = r\<lparr>inner := inner r'\<rparr>"
    and cases: "\<not> ok \<and> buckets (inner r') = buckets ?l \<or>
      take_token (\<lambda>x. x) now ip' (of_nat c) (of_nat rate) ?l = (ok, inner r')" by blast+
  have "limiter_ok (of_nat c) (inner r')"
    using cases l same_buckets(1) take_token_ok [OF float_rounding_id _ refl pos(2) l] by (metis of_nat_0_le_iff snd_conv)
  moreover have "rl_capacity r' = rl_capacity r" "rl_refill_per_sec r' = rl_refill_per_sec r" by (subst r', simp)+
  ultimately show "steady c rate r'" using st by (simp add: steady_def)
  show "timely now (inner r')" using cases T(2) same_buckets(2) \<open>timely now ?l\<close> by metis
  have "avail (of_nat c) (of_nat rate) (inner r') now ip + (if ok \<and> ip' = ip then 1 else 0) =
      avail (of_nat c) (of_nat rate) ?l now ip"
    using cases T(1) [of ip' "of_nat c" "of_nat rate" ok "inner r'" ip] same_buckets(3) [of "inner r'" ?l] by auto
  then show "avail (of_nat c) (of_nat rate) (inner r') now ip + (if ok \<and> ip' = ip then 1 else 0) \<le>
      avail (of_nat c) (of_nat rate) (inner r) now ip + (if forgets ip now ip' r then of_nat c else 0)"
    using evicted_avail [of r now ip' ip, unfolded par, OF ok] by simp
qed

lemma accepted_bound:
  assumes "steady c rate r" and "timely t (inner r)" and "ordered_from t reqs"
    and "\<And>now ip'. (now, ip') \<in> set reqs \<Longrightarrow> now \<le> T" and "t \<le> T"
  shows "of_nat (accepted ip reqs (take_run (\<lambda>x. x) r reqs)) \<le>
    avail (of_nat c) (of_nat rate) (inner r) t ip + of_nat (T - t) / 1000000000 * of_nat rate +
    of_nat c * of_nat (forgotten ip r reqs)"
  using assms
proof (induction reqs arbitrary: r t)
  case Nil
  then have "0 \<le> avail (of_nat c) (of_nat rate) (inner r) t ip"
    by (intro avail_nonneg) (simp_all add: steady_def)
  then show ?case by simp
next
  case (Cons q reqs)
  obtain now ip' where q: "q = (now, ip')" by fastforce
  obtain ok r' where take: "try_take (\<lambda>x. x) now ip' r = (ok, r')" by fastforce
  have t: "t \<le> now" "now \<le> T" using Cons.prems q by auto
  note S = try_take_steady [OF Cons.prems(1,2) t(1) take]
  have "of_nat (accepted ip reqs (take_run (\<lambda>x. x) r' reqs)) \<le>
      avail (of_nat c) (of_nat rate) (inner r') now ip + of_nat (T - now) / 1000000000 * of_nat rate +
      of_nat c * of_nat (forgotten ip r' reqs)"
    using S Cons.prems q t by (intro Cons.IH) auto
  moreover have "avail (of_nat c) (of_nat rate) (inner r) now ip \<le>
      avail (of_nat c) (of_nat rate) (inner r) t ip + of_nat (now - t) / 1000000000 * of_nat rate"
    using Cons.prems t by (intro avail_later) (simp_all add: steady_def)
  moreover have "rat_of_nat (T - t) = of_nat (T - now) + of_nat (now - t)"
    using t by (metis add.commute diff_add le_add_diff_inverse2 of_nat_add add_diff_cancel_right' le_Suc_ex
        Nat.add_diff_assoc2 diff_diff_left)
  ultimately show ?case
    using S(3) [of ip] q take by (auto simp: add_divide_distrib distrib_right distrib_left split: if_splits)
qed

lemma with_limits_steady:
  assumes "0 < refill"
  shows "steady (unat (max burst 1)) (unat refill) (with_limits refill burst m ttl)"
proof -
  have "unat (max burst 1) < 2 ^ 32" using unat_below [of "max burst 1"] by simp
  moreover have "0 < unat refill" using assms by (simp add: unat_gt_0)
  ultimately show ?thesis by (simp add: steady_def with_limits_def limiter_ok_def)
qed

text \<open>
  A table with room for every address of the run, whose buckets live long enough to fill, forgets
  nothing.
\<close>

definition roomy :: "nat \<Rightarrow> nat \<Rightarrow> ip_addr set \<Rightarrow> rate_limiter \<Rightarrow> bool" where
  "roomy c rate ips r \<longleftrightarrow>
     steady c rate r \<and> c * 1000000000 \<le> rl_idle_ttl r * rate \<and> finite ips \<and>
     (rl_max_tracked r = 0 \<or> card ips \<le> rl_max_tracked r) \<and> fst ` set (buckets (inner r)) \<subseteq> ips"

lemma roomy_evicted:
  assumes "roomy c rate ips r" and "ip' \<in> ips"
  shows "evicted now ip' r = evict_idle_buckets now (rl_idle_ttl r) (inner r)"
proof -
  let ?l = "evict_idle_buckets now (rl_idle_ttl r) (inner r)"
  have ok: "distinct (map fst (buckets ?l))" and sub: "fst ` set (buckets ?l) \<subseteq> ips"
    using assms(1) evict_idle_ok [of "of_nat c" "inner r"]
    by (auto simp: roomy_def steady_def limiter_ok_def) (auto simp: evict_idle_buckets_def Let_def)
  have "length (buckets ?l) < card ips" if "map_of (buckets ?l) ip' = None"
  proof -
    have "fst ` set (buckets ?l) \<subset> ips" using that sub assms(2) by (auto simp: map_of_eq_None_iff)
    then have "card (fst ` set (buckets ?l)) < card ips" using assms(1) by (intro psubset_card_mono) (auto simp: roomy_def)
    then show ?thesis using distinct_card [OF ok] by simp
  qed
  then show ?thesis using assms(1) by (auto simp: evicted_def Let_def roomy_def)
qed

lemma roomy_forgets:
  assumes "roomy c rate ips r" and "ip' \<in> ips" and "timely now (inner r)"
  shows "\<not> forgets ip now ip' r"
proof -
  have st: "rl_capacity r = of_nat c" "rl_refill_per_sec r = of_nat rate" "limiter_ok (of_nat c) (inner r)"
    using assms(1) by (auto simp: roomy_def steady_def)
  have "rat_of_nat (c * 1000000000) \<le> of_nat (rl_idle_ttl r * rate)"
    using assms(1) unfolding roomy_def of_nat_le_iff by blast
  then have "rat_of_nat c \<le> of_nat (rl_idle_ttl r) / 1000000000 * of_nat rate" by simp
  from evict_idle_avail [OF st(3) assms(3) _ this, of ip] show ?thesis
    unfolding forgets_def roomy_evicted [OF assms(1,2)] st(1,2) by (auto simp: avail_def)
qed

lemma take_token_keys:
  "fst ` set (buckets (snd (take_token rnd now ip capacity refill l))) = insert ip (fst ` set (buckets l))"
  by (simp add: take_token_def Let_def dom_update)

lemma forgotten_none:
  assumes "roomy c rate ips r" and "timely t (inner r)" and "ordered_from t reqs" and "snd ` set reqs \<subseteq> ips"
  shows "forgotten ip r reqs = 0"
  using assms
proof (induction reqs arbitrary: r t)
  case (Cons q reqs)
  obtain now ip' where q: "q = (now, ip')" by fastforce
  obtain ok r' where take: "try_take (\<lambda>x. x) now ip' r = (ok, r')" by fastforce
  have t: "t \<le> now" "ip' \<in> ips" and st: "steady c rate r" using Cons.prems q by (auto simp: roomy_def)
  note S = try_take_steady [OF st Cons.prems(2) t(1) take]
  have en: "limiter_enabled r" using st by (auto simp: steady_def limiter_enabled_def)
  note E = try_take_evicted [OF en take]
  have "fst ` set (buckets (evicted now ip' r)) \<subseteq> ips"
    using Cons.prems(1) by (auto simp: roomy_evicted [OF Cons.prems(1) t(2)] roomy_def evict_idle_buckets_def Let_def)
  moreover have "fst ` set (buckets (inner r')) \<subseteq> insert ip' (fst ` set (buckets (evicted now ip' r)))"
  proof (cases "buckets (inner r') = buckets (evicted now ip' r)")
    case False
    then have "inner r' = snd (take_token (\<lambda>x. x) now ip' (rl_capacity r) (rl_refill_per_sec r) (evicted now ip' r))"
      using E by simp
    then show ?thesis by (simp add: take_token_keys)
  qed auto
  ultimately have "fst ` set (buckets (inner r')) \<subseteq> ips" using t(2) by blast
  moreover from E have r': "r' = r\<lparr>inner := inner r'\<rparr>" ..
  have "rl_idle_ttl r' = rl_idle_ttl r" "rl_max_tracked r' = rl_max_tracked r" by (subst r', simp)+
  ultimately have "roomy c rate ips r'" using Cons.prems(1) S(1) by (simp add: roomy_def)
  then have "forgotten ip r' reqs = 0" using S(2) Cons.prems q by (intro Cons.IH [of r' now]) auto
  moreover have "\<not> forgets ip now ip' r"
    by (rule roomy_forgets [OF Cons.prems(1) t(2) timely_later [OF Cons.prems(2) t(1)]])
  ultimately show ?case by (simp add: q take)
qed simp

section \<open>Lemmas: a lifetime of zero\<close>

lemma evict_idle_zero [simp]: "buckets (evict_idle_buckets now 0 l) = []"
  by (simp add: evict_idle_buckets_def Let_def)

lemma take_token_fresh:
  assumes "float_rounding rnd" "buckets l = []" "capacity = of_nat c" "1 \<le> c" "c \<le> 2 ^ 53"
  shows "fst (take_token rnd now ip capacity refill l)"
proof -
  have "as_secs_f64 rnd 0 = 0"
    using float_rounding_zero [OF assms(1)] by (simp add: as_secs_f64_def)
  moreover have "rnd (of_nat c) = of_nat c" using assms(1,5) by (simp add: float_rounding_def)
  ultimately show ?thesis
    using assms float_rounding_zero [OF assms(1)]
    by (simp add: take_token_def Let_def refilled_def)
qed

section \<open>Lemmas: any sequence of accepts\<close>

definition limiter_step :: "rounding \<Rightarrow> rate_limiter \<Rightarrow> instant \<times> ip_addr \<Rightarrow> rate_limiter" where
  "limiter_step rnd r q = snd (try_take rnd (fst q) (snd q) r)"

definition limiter_inv :: "rate_limiter \<Rightarrow> bool" where
  "limiter_inv r \<longleftrightarrow>
     0 \<le> rl_refill_per_sec r \<and> (\<exists>c \<le> 2 ^ 53. rl_capacity r = of_nat c) \<and>
     limiter_ok (rl_capacity r) (inner r) \<and>
     (0 < rl_max_tracked r \<longrightarrow> length (buckets (inner r)) \<le> rl_max_tracked r)"

lemma limiter_step_eq:
  "limiter_step rnd r q =
     (if limiter_enabled r
      then r\<lparr>inner := snd (try_take_at rnd (fst q) (snd q) (rl_capacity r) (rl_refill_per_sec r)
        (rl_idle_ttl r) (rl_max_tracked r) (inner r))\<rparr>
      else r)"
  by (simp add: limiter_step_def try_take_def split: prod.splits)

lemma limiter_step_inv:
  assumes "float_rounding rnd" and inv: "limiter_inv r"
  shows "limiter_inv (limiter_step rnd r q)"
proof (cases "limiter_enabled r")
  case True
  from inv obtain c where c: "rl_capacity r = of_nat c" "c \<le> 2 ^ 53" by (auto simp: limiter_inv_def)
  with True inv try_take_at_ok [OF assms(1) _ c] try_take_at_bounded show ?thesis
    by (auto simp: limiter_step_eq limiter_inv_def)
next
  case False
  with inv show ?thesis by (simp add: limiter_step_eq)
qed

lemma limiter_system: "float_rounding rnd \<Longrightarrow> step_system (limiter_step rnd) limiter_inv"
  by unfold_locales (rule limiter_step_inv)

lemma limiter_step_fixed [simp]:
  "rl_capacity (limiter_step rnd r q) = rl_capacity r"
  "rl_max_tracked (limiter_step rnd r q) = rl_max_tracked r"
  by (simp_all add: limiter_step_eq)

lemma limiter_run_fixed [simp]:
  "rl_capacity (foldl (limiter_step rnd) r qs) = rl_capacity r"
  "rl_max_tracked (foldl (limiter_step rnd) r qs) = rl_max_tracked r"
  by (induction qs arbitrary: r) simp_all

lemma with_limits_inv: "limiter_inv (with_limits refill burst m ttl)"
proof -
  have "unat (max burst 1) \<le> 2 ^ 53" using unat_below [of "max burst 1"] by simp
  moreover have "0 \<le> rat_of_nat (unat refill)" by (rule of_nat_0_le_iff)
  ultimately show ?thesis
    unfolding limiter_inv_def with_limits_def limiter_ok_def by auto
qed

section \<open>Properties\<close>

text \<open>
  C14 (safety). Under every interleaving of the loads, compare-and-swaps and drops of \<open>n\<close>
  threads, the shared counter of an enabled session cap is the number of guards alive and never
  exceeds the cap.
\<close>

theorem session_cap_safe:
  assumes "n < 2 ^ 64" and "c \<noteq> 0"
  shows "unat (current_sessions (shared (foldl cap_step (cap_system_new c n) es))) =
      holders (foldl cap_step (cap_system_new c n) es) \<and>
    holders (foldl cap_step (cap_system_new c n) es) \<le> unat c"
proof -
  have "cap_inv (foldl cap_step (cap_system_new c n) es)"
    by (rule cap_runs.run_invariant [OF cap_inv_new [OF assms(1)]])
  with assms(2) show ?thesis
    by (auto simp: cap_inv_def cap_system_new_def session_cap_new_def current_sessions_def
        word_le_nat_alt)
qed

theorem session_cap_safe_witness:
  "holders (foldl cap_step (cap_system_new 1 2) [LoadBy 0, LoadBy 1, CasBy 0, CasBy 1]) = 1 \<and>
   holders (foldl cap_step (cap_system_new 1 2) [LoadBy 0, LoadBy 1, CasBy 0, CasBy 1]) \<le> unat (1::u64)"
  using session_cap_safe [of 2 1 "[LoadBy 0, LoadBy 1, CasBy 0, CasBy 1]"]
  by (simp add: cap_system_new_def session_cap_new_def set_pc_def set_in_flight_def Let_def holders_def
      current_sessions_def numeral_2_eq_2)

text \<open>
  C32 (invariant). Whatever accepts a freshly built limiter sees, in whatever order and with
  whatever monotone float rounding that is exact on small integers, an enabled bound on tracked
  addresses holds, no address is tracked twice, and every bucket has between zero and
  \<open>burst\<close> tokens.
\<close>

theorem rate_limiter_bounded:
  assumes "float_rounding rnd" and "0 < m"
  shows "let r = foldl (limiter_step rnd) (with_limits refill burst m ttl) qs in
    length (buckets (inner r)) \<le> m \<and> distinct (map fst (buckets (inner r))) \<and>
    (\<forall>ip b. (ip, b) \<in> set (buckets (inner r)) \<longrightarrow>
       0 \<le> tokens b \<and> tokens b \<le> of_nat (unat (max burst 1)))"
proof -
  define r where "r = foldl (limiter_step rnd) (with_limits refill burst m ttl) qs"
  have "limiter_inv r"
    unfolding r_def by (rule step_system.run_invariant [OF limiter_system [OF assms(1)] with_limits_inv])
  moreover have "rl_capacity r = of_nat (unat (max burst 1))" "rl_max_tracked r = m"
    by (simp_all add: r_def with_limits_def)
  ultimately show ?thesis
    using assms(2) by (simp add: limiter_inv_def limiter_ok_def bucket_ok_def r_def Let_def)
qed

theorem rate_limiter_bounded_witness:
  "length (buckets (inner (foldl (limiter_step (\<lambda>x. x)) (with_limits 5 2 1 300)
     [(0, V4 1), (1, V4 2), (2, V6 1)]))) \<le> 1"
  using rate_limiter_bounded [of "\<lambda>x. x" 1 5 2 300 "[(0, V4 1), (1, V4 2), (2, V6 1)]"]
  by (simp add: float_rounding_id Let_def)

text \<open>
  Eviction at the cap makes room exactly when some tracked address holds a
  whole token; it then drops one bucket that no other beats on tokens, and among equal tokens one
  no other has been idle longer than.
\<close>

theorem eviction_choice:
  "case evict_at_cap l of (made_room, l') \<Rightarrow>
     (made_room \<longleftrightarrow> (\<exists>ip b. (ip, b) \<in> set (buckets l) \<and> 1 \<le> tokens b)) \<and>
     (if made_room
      then \<exists>ip b. (ip, b) \<in> set (buckets l) \<and>
        (\<forall>(ip', b') \<in> set (buckets l).
           tokens b' < tokens b \<or> tokens b' = tokens b \<and> last_touch b \<le> last_touch b') \<and>
        buckets l' = AList.delete ip (buckets l)
      else l' = l)"
proof (cases "evict_at_cap l")
  case (Pair ok l')
  note C = evict_at_cap_cases [OF this]
  show ?thesis
  proof (cases ok)
    case True
    with C obtain ip b where b: "(ip, b) \<in> set (buckets l)"
      and max: "\<And>ip' b'. (ip', b') \<in> set (buckets l) \<Longrightarrow>
        \<not> better_candidate (tokens b', last_touch b') (tokens b, last_touch b)"
      and l': "buckets l' = AList.delete ip (buckets l)" by auto
    have "tokens b' < tokens b \<or> tokens b' = tokens b \<and> last_touch b \<le> last_touch b'"
      if "(ip', b') \<in> set (buckets l)" for ip' b'
      using max [OF that] by (auto simp: better_candidate_def)
    with b l' have "\<exists>ip b. (ip, b) \<in> set (buckets l) \<and>
        (\<forall>(ip', b') \<in> set (buckets l).
           tokens b' < tokens b \<or> tokens b' = tokens b \<and> last_touch b \<le> last_touch b') \<and>
        buckets l' = AList.delete ip (buckets l)" by blast
    with C True Pair show ?thesis by simp
  next
    case False
    with C Pair show ?thesis by simp
  qed
qed

theorem eviction_choice_witness:
  "buckets (snd (evict_at_cap \<lparr>buckets =
       [(V4 1, \<lparr>tokens = 2, last_refill = 5, last_touch = 5\<rparr>),
        (V4 2, \<lparr>tokens = 2, last_refill = 3, last_touch = 3\<rparr>)],
       idle_evictions = 0, lru_evictions = 0, cap_refused = 0\<rparr>)) =
     [(V4 1, \<lparr>tokens = 2, last_refill = 5, last_touch = 5\<rparr>)]"
  using eviction_choice [of "\<lparr>buckets =
       [(V4 1, \<lparr>tokens = 2, last_refill = 5, last_touch = 5\<rparr>),
        (V4 2, \<lparr>tokens = 2, last_refill = 3, last_touch = 3\<rparr>)],
       idle_evictions = 0, lru_evictions = 0, cap_refused = 0\<rparr>"]
  by (simp add: evict_at_cap_def better_candidate_def)

text \<open>
  C33 (bounds). In exact arithmetic, whatever the size of the table and the lifetime of its buckets, an address
  is let in at most \<open>burst\<close> times, plus once per \<open>1/refill\<close> seconds of elapsed time, plus another burst
  for every time its bucket was evicted, idle or at the cap, before it was full again. Nothing is
  forgotten that way, so that the first two terms are the bound whatever the other addresses do, when
  the table is unbounded or has room for every address that connects, and the lifetime is long enough
  to fill a bucket, as the defaults have it for up to 65536 addresses.
\<close>

theorem accept_rate_bound:
  assumes "0 < refill" and "ordered_from 0 reqs" and "list_all (\<lambda>(now, _). now \<le> T) reqs"
  shows "of_nat (accepted ip reqs (take_run (\<lambda>x. x) (with_limits refill burst m ttl) reqs)) \<le>
      rat_of_nat (unat (max burst 1)) + of_nat T / 1000000000 * of_nat (unat refill) +
      of_nat (unat (max burst 1)) * of_nat (forgotten ip (with_limits refill burst m ttl) reqs) \<and>
    (unat (max burst 1) \<le> unat ttl * unat refill \<and> (m = 0 \<or> card (snd ` set reqs) \<le> m) \<longrightarrow>
      forgotten ip (with_limits refill burst m ttl) reqs = 0)"
proof (intro conjI impI)
  let ?r = "with_limits refill burst m ttl"
  have timely: "timely 0 (inner ?r)" by (simp add: timely_def with_limits_def)
  note st = with_limits_steady [OF assms(1), of burst m ttl]
  have "now \<le> T" if "(now, ip') \<in> set reqs" for now ip' using assms(3) that by (auto simp: list_all_iff)
  from accepted_bound [OF st timely assms(2) this]
  show "of_nat (accepted ip reqs (take_run (\<lambda>x. x) ?r reqs)) \<le>
      rat_of_nat (unat (max burst 1)) + of_nat T / 1000000000 * of_nat (unat refill) +
      of_nat (unat (max burst 1)) * of_nat (forgotten ip ?r reqs)"
    by (simp add: avail_def with_limits_def)
  assume "unat (max burst 1) \<le> unat ttl * unat refill \<and> (m = 0 \<or> card (snd ` set reqs) \<le> m)"
  with st have "roomy (unat (max burst 1)) (unat refill) (snd ` set reqs) ?r"
    by (auto simp: roomy_def with_limits_def from_secs_def)
  then show "forgotten ip ?r reqs = 0" by (rule forgotten_none [OF _ timely assms(2)]) simp
qed

text \<open>Two addresses in turn, under the default limits and in a table that has room for one.\<close>

definition in_turn :: "(instant \<times> ip_addr) list" where
  "in_turn = [(0, V4 1), (7, V4 2), (9, V4 1)]"

theorem accept_rate_bound_witness:
  "forgotten (V4 1) (with_limits 50 100 65536 300) in_turn = 0 \<and>
   rat_of_nat (accepted (V4 1) in_turn (take_run (\<lambda>x. x) (with_limits 50 100 65536 300) in_turn)) \<le>
     100 + 9 / 1000000000 * 50 \<and>
   rat_of_nat (accepted (V4 1) in_turn (take_run (\<lambda>x. x) (with_limits 1 2 1 300) in_turn)) \<le>
     2 + 9 / 1000000000 + 2 * of_nat (forgotten (V4 1) (with_limits 1 2 1 300) in_turn)"
proof -
  have run: "ordered_from 0 in_turn" "list_all (\<lambda>(now, _). now \<le> 9) in_turn" by (simp_all add: in_turn_def)
  have "card (snd ` set in_turn) \<le> length in_turn" using card_image_le card_length by (metis List.finite_set le_trans)
  then have room: "card (snd ` set in_turn) \<le> 65536" by (simp add: in_turn_def)
  have units: "unat (max 100 1 :: u32) = 100" "unat (max 2 1 :: u32) = 2" "unat (50 :: u32) = 50" "unat (1 :: u32) = 1"
    "unat (300 :: u64) = 300" "0 < (50 :: u32)" "0 < (1 :: u32)"
    by simp_all
  have "forgotten (V4 1) (with_limits 50 100 65536 300) in_turn = 0"
    using accept_rate_bound [OF units(6) run, of "V4 1" 100 65536 300] room unfolding units by linarith
  then show ?thesis
    using accept_rate_bound [OF units(6) run, of "V4 1" 100 65536 300]
      accept_rate_bound [OF units(7) run, of "V4 1" 2 1 300] unfolding units by simp
qed

text \<open>
  A bucket lifetime of zero seconds switches the limiter off: every bucket is
  dropped before it is consulted, so every accept of every address passes.
\<close>

theorem zero_ttl_never_limits:
  assumes "float_rounding rnd"
  shows "fst (try_take rnd now ip (foldl (limiter_step rnd) (with_limits refill burst m 0) qs))"
proof -
  let ?r = "foldl (limiter_step rnd) (with_limits refill burst m 0) qs"
  have cap: "rl_capacity ?r = of_nat (unat (max burst 1))" by (simp add: with_limits_def)
  have le: "1 \<le> unat (max burst 1)" "unat (max burst 1) \<le> 2 ^ 53"
    using unat_below [of "max burst 1"] by (auto simp: max_def word_le_nat_alt unat_eq_0 not_le)
  have ttl: "rl_idle_ttl ?r = 0"
    by (induction qs rule: rev_induct) (simp_all add: limiter_step_eq with_limits_def from_secs_def)
  show ?thesis
  proof (cases "limiter_enabled ?r")
    case True
    have "fst (try_take_at rnd now ip (rl_capacity ?r) f 0 (rl_max_tracked ?r) (inner ?r))" for f
      using take_token_fresh [OF assms _ cap le]
      by (cases "rl_max_tracked ?r") (simp_all add: try_take_at_def Let_def)
    with True ttl show ?thesis by (simp add: try_take_def case_prod_beta)
  next
    case False
    then show ?thesis by (simp add: try_take_def)
  qed
qed

theorem zero_ttl_never_limits_witness:
  "fst (try_take (\<lambda>x. x) 9 (V4 7) (foldl (limiter_step (\<lambda>x. x)) (with_limits 1 1 10 0)
     [(8, V4 7), (9, V4 7)]))"
  by (rule zero_ttl_never_limits) (rule float_rounding_id)

end
