(* ===== verification/Capability_Dirs.thy ===== *)
theory Capability_Dirs
  imports Worker_Common
begin

text \<open>
  Model of \<^verbatim>\<open>SocketsDialer\<close> (\<^verbatim>\<open>src/worker_common/dial.rs\<close>) and \<^verbatim>\<open>TlsCertSource\<close>
  (\<^verbatim>\<open>src/acceptor/tls_cert.rs\<close>): how a worker reaches its sockets and certificates by name, and, on
  FreeBSD, keeps reaching them in capability mode through directories it opened before. The calls of
  the kernel are parameters. They depend on the state Capsicum keeps of the process: whether it is in
  capability mode, and the rights each of its descriptors is limited to.
\<close>

section \<open>The kernel's side\<close>

datatype cap_right = CAP_LOOKUP | CAP_READ | CAP_CONNECTAT

record cap_state =
  cs_mode :: bool
  cs_rights :: "raw_fd \<Rightarrow> cap_right set"

record ('file, 'stream) cap_kernel =
  ck_state :: cap_state
  ck_open_dir :: "cap_state \<Rightarrow> string \<Rightarrow> raw_fd result"
  ck_limit :: "raw_fd \<Rightarrow> cap_right list \<Rightarrow> unit result"
  ck_open_file :: "cap_state \<Rightarrow> string \<Rightarrow> 'file result"
  ck_openat :: "cap_state \<Rightarrow> raw_fd \<Rightarrow> string \<Rightarrow> 'file result"
  ck_socket :: "raw_fd result"
  ck_nonblock :: "raw_fd \<Rightarrow> unit result"
  ck_connectat :: "cap_state \<Rightarrow> raw_fd \<Rightarrow> raw_fd \<Rightarrow> string \<Rightarrow> (int \<times> error) option"
  ck_settle :: "raw_fd \<Rightarrow> 'stream result"
  ck_connect :: "cap_state \<Rightarrow> string \<Rightarrow> 'stream result"
  ck_escapes :: "raw_fd \<Rightarrow> string \<Rightarrow> bool"

text \<open>
  A descriptor is opened with every right; \<^verbatim>\<open>cap_rights_limit\<close> leaves it those of the list it had.
  \<open>ck_escapes\<close> tells of a name whose lookup, through symbolic links, leaves the directory.
\<close>

definition open_dir_fd ::
  "('file, 'stream) cap_kernel \<Rightarrow> string \<Rightarrow> (raw_fd \<times> ('file, 'stream) cap_kernel) result" where
  "open_dir_fd k dir =
     and_then (ck_open_dir k (ck_state k) dir) (\<lambda>fd.
       Inr (fd, k\<lparr>ck_state := (ck_state k)\<lparr>cs_rights := (cs_rights (ck_state k))(fd := UNIV)\<rparr>\<rparr>))"

definition cap_rights_limit ::
  "('file, 'stream) cap_kernel \<Rightarrow> raw_fd \<Rightarrow> cap_right list \<Rightarrow> ('file, 'stream) cap_kernel result" where
  "cap_rights_limit k fd rs =
     and_then (ck_limit k fd rs) (\<lambda>_.
       Inr (k\<lparr>ck_state := (ck_state k)\<lparr>cs_rights :=
         (cs_rights (ck_state k))(fd := cs_rights (ck_state k) fd \<inter> set rs)\<rparr>\<rparr>))"

section \<open>Paths\<close>

text \<open>Rust's view of a path: its components, the last one as a file name, the others as the parent.\<close>

datatype path_component = RootDir | CurDir | ParentDir | Normal string

definition path_components :: "string \<Rightarrow> path_component list" where
  "path_components p =
     (let parts = split_on (CHR ''/'') p in
      (if starts_with ''/'' p then [RootDir] else if hd parts = ''.'' then [CurDir] else []) @
      map (\<lambda>s. if s = ''..'' then ParentDir else Normal s) (filter (\<lambda>s. s \<noteq> [] \<and> s \<noteq> ''.'') parts))"

definition file_name :: "string \<Rightarrow> string option" where
  "file_name p =
     (case rev (path_components p) of Normal s # _ \<Rightarrow> Some s | _ \<Rightarrow> None)"

definition component_text :: "path_component \<Rightarrow> string" where
  "component_text c =
     (case c of RootDir \<Rightarrow> ''/'' | CurDir \<Rightarrow> ''.'' | ParentDir \<Rightarrow> ''..'' | Normal s \<Rightarrow> s)"

definition parent_path :: "string \<Rightarrow> string option" where
  "parent_path p =
     (case rev (path_components p) of
        [] \<Rightarrow> None
      | RootDir # _ \<Rightarrow> None
      | _ # rest \<Rightarrow> Some (foldl (\<lambda>d c. path_join d (component_text c)) [] (rev rest)))"

section \<open>Dialing sockets\<close>

datatype sockets_dialer = DialPath string | DialFd raw_fd

definition dialer_open ::
  "bool \<Rightarrow> ('file, 'stream) cap_kernel \<Rightarrow> env \<Rightarrow> string \<Rightarrow>
     (sockets_dialer \<times> ('file, 'stream) cap_kernel) result" where
  "dialer_open freebsd k e dir =
     (if \<not> freebsd then Inr (DialPath dir, k)
      else case env_raw_fd e ENV_SOCKETS_DIR_FD of
             Some raw \<Rightarrow> Inr (DialFd raw, k)
           | None \<Rightarrow>
               and_then (open_dir_fd k dir) (\<lambda>(fd, k1).
               and_then (with_context ''cap_rights_limit on sockets_dir'' (cap_rights_limit k1 fd [CAP_CONNECTAT])) (\<lambda>k2.
                 Inr (DialFd fd, k2))))"

definition dir_raw_fd :: "sockets_dialer \<Rightarrow> raw_fd option" where
  "dir_raw_fd d = (case d of DialPath _ \<Rightarrow> None | DialFd fd \<Rightarrow> Some fd)"

text \<open>FreeBSD's \<^verbatim>\<open>sun_path\<close>, \<^verbatim>\<open>EINPROGRESS\<close> and \<^verbatim>\<open>ENOTCAPABLE\<close>.\<close>

definition SUN_PATH_LEN :: nat where "SUN_PATH_LEN = 104"
definition EINPROGRESS :: int where "EINPROGRESS = 36"
definition ENOTCAPABLE :: int where "ENOTCAPABLE = 93"

definition connectat_socket ::
  "('file, 'stream) cap_kernel \<Rightarrow> raw_fd \<Rightarrow> string \<Rightarrow> bool \<Rightarrow> raw_fd result" where
  "connectat_socket k dir name nonblocking =
     and_then (ck_socket k) (\<lambda>sock.
     and_then (if nonblocking then ck_nonblock k sock else Inr ()) (\<lambda>_.
       if SUN_PATH_LEN \<le> length name then Inl [''name too long'']
       else case ck_connectat k (ck_state k) dir sock name of
              None \<Rightarrow> Inr sock
            | Some (errno, err) \<Rightarrow>
                if nonblocking \<and> errno = EINPROGRESS then Inr sock else Inl err))"

definition dial_via_connectat :: "('file, 'stream) cap_kernel \<Rightarrow> raw_fd \<Rightarrow> string \<Rightarrow> 'stream result" where
  "dial_via_connectat k dir name = and_then (connectat_socket k dir name True) (ck_settle k)"

definition dialer_dial :: "('file, 'stream) cap_kernel \<Rightarrow> sockets_dialer \<Rightarrow> string \<Rightarrow> 'stream result" where
  "dialer_dial k d name =
     (case d of
        DialFd fd \<Rightarrow> dial_via_connectat k fd name
      | DialPath dir \<Rightarrow> ck_connect k (ck_state k) (path_join dir name))"

section \<open>Certificates and keys\<close>

record cert_dirs =
  cd_cert_dir :: raw_fd
  cd_key_dir :: raw_fd
  cd_cert_name :: string
  cd_key_name :: string

record tls_cert_source =
  cs_cert_path :: string
  cs_key_path :: string
  cs_dirs :: "cert_dirs option"

definition cert_dir_basename :: "string \<Rightarrow> string result" where
  "cert_dir_basename path =
     (case file_name path of
        None \<Rightarrow> Inl [''TLS path '' @ path @ '' has no filename component'']
      | Some n \<Rightarrow> Inr n)"

definition cert_dir_of :: "string \<Rightarrow> string" where
  "cert_dir_of path =
     (case parent_path path of Some d \<Rightarrow> if d = [] then ''.'' else d | None \<Rightarrow> ''.'')"

definition open_cert_dir_fd ::
  "('file, 'stream) cap_kernel \<Rightarrow> string \<Rightarrow> (raw_fd \<times> ('file, 'stream) cap_kernel) result" where
  "open_cert_dir_fd k path =
     (let dir = cert_dir_of path in
      and_then (with_context (''open cert dir '' @ dir) (open_dir_fd k dir)) (\<lambda>(fd, k1).
      and_then (with_context (''cap_rights_limit on cert dir '' @ dir)
          (cap_rights_limit k1 fd [CAP_LOOKUP, CAP_READ])) (\<lambda>k2.
        Inr (fd, k2))))"

definition openat_read :: "('file, 'stream) cap_kernel \<Rightarrow> raw_fd \<Rightarrow> string \<Rightarrow> 'file result" where
  "openat_read k dir name =
     (if CHR 0x00 \<in> set name then Inl [''cert basename has interior NUL''] else ck_openat k (ck_state k) dir name)"

definition cert_source_open ::
  "bool \<Rightarrow> ('file, 'stream) cap_kernel \<Rightarrow> env \<Rightarrow> tls_config \<Rightarrow>
     (tls_cert_source \<times> ('file, 'stream) cap_kernel) result" where
  "cert_source_open freebsd k e tls =
     (if \<not> freebsd then Inr (\<lparr>cs_cert_path = tls_cert_path tls, cs_key_path = tls_key_path tls, cs_dirs = None\<rparr>, k)
      else
        and_then (cert_dir_basename (tls_cert_path tls)) (\<lambda>cert_name.
        and_then (cert_dir_basename (tls_key_path tls)) (\<lambda>key_name.
        and_then (case env_raw_fd e ENV_CERT_DIR_FD of
            Some raw \<Rightarrow> Inr (raw, k)
          | None \<Rightarrow> with_context (''pre-open cert dir for '' @ tls_cert_path tls)
              (open_cert_dir_fd k (tls_cert_path tls))) (\<lambda>(cert_dir, k1).
        and_then (case env_raw_fd e ENV_KEY_DIR_FD of
            Some raw \<Rightarrow> Inr (raw, k1)
          | None \<Rightarrow> with_context (''pre-open key dir for '' @ tls_key_path tls)
              (open_cert_dir_fd k1 (tls_key_path tls))) (\<lambda>(key_dir, k2).
          Inr (\<lparr>cs_cert_path = tls_cert_path tls, cs_key_path = tls_key_path tls,
            cs_dirs = Some \<lparr>cd_cert_dir = cert_dir, cd_key_dir = key_dir, cd_cert_name = cert_name,
              cd_key_name = key_name\<rparr>\<rparr>, k2))))))"

definition open_cert :: "('file, 'stream) cap_kernel \<Rightarrow> tls_cert_source \<Rightarrow> 'file result" where
  "open_cert k s =
     (case cs_dirs s of
        None \<Rightarrow> with_context (''open cert '' @ cs_cert_path s) (ck_open_file k (ck_state k) (cs_cert_path s))
      | Some d \<Rightarrow> with_context (''openat cert '' @ cs_cert_path s) (openat_read k (cd_cert_dir d) (cd_cert_name d)))"

definition open_key :: "('file, 'stream) cap_kernel \<Rightarrow> tls_cert_source \<Rightarrow> 'file result" where
  "open_key k s =
     (case cs_dirs s of
        None \<Rightarrow> with_context (''open key '' @ cs_key_path s) (ck_open_file k (ck_state k) (cs_key_path s))
      | Some d \<Rightarrow> with_context (''openat key '' @ cs_key_path s) (openat_read k (cd_key_dir d) (cd_key_name d)))"

definition cert_dir_raw_fd :: "tls_cert_source \<Rightarrow> raw_fd option" where
  "cert_dir_raw_fd s = map_option cd_cert_dir (cs_dirs s)"

definition key_dir_raw_fd :: "tls_cert_source \<Rightarrow> raw_fd option" where
  "key_dir_raw_fd s = map_option cd_key_dir (cs_dirs s)"

section \<open>Building an acceptor\<close>

text \<open>Certificates, keys and configurations are the TLS library's.\<close>

datatype 'k pem_read = PemItem 'k | PemNoItems | PemFailed error

record ('file, 'certs, 'key, 'tls) tls_library =
  tl_certs :: "'file \<Rightarrow> 'certs result"
  tl_key :: "'file \<Rightarrow> 'key pem_read"
  tl_single_cert :: "'certs \<Rightarrow> 'key \<Rightarrow> 'tls result"

definition load_certs :: "'certs result \<Rightarrow> 'certs result" where
  "load_certs r = with_context ''parse cert'' r"

definition load_key :: "'key pem_read \<Rightarrow> 'key result" where
  "load_key r =
     with_context ''parse key''
       (case r of PemItem k \<Rightarrow> Inr k | PemNoItems \<Rightarrow> Inl [''no private key in key file''] | PemFailed e \<Rightarrow> Inl e)"

definition build_tls_acceptor_from_files ::
  "injected_fault option \<Rightarrow> ('file, 'certs, 'key, 'tls) tls_library \<Rightarrow> 'file \<Rightarrow> 'file \<Rightarrow> 'tls result" where
  "build_tls_acceptor_from_files fault lib cert key =
     (case fault of
        Some f \<Rightarrow> Inl (''synthetic cert parse failure'' # into_anyhow f)
      | None \<Rightarrow>
          and_then (load_certs (tl_certs lib cert)) (\<lambda>cs.
            and_then (load_key (tl_key lib key)) (\<lambda>k.
              with_context ''ServerConfig::with_single_cert'' (tl_single_cert lib cs k))))"

text \<open>The two faults are what the injection points returned.\<close>

definition build_acceptor ::
  "('file, 'stream) cap_kernel \<Rightarrow> ('file, 'certs, 'key, 'tls) tls_library \<Rightarrow> injected_fault option \<Rightarrow>
     injected_fault option \<Rightarrow> tls_cert_source \<Rightarrow> 'tls result" where
  "build_acceptor k lib load_fault parse_fault s =
     (case load_fault of
        Some f \<Rightarrow> Inl (''synthetic cert load failure'' # into_anyhow f)
      | None \<Rightarrow>
          and_then (with_context ''open TLS cert'' (open_cert k s)) (\<lambda>cert.
            and_then (with_context ''open TLS key'' (open_key k s)) (\<lambda>key.
              with_context (''build TLS acceptor from '' @ cs_cert_path s @ '' / '' @ cs_key_path s)
                (build_tls_acceptor_from_files parse_fault lib cert key))))"

section \<open>Capability mode\<close>

text \<open>
  What the kernel documents of Capsicum. A lookup from a descriptor needs the rights of the call, and a
  name that leaves the directory is refused in capability mode and on a limited descriptor; any other
  lookup is the one a process without limits would make. In capability mode no path can be looked up
  at all.
\<close>

definition unlimited :: cap_state where
  "unlimited = \<lparr>cs_mode = False, cs_rights = (\<lambda>_. UNIV)\<rparr>"

definition permitted ::
  "(raw_fd \<Rightarrow> string \<Rightarrow> bool) \<Rightarrow> cap_state \<Rightarrow> cap_right set \<Rightarrow> raw_fd \<Rightarrow> string \<Rightarrow> bool" where
  "permitted escapes s needed fd name \<longleftrightarrow>
     needed \<subseteq> cs_rights s fd \<and> (escapes fd name \<longrightarrow> \<not> cs_mode s \<and> cs_rights s fd = UNIV)"

definition capsicum :: "('file, 'stream) cap_kernel \<Rightarrow> bool" where
  "capsicum k \<longleftrightarrow>
     (\<forall>s fd n. if permitted (ck_escapes k) s {CAP_LOOKUP, CAP_READ} fd n
        then ck_openat k s fd n = ck_openat k unlimited fd n else isl (ck_openat k s fd n)) \<and>
     (\<forall>s fd sock n. if permitted (ck_escapes k) s {CAP_CONNECTAT} fd n
        then ck_connectat k s fd sock n = ck_connectat k unlimited fd sock n
        else fst ` set_option (ck_connectat k s fd sock n) = {ENOTCAPABLE}) \<and>
     (\<forall>s p. if cs_mode s then isl (ck_open_dir k s p) \<and> isl (ck_open_file k s p) \<and> isl (ck_connect k s p)
        else ck_open_file k s p = ck_open_file k unlimited p)"

definition enter_capability_mode :: "('file, 'stream) cap_kernel \<Rightarrow> ('file, 'stream) cap_kernel" where
  "enter_capability_mode k = k\<lparr>ck_state := (ck_state k)\<lparr>cs_mode := True\<rparr>\<rparr>"

text \<open>For a process without limits, a file looked up from an open directory is the file of that path.\<close>

definition directory_lookup :: "('file, 'stream) cap_kernel \<Rightarrow> bool" where
  "directory_lookup k \<longleftrightarrow>
     (\<forall>s d fd n p. ck_open_dir k s d = Inr fd \<and> (p = path_join d n \<or> d = ''.'' \<and> p = n) \<longrightarrow>
        ck_openat k unlimited fd n = ck_open_file k unlimited p)"

text \<open>A path that is its directory and its file name, put together.\<close>

definition plain_path :: "string \<Rightarrow> bool" where
  "plain_path p \<longleftrightarrow>
     (\<exists>n. file_name p = Some n \<and> CHR 0x00 \<notin> set n \<and> (p = path_join (cert_dir_of p) n \<or> cert_dir_of p = ''.'' \<and> p = n))"

text \<open>A source whose two names do not lead out of their directories.\<close>

definition stays_inside :: "('file, 'stream) cap_kernel \<Rightarrow> tls_cert_source \<Rightarrow> bool" where
  "stays_inside k src \<longleftrightarrow>
     (case cs_dirs src of
        None \<Rightarrow> True
      | Some d \<Rightarrow> \<not> ck_escapes k (cd_cert_dir d) (cd_cert_name d) \<and> \<not> ck_escapes k (cd_key_dir d) (cd_key_name d))"

subsection \<open>The same kernel in another state\<close>

lemma capsicum_state [simp]: "capsicum (k\<lparr>ck_state := s\<rparr>) = capsicum k"
  "directory_lookup (k\<lparr>ck_state := s\<rparr>) = directory_lookup k"
  by (simp_all add: capsicum_def directory_lookup_def)

lemma enter_simps [simp]:
  "ck_state (enter_capability_mode k) = (ck_state k)\<lparr>cs_mode := True\<rparr>"
  "ck_openat (enter_capability_mode k) = ck_openat k" "ck_connectat (enter_capability_mode k) = ck_connectat k"
  "ck_open_file (enter_capability_mode k) = ck_open_file k" "ck_connect (enter_capability_mode k) = ck_connect k"
  "ck_escapes (enter_capability_mode k) = ck_escapes k"
  "capsicum (enter_capability_mode k) = capsicum k"
  by (simp_all add: enter_capability_mode_def)

lemma openat_law:
  assumes "capsicum k"
  shows "permitted (ck_escapes k) s {CAP_LOOKUP, CAP_READ} fd n \<Longrightarrow> ck_openat k s fd n = ck_openat k unlimited fd n"
    and "\<not> permitted (ck_escapes k) s {CAP_LOOKUP, CAP_READ} fd n \<Longrightarrow> isl (ck_openat k s fd n)"
  using assms unfolding capsicum_def by meson+

lemma connectat_law:
  assumes "capsicum k"
  shows "permitted (ck_escapes k) s {CAP_CONNECTAT} fd n \<Longrightarrow> ck_connectat k s fd sock n = ck_connectat k unlimited fd sock n"
    and "\<not> permitted (ck_escapes k) s {CAP_CONNECTAT} fd n \<Longrightarrow>
      \<exists>err. ck_connectat k s fd sock n = Some (ENOTCAPABLE, err)"
proof -
  show "permitted (ck_escapes k) s {CAP_CONNECTAT} fd n \<Longrightarrow> ck_connectat k s fd sock n = ck_connectat k unlimited fd sock n"
    using assms unfolding capsicum_def by meson
  assume "\<not> permitted (ck_escapes k) s {CAP_CONNECTAT} fd n"
  then have "fst ` set_option (ck_connectat k s fd sock n) = {ENOTCAPABLE}"
    using assms unfolding capsicum_def by meson
  then show "\<exists>err. ck_connectat k s fd sock n = Some (ENOTCAPABLE, err)"
    by (cases "ck_connectat k s fd sock n") auto
qed

lemma paths_law:
  assumes "capsicum k"
  shows "cs_mode s \<Longrightarrow> isl (ck_open_dir k s p) \<and> isl (ck_open_file k s p) \<and> isl (ck_connect k s p)"
    and "\<not> cs_mode s \<Longrightarrow> ck_open_file k s p = ck_open_file k unlimited p"
  using assms unfolding capsicum_def by meson+

text \<open>On a limited descriptor nothing changes: the lookups were confined to the directory all along.\<close>

lemma permitted_enter:
  assumes "cs_rights s fd \<noteq> UNIV"
  shows "permitted escapes (s\<lparr>cs_mode := True\<rparr>) needed fd n = permitted escapes s needed fd n"
  using assms by (auto simp: permitted_def)

lemma openat_read_enters:
  assumes "capsicum k" and "cs_rights (ck_state k) fd \<noteq> UNIV" and "openat_read k fd n = Inr f"
  shows "openat_read (enter_capability_mode k) fd n = Inr f"
proof -
  have f: "ck_openat k (ck_state k) fd n = Inr f" "CHR 0x00 \<notin> set n"
    using assms(3) by (auto simp: openat_read_def split: if_splits)
  then have ok: "permitted (ck_escapes k) (ck_state k) {CAP_LOOKUP, CAP_READ} fd n"
    using openat_law(2) [OF assms(1)] by force
  then show ?thesis
    using f openat_law(1) [OF assms(1)] permitted_enter [OF assms(2)]
    by (metis openat_read_def enter_simps(1,2))
qed

subsection \<open>What a start leaves\<close>

lemma open_dir_limited:
  assumes "open_dir_fd k d = Inr (fd, k1)" and "cap_rights_limit k1 fd rs = Inr k2"
  shows "ck_open_dir k (ck_state k) d = Inr fd \<and>
    k2 = k\<lparr>ck_state := (ck_state k)\<lparr>cs_rights := (cs_rights (ck_state k))(fd := set rs)\<rparr>\<rparr>"
  using assms by (auto simp: open_dir_fd_def cap_rights_limit_def and_then_Inr_iff)

lemma open_cert_dir_Inr:
  assumes "open_cert_dir_fd k p = Inr (fd, k')"
  shows "ck_open_dir k (ck_state k) (cert_dir_of p) = Inr fd"
    and "k' = k\<lparr>ck_state := (ck_state k)\<lparr>cs_rights := (cs_rights (ck_state k))(fd := {CAP_LOOKUP, CAP_READ})\<rparr>\<rparr>"
  using assms by (auto simp: open_cert_dir_fd_def and_then_Inr_iff Let_def dest!: open_dir_limited)

lemma dialer_open_Inr:
  assumes "dialer_open True k e dir = Inr (d, k')"
  obtains fd where "d = DialFd fd" and "env_raw_fd e ENV_SOCKETS_DIR_FD = Some fd" and "k' = k"
  | fd where "d = DialFd fd" and "env_raw_fd e ENV_SOCKETS_DIR_FD = None" and "ck_open_dir k (ck_state k) dir = Inr fd"
    and "k' = k\<lparr>ck_state := (ck_state k)\<lparr>cs_rights := (cs_rights (ck_state k))(fd := {CAP_CONNECTAT})\<rparr>\<rparr>"
  using assms by (auto simp: dialer_open_def and_then_Inr_iff split: option.splits dest!: open_dir_limited)

lemma cert_source_opened:
  assumes "cert_source_open True k e tls = Inr (src, k2)" and "env_raw_fd e ENV_CERT_DIR_FD = None"
    and "env_raw_fd e ENV_KEY_DIR_FD = None"
  obtains cd kd cn kn k1 where "src = \<lparr>cs_cert_path = tls_cert_path tls, cs_key_path = tls_key_path tls,
      cs_dirs = Some \<lparr>cd_cert_dir = cd, cd_key_dir = kd, cd_cert_name = cn, cd_key_name = kn\<rparr>\<rparr>"
    and "cert_dir_basename (tls_cert_path tls) = Inr cn" and "cert_dir_basename (tls_key_path tls) = Inr kn"
    and "open_cert_dir_fd k (tls_cert_path tls) = Inr (cd, k1)" and "open_cert_dir_fd k1 (tls_key_path tls) = Inr (kd, k2)"
  using assms by (auto simp: cert_source_open_def and_then_Inr_iff)

text \<open>Opening changes nothing of the kernel but its record of this process.\<close>

lemma dialer_open_state: "dialer_open True k e dir = Inr (d, k') \<Longrightarrow> k' = k\<lparr>ck_state := ck_state k'\<rparr>"
  by (auto elim: dialer_open_Inr)

lemma cert_source_open_state:
  assumes "cert_source_open True k e tls = Inr (src, k')" shows "k' = k\<lparr>ck_state := ck_state k'\<rparr>"
  using assms
  by (auto simp: cert_source_open_def and_then_Inr_iff split: option.splits dest!: open_cert_dir_Inr(2))

lemma build_acceptor_Inr_iff:
  "build_acceptor k lib lf pf src = Inr tls \<longleftrightarrow>
     (\<exists>c ky. lf = None \<and> open_cert k src = Inr c \<and> open_key k src = Inr ky \<and>
        build_tls_acceptor_from_files pf lib c ky = Inr tls)"
  by (auto simp: build_acceptor_def and_then_Inr_iff split: option.splits)

text \<open>On FreeBSD both hold descriptors, and a successor that is handed them makes no call at all.\<close>

lemma dialer_adopted:
  assumes "dialer_open True k e dir = Inr (d, k1)" and "env_raw_fd e' ENV_SOCKETS_DIR_FD = dir_raw_fd d"
  shows "dialer_open True k' e' dir' = Inr (d, k')"
proof -
  obtain fd where "d = DialFd fd" using dialer_open_Inr [OF assms(1)] by metis
  then show ?thesis using assms(2) by (simp add: dialer_open_def dir_raw_fd_def)
qed

lemma cert_source_adopted:
  assumes "cert_source_open True k e tls = Inr (src, k1)" and "env_raw_fd e' ENV_CERT_DIR_FD = cert_dir_raw_fd src"
    and "env_raw_fd e' ENV_KEY_DIR_FD = key_dir_raw_fd src"
  shows "cert_source_open True k' e' tls = Inr (src, k')"
proof -
  obtain cd kd cn kn where src: "src = \<lparr>cs_cert_path = tls_cert_path tls, cs_key_path = tls_key_path tls,
      cs_dirs = Some \<lparr>cd_cert_dir = cd, cd_key_dir = kd, cd_cert_name = cn, cd_key_name = kn\<rparr>\<rparr>"
    and names: "cert_dir_basename (tls_cert_path tls) = Inr cn" "cert_dir_basename (tls_key_path tls) = Inr kn"
    using assms(1) by (auto simp: cert_source_open_def and_then_Inr_iff)
  show ?thesis
    using assms(2,3) names by (simp add: cert_source_open_def src cert_dir_raw_fd_def key_dir_raw_fd_def)
qed

text \<open>The directories a source was handed, by its own predecessor, came with limited rights.\<close>

definition handed_limited :: "('file, 'stream) cap_kernel \<Rightarrow> env \<Rightarrow> bool" where
  "handed_limited k e \<longleftrightarrow>
     list_all (\<lambda>name. case env_raw_fd e name of None \<Rightarrow> True | Some fd \<Rightarrow> cs_rights (ck_state k) fd \<noteq> UNIV)
       [ENV_CERT_DIR_FD, ENV_KEY_DIR_FD]"

lemma rights_not_all: "{CAP_LOOKUP, CAP_READ} \<noteq> (UNIV :: cap_right set)" "{CAP_CONNECTAT} \<noteq> (UNIV :: cap_right set)"
  by auto

lemma open_cert_dir_rights:
  assumes "open_cert_dir_fd k p = Inr (fd, k')"
  shows "cs_rights (ck_state k') = (cs_rights (ck_state k))(fd := {CAP_LOOKUP, CAP_READ})"
  using open_cert_dir_Inr(2) [OF assms] by simp

lemma cert_source_limited:
  assumes "cert_source_open True k e tls = Inr (src, k2)" and "handed_limited k e"
  obtains d where "cs_dirs src = Some d" and "cs_rights (ck_state k2) (cd_cert_dir d) \<noteq> UNIV"
    and "cs_rights (ck_state k2) (cd_key_dir d) \<noteq> UNIV"
proof -
  obtain cd kd k1 cn kn where
      cert: "(case env_raw_fd e ENV_CERT_DIR_FD of Some raw \<Rightarrow> Inr (raw, k)
        | None \<Rightarrow> with_context (''pre-open cert dir for '' @ tls_cert_path tls)
            (open_cert_dir_fd k (tls_cert_path tls))) = Inr (cd, k1)"
    and key: "(case env_raw_fd e ENV_KEY_DIR_FD of Some raw \<Rightarrow> Inr (raw, k1)
        | None \<Rightarrow> with_context (''pre-open key dir for '' @ tls_key_path tls)
            (open_cert_dir_fd k1 (tls_key_path tls))) = Inr (kd, k2)"
    and src: "cs_dirs src = Some \<lparr>cd_cert_dir = cd, cd_key_dir = kd, cd_cert_name = cn, cd_key_name = kn\<rparr>"
    using assms(1) by (auto simp: cert_source_open_def and_then_Inr_iff)
  have cd: "cs_rights (ck_state k1) cd \<noteq> UNIV"
    and old: "cs_rights (ck_state k) fd \<noteq> UNIV \<Longrightarrow> cs_rights (ck_state k1) fd \<noteq> UNIV" for fd
    using cert assms(2) rights_not_all(1)
    by (auto simp: handed_limited_def and_then_Inr_iff open_cert_dir_rights split: option.splits)
  have "cs_rights (ck_state k2) kd \<noteq> UNIV"
    using key assms(2) rights_not_all(1) old
    by (auto simp: handed_limited_def and_then_Inr_iff open_cert_dir_rights split: option.splits)
  moreover have "cs_rights (ck_state k2) cd \<noteq> UNIV"
    using key cd rights_not_all(1) by (auto simp: open_cert_dir_rights split: option.splits)
  ultimately show thesis using that [OF src] by simp
qed

lemma build_in_capability_mode:
  assumes "capsicum k" and "cs_dirs src = Some d" and "cs_rights (ck_state k) (cd_cert_dir d) \<noteq> UNIV"
    and "cs_rights (ck_state k) (cd_key_dir d) \<noteq> UNIV" and "build_acceptor k lib lf pf src = Inr tls"
  shows "build_acceptor (enter_capability_mode k) lib lf pf src = Inr tls"
  using assms(2,5) openat_read_enters [OF assms(1,3)] openat_read_enters [OF assms(1,4)]
  by (auto simp: build_acceptor_Inr_iff open_cert_def open_key_def)

text \<open>What a limited directory still allows, in capability mode as well.\<close>

lemma opened_dir_reads:
  assumes "capsicum k" and "directory_lookup k" and "ck_open_dir k s (cert_dir_of p) = Inr fd"
    and "cs_rights (ck_state k) fd = {CAP_LOOKUP, CAP_READ}" and "plain_path p" and "cert_dir_basename p = Inr n"
  shows "openat_read k fd n = Inr f \<longleftrightarrow> \<not> ck_escapes k fd n \<and> ck_open_file k unlimited p = Inr f"
proof -
  from assms(5,6) have n: "CHR 0x00 \<notin> set n" "p = path_join (cert_dir_of p) n \<or> cert_dir_of p = ''.'' \<and> p = n"
    by (auto simp: plain_path_def cert_dir_basename_def)
  have found: "ck_openat k unlimited fd n = ck_open_file k unlimited p"
    using assms(2,3) n(2) unfolding directory_lookup_def by blast
  show ?thesis
  proof (cases "ck_escapes k fd n")
    case True
    then have "isl (ck_openat k (ck_state k) fd n)"
      by (intro openat_law(2) [OF assms(1)]) (simp add: permitted_def assms(4) rights_not_all)
    with n(1) True show ?thesis by (auto simp: openat_read_def)
  next
    case False
    then have "ck_openat k (ck_state k) fd n = ck_openat k unlimited fd n"
      by (intro openat_law(1) [OF assms(1)]) (simp add: permitted_def assms(4))
    with n(1) False found show ?thesis by (simp add: openat_read_def)
  qed
qed

lemma dial_permitted:
  assumes "capsicum k" and "cs_rights (ck_state k) fd = {CAP_CONNECTAT}" and "\<not> ck_escapes k fd name"
  shows "dialer_dial k (DialFd fd) name = dialer_dial (k\<lparr>ck_state := unlimited\<rparr>) (DialFd fd) name"
proof -
  have "ck_connectat k (ck_state k) fd sock name = ck_connectat k unlimited fd sock name" for sock
    by (rule connectat_law(1) [OF assms(1)]) (simp add: permitted_def assms(2,3))
  then show ?thesis
    by (simp add: dialer_dial_def dial_via_connectat_def connectat_socket_def cong: if_cong)
qed

lemma dial_refused:
  assumes "capsicum k" and "\<not> permitted (ck_escapes k) (ck_state k) {CAP_CONNECTAT} fd name"
  shows "isl (connectat_socket k fd name nonblocking)" and "isl (dialer_dial k (DialFd fd) name)"
proof -
  obtain err where err: "\<And>sock. ck_connectat k (ck_state k) fd sock name = Some (ENOTCAPABLE, err sock)"
    using connectat_law(2) [OF assms] by metis
  have refused: "isl (connectat_socket k fd name nb)" for nb
    using err by (simp add: connectat_socket_def and_then_def ENOTCAPABLE_def EINPROGRESS_def split: sum.splits)
  then show "isl (connectat_socket k fd name nonblocking)" .
  from refused [of True] show "isl (dialer_dial k (DialFd fd) name)"
    by (auto simp: dialer_dial_def dial_via_connectat_def and_then_def isl_def split: sum.splits)
qed

text \<open>What the worker holds once it is in capability mode.\<close>

lemma capability_start:
  assumes "capsicum before" and "dialer_open True before e dir = Inr (d, k1)" and "cert_source_open True k1 e tls = Inr (src, k2)"
    and "env_raw_fd e ENV_SOCKETS_DIR_FD = None" and "env_raw_fd e ENV_CERT_DIR_FD = None"
    and "env_raw_fd e ENV_KEY_DIR_FD = None"
    and "dir_raw_fd d = Some dial_fd" and "cert_dir_raw_fd src = Some cert_fd" and "dial_fd \<noteq> cert_fd"
    and "key_dir_raw_fd src = Some key_fd" and "dial_fd \<noteq> key_fd"
  obtains s cn kn s1 s2 where "d = DialFd dial_fd" and "\<not> cs_mode (ck_state before)"
    and "src = \<lparr>cs_cert_path = tls_cert_path tls, cs_key_path = tls_key_path tls,
      cs_dirs = Some \<lparr>cd_cert_dir = cert_fd, cd_key_dir = key_fd, cd_cert_name = cn, cd_key_name = kn\<rparr>\<rparr>"
    and "cert_dir_basename (tls_cert_path tls) = Inr cn" and "cert_dir_basename (tls_key_path tls) = Inr kn"
    and "ck_open_dir before s1 (cert_dir_of (tls_cert_path tls)) = Inr cert_fd"
    and "ck_open_dir before s2 (cert_dir_of (tls_key_path tls)) = Inr key_fd"
    and "enter_capability_mode k2 = before\<lparr>ck_state := s\<rparr>" and "cs_mode s"
    and "cs_rights s dial_fd = {CAP_CONNECTAT}" and "cs_rights s cert_fd = {CAP_LOOKUP, CAP_READ}"
    and "cs_rights s key_fd = {CAP_LOOKUP, CAP_READ}"
proof -
  obtain cn kn k' where src: "src = \<lparr>cs_cert_path = tls_cert_path tls, cs_key_path = tls_key_path tls,
      cs_dirs = Some \<lparr>cd_cert_dir = cert_fd, cd_key_dir = key_fd, cd_cert_name = cn, cd_key_name = kn\<rparr>\<rparr>"
    and names: "cert_dir_basename (tls_cert_path tls) = Inr cn" "cert_dir_basename (tls_key_path tls) = Inr kn"
    and dirs: "open_cert_dir_fd k1 (tls_cert_path tls) = Inr (cert_fd, k')"
      "open_cert_dir_fd k' (tls_key_path tls) = Inr (key_fd, k2)"
    by (rule cert_source_opened [OF assms(3,5,6)]) (use assms(8,10) in \<open>auto simp: cert_dir_raw_fd_def key_dir_raw_fd_def\<close>)
  have d: "d = DialFd dial_fd" and opens: "ck_open_dir before (ck_state before) dir = Inr dial_fd"
    and k1: "k1 = before\<lparr>ck_state := (ck_state before)\<lparr>cs_rights := (cs_rights (ck_state before))(dial_fd := {CAP_CONNECTAT})\<rparr>\<rparr>"
    using dialer_open_Inr [OF assms(2)] assms(4,7)
    by (metis dir_raw_fd_def option.distinct(1) option.inject sockets_dialer.simps(6))+
  from opens have free: "\<not> cs_mode (ck_state before)" using paths_law(1) [OF assms(1)] by (metis isl_def sum.distinct(1))
  note o1 = open_cert_dir_Inr [OF dirs(1)] and o2 = open_cert_dir_Inr [OF dirs(2)]
  show thesis
    by (rule that [OF d free src names, of "ck_state k1" "ck_state k'" "(ck_state k2)\<lparr>cs_mode := True\<rparr>"])
      (use o1 o2 assms(9,11) in \<open>simp_all add: enter_capability_mode_def k1\<close>)
qed

section \<open>Properties\<close>


text \<open>
  A kernel with two directories, whose files are their own names; \<^verbatim>\<open>live.pem\<close> is a symbolic link that leads
  out of its directory.
\<close>

definition links_out :: "raw_fd \<Rightarrow> string \<Rightarrow> bool" where
  "links_out fd n \<longleftrightarrow> n = ''live.pem''"

definition two_dirs :: "(string, unit) cap_kernel" where
  "two_dirs = \<lparr>
     ck_state = unlimited,
     ck_open_dir = (\<lambda>s d. if cs_mode s then Inl [''ECAPMODE''] else if d = ''/etc'' then Inr 9
        else if d = ''/run'' then Inr 8 else Inl [''ENOENT'']),
     ck_limit = (\<lambda>_ _. Inr ()),
     ck_open_file = (\<lambda>s p. if cs_mode s then Inl [''ECAPMODE''] else Inr p),
     ck_openat = (\<lambda>s fd n. if permitted links_out s {CAP_LOOKUP, CAP_READ} fd n
        then Inr ((if fd = 9 then ''/etc/'' else ''/run/'') @ n) else Inl [''ENOTCAPABLE'']),
     ck_socket = Inr 5, ck_nonblock = (\<lambda>_. Inr ()),
     ck_connectat = (\<lambda>s fd _ n. if permitted links_out s {CAP_CONNECTAT} fd n then None
        else Some (ENOTCAPABLE, [''ENOTCAPABLE''])),
     ck_settle = (\<lambda>_. Inr ()), ck_connect = (\<lambda>s _. if cs_mode s then Inl [''ECAPMODE''] else Inr ()),
     ck_escapes = links_out\<rparr>"

lemma permitted_unlimited: "permitted escapes unlimited needed fd n"
  by (simp add: permitted_def unlimited_def)

lemma unlimited_mode [simp]: "\<not> cs_mode unlimited"
  by (simp add: unlimited_def)

lemma two_dirs_lookup: "directory_lookup two_dirs"
  by (auto simp: directory_lookup_def two_dirs_def path_join_def permitted_unlimited split: if_splits)

lemma two_dirs_capsicum: "capsicum two_dirs"
  unfolding capsicum_def by (simp add: two_dirs_def permitted_unlimited)

definition etc_tls :: tls_config where
  "etc_tls = \<lparr>tls_cert_path = ''/etc/c.pem'', tls_key_path = ''/etc/k.pem''\<rparr>"

definition etc_source :: tls_cert_source where
  "etc_source = \<lparr>cs_cert_path = ''/etc/c.pem'', cs_key_path = ''/etc/k.pem'',
     cs_dirs = Some \<lparr>cd_cert_dir = 9, cd_key_dir = 9, cd_cert_name = ''c.pem'', cd_key_name = ''k.pem''\<rparr>\<rparr>"

definition etc_lib :: "(string, string, string, string \<times> string) tls_library" where
  "etc_lib = \<lparr>tl_certs = Inr, tl_key = PemItem, tl_single_cert = (\<lambda>c k. Inr (c, k))\<rparr>"

definition two_dirs_limited :: "(string, unit) cap_kernel" where
  "two_dirs_limited = two_dirs\<lparr>ck_state := \<lparr>cs_mode = False,
     cs_rights = (\<lambda>_. UNIV)(8 := {CAP_CONNECTAT}, 9 := {CAP_LOOKUP, CAP_READ})\<rparr>\<rparr>"

lemma etc_names:
  "cert_dir_of ''/etc/c.pem'' = ''/etc''" "cert_dir_of ''/etc/k.pem'' = ''/etc''"
  "file_name ''/etc/c.pem'' = Some ''c.pem''" "file_name ''/etc/k.pem'' = Some ''k.pem''"
  by code_simp+

lemma two_dirs_opens:
  assumes "env_raw_fd e ENV_SOCKETS_DIR_FD = None" and "env_raw_fd e ENV_CERT_DIR_FD = None"
    and "env_raw_fd e ENV_KEY_DIR_FD = None"
  obtains k1 where "dialer_open True two_dirs e ''/run'' = Inr (DialFd 8, k1)"
    and "cert_source_open True k1 e etc_tls = Inr (etc_source, two_dirs_limited)"
proof -
  have "\<exists>k1. dialer_open True two_dirs e ''/run'' = Inr (DialFd 8, k1) \<and>
      cert_source_open True k1 e etc_tls = Inr (etc_source, two_dirs_limited)"
    using assms
    by (auto simp: dialer_open_def cert_source_open_def cert_dir_basename_def open_cert_dir_fd_def etc_names etc_tls_def
        etc_source_def open_dir_fd_def cap_rights_limit_def two_dirs_def two_dirs_limited_def unlimited_def Let_def
        fun_upd_def intro!: ext)
  then show thesis using that by blast
qed

lemma etc_builds: "build_acceptor two_dirs_limited etc_lib None None etc_source = Inr (''/etc/c.pem'', ''/etc/k.pem'')"
  by (simp add: build_acceptor_def open_cert_def open_key_def etc_source_def openat_read_def two_dirs_def two_dirs_limited_def
      build_tls_acceptor_from_files_def load_certs_def load_key_def etc_lib_def permitted_def links_out_def)


end
