(* ===== verification/Acceptor.thy ===== *)
theory Acceptor
  imports Tls_Drainer Resource_Limits Capability_Dirs
begin

text \<open>
  Model of the acceptors (\<^verbatim>\<open>src/acceptor.rs\<close>, \<^verbatim>\<open>src/acceptor/data.rs\<close>, \<^verbatim>\<open>src/acceptor/control.rs\<close>,
  \<^verbatim>\<open>do_upgrade\<close> of \<^verbatim>\<open>src/acceptor/upgrade.rs\<close>): the admission of a
  client, the notice to the scanner, the reload of the certificate, and the acceptor's loop with its
  control actions. The clock, the sockets and the TLS library are parameters.
\<close>

section \<open>Roles and addresses\<close>

datatype role = Plain | Tls

definition role_name :: "role \<Rightarrow> string" where
  "role_name r = (case r of Plain \<Rightarrow> ''plain'' | Tls \<Rightarrow> ''tls'')"

definition role_port :: "role \<Rightarrow> config \<Rightarrow> u16" where
  "role_port r cfg = (case r of Plain \<Rightarrow> plain_port cfg | Tls \<Rightarrow> tls_port cfg)"

text \<open>A peer address; an IPv6 one has a scope.\<close>

datatype sock_addr = SockV4 "32 word" u16 | SockV6 "128 word" u32 u16

definition addr_ip :: "sock_addr \<Rightarrow> ip_addr" where
  "addr_ip a = (case a of SockV4 ip _ \<Rightarrow> V4 ip | SockV6 ip _ _ \<Rightarrow> V6 ip)"

definition addr_port :: "sock_addr \<Rightarrow> u16" where
  "addr_port a = (case a of SockV4 _ p \<Rightarrow> p | SockV6 _ _ p \<Rightarrow> p)"

text \<open>The standard library's text of addresses.\<close>

fun intersperse :: "string \<Rightarrow> string list \<Rightarrow> string" where
  "intersperse sep [] = []"
| "intersperse sep [x] = x"
| "intersperse sep (x # xs) = x @ sep @ intersperse sep xs"

definition show_ipv4 :: "32 word \<Rightarrow> string" where
  "show_ipv4 ip = intersperse ''.'' (map (\<lambda>k. dec (unat ip div 256 ^ k mod 256)) [3, 2, 1, 0])"

definition segments :: "128 word \<Rightarrow> nat list" where
  "segments ip = map (\<lambda>k. unat ip div 65536 ^ k mod 65536) [7, 6, 5, 4, 3, 2, 1, 0]"

text \<open>The first longest run of zero segments: its start and length.\<close>

fun zero_run :: "nat \<Rightarrow> nat \<times> nat \<Rightarrow> nat \<times> nat \<Rightarrow> nat list \<Rightarrow> nat \<times> nat" where
  "zero_run i cur best [] = best"
| "zero_run i (start, len) (bstart, blen) (s # ss) =
     (if s = 0
      then let start' = (if len = 0 then i else start); len' = len + 1
           in zero_run (i + 1) (start', len') (if blen < len' then (start', len') else (bstart, blen)) ss
      else zero_run (i + 1) (0, 0) (bstart, blen) ss)"

definition show_ipv6 :: "128 word \<Rightarrow> string" where
  "show_ipv6 ip =
     (let ss = segments ip in
      if take 6 ss = [0, 0, 0, 0, 0, 65535] then ''::ffff:'' @ show_ipv4 (ucast ip)
      else case zero_run 0 (0, 0) (0, 0) ss of
             (start, len) \<Rightarrow>
               if 1 < len
               then intersperse '':'' (map hex (take start ss)) @ ''::'' @ intersperse '':'' (map hex (drop (start + len) ss))
               else intersperse '':'' (map hex ss))"

definition show_ip :: "ip_addr \<Rightarrow> string" where
  "show_ip ip = (case ip of V4 w \<Rightarrow> show_ipv4 w | V6 w \<Rightarrow> show_ipv6 w)"

definition show_addr :: "sock_addr \<Rightarrow> string" where
  "show_addr a =
     (case a of
        SockV4 ip p \<Rightarrow> show_ipv4 ip @ '':'' @ dec (unat p)
      | SockV6 ip scope p \<Rightarrow>
          ''['' @ show_ipv6 ip @ (if scope = 0 then [] else ''%'' @ dec (unat scope)) @ '']:'' @ dec (unat p))"

section \<open>The notice to the scanner\<close>

definition scan_notice :: "role \<Rightarrow> sock_addr \<Rightarrow> u16 \<Rightarrow> string \<Rightarrow> scan_request" where
  "scan_notice role peer server_port trace_id =
     SessionObserved (show_ip (addr_ip peer)) (addr_port peer) server_port (role_name role) trace_id"

text \<open>The line the scanner's socket receives, if any: serialization, the dial under its timeout, the write.\<close>

definition fire_scan_request ::
  "(scan_request \<Rightarrow> string result) \<Rightarrow> unit result timed \<Rightarrow> (string \<Rightarrow> unit result) \<Rightarrow> role \<Rightarrow> sock_addr \<Rightarrow> u16 \<Rightarrow>
     string \<Rightarrow> string option" where
  "fire_scan_request to_json dial put role peer server_port trace_id =
     (case to_json (scan_notice role peer server_port trace_id) of
        Inl _ \<Rightarrow> None
      | Inr line \<Rightarrow>
         (case dial of
            InTime (Inr _) \<Rightarrow> (case put (line @ [nl]) of Inr _ \<Rightarrow> Some line | Inl _ \<Rightarrow> None)
          | _ \<Rightarrow> None))"

section \<open>Admission\<close>

record accepted_client =
  acl_peer :: string
  acl_trace_id :: string

text \<open>The part of the acceptor that admission reads and changes; the trace counter is the process's.\<close>

record admission =
  ad_role :: role
  ad_config :: config
  ad_drained :: bool
  ad_limits :: acceptor_limits
  ad_pid :: u32
  ad_trace :: u64

datatype accept_outcome =
    AcceptFailed
  | DropDrained
  | DropRateLimited
  | DropAtCap
  | Admitted accepted_client scan_request

definition handle_acceptor_accept ::
  "rounding \<Rightarrow> instant \<Rightarrow> sock_addr result \<Rightarrow> admission \<Rightarrow> accept_outcome \<times> admission" where
  "handle_acceptor_accept rnd now res a =
     (case res of
        Inl _ \<Rightarrow> (AcceptFailed, a)
      | Inr peer \<Rightarrow>
         (if ad_drained a then (DropDrained, a)
          else case try_take rnd now (addr_ip peer) (al_rate (ad_limits a)) of
                 (False, rate) \<Rightarrow> (DropRateLimited, a\<lparr>ad_limits := (ad_limits a)\<lparr>al_rate := rate\<rparr>\<rparr>)
               | (True, rate) \<Rightarrow>
                  (case try_acquire (al_sessions (ad_limits a)) of
                     (False, sessions) \<Rightarrow>
                       (DropAtCap, a\<lparr>ad_limits := \<lparr>al_sessions = sessions, al_rate = rate\<rparr>\<rparr>)
                   | (True, sessions) \<Rightarrow>
                      (case new_trace_id (ad_pid a) (ad_trace a) of
                         (trace_id, n) \<Rightarrow>
                           (Admitted \<lparr>acl_peer = show_addr peer, acl_trace_id = trace_id\<rparr>
                              (scan_notice (ad_role a) peer (role_port (ad_role a) (ad_config a)) trace_id),
                            a\<lparr>ad_limits := \<lparr>al_sessions = sessions, al_rate = rate\<rparr>, ad_trace := n\<rparr>)))))"

text \<open>The end of a client's task, which drops its guard.\<close>

definition client_done :: "admission \<Rightarrow> admission" where
  "client_done a = a\<lparr>ad_limits := (ad_limits a)\<lparr>al_sessions := session_guard_drop (al_sessions (ad_limits a))\<rparr>\<rparr>"

section \<open>Certificates\<close>

text \<open>The acceptor in the slot after a reload: \<^verbatim>\<open>None\<close> is a role without TLS.\<close>

definition reload_tls :: "'tls result \<Rightarrow> 'tls option \<Rightarrow> 'tls option" where
  "reload_tls built slot =
     (case slot of
        None \<Rightarrow> None
      | Some old \<Rightarrow> (case built of Inr new \<Rightarrow> Some new | Inl _ \<Rightarrow> Some old))"

section \<open>The control client\<close>

text \<open>What the client asks of the loop, and the state of its four channels.\<close>

datatype acceptor_request = AskShutdown u64 | AskUpgrade "string option"

record acceptor_actions =
  aa_requests :: "acceptor_request list"
  aa_drain :: bool
  aa_reload :: u64
  aa_replies :: "worker_status list"

definition acceptor_control_msg ::
  "worker_status \<times> bool \<Rightarrow> control_msg \<Rightarrow> acceptor_actions \<Rightarrow> reaction \<times> acceptor_actions" where
  "acceptor_control_msg x m w =
     (case m of
        Shutdown grace \<Rightarrow> (Terminal, w\<lparr>aa_requests := aa_requests w @ [AskShutdown grace]\<rparr>)
      | Upgrade path _ _ _ \<Rightarrow> (Terminal, w\<lparr>aa_requests := aa_requests w @ [AskUpgrade path]\<rparr>)
      | Status \<Rightarrow>
          if snd x then (Continue, w\<lparr>aa_replies := aa_replies w @ [fst x]\<rparr>) else (Disconnect, w)
      | Drain \<Rightarrow> (Continue, w\<lparr>aa_drain := True\<rparr>)
      | Reload \<Rightarrow> (Continue, w\<lparr>aa_reload := aa_reload w + 1\<rparr>))"

definition acceptor_status ::
  "role \<Rightarrow> u32 \<Rightarrow> u64 \<Rightarrow> u64 \<Rightarrow> string \<Rightarrow> client_registry \<Rightarrow> rate_limiter \<Rightarrow> worker_status" where
  "acceptor_status role pid generation started addr reg rate = \<lparr>
     ws_role = role_name role, ws_pid = pid, ws_generation = generation, ws_started_at_unix_ms = started,
     ws_in_flight = of_nat (length (cr_clients reg)), ws_listener_addr = Some addr,
     ws_rate_limiter_stats =
       (case limiter_stats rate of
          (tracked, idle, lru, refused) \<Rightarrow>
            if 0 < tracked \<or> 0 < idle \<or> 0 < lru \<or> 0 < refused
            then Some \<lparr>tracked_ips = tracked, rls_idle_evictions = idle, rls_lru_evictions = lru,
                       rls_cap_refused = refused\<rparr>
            else None)\<rparr>"

section \<open>The loop\<close>

text \<open>
  What the loop's \<^verbatim>\<open>select\<close> returns. An upgrade carries the system calls it makes, the fork and
  what the clients answer to the harvest; a reload what building the new TLS acceptor gives.
\<close>

datatype ('tls, 'c) acceptor_event =
    AccAccept instant "sock_addr result"
  | AccShutdown "u64 option"
  | AccUpgrade "string option option" upgrade_os "u32 result" "u64 \<Rightarrow> 'c handoff_rx"
  | AccDrain bool
  | AccReload "'tls result"
  | AccHangup "'tls result"

record 'tls acceptor_runtime =
  ar_admission :: admission
  ar_started :: "accepted_client list"
  ar_registry :: client_registry
  ar_tls :: "'tls option"
  ar_flags :: cloexec_flags
  ar_ctx :: upgrade_ctx
  ar_clients :: nat

text \<open>\<^verbatim>\<open>do_upgrade\<close>: the plain role hands its listener to a child, the TLS role becomes the new image.\<close>

definition acceptor_upgrade ::
  "upgrade_os \<Rightarrow> u32 result \<Rightarrow> (u64 \<Rightarrow> 'c handoff_rx) \<Rightarrow> upgrade_ctx \<Rightarrow> 'tls acceptor_runtime \<Rightarrow>
     (upgrade_cmd \<times> 'c tls_handoff list) loop_end option \<times> 'tls acceptor_runtime" where
  "acceptor_upgrade os fork_res rx ctx rt =
     (case ad_role (ar_admission rt) of
        Plain \<Rightarrow>
         (case do_upgrade_plain os ctx (ar_flags rt) of
            (AttemptFailed e, t) \<Rightarrow> (Some (LoopFailed e), rt\<lparr>ar_flags := t\<rparr>)
          | (Committed cmd, t) \<Rightarrow> (Some (LoopCommitted (cmd, [])), rt\<lparr>ar_flags := t\<rparr>)
          | (RolledBack, t) \<Rightarrow> (None, rt\<lparr>ar_flags := t, ar_clients := ar_clients rt + 1\<rparr>))
      | Tls \<Rightarrow>
         (case harvest_tls_handoffs rx (ar_registry rt) of
            (None, reg) \<Rightarrow> (Some LoopWaiting, rt\<lparr>ar_registry := reg\<rparr>)
          | (Some hs, reg) \<Rightarrow>
             (case do_upgrade_tls_fork_drain os fork_res ctx hs (ar_flags rt) of
                (TlsFailed e, _, t) \<Rightarrow> (Some (LoopFailed e), rt\<lparr>ar_registry := reg, ar_flags := t\<rparr>)
              | (TlsExeced cmd, drainer, t) \<Rightarrow>
                  (Some (LoopCommitted (cmd, case drainer of Some ds \<Rightarrow> ds | None \<Rightarrow> [])),
                   rt\<lparr>ar_registry := reg, ar_flags := t\<rparr>))))"

fun acceptor_loop_step ::
  "rounding \<Rightarrow> ('tls, 'c) acceptor_event \<Rightarrow> 'tls acceptor_runtime \<Rightarrow>
     (upgrade_cmd \<times> 'c tls_handoff list) loop_end option \<times> 'tls acceptor_runtime" where
  "acceptor_loop_step rnd (AccAccept now res) rt =
     (case handle_acceptor_accept rnd now res (ar_admission rt) of
        (Admitted client _, a) \<Rightarrow> (None, rt\<lparr>ar_admission := a, ar_started := ar_started rt @ [client]\<rparr>)
      | (_, a) \<Rightarrow> (None, rt\<lparr>ar_admission := a\<rparr>))"
| "acceptor_loop_step rnd (AccShutdown grace) rt = (Some LoopReturned, rt)"
| "acceptor_loop_step rnd (AccUpgrade None os fork_res rx) rt = (None, rt)"
| "acceptor_loop_step rnd (AccUpgrade (Some path) os fork_res rx) rt =
     acceptor_upgrade os fork_res rx ((ar_ctx rt)\<lparr>uc_binary_path := path\<rparr>) rt"
| "acceptor_loop_step rnd (AccDrain b) rt =
     (None, if b \<and> \<not> ad_drained (ar_admission rt)
            then rt\<lparr>ar_admission := (ar_admission rt)\<lparr>ad_drained := True\<rparr>\<rparr> else rt)"
| "acceptor_loop_step rnd (AccReload built) rt = (None, rt\<lparr>ar_tls := reload_tls built (ar_tls rt)\<rparr>)"
| "acceptor_loop_step rnd (AccHangup built) rt =
     (None, if ar_tls rt \<noteq> None then rt\<lparr>ar_tls := reload_tls built (ar_tls rt)\<rparr> else rt)"

definition run_acceptor_loop ::
  "rounding \<Rightarrow> ('tls, 'c) acceptor_event list \<Rightarrow> 'tls acceptor_runtime \<Rightarrow>
     (upgrade_cmd \<times> 'c tls_handoff list) loop_end option \<times> 'tls acceptor_runtime" where
  "run_acceptor_loop rnd = run_loop (acceptor_loop_step rnd)"

section \<open>Lemmas: contracts\<close>

definition acceptor_request_of :: "control_msg \<Rightarrow> acceptor_request option" where
  "acceptor_request_of m =
     (case m of Shutdown grace \<Rightarrow> Some (AskShutdown grace) | Upgrade path _ _ _ \<Rightarrow> Some (AskUpgrade path) | _ \<Rightarrow> None)"

interpretation acceptor_client: control_client acceptor_control_msg aa_requests acceptor_request_of
  by unfold_locales (auto simp: acceptor_control_msg_def acceptor_request_of_def split: control_msg.splits)

definition acceptor_upgrade_asked :: "('tls, 'c) acceptor_event \<Rightarrow> bool" where
  "acceptor_upgrade_asked e = (case e of AccUpgrade (Some _) _ _ _ \<Rightarrow> True | _ \<Rightarrow> False)"

lemma acceptor_step_turn:
  assumes "acceptor_loop_step rnd e rt = (None, rt')"
  shows "ar_clients rt' = ar_clients rt + of_bool (acceptor_upgrade_asked e) \<and> ar_ctx rt' = ar_ctx rt"
  using assms
  by (cases "(rnd, e, rt)" rule: acceptor_loop_step.cases)
    (auto simp: acceptor_upgrade_asked_def acceptor_upgrade_def
      split: if_splits prod.splits option.splits upgrade_end.splits accept_outcome.splits role.splits
        tls_upgrade_end.splits)

interpretation acceptor_loop: worker_loop "acceptor_loop_step rnd" acceptor_upgrade_asked ar_clients ar_ctx
  by unfold_locales (rule acceptor_step_turn)

section \<open>Lemmas: admission\<close>

text \<open>Accepts interleaved with the ends of admitted clients; the number counts those still running.\<close>

datatype admission_event = AdmAccept instant "sock_addr result" | AdmDone

fun admission_step :: "rounding \<Rightarrow> admission \<times> nat \<Rightarrow> admission_event \<Rightarrow> admission \<times> nat" where
  "admission_step rnd (a, n) (AdmAccept now res) =
     (case handle_acceptor_accept rnd now res a of
        (Admitted _ _, a') \<Rightarrow> (a', n + 1)
      | (_, a') \<Rightarrow> (a', n))"
| "admission_step rnd (a, n) AdmDone = (if n = 0 then (a, n) else (client_done a, n - 1))"

definition admission_inv :: "u64 \<Rightarrow> admission \<times> nat \<Rightarrow> bool" where
  "admission_inv c s \<longleftrightarrow>
     cap (al_sessions (ad_limits (fst s))) = c \<and> in_flight (al_sessions (ad_limits (fst s))) = of_nat (snd s) \<and>
     (c \<noteq> 0 \<longrightarrow> snd s \<le> unat c)"

lemma unat_of_nat_le:
  assumes "n \<le> unat (c :: u64)"
  shows "unat (of_nat n :: u64) = n"
proof -
  have "unat c < 2 ^ LENGTH(64)"
    by (rule unsigned_less)
  then show ?thesis
    using assms by (simp add: unsigned_of_nat take_bit_nat_eq_self)
qed

lemma handle_accept_sessions:
  "handle_acceptor_accept rnd now res a = (out, a') \<Longrightarrow>
     al_sessions (ad_limits a') =
       (if \<exists>cl req. out = Admitted cl req then snd (try_acquire (al_sessions (ad_limits a))) else al_sessions (ad_limits a)) \<and>
     ((\<exists>cl req. out = Admitted cl req) \<longrightarrow> fst (try_acquire (al_sessions (ad_limits a))))"
  by (auto simp: handle_acceptor_accept_def try_acquire_def split: sum.splits if_splits prod.splits bool.splits)

lemma admission_step_inv:
  assumes "admission_inv c s"
  shows "admission_inv c (admission_step rnd s e)"
proof (cases "(rnd, s, e)" rule: admission_step.cases)
  case (1 r a n now res)
  obtain out a' where h: "handle_acceptor_accept rnd now res a = (out, a')"
    by fastforce
  note S = handle_accept_sessions [OF h]
  show ?thesis
  proof (cases "\<exists>cl req. out = Admitted cl req")
    case True
    have "n < unat c" if "c \<noteq> 0"
    proof -
      have "of_nat n < c"
        using S True that assms 1 by (auto simp: admission_inv_def try_acquire_def split: if_splits)
      moreover have "unat (of_nat n :: u64) = n"
        using assms 1 that unat_of_nat_le [of n c] by (simp add: admission_inv_def)
      ultimately show ?thesis
        by (simp add: word_less_nat_alt)
    qed
    moreover have "al_sessions (ad_limits a') = snd (try_acquire (al_sessions (ad_limits a)))"
      "fst (try_acquire (al_sessions (ad_limits a)))"
      using S True by auto
    ultimately show ?thesis
      using True 1 h assms by (auto simp: admission_inv_def try_acquire_def split: if_splits)
  next
    case False
    then have "admission_step rnd s e = (a', n)"
      using 1 h by (auto split: accept_outcome.splits)
    then show ?thesis
      using S False 1 assms by (simp add: admission_inv_def)
  qed
next
  case (2 r a n)
  then show ?thesis
    using assms by (cases n) (auto simp: admission_inv_def client_done_def session_guard_drop_def)
qed

interpretation admission_system: step_system "admission_step rnd" "admission_inv c"
  by unfold_locales (rule admission_step_inv)

lemma drained_step:
  assumes "acceptor_loop_step rnd e rt = (None, rt')" and "ad_drained (ar_admission rt)"
  shows "ar_admission rt' = ar_admission rt \<and> ar_started rt' = ar_started rt"
  using assms
  by (cases "(rnd, e, rt)" rule: acceptor_loop_step.cases)
    (auto simp: handle_acceptor_accept_def acceptor_upgrade_def
      split: if_splits prod.splits option.splits upgrade_end.splits accept_outcome.splits role.splits
        tls_upgrade_end.splits sum.splits)

lemma drained_run:
  assumes "run_loop (acceptor_loop_step rnd) es rt = (None, rt')" and "ad_drained (ar_admission rt)"
  shows "ar_admission rt' = ar_admission rt \<and> ar_started rt' = ar_started rt"
  using assms
proof (induction es arbitrary: rt)
  case (Cons e es)
  then obtain v where now: "acceptor_loop_step rnd e rt = (None, v)"
    and rest: "run_loop (acceptor_loop_step rnd) es v = (None, rt')"
    by (auto split: prod.splits option.splits)
  with drained_step [OF now Cons.prems(2)] Cons.IH [OF rest] Cons.prems(2) show ?case
    by simp
qed simp

text \<open>The acceptor the last successful reload of a run built, if any.\<close>

fun last_built :: "('tls, 'c) acceptor_event list \<Rightarrow> 'tls \<Rightarrow> 'tls" where
  "last_built [] x = x"
| "last_built (AccReload (Inr new) # es) x = last_built es new"
| "last_built (AccHangup (Inr new) # es) x = last_built es new"
| "last_built (_ # es) x = last_built es x"

lemma reload_step:
  assumes "acceptor_loop_step rnd e rt = (None, rt')"
  shows "ar_tls rt' = (case ar_tls rt of None \<Rightarrow> None | Some x \<Rightarrow> Some (last_built [e] x))"
proof (cases e)
  case (AccReload built)
  then show ?thesis
    using assms by (cases built) (auto simp: reload_tls_def split: option.splits)
next
  case (AccHangup built)
  then show ?thesis
    using assms by (cases built) (auto simp: reload_tls_def split: option.splits)
next
  case (AccUpgrade req os f rx)
  then show ?thesis
    using assms by (cases req)
      (auto simp: acceptor_upgrade_def
        split: prod.splits option.splits upgrade_end.splits role.splits tls_upgrade_end.splits)
qed (use assms in \<open>auto split: option.splits prod.splits accept_outcome.splits if_splits\<close>)

lemma last_built_cons: "last_built (e # es) x = last_built es (last_built [e] x)"
  by (cases "(e # es, x)" rule: last_built.cases) auto

lemma reload_run:
  "run_loop (acceptor_loop_step rnd) es rt = (None, rt') \<Longrightarrow>
     ar_tls rt' = (case ar_tls rt of None \<Rightarrow> None | Some x \<Rightarrow> Some (last_built es x))"
proof (induction es arbitrary: rt)
  case (Cons e es)
  then obtain v where now: "acceptor_loop_step rnd e rt = (None, v)"
    and rest: "run_loop (acceptor_loop_step rnd) es v = (None, rt')"
    by (auto split: prod.splits option.splits)
  show ?case
    using reload_step [OF now] Cons.IH [OF rest] last_built_cons [of e es] by (cases "ar_tls rt") auto
qed (auto split: option.splits)

text \<open>An acceptor for the examples: one session at most, no rate limit.\<close>

definition small_limits :: limits_config where
  "small_limits = limits_config_default\<lparr>max_in_flight_per_role := 1, accept_rate_per_ip := 0\<rparr>"

definition small_admission :: "bool \<Rightarrow> admission" where
  "small_admission drained = \<lparr>ad_role = Tls, ad_config = config_default, ad_drained = drained,
     ad_limits = acceptor_limits_from_config small_limits, ad_pid = 1, ad_trace = 0\<rparr>"

definition small_runtime :: "bool \<Rightarrow> nat acceptor_runtime" where
  "small_runtime drained = \<lparr>ar_admission = small_admission drained, ar_started = [],
     ar_registry = client_registry_default, ar_tls = Some 1, ar_flags = (\<lambda>_. True), ar_ctx = calm_tls_ctx, ar_clients = 1\<rparr>"

section \<open>Properties\<close>

text \<open>
  C29 (invariant). An acceptor started from its configuration counts exactly the clients it admitted and
  that have not ended, however accepts, refusals and ends interleave, and with a session cap set it
  never has more of them than the cap.
\<close>

theorem acceptor_sessions_bounded:
  assumes "ad_limits a = acceptor_limits_from_config cfg"
  shows "case foldl (admission_step rnd) (a, 0) evs of (a', n) \<Rightarrow>
    in_flight (al_sessions (ad_limits a')) = of_nat n \<and>
    (max_in_flight_per_role cfg \<noteq> 0 \<longrightarrow> n \<le> unat (max_in_flight_per_role cfg))"
proof -
  have "admission_inv (max_in_flight_per_role cfg) (a, 0)"
    using assms by (simp add: admission_inv_def acceptor_limits_from_config_def session_cap_new_def)
  from admission_system.run_invariant [OF this, of rnd evs] show ?thesis
    by (cases "foldl (admission_step rnd) (a, 0) evs") (simp add: admission_inv_def)
qed

theorem acceptor_sessions_bounded_witness:
  "case foldl (admission_step id) (small_admission False, 0)
       [AdmAccept 0 (Inr (SockV4 1 5)), AdmAccept 0 (Inr (SockV4 1 6)), AdmDone] of
     (a, n) \<Rightarrow> in_flight (al_sessions (ad_limits a)) = of_nat n \<and> n \<le> 1"
  using acceptor_sessions_bounded [of "small_admission False" small_limits id
      "[AdmAccept 0 (Inr (SockV4 1 5)), AdmAccept 0 (Inr (SockV4 1 6)), AdmDone]"]
  by (auto simp: small_admission_def small_limits_def split: prod.splits)

text \<open>
  A drained acceptor admits nobody for as long as its loop runs, through reloads and
  rolled-back upgrades, and its limits are not touched by the connections it drops.
\<close>

theorem drain_is_permanent:
  assumes "run_acceptor_loop rnd es rt = (None, rt')" and "ad_drained (ar_admission rt)"
  shows "ad_drained (ar_admission rt') \<and> ar_started rt' = ar_started rt \<and>
    ad_limits (ar_admission rt') = ad_limits (ar_admission rt)"
  using drained_run [OF assms(1) [unfolded run_acceptor_loop_def] assms(2)] assms(2) by simp

theorem drain_is_permanent_witness:
  "\<exists>rt'. run_acceptor_loop id
       ([AccAccept 0 (Inr (SockV4 1 5)), AccReload (Inr 2), AccAccept 9 (Inr (SockV4 1 6))] :: (nat, unit) acceptor_event list)
       (small_runtime True) = (None, rt') \<and> ar_started rt' = []"
proof -
  have run: "run_acceptor_loop id
       ([AccAccept 0 (Inr (SockV4 1 5)), AccReload (Inr 2), AccAccept 9 (Inr (SockV4 1 6))] :: (nat, unit) acceptor_event list)
      (small_runtime True) = (None, (small_runtime True)\<lparr>ar_tls := Some 2\<rparr>)"
    by (simp add: run_acceptor_loop_def small_runtime_def small_admission_def handle_acceptor_accept_def reload_tls_def)
  show ?thesis
    using drain_is_permanent [OF run] run by (simp add: small_runtime_def small_admission_def)
qed

text \<open>
  The certificate a TLS acceptor serves with is always the last one that a reload
  built successfully, by signal or by request, and the first one before that; a failed reload, an
  upgrade that rolled back and anything else leave it alone, and a plain acceptor never gets one.
\<close>

theorem reload_keeps_last_good:
  assumes "run_acceptor_loop rnd es rt = (None, rt')"
  shows "ar_tls rt' = (case ar_tls rt of None \<Rightarrow> None | Some x \<Rightarrow> Some (last_built es x))"
  using reload_run [OF assms [unfolded run_acceptor_loop_def]] .

theorem reload_keeps_last_good_witness:
  "\<exists>rt'. run_acceptor_loop id
       ([AccReload (Inr 2), AccHangup (Inl [''expired''])] :: (nat, unit) acceptor_event list) (small_runtime False) = (None, rt') \<and>
     ar_tls rt' = Some 2"
proof -
  have run: "run_acceptor_loop id
       ([AccReload (Inr 2), AccHangup (Inl [''expired''])] :: (nat, unit) acceptor_event list) (small_runtime False) =
      (None, (small_runtime False)\<lparr>ar_tls := Some 2\<rparr>)"
    by (simp add: run_acceptor_loop_def small_runtime_def reload_tls_def)
  show ?thesis
    using reload_keeps_last_good [OF run] run by (simp add: small_runtime_def)
qed

text \<open>
  The key under which the scanner publishes what it found on a client is the key
  of the client's session in the processor exactly for IPv4 clients: an IPv6 address is bracketed in the
  session's key and not in the scanner's.
\<close>

theorem scan_key_matches_ipv4_only:
  "scan_peer (scan_notice role peer port trace_id) = show_addr peer \<longleftrightarrow> (\<exists>ip p. peer = SockV4 ip p)"
proof (cases peer)
  case (SockV6 ip scope p)
  have "length (scan_peer (scan_notice role peer port trace_id)) < length (show_addr peer)"
    by (simp add: SockV6 scan_peer_def scan_notice_def show_addr_def addr_ip_def addr_port_def show_ip_def)
  then show ?thesis
    using SockV6 by auto
qed (simp add: scan_peer_def scan_notice_def show_addr_def addr_ip_def addr_port_def show_ip_def)

end
