(* ===== verification/Security.thy ===== *)
theory Security
  imports Config
begin

text \<open>
  Model of \<^verbatim>\<open>src/security.rs\<close>: the privilege drop of a worker and the choice and contents of
  its sandbox. The user database and the calls that change credentials are parameters; the POSIX
  rules for those calls are one instance of them.
\<close>

section \<open>Resolving users and groups\<close>

text \<open>\<^verbatim>\<open>lookup\<close> is the database: an error, no such entry, or an id.\<close>

definition resolve_uid :: "(string \<Rightarrow> u32 option result) \<Rightarrow> string \<Rightarrow> u32 result" where
  "resolve_uid lookup spec =
     (case parse_u32 spec of
        Some n \<Rightarrow> Inr n
      | None \<Rightarrow>
          and_then (with_context (''lookup user '' @ spec) (lookup spec)) (\<lambda>user.
            case user of None \<Rightarrow> Inl [''no such user: '' @ spec] | Some u \<Rightarrow> Inr u))"

definition resolve_gid :: "(string \<Rightarrow> u32 option result) \<Rightarrow> string \<Rightarrow> u32 result" where
  "resolve_gid lookup spec =
     (case parse_u32 spec of
        Some n \<Rightarrow> Inr n
      | None \<Rightarrow>
          and_then (with_context (''lookup group '' @ spec) (lookup spec)) (\<lambda>group.
            case group of None \<Rightarrow> Inl [''no such group: '' @ spec] | Some g \<Rightarrow> Inr g))"

definition transpose_result :: "('a \<Rightarrow> 'b result) \<Rightarrow> 'a option \<Rightarrow> 'b option result" where
  "transpose_result f x = (case x of None \<Rightarrow> Inr None | Some a \<Rightarrow> and_then (f a) (\<lambda>b. Inr (Some b)))"

section \<open>The privilege drop\<close>

record creds =
  c_ruid :: u32
  c_euid :: u32
  c_suid :: u32
  c_rgid :: u32
  c_egid :: u32
  c_sgid :: u32
  c_groups :: "u32 list"

record cred_calls =
  k_setgroups :: "u32 list \<Rightarrow> creds \<Rightarrow> creds result"
  k_setgid :: "u32 \<Rightarrow> creds \<Rightarrow> creds result"
  k_setuid :: "u32 \<Rightarrow> creds \<Rightarrow> creds result"

text \<open>A call that changes the credentials; on an error they are as they were.\<close>

definition call :: "string \<Rightarrow> (creds \<Rightarrow> creds result) \<Rightarrow> creds \<Rightarrow> unit result \<times> creds" where
  "call what f c = (case with_context what (f c) of Inl e \<Rightarrow> (Inl e, c) | Inr c' \<Rightarrow> (Inr (), c'))"

definition when_ok :: "unit result \<times> creds \<Rightarrow> (creds \<Rightarrow> unit result \<times> creds) \<Rightarrow> unit result \<times> creds" where
  "when_ok r f = (case r of (Inl e, c) \<Rightarrow> (Inl e, c) | (Inr _, c) \<Rightarrow> f c)"

definition change_ids :: "cred_calls \<Rightarrow> u32 option \<Rightarrow> u32 option \<Rightarrow> creds \<Rightarrow> unit result \<times> creds" where
  "change_ids k target_uid target_gid c0 =
     when_ok (if c_euid c0 = 0 then call ''setgroups(0, NULL)'' (k_setgroups k []) c0 else (Inr (), c0)) (\<lambda>c.
     when_ok (case target_gid of None \<Rightarrow> (Inr (), c)
        | Some gid \<Rightarrow> call (''setgid('' @ dec (unat gid) @ '')'') (k_setgid k gid) c) (\<lambda>c.
     case target_uid of None \<Rightarrow> (Inr (), c)
        | Some uid \<Rightarrow> call (''setuid('' @ dec (unat uid) @ '')'') (k_setuid k uid) c))"

text \<open>The final check: a process that was root and is not any more must not get it back.\<close>

definition regain_check :: "cred_calls \<Rightarrow> bool \<Rightarrow> creds \<Rightarrow> unit result \<times> creds" where
  "regain_check k starting_root c =
     (if starting_root \<and> c_euid c \<noteq> 0
      then case k_setuid k 0 c of
             Inr c' \<Rightarrow>
               (Inl [''privilege drop appears reversible (setuid(0) succeeded); refusing to continue''], c')
           | Inl _ \<Rightarrow> (Inr (), c)
      else (Inr (), c))"

definition drop_privileges ::
  "cred_calls \<Rightarrow> (string \<Rightarrow> u32 option result) \<Rightarrow> (string \<Rightarrow> u32 option result) \<Rightarrow> security_config \<Rightarrow> creds \<Rightarrow>
     security_config result \<times> creds" where
  "drop_privileges k users groups cfg c =
     (case and_then (transpose_result (resolve_uid users) (drop_uid cfg)) (\<lambda>uid.
             and_then (transpose_result (resolve_gid groups) (drop_gid cfg)) (\<lambda>gid. Inr (uid, gid))) of
        Inl e \<Rightarrow> (Inl e, c)
      | Inr (uid, gid) \<Rightarrow>
         (if uid = None \<and> gid = None then (Inr cfg, c)
          else case change_ids k uid gid c of
                 (Inl e, c1) \<Rightarrow> (Inl e, c1)
               | (Inr _, c1) \<Rightarrow>
                   let cfg' = cfg\<lparr>drop_uid := (case uid of None \<Rightarrow> drop_uid cfg | Some u \<Rightarrow> Some (dec (unat u))),
                                  drop_gid := (case gid of None \<Rightarrow> drop_gid cfg | Some g \<Rightarrow> Some (dec (unat g)))\<rparr>
                   in case regain_check k (c_euid c = 0) c1 of
                        (Inl e, c2) \<Rightarrow> (Inl e, c2)
                      | (Inr _, c2) \<Rightarrow> (Inr cfg', c2)))"

section \<open>The sandbox\<close>

datatype platform = Linux | FreeBsd | OtherOs
datatype arch = X86_64 | Aarch64 | OtherArch

datatype seccomp_action = KillProcess | LogCall

text \<open>The system calls a worker may make.\<close>

definition worker_syscalls :: "arch \<Rightarrow> string list" where
  "worker_syscalls a = [
    ''read'', ''write'', ''close'', ''lseek'', ''pread64'', ''readv'', ''writev'', ''mmap'', ''munmap'',
    ''mprotect'', ''brk'', ''madvise'', ''getpid'', ''gettid'', ''getuid'', ''geteuid'', ''getgid'',
    ''getegid'', ''getppid'', ''clock_gettime'', ''clock_nanosleep'', ''nanosleep'', ''gettimeofday'',
    ''openat'', ''fstat'', ''statx'', ''newfstatat'', ''fchmodat'', ''faccessat'', ''faccessat2'',
    ''fcntl'', ''dup'', ''dup3'', ''pipe2'', ''readlinkat'', ''unlinkat'', ''renameat2'',
    ''getdents64'', ''ftruncate'', ''fsync'', ''socket'', ''socketpair'', ''connect'', ''listen'',
    ''accept4'', ''bind'', ''sendto'', ''recvfrom'', ''sendmsg'', ''recvmsg'', ''shutdown'',
    ''getsockname'', ''getpeername'', ''getsockopt'', ''setsockopt'', ''epoll_create1'', ''epoll_ctl'',
    ''epoll_pwait'', ''epoll_pwait2'', ''ppoll'', ''eventfd2'', ''rt_sigaction'', ''rt_sigprocmask'',
    ''rt_sigreturn'', ''rt_sigtimedwait'', ''sigaltstack'', ''tkill'', ''tgkill'', ''kill'', ''clone'',
    ''clone3'', ''futex'', ''set_robust_list'', ''get_robust_list'', ''set_tid_address'', ''prctl'',
    ''sched_yield'', ''sched_getaffinity'', ''rseq'', ''exit'', ''exit_group'', ''execve'',
    ''prlimit64'', ''wait4'', ''pidfd_open'', ''pidfd_send_signal'', ''seccomp'', ''setuid'',
    ''setgid'', ''setgroups'', ''ioctl'', ''getrandom'', ''membarrier'', ''restart_syscall''] @ (if a = X86_64 then [
    ''open'', ''poll'', ''pipe'', ''access'', ''unlink'', ''readlink'', ''epoll_wait'', ''fork'',
    ''arch_prctl''] else [])"

datatype sandbox_effect =
    NoSandbox
  | SeccompInstalled seccomp_action "string list"
  | CapabilityMode

text \<open>
  \<^verbatim>\<open>install\<close> is the outcome of building and loading the filter, \<^verbatim>\<open>cap_enter\<close> that of the call. The
  result says what the process runs under afterwards.
\<close>

definition seccomp_apply :: "arch \<Rightarrow> unit result \<Rightarrow> sandbox_mode \<Rightarrow> sandbox_effect result" where
  "seccomp_apply a install mode =
     (case mode of
        Off \<Rightarrow> Inr NoSandbox
      | _ \<Rightarrow>
          if a = OtherArch then Inl [''seccomp filter not configured for this arch'']
          else and_then install (\<lambda>_.
            Inr (SeccompInstalled (if mode = Strict then KillProcess else LogCall) (worker_syscalls a))))"

definition capsicum_apply :: "unit result \<Rightarrow> sandbox_mode \<Rightarrow> sandbox_effect result" where
  "capsicum_apply cap_enter mode =
     (if mode = Off then Inr NoSandbox
      else and_then (with_context ''cap_enter'' cap_enter) (\<lambda>_. Inr CapabilityMode))"

definition apply_sandbox ::
  "platform \<Rightarrow> arch \<Rightarrow> unit result \<Rightarrow> unit result \<Rightarrow> string \<Rightarrow> security_config \<Rightarrow> sandbox_effect result" where
  "apply_sandbox os a install cap_enter role cfg =
     (let mode = effective_sandbox cfg role in
      if mode = Off then Inr NoSandbox
      else case os of
             Linux \<Rightarrow> seccomp_apply a install mode
           | FreeBsd \<Rightarrow> capsicum_apply cap_enter mode
           | OtherOs \<Rightarrow> Inr NoSandbox)"

text \<open>What a filter does with a call.\<close>

datatype verdict = Allowed | Killed | Logged

definition filter_verdict :: "sandbox_effect \<Rightarrow> string \<Rightarrow> verdict" where
  "filter_verdict s syscall =
     (case s of
        SeccompInstalled act calls \<Rightarrow>
          if syscall \<in> set calls then Allowed else (case act of KillProcess \<Rightarrow> Killed | LogCall \<Rightarrow> Logged)
      | _ \<Rightarrow> Allowed)"

section \<open>Lemmas\<close>

lemma resolve_numeric [simp]:
  "resolve_uid lookup (dec (unat u)) = Inr u" "resolve_gid lookup (dec (unat g)) = Inr g"
  by (simp_all add: resolve_uid_def resolve_gid_def)

text \<open>The credentials a drop from root leaves.\<close>

definition dropped :: "u32 \<Rightarrow> u32 option \<Rightarrow> creds \<Rightarrow> creds" where
  "dropped u gid c =
     (case gid of None \<Rightarrow> c | Some g \<Rightarrow> c\<lparr>c_rgid := g, c_egid := g, c_sgid := g\<rparr>)
       \<lparr>c_groups := [], c_ruid := u, c_euid := u, c_suid := u\<rparr>"

lemma dropped_ids:
  "c_ruid (dropped u gid c) = u" "c_euid (dropped u gid c) = u" "c_suid (dropped u gid c) = u"
  "c_groups (dropped u gid c) = []"
  "gid = Some g \<Longrightarrow> c_rgid (dropped u gid c) = g \<and> c_egid (dropped u gid c) = g \<and> c_sgid (dropped u gid c) = g"
  by (simp_all add: dropped_def split: option.splits)

lemma same_ids:
  "c_euid c = u \<Longrightarrow> c\<lparr>c_euid := u\<rparr> = c" "c_egid c = g \<Longrightarrow> c\<lparr>c_egid := g\<rparr> = c"
  by auto

definition numeric_config :: "u32 \<Rightarrow> u32 option \<Rightarrow> security_config \<Rightarrow> security_config" where
  "numeric_config u gid cfg = cfg\<lparr>drop_uid := Some (dec (unat u)),
     drop_gid := (case gid of None \<Rightarrow> drop_gid cfg | Some g \<Rightarrow> Some (dec (unat g)))\<rparr>"

text \<open>
  The documented rules of the three calls: root sets every id, another process only switches its
  effective id to its real or saved one and has no say over its groups.
\<close>

locale posix_calls =
  fixes k :: cred_calls
  assumes root_setgroups: "c_euid c = 0 \<Longrightarrow> k_setgroups k gs c = Inr (c\<lparr>c_groups := gs\<rparr>)"
    and root_setgid: "c_euid c = 0 \<Longrightarrow> k_setgid k g c = Inr (c\<lparr>c_rgid := g, c_egid := g, c_sgid := g\<rparr>)"
    and root_setuid: "c_euid c = 0 \<Longrightarrow> k_setuid k u c = Inr (c\<lparr>c_ruid := u, c_euid := u, c_suid := u\<rparr>)"
    and other_setgroups: "c_euid c \<noteq> 0 \<Longrightarrow> isl (k_setgroups k gs c)"
    and other_setgid: "c_euid c \<noteq> 0 \<Longrightarrow> g = c_rgid c \<or> g = c_sgid c \<Longrightarrow> k_setgid k g c = Inr (c\<lparr>c_egid := g\<rparr>)"
    and other_setuid: "c_euid c \<noteq> 0 \<Longrightarrow> u = c_ruid c \<or> u = c_suid c \<Longrightarrow> k_setuid k u c = Inr (c\<lparr>c_euid := u\<rparr>)"
    and foreign_setuid: "c_euid c \<noteq> 0 \<Longrightarrow> u \<noteq> c_ruid c \<Longrightarrow> u \<noteq> c_suid c \<Longrightarrow> isl (k_setuid k u c)"
begin

lemma change_ids_as_root: "c_euid c = 0 \<Longrightarrow> change_ids k (Some u) gid c = (Inr (), dropped u gid c)"
  by (cases gid)
    (simp_all add: change_ids_def when_ok_def call_def root_setgroups root_setgid root_setuid dropped_def)

text \<open>Making the same changes again leaves everything as it is.\<close>

lemma change_ids_again:
  assumes "u \<noteq> 0"
  shows "change_ids k (Some u) gid (dropped u gid c) = (Inr (), dropped u gid c)"
proof -
  let ?c = "dropped u gid c"
  have uid: "call w (k_setuid k u) ?c = (Inr (), ?c)" for w
    using assms by (simp add: call_def other_setuid dropped_ids same_ids)
  have gid: "call w (k_setgid k g) ?c = (Inr (), ?c)" if "gid = Some g" for w g
    using assms dropped_ids(5) [OF that, of u c] by (simp add: call_def other_setgid dropped_ids same_ids)
  show ?thesis
    using assms uid gid by (cases gid) (simp_all add: change_ids_def when_ok_def dropped_ids)
qed

lemma setuid_refused: "u \<noteq> 0 \<Longrightarrow> isl (k_setuid k 0 (dropped u gid c))"
  by (rule foreign_setuid) (simp_all add: dropped_ids)

lemma regain_refused: "u \<noteq> 0 \<Longrightarrow> regain_check k root (dropped u gid c) = (Inr (), dropped u gid c)"
  using setuid_refused [of u gid c]
  by (cases "k_setuid k 0 (dropped u gid c)") (simp_all add: regain_check_def)

lemma setgroups_refused: "u \<noteq> 0 \<Longrightarrow> isl (k_setgroups k gs (dropped u gid c))"
  by (rule other_setgroups) (simp add: dropped_ids)

lemma drop_from_root:
  assumes "c_euid c = 0" and "drop_uid cfg = Some spec" and "resolve_uid users spec = Inr u" and "u \<noteq> 0"
    and "transpose_result (resolve_gid groups) (drop_gid cfg) = Inr gid"
  shows "drop_privileges k users groups cfg c = (Inr (numeric_config u gid cfg), dropped u gid c)"
  using assms change_ids_as_root [OF assms(1), of u gid] regain_refused [OF assms(4), of True gid c]
  by (simp add: drop_privileges_def transpose_result_def [of "resolve_uid users"] Let_def numeric_config_def)

text \<open>
  A process that has dropped can only repeat that drop, under whatever names the configuration has
  for the ids.
\<close>

lemma setuid_foreign: "u \<noteq> 0 \<Longrightarrow> u \<noteq> v \<Longrightarrow> isl (k_setuid k v (dropped u gid c))"
  by (rule foreign_setuid) (simp_all add: dropped_ids)

lemma change_ids_foreign:
  assumes "u \<noteq> 0" and "u \<noteq> v"
  shows "isl (fst (change_ids k (Some v) gid (dropped u gid c)))"
proof -
  let ?c = "dropped u gid c"
  have uid: "isl (fst (call w (k_setuid k v) ?c))" for w
    using setuid_foreign [OF assms, of gid c] by (auto simp: call_def isl_def split: sum.splits)
  have gid: "call w (k_setgid k g) ?c = (Inr (), ?c)" if "gid = Some g" for w g
    using assms dropped_ids(5) [OF that, of u c] by (simp add: call_def other_setgid dropped_ids same_ids)
  show ?thesis
    using assms uid gid by (cases gid) (simp_all add: change_ids_def when_ok_def dropped_ids)
qed

lemma drop_dropped:
  assumes "u \<noteq> 0" and "drop_uid cfg = Some spec" and "resolve_uid users spec = Inr v"
    and "transpose_result (resolve_gid groups) (drop_gid cfg) = Inr gid"
    and "drop_privileges k users groups cfg (dropped u gid c) = (Inr cfg', c')"
  shows "u = v \<and> cfg' = numeric_config v gid cfg \<and> c' = dropped u gid c"
proof (cases "u = v")
  case True
  then show ?thesis
    using assms change_ids_again [OF assms(1), of gid c] regain_refused [OF assms(1), of False gid c]
    by (simp add: drop_privileges_def transpose_result_def [of "resolve_uid users"] Let_def numeric_config_def dropped_ids)
next
  case False
  then show ?thesis
    using assms(2-5) change_ids_foreign [OF assms(1) False, of gid c]
    by (auto simp: drop_privileges_def transpose_result_def [of "resolve_uid users"] split: prod.splits sum.splits)
qed

text \<open>The successor's drop: numeric ids, so the databases are not asked.\<close>

lemma drop_again:
  assumes "u \<noteq> 0" and "transpose_result (resolve_gid groups) (drop_gid (numeric_config u gid cfg)) = Inr gid"
  shows "drop_privileges k users groups (numeric_config u gid cfg) (dropped u gid c) =
    (Inr (numeric_config u gid cfg), dropped u gid c)"
proof -
  let ?cfg = "numeric_config u gid cfg"
  have "?cfg\<lparr>drop_uid := Some (dec (unat u)),
      drop_gid := (case gid of None \<Rightarrow> drop_gid ?cfg | Some g \<Rightarrow> Some (dec (unat g)))\<rparr> = ?cfg"
    by (simp add: numeric_config_def split: option.splits)
  moreover have "transpose_result (resolve_uid users) (drop_uid ?cfg) = Inr (Some u)"
    by (simp add: transpose_result_def numeric_config_def)
  ultimately show ?thesis
    using assms change_ids_again [OF assms(1)] regain_refused [OF assms(1)]
    by (simp add: drop_privileges_def Let_def)
qed

end

text \<open>The rules with the refusals they leave open filled in.\<close>

definition posix :: cred_calls where
  "posix = \<lparr>
     k_setgroups = (\<lambda>gs c. if c_euid c = 0 then Inr (c\<lparr>c_groups := gs\<rparr>) else Inl [''EPERM'']),
     k_setgid = (\<lambda>g c. if c_euid c = 0 then Inr (c\<lparr>c_rgid := g, c_egid := g, c_sgid := g\<rparr>)
                        else if g = c_rgid c \<or> g = c_sgid c then Inr (c\<lparr>c_egid := g\<rparr>) else Inl [''EPERM'']),
     k_setuid = (\<lambda>u c. if c_euid c = 0 then Inr (c\<lparr>c_ruid := u, c_euid := u, c_suid := u\<rparr>)
                        else if u = c_ruid c \<or> u = c_suid c then Inr (c\<lparr>c_euid := u\<rparr>) else Inl [''EPERM''])\<rparr>"

interpretation posix: posix_calls posix
  by unfold_locales (simp_all add: posix_def)

lemma numeric_gid:
  assumes "transpose_result (resolve_gid groups) (drop_gid cfg) = Inr gid"
  shows "transpose_result (resolve_gid lookup) (drop_gid (numeric_config u gid cfg)) = Inr gid"
  using assms
  by (cases "drop_gid cfg") (auto simp: transpose_result_def numeric_config_def and_then_Inr_iff)

section \<open>Properties\<close>

text \<open>
  C22 (safety). A worker that starts as root with a non-root user configured ends up with all three
  user ids that user's, no supplementary groups and, when one is configured, all three
  group ids that group's; neither root nor any group can be regained. The drop does not fail once
  the names resolve. The configuration it leaves names user and group by number: the worker's
  successor, which inherits the credentials and has no user database, repeats the drop without
  looking anything up and without changing anything.
\<close>

theorem privilege_drop_irreversible:
  assumes "posix_calls k" and "c_euid c = 0" and "drop_uid cfg = Some spec"
    and "resolve_uid users spec = Inr u" and "u \<noteq> 0"
    and "transpose_result (resolve_gid groups) (drop_gid cfg) = Inr gid"
  shows "\<exists>cfg' c'. drop_privileges k users groups cfg c = (Inr cfg', c') \<and>
    c_ruid c' = u \<and> c_euid c' = u \<and> c_suid c' = u \<and> c_groups c' = [] \<and>
    (\<forall>g. gid = Some g \<longrightarrow> c_rgid c' = g \<and> c_egid c' = g \<and> c_sgid c' = g) \<and>
    isl (k_setuid k 0 c') \<and> isl (k_setgroups k gs c') \<and>
    drop_privileges k (\<lambda>_. Inl [''ECAPMODE'']) (\<lambda>_. Inl [''ECAPMODE'']) cfg' c' = (Inr cfg', c')"
proof (intro exI conjI)
  let ?cfg = "numeric_config u gid cfg" and ?c = "dropped u gid c"
  show "drop_privileges k users groups cfg c = (Inr ?cfg, ?c)"
    by (rule posix_calls.drop_from_root [OF assms])
  show "drop_privileges k (\<lambda>_. Inl [''ECAPMODE'']) (\<lambda>_. Inl [''ECAPMODE'']) ?cfg ?c = (Inr ?cfg, ?c)"
    by (rule posix_calls.drop_again [OF assms(1,5) numeric_gid [OF assms(6)]])
  show "isl (k_setuid k 0 ?c)" "isl (k_setgroups k gs ?c)"
    by (rule posix_calls.setuid_refused [OF assms(1,5)], rule posix_calls.setgroups_refused [OF assms(1,5)])
qed (simp_all add: dropped_ids)

definition root_creds :: creds where
  "root_creds = \<lparr>c_ruid = 0, c_euid = 0, c_suid = 0, c_rgid = 0, c_egid = 0, c_sgid = 0, c_groups = [0, 27]\<rparr>"

theorem privilege_drop_irreversible_witness:
  "\<exists>cfg' c'. drop_privileges posix (\<lambda>_. Inr (Some 65534)) (\<lambda>_. Inl [''unused''])
     (security_config_default\<lparr>drop_uid := Some ''nobody'', drop_gid := Some ''100''\<rparr>) root_creds = (Inr cfg', c') \<and>
     c_euid c' = 65534 \<and> c_egid c' = 100 \<and> c_groups c' = [] \<and> isl (k_setgroups posix [0] c')"
proof -
  let ?cfg = "security_config_default\<lparr>drop_uid := Some ''nobody'', drop_gid := Some ''100''\<rparr>"
  have p: "parse_u32 ''nobody'' = None" "parse_u32 ''100'' = Some 100"
    by (simp_all add: parse_u32_def parse_unsigned_def parse_digits_def digits_value_def char_digit_def of_digits_def)
  have g: "transpose_result (resolve_gid (\<lambda>_. Inl [''unused''])) (drop_gid ?cfg) = Inr (Some 100)"
    by (simp add: transpose_result_def resolve_gid_def p)
  have u: "resolve_uid (\<lambda>_. Inr (Some 65534)) ''nobody'' = Inr 65534"
    by (simp add: resolve_uid_def p)
  have "c_euid root_creds = 0" "drop_uid ?cfg = Some ''nobody''" "(65534 :: u32) \<noteq> 0"
    by (simp_all add: root_creds_def)
  from privilege_drop_irreversible [OF posix.posix_calls_axioms this(1,2) u this(3) g, of "[0]"]
  show ?thesis by (elim exE conjE) (intro exI conjI, assumption, simp_all)
qed

text \<open>
  The calls an upgrade needs pass the filter it inherits, on both architectures, and a strict filter
  kills everything that is not listed.
\<close>

lemma upgrade_calls_listed:
  "list_all (\<lambda>y. y \<in> set (worker_syscalls a))
     [''execve'', ''clone'', ''pipe2'', ''fcntl'', ''kill'', ''wait4'', ''seccomp'', ''setgroups'', ''setgid'', ''setuid'']"
  by (cases a) code_simp+

lemma strict_filter:
  assumes "apply_sandbox Linux a (Inr ()) cap_enter role cfg = Inr s" and "effective_sandbox cfg role = Strict"
  shows "filter_verdict s x = (if x \<in> set (worker_syscalls a) then Allowed else Killed)"
    and "list_all (\<lambda>y. filter_verdict s y = Allowed)
      [''execve'', ''clone'', ''pipe2'', ''fcntl'', ''kill'', ''wait4'', ''seccomp'', ''setgroups'', ''setgid'', ''setuid'']"
proof -
  have s: "s = SeccompInstalled KillProcess (worker_syscalls a)"
    using assms by (simp add: apply_sandbox_def seccomp_apply_def split: if_splits)
  then show "filter_verdict s x = (if x \<in> set (worker_syscalls a) then Allowed else Killed)"
    by (simp add: filter_verdict_def)
  from s show "list_all (\<lambda>y. filter_verdict s y = Allowed)
      [''execve'', ''clone'', ''pipe2'', ''fcntl'', ''kill'', ''wait4'', ''seccomp'', ''setgroups'', ''setgid'', ''setuid'']"
    using upgrade_calls_listed [of a] by (simp add: filter_verdict_def)
qed

end
