(* ===== verification/Worker_Start.thy ===== *)
theory Worker_Start
  imports Acceptor Security
begin

text \<open>
  Model of the start of the four workers: \<^verbatim>\<open>run\<close> of \<^verbatim>\<open>src/processor.rs\<close>, \<^verbatim>\<open>src/scanner.rs\<close> and
  \<^verbatim>\<open>src/acceptor.rs\<close> up to their loops. Each first acquires what it needs by name (listener, sockets
  directory, certificates, its own binary), then drops its privileges, enters its sandbox and only
  then tells its parent that it is ready.
\<close>

section \<open>The world of a starting worker\<close>

record ('file, 'stream) start_world =
  sw_open :: open_os
  sw_request :: "raw_fd result"
  sw_kernel :: "('file, 'stream) cap_kernel"
  sw_current_exe :: "string result"
  sw_open_exe :: "string \<Rightarrow> raw_fd result"
  sw_calls :: cred_calls
  sw_users :: "string \<Rightarrow> u32 option result"
  sw_groups :: "string \<Rightarrow> u32 option result"
  sw_platform :: platform
  sw_arch :: arch
  sw_install :: "unit result"
  sw_cap_enter :: "unit result"
  sw_write :: "raw_fd \<Rightarrow> string \<Rightarrow> unit result"

definition sw_env :: "('file, 'stream, 'z) start_world_scheme \<Rightarrow> env" where
  "sw_env w = oo_env (sw_open w)"

section \<open>Acquisition\<close>

text \<open>
  What a worker holds when it starts to confine itself, with the rights its descriptors are limited to;
  \<^verbatim>\<open>'x\<close> is particular to its role.
\<close>

record 'x opened =
  op_generation :: u64
  op_listener :: raw_fd
  op_dialer :: sockets_dialer
  op_caps :: cap_state
  op_self_exe :: self_exe
  op_extra :: 'x

definition start_self_exe :: "('file, 'stream) start_world \<Rightarrow> self_exe result" where
  "start_self_exe w =
     with_context ''open self exe'' (open_self_exe (sw_env w) (sw_current_exe w) (sw_open_exe w))"

definition start_dialer ::
  "('file, 'stream) start_world \<Rightarrow> string \<Rightarrow> config \<Rightarrow> (sockets_dialer \<times> ('file, 'stream) cap_kernel) result" where
  "start_dialer w what cfg =
     with_context what (dialer_open (sw_platform w = FreeBsd) (sw_kernel w) (sw_env w) (sockets_dir cfg))"

text \<open>\<^verbatim>\<open>adopt\<close> is the adoption of handed-over sessions into a registry.\<close>

definition processor_open ::
  "('file, 'stream) start_world \<Rightarrow> (processor \<Rightarrow> processor result) \<Rightarrow> config \<Rightarrow> processor opened result" where
  "processor_open w adopt cfg =
     and_then (fst (adopt_or_bind_uds_listener (sw_open w) (sw_request w) (processor_sock cfg))) (\<lambda>listener.
     and_then (with_context ''adopt in-flight sessions''
         (adopt \<lparr>p_registry = session_registry_default, p_tasks = [], p_closed = []\<rparr>)) (\<lambda>sessions.
     and_then (start_dialer w ''open sockets'' cfg) (\<lambda>(dialer, k).
     and_then (start_self_exe w) (\<lambda>exe.
       Inr \<lparr>op_generation = worker_generation (sw_env w), op_listener = listener, op_dialer = dialer,
         op_caps = ck_state k, op_self_exe = exe, op_extra = sessions\<rparr>))))"

definition scanner_open :: "('file, 'stream) start_world \<Rightarrow> config \<Rightarrow> unit opened result" where
  "scanner_open w cfg =
     and_then (fst (adopt_or_bind_uds_listener (sw_open w) (sw_request w) (scanner_sock cfg))) (\<lambda>listener.
     and_then (start_dialer w ''open sockets_dir'' cfg) (\<lambda>(dialer, k).
     and_then (start_self_exe w) (\<lambda>exe.
       Inr \<lparr>op_generation = worker_generation (sw_env w), op_listener = listener, op_dialer = dialer,
         op_caps = ck_state k, op_self_exe = exe, op_extra = ()\<rparr>)))"

text \<open>The certificate source and the first TLS acceptor; the plain role has neither.\<close>

definition acceptor_tls ::
  "('file, 'stream) start_world \<Rightarrow> ('file, 'stream) cap_kernel \<Rightarrow> ('file, 'certs, 'key, 'tls) tls_library \<Rightarrow>
     injected_fault option \<Rightarrow> injected_fault option \<Rightarrow> role \<Rightarrow> config \<Rightarrow>
     ((tls_cert_source \<times> 'tls) option \<times> ('file, 'stream) cap_kernel) result" where
  "acceptor_tls w k lib load_fault parse_fault r cfg =
     (case r of
        Plain \<Rightarrow> Inr (None, k)
      | Tls \<Rightarrow>
          and_then (with_context ''open TLS cert source''
              (cert_source_open (sw_platform w = FreeBsd) k (sw_env w) (cfg_tls cfg))) (\<lambda>(src, k1).
          and_then (with_context ''build initial TLS acceptor''
              (build_acceptor k1 lib load_fault parse_fault src)) (\<lambda>tls.
            Inr (Some (src, tls), k1))))"

definition acceptor_open ::
  "('file, 'stream) start_world \<Rightarrow> ('file, 'certs, 'key, 'tls) tls_library \<Rightarrow> injected_fault option \<Rightarrow>
     injected_fault option \<Rightarrow> role \<Rightarrow> config \<Rightarrow> (tls_cert_source \<times> 'tls) option opened result" where
  "acceptor_open w lib load_fault parse_fault r cfg =
     and_then (start_dialer w ''open sockets'' cfg) (\<lambda>(dialer, k1).
     and_then (acceptor_tls w k1 lib load_fault parse_fault r cfg) (\<lambda>(tls, k2).
     and_then (adopt_or_bind_tcp_listener (sw_open w) (sw_request w) (role_port r cfg)) (\<lambda>listener.
     and_then (start_self_exe w) (\<lambda>exe.
       Inr \<lparr>op_generation = worker_generation (sw_env w), op_listener = listener, op_dialer = dialer,
         op_caps = ck_state k2, op_self_exe = exe, op_extra = tls\<rparr>))))"

section \<open>Confinement\<close>

text \<open>
  The three calls every worker makes next, in this order. The result is the configuration with its
  numeric ids and the sandbox, the credentials, and what was written to the ready pipe.
\<close>

definition confine ::
  "('file, 'stream) start_world \<Rightarrow> string \<Rightarrow> config \<Rightarrow> creds \<Rightarrow>
     (config \<times> sandbox_effect) result \<times> creds \<times> (raw_fd \<times> string) option" where
  "confine w role cfg c =
     (case drop_privileges (sw_calls w) (sw_users w) (sw_groups w) (cfg_security cfg) c of
        (Inl e, c') \<Rightarrow> (Inl e, c', None)
      | (Inr sec, c') \<Rightarrow>
         (case apply_sandbox (sw_platform w) (sw_arch w) (sw_install w) (sw_cap_enter w) role sec of
            Inl e \<Rightarrow> (Inl e, c', None)
          | Inr box \<Rightarrow>
             (case with_context ''signal ready'' (signal_ready_to_parent (sw_env w) (sw_write w)) of
                Inl e \<Rightarrow> (Inl e, c', None)
              | Inr ack \<Rightarrow> (Inr (cfg\<lparr>cfg_security := sec\<rparr>, box), c', ack))))"

record 'x started =
  st_opened :: "'x opened"
  st_config :: config
  st_sandbox :: sandbox_effect

definition start_with ::
  "('file, 'stream) start_world \<Rightarrow> string \<Rightarrow> config \<Rightarrow> creds \<Rightarrow> 'x opened result \<Rightarrow>
     'x started result \<times> creds \<times> (raw_fd \<times> string) option" where
  "start_with w role cfg c opened =
     (case opened of
        Inl e \<Rightarrow> (Inl e, c, None)
      | Inr o' \<Rightarrow>
         (case confine w role cfg c of
            (Inl e, c', ack) \<Rightarrow> (Inl e, c', ack)
          | (Inr (cfg', box), c', ack) \<Rightarrow>
              (Inr \<lparr>st_opened = o', st_config = cfg', st_sandbox = box\<rparr>, c', ack)))"

definition processor_start ::
  "('file, 'stream) start_world \<Rightarrow> (processor \<Rightarrow> processor result) \<Rightarrow> config \<Rightarrow> creds \<Rightarrow>
     processor started result \<times> creds \<times> (raw_fd \<times> string) option" where
  "processor_start w adopt cfg c = start_with w ''processor'' cfg c (processor_open w adopt cfg)"

definition scanner_run_start ::
  "('file, 'stream) start_world \<Rightarrow> config \<Rightarrow> creds \<Rightarrow> unit started result \<times> creds \<times> (raw_fd \<times> string) option" where
  "scanner_run_start w cfg c = start_with w ''scanner'' cfg c (scanner_open w cfg)"

definition acceptor_start ::
  "('file, 'stream) start_world \<Rightarrow> ('file, 'certs, 'key, 'tls) tls_library \<Rightarrow> injected_fault option \<Rightarrow>
     injected_fault option \<Rightarrow> role \<Rightarrow> config \<Rightarrow> creds \<Rightarrow>
     (tls_cert_source \<times> 'tls) option started result \<times> creds \<times> (raw_fd \<times> string) option" where
  "acceptor_start w lib load_fault parse_fault r cfg c =
     start_with w (role_name r) cfg c (acceptor_open w lib load_fault parse_fault r cfg)"

section \<open>Lemmas\<close>

lemma apply_sandbox_ids:
  "apply_sandbox os a i ce role (numeric_config u gid sec) = apply_sandbox os a i ce role sec"
proof -
  have "effective_sandbox (numeric_config u gid sec) role = effective_sandbox sec role"
    by (simp add: numeric_config_def effective_sandbox_def split: option.splits)
  then show ?thesis by (simp only: apply_sandbox_def)
qed

text \<open>A drop from root that succeeds has resolved its group, and then is the drop of the lemma.\<close>

lemma drop_from_root_Inr:
  assumes "posix_calls k" and "c_euid c = 0" and "drop_uid sec = Some spec" and "resolve_uid users spec = Inr u"
    and "u \<noteq> 0" and "drop_privileges k users groups sec c = (Inr sec', c')"
  obtains gid where "transpose_result (resolve_gid groups) (drop_gid sec) = Inr gid"
    and "sec' = numeric_config u gid sec" and "c' = dropped u gid c"
proof -
  obtain gid where g: "transpose_result (resolve_gid groups) (drop_gid sec) = Inr gid"
    using assms(6) by (auto simp: drop_privileges_def transpose_result_def split: sum.splits option.splits)
      (auto simp: and_then_def split: sum.splits)
  from posix_calls.drop_from_root [OF assms(1-5) g] assms(6) show thesis
    by (intro that [OF g]) auto
qed

text \<open>
  The credentials a worker starts with: root's, when the supervisor has not dropped, or those its
  predecessor dropped to, with the same group.
\<close>

definition start_creds :: "('file, 'stream) start_world \<Rightarrow> config \<Rightarrow> creds \<Rightarrow> bool" where
  "start_creds w cfg c \<longleftrightarrow>
     c_euid c = 0 \<or>
     (\<exists>u gid c0. c = dropped u gid c0 \<and> u \<noteq> 0 \<and>
        transpose_result (resolve_gid (sw_groups w)) (drop_gid (cfg_security cfg)) = Inr gid)"

lemma drop_at_start:
  assumes "posix_calls (sw_calls w)" and "drop_uid (cfg_security cfg) = Some spec" and "resolve_uid (sw_users w) spec = Inr u"
    and "u \<noteq> 0" and "start_creds w cfg c"
    and "drop_privileges (sw_calls w) (sw_users w) (sw_groups w) (cfg_security cfg) c = (Inr sec, c')"
  obtains gid c0 where "sec = numeric_config u gid (cfg_security cfg)" and "c' = dropped u gid c0"
    and "c_euid c \<noteq> 0 \<Longrightarrow> c' = c"
proof (cases "c_euid c = 0")
  case True
  then show thesis using drop_from_root_Inr [OF assms(1) True assms(2-4,6)] that by metis
next
  case False
  with assms(5) obtain u0 gid c0 where c: "c = dropped u0 gid c0" "u0 \<noteq> 0"
    and gid: "transpose_result (resolve_gid (sw_groups w)) (drop_gid (cfg_security cfg)) = Inr gid"
    by (auto simp: start_creds_def)
  from posix_calls.drop_dropped [OF assms(1) c(2) assms(2,3) gid] assms(6) have "u0 = u"
    "sec = numeric_config u gid (cfg_security cfg)" "c' = dropped u gid c0"
    unfolding c(1) by auto
  with c(1) show thesis using that by metis
qed

lemma start_with_Inr:
  assumes "start_with w role cfg c opened = (Inr st, c', ack)"
  obtains sec where "opened = Inr (st_opened st)"
    and "drop_privileges (sw_calls w) (sw_users w) (sw_groups w) (cfg_security cfg) c = (Inr sec, c')"
    and "apply_sandbox (sw_platform w) (sw_arch w) (sw_install w) (sw_cap_enter w) role sec = Inr (st_sandbox st)"
    and "signal_ready_to_parent (sw_env w) (sw_write w) = Inr ack"
    and "st_config st = cfg\<lparr>cfg_security := sec\<rparr>"
  using assms by (auto simp: start_with_def confine_def split: sum.splits prod.splits)

lemma start_with_Inl: "start_with w role cfg c opened = (Inl e, c', ack) \<Longrightarrow> ack = None"
  by (auto simp: start_with_def confine_def split: sum.splits prod.splits)

text \<open>The pipe's content, as the parent reads it after the child has closed its end.\<close>

definition pipe_text :: "(raw_fd \<times> string) option \<Rightarrow> string" where
  "pipe_text ack = (case ack of None \<Rightarrow> [] | Some (_, s) \<Rightarrow> s)"

lemma empty_pipe_refused: "wait_for_child_ready (ReadGot (pipe_text None)) \<noteq> Inr ()"
  by (simp add: wait_for_child_ready_iff pipe_text_def starts_with_def)

lemma ready_verdict:
  assumes "signal_ready_to_parent e write = Inr ack"
  shows "wait_for_child_ready (ReadGot (pipe_text ack)) = Inr () \<longleftrightarrow> env_var e ENV_READY_FD \<noteq> None"
proof (cases "env_var e ENV_READY_FD")
  case None
  then have "ack = None" using assms by (simp add: signal_ready_to_parent_def)
  then show ?thesis using None empty_pipe_refused by simp
next
  case (Some v)
  then show ?thesis
    using assms by (auto simp: signal_ready_to_parent_def pipe_text_def and_then_Inr_iff split: option.splits)
qed

subsection \<open>A successor in capability mode\<close>

text \<open>The directories an acceptor hands over, and the variables of its two kinds of upgrade.\<close>

definition acceptor_dirs :: "(tls_cert_source \<times> 'tls) option opened \<Rightarrow> handoff_dir_fds" where
  "acceptor_dirs o' = \<lparr>
     dir_sockets = dir_raw_fd (op_dialer o'),
     dir_cert = Option.bind (op_extra o') (\<lambda>(src, _). cert_dir_raw_fd src),
     dir_key = Option.bind (op_extra o') (\<lambda>(src, _). key_dir_raw_fd src)\<rparr>"

definition acceptor_base :: "role \<Rightarrow> 'x opened \<Rightarrow> raw_fd \<Rightarrow> env" where
  "acceptor_base r o' ready_fd =
     (case r of
        Plain \<Rightarrow> handed_env (op_generation o') (op_listener o') ready_fd
      | Tls \<Rightarrow> tls_handed_env (op_generation o') (op_listener o'))"

text \<open>What is left of a worker's world to a process born in capability mode.\<close>

definition capability_world ::
  "('file, 'stream) start_world \<Rightarrow> ('file, 'stream) cap_kernel \<Rightarrow> error \<Rightarrow> env \<Rightarrow> ('file, 'stream) start_world" where
  "capability_world w after refused e =
     w\<lparr>sw_open := \<lparr>oo_env = e, oo_bind_uds = (\<lambda>_. Inl refused), oo_bind_tcp = (\<lambda>_. Inl refused),
         oo_chmod = (\<lambda>_. Inl refused), oo_wrap = oo_wrap (sw_open w)\<rparr>,
       sw_request := Inl refused, sw_kernel := after, sw_current_exe := Inl refused,
       sw_open_exe := (\<lambda>_. Inl refused), sw_users := (\<lambda>_. Inl refused), sw_groups := (\<lambda>_. Inl refused)\<rparr>"

lemma capability_world_simps [simp]:
  "sw_env (capability_world w after refused e) = e"
  "sw_kernel (capability_world w after refused e) = after"
  "sw_platform (capability_world w after refused e) = sw_platform w"
  "sw_arch (capability_world w after refused e) = sw_arch w"
  "sw_install (capability_world w after refused e) = sw_install w"
  "sw_cap_enter (capability_world w after refused e) = sw_cap_enter w"
  "sw_calls (capability_world w after refused e) = sw_calls w"
  "sw_write (capability_world w after refused e) = sw_write w"
  "sw_users (capability_world w after refused e) = (\<lambda>_. Inl refused)"
  "sw_groups (capability_world w after refused e) = (\<lambda>_. Inl refused)"
  "sw_current_exe (capability_world w after refused e) = Inl refused"
  "sw_open_exe (capability_world w after refused e) = (\<lambda>_. Inl refused)"
  by (simp_all add: capability_world_def sw_env_def)

lemma tls_handed_env_no_ready: "env_var (rev (tls_handed_env g l)) ENV_READY_FD = None"
  by (simp add: tls_handed_env_def env_names)

lemma acceptor_base_lookup:
  "env_var (rev (acceptor_base r o' fd)) ENV_LISTENER_FD = Some (dec_int (op_listener o'))"
  "env_var (rev (acceptor_base r o' fd)) ENV_UPGRADE_GENERATION = Some (dec (unat (op_generation o' + 1)))"
  "env_var (rev (acceptor_base r o' fd)) ENV_READY_FD = (case r of Plain \<Rightarrow> Some (dec_int fd) | Tls \<Rightarrow> None)"
  by (cases r, simp_all add: acceptor_base_def handed_env_lookup tls_handed_env_lookup tls_handed_env_no_ready)+

lemma acceptor_base_names:
  assumes "k \<in> set CAP_MODE_ENV"
  shows "k \<notin> fst ` set (acceptor_base r o' fd)"
proof -
  have "k \<noteq> ENV_LISTENER_FD" "k \<noteq> ENV_READY_FD" "k \<noteq> ENV_UPGRADE_GENERATION"
    using assms handed_names_free by metis+
  then show ?thesis by (cases r) (simp_all add: acceptor_base_def handed_env_def tls_handed_env_def)
qed

text \<open>What a handoff in capability mode leaves of the variables every upgrade hands over.\<close>

lemma cap_mode_base_lookup:
  assumes "cap_mode_handoff fc base off json exe dirs over t = (Inr (handed, gs), t')"
    and "k \<in> {ENV_LISTENER_FD, ENV_UPGRADE_GENERATION, ENV_READY_FD}"
  shows "env_var (fexecve_env_map vars (fdpass_env_to_remove vars) handed) k = env_var (rev base) k"
proof -
  have "k \<notin> set CAP_MODE_ENV" "starts_with ''FDPASS_'' k" "k \<notin> set PRESERVED_ENV"
    using assms(2) handed_names_free by (auto simp: env_names PRESERVED_ENV_def starts_with_def)
  then show ?thesis
    using cap_mode_keeps [OF assms(1)] scrubbed_fdpass [of k vars]
    by (simp only: env_var_fexecve) (auto split: option.splits if_splits)
qed

lemma acceptor_open_Inr:
  assumes "acceptor_open w lib lf pf r cfg = Inr o'" and "sw_platform w = FreeBsd"
  obtains k1 k2 where "dialer_open True (sw_kernel w) (sw_env w) (sockets_dir cfg) = Inr (op_dialer o', k1)"
    and "acceptor_tls w k1 lib lf pf r cfg = Inr (op_extra o', k2)" and "op_caps o' = ck_state k2"
    and "op_generation o' = worker_generation (sw_env w)"
  using assms by (auto simp: acceptor_open_def start_dialer_def and_then_Inr_iff)

lemma acceptor_tls_state:
  assumes "acceptor_tls w k lib lf pf r cfg = Inr (extra, k')" and "sw_platform w = FreeBsd"
  shows "k' = k\<lparr>ck_state := ck_state k'\<rparr>"
  using assms by (cases r) (auto simp: acceptor_tls_def and_then_Inr_iff intro: cert_source_open_state)

text \<open>The same certificates, from the handed descriptors.\<close>

lemma handed_limited_later:
  assumes "dialer_open True k e dir = Inr (d, k1)" and "handed_limited k e" shows "handed_limited k1 e"
proof (cases rule: dialer_open_Inr [OF assms(1)])
  case (2 fd)
  then show ?thesis using assms(2) rights_not_all(2) by (auto simp: handed_limited_def split: option.splits)
qed (use assms(2) in simp)

lemma acceptor_tls_adopted:
  assumes "acceptor_tls w k lib lf pf r cfg = Inr (extra, k1)" and "sw_platform w = FreeBsd"
    and "capsicum k1" and "handed_limited k (sw_env w)" and "cfg_tls cfg' = cfg_tls cfg"
    and "env_raw_fd e ENV_CERT_DIR_FD = Option.bind extra (\<lambda>(src, _). cert_dir_raw_fd src)"
    and "env_raw_fd e ENV_KEY_DIR_FD = Option.bind extra (\<lambda>(src, _). key_dir_raw_fd src)"
    and "after = enter_capability_mode k1"
  shows "acceptor_tls (capability_world w k0 refused e) after lib lf pf r cfg' = Inr (extra, after)"
proof (cases r)
  case Tls
  then obtain src tls where src: "cert_source_open True k (sw_env w) (cfg_tls cfg) = Inr (src, k1)"
    and tls: "build_acceptor k1 lib lf pf src = Inr tls" and extra: "extra = Some (src, tls)"
    using assms(1,2) by (auto simp: acceptor_tls_def and_then_Inr_iff)
  have fds: "env_raw_fd e ENV_CERT_DIR_FD = cert_dir_raw_fd src" "env_raw_fd e ENV_KEY_DIR_FD = key_dir_raw_fd src"
    using assms(6,7) extra by simp_all
  obtain d where "cs_dirs src = Some d" "cs_rights (ck_state k1) (cd_cert_dir d) \<noteq> UNIV"
    "cs_rights (ck_state k1) (cd_key_dir d) \<noteq> UNIV"
    by (rule cert_source_limited [OF src assms(4)])
  then have "build_acceptor after lib lf pf src = Inr tls"
    using build_in_capability_mode [OF assms(3) _ _ _ tls] assms(8) by metis
  moreover have "cert_source_open True after e (cfg_tls cfg) = Inr (src, after)"
    by (rule cert_source_adopted [OF src fds])
  ultimately show ?thesis using Tls assms(2,5) extra by (simp add: acceptor_tls_def)
qed (use assms(1) in \<open>simp add: acceptor_tls_def\<close>)

text \<open>A FreeBSD host on which everything succeeds, for a TLS acceptor that drops to user 65534.\<close>

definition ready_env :: env where
  "ready_env = [(ENV_READY_FD, dec_int 31)]"

definition calm_start :: "(string, unit) start_world" where
  "calm_start = \<lparr>
     sw_open = \<lparr>oo_env = ready_env, oo_bind_uds = (\<lambda>_. Inr 6), oo_bind_tcp = (\<lambda>_. Inr 6),
       oo_chmod = (\<lambda>_. Inr ()), oo_wrap = (\<lambda>_. Inr ())\<rparr>,
     sw_request = Inr 7, sw_kernel = two_dirs, sw_current_exe = Inr ''/bin/echod'', sw_open_exe = (\<lambda>_. Inr 4),
     sw_calls = posix, sw_users = (\<lambda>_. Inr (Some 65534)), sw_groups = (\<lambda>_. Inr None), sw_platform = FreeBsd,
     sw_arch = X86_64, sw_install = Inr (), sw_cap_enter = Inr (), sw_write = (\<lambda>_ _. Inr ())\<rparr>"

definition calm_config :: config where
  "calm_config = config_default\<lparr>sockets_dir := ''/run'',
     cfg_tls := etc_tls,
     cfg_security := security_config_default\<lparr>drop_uid := Some (dec (unat (65534 :: u32))), sandbox := Strict\<rparr>\<rparr>"

definition calm_opened :: "(tls_cert_source \<times> string \<times> string) option opened" where
  "calm_opened = \<lparr>op_generation = 0, op_listener = 7, op_dialer = DialFd 8,
     op_caps = ck_state two_dirs_limited,
     op_self_exe = \<lparr>exe_path = ''/bin/echod'', exe_fd = 4\<rparr>,
     op_extra = Some (etc_source, ''/etc/c.pem'', ''/etc/k.pem'')\<rparr>"

lemma calm_env:
  "env_raw_fd ready_env ENV_SOCKETS_DIR_FD = None"
  "env_raw_fd ready_env ENV_CERT_DIR_FD = None"
  "env_raw_fd ready_env ENV_KEY_DIR_FD = None"
  "env_raw_fd ready_env ENV_SELF_EXE_FD = None"
  "env_var ready_env ENV_LISTENER_FD = None"
  "env_var ready_env ENV_UPGRADE_GENERATION = None"
  "env_var ready_env ENV_READY_FD = Some (dec_int 31)"
  by (simp_all add: ready_env_def env_raw_fd_def env_names)

lemma calm_acceptor_opens: "acceptor_open calm_start etc_lib None None Tls calm_config = Inr calm_opened"
proof -
  obtain k1 where k1: "dialer_open True two_dirs ready_env ''/run'' = Inr (DialFd 8, k1)"
      "cert_source_open True k1 ready_env etc_tls = Inr (etc_source, two_dirs_limited)"
    by (rule two_dirs_opens [of ready_env]) (simp_all add: calm_env)
  then have "acceptor_tls calm_start k1 etc_lib None None Tls calm_config =
      Inr (Some (etc_source, ''/etc/c.pem'', ''/etc/k.pem''), two_dirs_limited)"
    using etc_builds by (simp add: acceptor_tls_def calm_start_def calm_config_def sw_env_def)
  moreover have "start_dialer calm_start ''open sockets'' calm_config = Inr (DialFd 8, k1)"
    using k1(1) by (simp add: start_dialer_def calm_start_def sw_env_def calm_config_def)
  ultimately show ?thesis
    by (simp add: acceptor_open_def start_self_exe_def calm_start_def sw_env_def adopt_or_bind_tcp_listener_def
        open_self_exe_def worker_generation_def env_generation_def calm_env calm_opened_def)
qed

definition calm_started :: "(tls_cert_source \<times> string \<times> string) option started" where
  "calm_started = \<lparr>st_opened = calm_opened, st_config = calm_config, st_sandbox = CapabilityMode\<rparr>"

lemma calm_drop:
  "drop_privileges posix (\<lambda>_. Inr (Some 65534)) (\<lambda>_. Inr None) (cfg_security calm_config) root_creds =
     (Inr (cfg_security calm_config), dropped 65534 None root_creds)"
proof -
  have "numeric_config 65534 None (cfg_security calm_config) = cfg_security calm_config"
    by (simp add: numeric_config_def calm_config_def security_config_default_def)
  moreover have "drop_privileges posix (\<lambda>_. Inr (Some 65534)) (\<lambda>_. Inr None) (cfg_security calm_config) root_creds =
     (Inr (numeric_config 65534 None (cfg_security calm_config)), dropped 65534 None root_creds)"
    by (rule posix.drop_from_root [where spec = "dec (unat (65534 :: u32))"])
      (simp_all only: resolve_numeric, simp_all add: root_creds_def calm_config_def transpose_result_def
        security_config_default_def)
  ultimately show ?thesis by simp
qed

lemma calm_drop_again:
  "drop_privileges posix (\<lambda>_. Inr (Some 65534)) (\<lambda>_. Inr None) (cfg_security calm_config) (dropped 65534 None root_creds) =
     (Inr (cfg_security calm_config), dropped 65534 None root_creds)"
proof -
  have cfg: "cfg_security calm_config = numeric_config 65534 None (cfg_security calm_config)"
    by (simp add: numeric_config_def calm_config_def security_config_default_def)
  show ?thesis
    by (subst (1 2) cfg, rule posix.drop_again)
      (simp_all add: numeric_config_def calm_config_def security_config_default_def transpose_result_def)
qed

text \<open>The same host when the supervisor starts the worker: no descriptor to report to.\<close>

definition first_start :: "(string, unit) start_world" where
  "first_start = calm_start\<lparr>sw_open := (sw_open calm_start)\<lparr>oo_env := []\<rparr>\<rparr>"

lemma calm_confines:
  assumes "c \<in> {root_creds, dropped 65534 None root_creds}"
  shows "confine calm_start role calm_config c =
     (Inr (calm_config, CapabilityMode), dropped 65534 None root_creds, Some (31, ready_ack))"
  using assms calm_drop calm_drop_again
  by (auto simp: confine_def calm_start_def sw_env_def apply_sandbox_def effective_sandbox_def capsicum_apply_def
      Let_def signal_ready_to_parent_def i32_range_def calm_env)
    (simp_all add: calm_config_def security_config_default_def)

lemma first_confines:
  "confine first_start role calm_config root_creds =
     (Inr (calm_config, CapabilityMode), dropped 65534 None root_creds, None)"
  using calm_drop
  by (simp add: confine_def first_start_def calm_start_def sw_env_def apply_sandbox_def effective_sandbox_def
      capsicum_apply_def Let_def signal_ready_to_parent_def)
    (simp add: calm_config_def security_config_default_def)

lemma calm_starts:
  "acceptor_start calm_start etc_lib None None Tls calm_config root_creds =
     (Inr calm_started, dropped 65534 None root_creds, Some (31, ready_ack))"
  by (simp add: acceptor_start_def start_with_def calm_acceptor_opens calm_confines calm_started_def)

section \<open>Properties\<close>

text \<open>
  C21 (safety). No worker serves unconfined, and the ready signal vouches for it. A start that succeeds
  holds everything the worker had to open, runs with the configured user's ids, without supplementary
  groups and without a way back to root, and under the sandbox its role is configured for. This holds
  for a worker the supervisor started as root and for the successor of an upgrade, which starts with
  the credentials its predecessor dropped to and keeps them. The parent of a successor, which alone
  passes a ready descriptor, reads an acknowledgement exactly when the start succeeded: one that fails
  at any point, however late, leaves the pipe empty, so the parent keeps serving. A user to drop to is
  configured; without one the worker keeps its ids.
\<close>

theorem worker_ready_is_confined:
  assumes "start_with w role cfg c opened = (r, c', ack)" and "posix_calls (sw_calls w)" and "start_creds w cfg c"
    and "drop_uid (cfg_security cfg) = Some spec" and "resolve_uid (sw_users w) spec = Inr u" and "u \<noteq> 0"
  shows "(wait_for_child_ready (ReadGot (pipe_text ack)) = Inr () \<longleftrightarrow>
      \<not> isl r \<and> env_var (sw_env w) ENV_READY_FD \<noteq> None) \<and>
    (\<forall>st. r = Inr st \<longrightarrow> opened = Inr (st_opened st) \<and>
       c_ruid c' = u \<and> c_euid c' = u \<and> c_suid c' = u \<and> c_groups c' = [] \<and> isl (k_setuid (sw_calls w) 0 c') \<and>
       (c_euid c \<noteq> 0 \<longrightarrow> c' = c) \<and>
       apply_sandbox (sw_platform w) (sw_arch w) (sw_install w) (sw_cap_enter w) role (cfg_security cfg) =
         Inr (st_sandbox st))"
proof (cases r)
  case (Inl e)
  with assms(1) have "ack = None" using start_with_Inl by metis
  with Inl empty_pipe_refused show ?thesis by simp
next
  case (Inr st)
  from assms(1) [unfolded Inr] obtain sec where st: "opened = Inr (st_opened st)"
    and drop: "drop_privileges (sw_calls w) (sw_users w) (sw_groups w) (cfg_security cfg) c = (Inr sec, c')"
    and box: "apply_sandbox (sw_platform w) (sw_arch w) (sw_install w) (sw_cap_enter w) role sec = Inr (st_sandbox st)"
    and ready: "signal_ready_to_parent (sw_env w) (sw_write w) = Inr ack"
    by (rule start_with_Inr)
  obtain gid c0 where "sec = numeric_config u gid (cfg_security cfg)" "c' = dropped u gid c0" "c_euid c \<noteq> 0 \<longrightarrow> c' = c"
    using drop_at_start [OF assms(2,4-6,3) drop] by metis
  with st box Inr ready_verdict [OF ready] posix_calls.setuid_refused [OF assms(2,6)] show ?thesis
    by (simp add: dropped_ids apply_sandbox_ids)
qed

theorem worker_ready_is_confined_witness:
  "start_with first_start ''tls'' calm_config root_creds (Inr calm_opened) =
     (Inr calm_started, dropped 65534 None root_creds, None) \<and>
   isl (k_setuid posix 0 (dropped 65534 None root_creds)) \<and>
   start_with calm_start ''tls'' calm_config (dropped 65534 None root_creds) (Inr calm_opened) =
     (Inr calm_started, dropped 65534 None root_creds, Some (31, ready_ack)) \<and>
   wait_for_child_ready (ReadGot (pipe_text (Some (31, ready_ack)))) = Inr ()"
proof -
  have first: "start_with first_start ''tls'' calm_config root_creds (Inr calm_opened) =
      (Inr calm_started, dropped 65534 None root_creds, None)"
    by (simp add: start_with_def first_confines calm_started_def)
  have succ: "start_with calm_start ''tls'' calm_config (dropped 65534 None root_creds) (Inr calm_opened) =
      (Inr calm_started, dropped 65534 None root_creds, Some (31, ready_ack))"
    by (simp add: start_with_def calm_confines calm_started_def)
  have world: "posix_calls (sw_calls first_start)" "posix_calls (sw_calls calm_start)" "sw_calls first_start = posix"
    "env_var (sw_env calm_start) ENV_READY_FD \<noteq> None"
    by (simp_all add: first_start_def calm_start_def posix.posix_calls_axioms sw_env_def calm_env)
  have creds: "start_creds first_start calm_config root_creds"
    "start_creds calm_start calm_config (dropped 65534 None root_creds)"
    by (auto simp: start_creds_def root_creds_def calm_config_def security_config_default_def transpose_result_def
        intro!: exI [of _ 65534])
  have user: "drop_uid (cfg_security calm_config) = Some (dec (unat (65534 :: u32)))" "(65534 :: u32) \<noteq> 0"
    "resolve_uid (sw_users first_start) (dec (unat (65534 :: u32))) = Inr 65534"
    "resolve_uid (sw_users calm_start) (dec (unat (65534 :: u32))) = Inr 65534"
    by (simp_all only: resolve_numeric) (simp_all add: calm_config_def)
  from worker_ready_is_confined [OF first world(1) creds(1) user(1,3,2)]
    worker_ready_is_confined [OF succ world(2) creds(2) user(1,4,2)] first succ world(3,4)
  show ?thesis by simp
qed

text \<open>
  C20 (liveness). On FreeBSD an acceptor upgrades from within capability mode: when an acceptor that
  dropped from root hands over with the environment of the capability-mode handoff, the successor
  loads the same configuration and starts, although every path, the user database, the spawner and
  the name of its own binary are out of its reach. It has the same listener, sockets directory,
  certificates and binary, the next generation, the same credentials and the same sandbox. Directories
  the acceptor was itself handed are limited ones, as its predecessor left them.
\<close>

theorem capability_successor_starts:
  assumes "acceptor_start w lib None None r cfg c0 = (Inr st, c, ack0)" and "sw_platform w = FreeBsd"
    and "posix_calls (sw_calls w)" and "c_euid c0 = 0" and "drop_uid (cfg_security cfg) = Some spec"
    and "resolve_uid (sw_users w) spec = Inr u" and "u \<noteq> 0"
    and "capsicum (sw_kernel w)" and "handed_limited (sw_kernel w) (sw_env w)"
    and "after = enter_capability_mode ((sw_kernel w)\<lparr>ck_state := op_caps (st_opened st)\<rparr>)"
    and "cap_mode_handoff fc (acceptor_base r (st_opened st) ready_fd) False json (op_self_exe (st_opened st))
      (acceptor_dirs (st_opened st)) False t = (Inr (handed, gs), t')"
    and "\<forall>fd \<in> {exe_fd (op_self_exe (st_opened st)), op_listener (st_opened st), ready_fd} \<union>
      set_option (dir_sockets (acceptor_dirs (st_opened st))) \<union> set_option (dir_cert (acceptor_dirs (st_opened st))) \<union>
      set_option (dir_key (acceptor_dirs (st_opened st))). i32_range fd"
    and "\<forall>j. json = Inr j \<longrightarrow> from_json j = Inr (st_config st)"
    and "\<forall>fd s. sw_write w fd s = Inr ()" and "\<forall>fd. oo_wrap (sw_open w) fd = Inr ()"
    and "e = fexecve_env_map vars (fdpass_env_to_remove vars) handed"
  shows "load_config e read_file from_toml from_json path = Inr (st_config st) \<and>
    (\<exists>ack. acceptor_start (capability_world w after refused e) lib None None r (st_config st) c =
       (Inr (st\<lparr>st_opened := (st_opened st)\<lparr>op_generation := op_generation (st_opened st) + 1, op_caps := ck_state after\<rparr>\<rparr>),
         c, ack))"
proof -
  let ?o = "st_opened st" and ?w = "capability_world w after refused e"
  from assms(1) [unfolded acceptor_start_def] obtain sec where op: "acceptor_open w lib None None r cfg = Inr ?o"
    and drop: "drop_privileges (sw_calls w) (sw_users w) (sw_groups w) (cfg_security cfg) c0 = (Inr sec, c)"
    and box: "apply_sandbox (sw_platform w) (sw_arch w) (sw_install w) (sw_cap_enter w) (role_name r) sec = Inr (st_sandbox st)"
    and cfg: "st_config st = cfg\<lparr>cfg_security := sec\<rparr>"
    by (rule start_with_Inr)
  from drop obtain gid where gid: "transpose_result (resolve_gid (sw_groups w)) (drop_gid (cfg_security cfg)) = Inr gid"
    and sec: "sec = numeric_config u gid (cfg_security cfg)" and c: "c = dropped u gid c0"
    by (rule drop_from_root_Inr [OF assms(3-7)])
  obtain k1 k2 where o1: "dialer_open True (sw_kernel w) (sw_env w) (sockets_dir cfg) = Inr (op_dialer ?o, k1)"
    "acceptor_tls w k1 lib None None r cfg = Inr (op_extra ?o, k2)" "op_caps ?o = ck_state k2"
    by (rule acceptor_open_Inr [OF op assms(2)])
  have k2: "(sw_kernel w)\<lparr>ck_state := op_caps ?o\<rparr> = k2"
    using dialer_open_state [OF o1(1)] acceptor_tls_state [OF o1(2) assms(2)] o1(3) by (metis cap_kernel.surjective cap_kernel.update_convs(1))
  then have law: "capsicum k2" "after = enter_capability_mode k2" using assms(8,10) capsicum_state(1) by metis+
  obtain j where j: "json = Inr j" "env_var e ENV_CONFIG_JSON = Some j"
    and fds: "env_raw_fd e ENV_SOCKETS_DIR_FD = dir_sockets (acceptor_dirs ?o)"
      "env_raw_fd e ENV_CERT_DIR_FD = dir_cert (acceptor_dirs ?o)" "env_raw_fd e ENV_KEY_DIR_FD = dir_key (acceptor_dirs ?o)"
    and exe: "open_self_exe e (Inl refused) (\<lambda>_. Inl refused) = Inr (op_self_exe ?o)"
    unfolding assms(16)
    by (rule cap_mode_child_reads [OF assms(11) acceptor_base_names, of vars "Inl refused" "\<lambda>_. Inl refused"])
      (use assms(12) in auto)
  note base = cap_mode_base_lookup [OF assms(11), of _ vars, folded assms(16)]
  have "dialer_open True after e (sockets_dir (st_config st)) = Inr (op_dialer ?o, after)"
    using dialer_adopted [OF o1(1)] fds(1) by (simp add: acceptor_dirs_def)
  moreover have "acceptor_tls ?w after lib None None r (st_config st) = Inr (op_extra ?o, after)"
    using acceptor_tls_adopted [OF o1(2) assms(2) law(1) handed_limited_later [OF o1(1) assms(9)] _ _ _ law(2)] fds(2,3) cfg
    by (simp add: acceptor_dirs_def)
  moreover have "adopt_or_bind_tcp_listener (sw_open ?w) (sw_request ?w) (role_port r (st_config st)) = Inr (op_listener ?o)"
    using base [of ENV_LISTENER_FD] assms(12,15)
    by (simp add: adopt_or_bind_tcp_listener_def capability_world_def acceptor_base_lookup)
  moreover have "worker_generation e = op_generation ?o + 1"
    using base [of ENV_UPGRADE_GENERATION]
    by (simp add: worker_generation_def env_generation_def acceptor_base_lookup)
  ultimately have opened: "acceptor_open ?w lib None None r (st_config st) =
      Inr (?o\<lparr>op_generation := op_generation ?o + 1, op_caps := ck_state after\<rparr>)"
    using exe assms(2) by (simp add: acceptor_open_def start_dialer_def start_self_exe_def)
  have again: "drop_privileges (sw_calls w) (\<lambda>_. Inl refused) (\<lambda>_. Inl refused) sec c = (Inr sec, c)"
    unfolding sec c by (rule posix_calls.drop_again [OF assms(3,7) numeric_gid [OF gid]])
  obtain ack where "signal_ready_to_parent e (sw_write w) = Inr ack"
    using base [of ENV_READY_FD] assms(12,14)
    by (cases r) (simp_all add: signal_ready_to_parent_def acceptor_base_lookup)
  then have "acceptor_start ?w lib None None r (st_config st) c =
      (Inr (st\<lparr>st_opened := ?o\<lparr>op_generation := op_generation ?o + 1, op_caps := ck_state after\<rparr>\<rparr>), c, ack)"
    using opened again box by (simp add: acceptor_start_def start_with_def confine_def cfg)
  moreover have "load_config e read_file from_toml from_json path = Inr (st_config st)"
    using j assms(13) by (simp add: load_config_def)
  ultimately show ?thesis by blast
qed

theorem capability_successor_starts_witness:
  "\<exists>e ack. env_var e ENV_CONFIG_JSON = Some ''{}'' \<and>
     acceptor_start (capability_world calm_start (enter_capability_mode two_dirs_limited) [''ECAPMODE''] e)
       etc_lib None None Tls calm_config (dropped 65534 None root_creds) =
     (Inr (calm_started\<lparr>st_opened := calm_opened\<lparr>op_generation := 1,
        op_caps := ck_state (enter_capability_mode two_dirs_limited)\<rparr>\<rparr>), dropped 65534 None root_creds, ack)"
proof -
  let ?base = "acceptor_base Tls calm_opened 31"
  have st: "st_opened calm_started = calm_opened" "st_config calm_started = calm_config"
    by (simp_all add: calm_started_def)
  obtain handed gs t' where h: "cap_mode_handoff (\<lambda>_ _. None) ?base False (Inr ''{}'') (op_self_exe calm_opened)
      (acceptor_dirs calm_opened) False (\<lambda>_. True) = (Inr (handed, gs), t')"
    by (simp add: cap_mode_handoff_def prepare_handoff_def quiet_clear Let_def)
  define e where "e = fexecve_env_map [] (fdpass_env_to_remove []) handed"
  have json: "env_var e ENV_CONFIG_JSON = Some ''{}''"
    unfolding e_def
    by (rule cap_mode_child_reads [OF h acceptor_base_names, of "[]" "Inl []" "\<lambda>_. Inl []"])
      (auto simp: calm_opened_def acceptor_dirs_def dir_raw_fd_def cert_dir_raw_fd_def key_dir_raw_fd_def etc_source_def
        i32_range_def)
  have world: "sw_platform calm_start = FreeBsd" "posix_calls (sw_calls calm_start)" "c_euid root_creds = 0"
    "drop_uid (cfg_security calm_config) = Some (dec (unat (65534 :: u32)))"
    "resolve_uid (sw_users calm_start) (dec (unat (65534 :: u32))) = Inr 65534" "(65534 :: u32) \<noteq> 0"
    by (simp_all only: resolve_numeric)
      (simp_all add: calm_start_def root_creds_def calm_config_def posix.posix_calls_axioms)
  have kernel: "capsicum (sw_kernel calm_start)" "handed_limited (sw_kernel calm_start) (sw_env calm_start)"
    "enter_capability_mode two_dirs_limited =
      enter_capability_mode ((sw_kernel calm_start)\<lparr>ck_state := op_caps (st_opened calm_started)\<rparr>)"
    by (simp_all add: calm_start_def two_dirs_capsicum handed_limited_def sw_env_def calm_env st)
      (simp add: calm_opened_def two_dirs_limited_def)
  have ranges: "\<forall>fd \<in> {exe_fd (op_self_exe (st_opened calm_started)), op_listener (st_opened calm_started), 31} \<union>
      set_option (dir_sockets (acceptor_dirs (st_opened calm_started))) \<union>
      set_option (dir_cert (acceptor_dirs (st_opened calm_started))) \<union>
      set_option (dir_key (acceptor_dirs (st_opened calm_started))). i32_range fd"
    by (simp add: st calm_opened_def acceptor_dirs_def dir_raw_fd_def cert_dir_raw_fd_def key_dir_raw_fd_def etc_source_def
        i32_range_def)
  have rest: "\<forall>j. Inr ''{}'' = (Inr j :: string result) \<longrightarrow> (\<lambda>_. Inr calm_config) j = Inr (st_config calm_started)"
    "\<forall>fd s. sw_write calm_start fd s = Inr ()" "\<forall>fd. oo_wrap (sw_open calm_start) fd = Inr ()"
    by (simp_all add: calm_start_def st)
  have "op_generation calm_opened + 1 = 1" by (simp add: calm_opened_def)
  with capability_successor_starts [OF calm_starts world kernel h [folded st(1)] ranges rest e_def, of "\<lambda>_. Inl []"
      "\<lambda>_. Inl []" None "[''ECAPMODE'']"] json
  show ?thesis by (auto simp: st)
qed

end
