(* ===== verification/Worker_Process.thy ===== *)
theory Worker_Process
  imports Worker_Start
begin

text \<open>
  Model of a whole worker process after its start: \<^verbatim>\<open>run\<close> of \<^verbatim>\<open>src/processor.rs\<close>, \<^verbatim>\<open>src/scanner.rs\<close> and
  \<^verbatim>\<open>src/acceptor.rs\<close> with the control clients they spawn, the watch channels between a client and the
  loop, and the end of the process. The channels are those of the asynchronous runtime and are a
  parameter: the operations the code calls, under the laws its documentation states.
\<close>

section \<open>Watch channels\<close>

text \<open>
  A channel with its senders and its one receiver: creation, a send, a further sender, the drop of
  a sender, whether the receiver's \<^verbatim>\<open>changed\<close> resolves and to which channel, and the value it then reads.
\<close>

record ('a, 'ch) watch_ops =
  wt_channel :: "'a \<Rightarrow> 'ch"
  wt_send :: "'a \<Rightarrow> 'ch \<Rightarrow> 'ch"
  wt_clone :: "'ch \<Rightarrow> 'ch"
  wt_drop :: "'ch \<Rightarrow> 'ch"
  wt_changed :: "'ch \<Rightarrow> 'ch option"
  wt_borrow :: "'ch \<Rightarrow> 'a"

locale watch_channel =
  fixes ops :: "('a, 'ch) watch_ops"
    and senders :: "'ch \<Rightarrow> nat"
    and unseen :: "'ch \<Rightarrow> bool"
  assumes channel: "senders (wt_channel ops v) = 1" "\<not> unseen (wt_channel ops v)" "wt_borrow ops (wt_channel ops v) = v"
    and send: "senders (wt_send ops v c) = senders c" "unseen (wt_send ops v c)" "wt_borrow ops (wt_send ops v c) = v"
    and clone: "senders (wt_clone ops c) = senders c + 1" "unseen (wt_clone ops c) = unseen c"
      "wt_borrow ops (wt_clone ops c) = wt_borrow ops c"
    and drop: "senders (wt_drop ops c) = senders c - 1" "unseen (wt_drop ops c) = unseen c"
      "wt_borrow ops (wt_drop ops c) = wt_borrow ops c"
    and waits: "0 < senders c \<Longrightarrow> \<not> unseen c \<Longrightarrow> wt_changed ops c = None"
    and resolves: "unseen c \<Longrightarrow> \<exists>c'. wt_changed ops c = Some c' \<and> senders c' = senders c \<and> \<not> unseen c' \<and>
      wt_borrow ops c' = wt_borrow ops c"
    and closed: "senders c = 0 \<Longrightarrow> \<not> unseen c \<Longrightarrow> wt_changed ops c = Some c"
begin

lemmas channel_simps = channel send clone drop

text \<open>With a sender left, \<^verbatim>\<open>changed\<close> resolves exactly on a value not seen yet.\<close>

lemma changed_iff: "0 < senders c \<Longrightarrow> wt_changed ops c \<noteq> None \<longleftrightarrow> unseen c"
  using waits [of c] resolves [of c] by (cases "unseen c") auto

end

text \<open>The laws describe one behaviour: a value, whether it was seen, and the number of senders.\<close>

definition counting_watch :: "('a, 'a \<times> bool \<times> nat) watch_ops" where
  "counting_watch = \<lparr>
     wt_channel = (\<lambda>v. (v, False, 1)),
     wt_send = (\<lambda>v (_, _, n). (v, True, n)),
     wt_clone = (\<lambda>(v, u, n). (v, u, n + 1)),
     wt_drop = (\<lambda>(v, u, n). (v, u, n - 1)),
     wt_changed = (\<lambda>(v, u, n). if u \<or> n = 0 then Some (v, False, n) else None),
     wt_borrow = fst\<rparr>"

interpretation counting: watch_channel counting_watch "\<lambda>(_, _, n). n" "\<lambda>(_, u, _). u"
  by unfold_locales (auto simp: counting_watch_def)

section \<open>The code of a worker\<close>

text \<open>
  What the three kinds of workers have in common: a loop, the number of control clients it has started, the
  initial and the stopping values of the shutdown channel, the turns of the \<^verbatim>\<open>select\<close> for its two channels and for its
  other arms, and the handling of a control message. \<^verbatim>\<open>'y\<close> are further channels of the role.
\<close>

record ('e, 's, 'c, 'x, 'v, 'o, 'y, 'w) worker_code =
  wk_step :: "'e \<Rightarrow> 's \<Rightarrow> 'c loop_end option \<times> 's"
  wk_clients :: "'s \<Rightarrow> nat"
  wk_stop_init :: 'v
  wk_stop :: "u64 \<Rightarrow> 'v"
  wk_on_stop :: "'v \<Rightarrow> 'e"
  wk_on_upgrade :: "'x \<Rightarrow> string option option \<Rightarrow> 'e"
  wk_on_other :: "'o \<Rightarrow> 'y \<Rightarrow> ('e \<times> 'y) option"
  wk_handle :: "'w \<Rightarrow> control_msg \<Rightarrow> 's \<times> 'y \<Rightarrow> acceptor_request option \<times> 's \<times> 'y"
  wk_clone :: "'y \<Rightarrow> 'y"
  wk_drop :: "'y \<Rightarrow> 'y"

text \<open>
  A process: the loop's state, its channels, the control clients that run, how the loop
  ended, and two histories, the requests the clients have sent and the upgrades the loop has tried.
\<close>

record ('s, 'y, 'sc, 'uc, 'c) worker_process =
  wp_loop :: 's
  wp_extra :: 'y
  wp_stop_ch :: 'sc
  wp_upgrade_ch :: 'uc
  wp_running :: nat
  wp_end :: "'c loop_end option"
  wp_asked :: "acceptor_request list"
  wp_tried :: "string option list"

text \<open>A spawned client owns a clone of every sender and drops them when it ends.\<close>

definition spawn_control ::
  "('v, 'sc) watch_ops \<Rightarrow> (string option option, 'uc) watch_ops \<Rightarrow> ('e, 's, 'c, 'x, 'v, 'o, 'y, 'w) worker_code \<Rightarrow>
     ('s, 'y, 'sc, 'uc, 'c) worker_process \<Rightarrow> ('s, 'y, 'sc, 'uc, 'c) worker_process" where
  "spawn_control ws wu k p =
     p\<lparr>wp_running := wp_running p + 1, wp_stop_ch := wt_clone ws (wp_stop_ch p),
       wp_upgrade_ch := wt_clone wu (wp_upgrade_ch p), wp_extra := wk_clone k (wp_extra p)\<rparr>"

definition end_control ::
  "('v, 'sc) watch_ops \<Rightarrow> (string option option, 'uc) watch_ops \<Rightarrow> ('e, 's, 'c, 'x, 'v, 'o, 'y, 'w) worker_code \<Rightarrow>
     ('s, 'y, 'sc, 'uc, 'c) worker_process \<Rightarrow> ('s, 'y, 'sc, 'uc, 'c) worker_process" where
  "end_control ws wu k p =
     p\<lparr>wp_running := wp_running p - 1, wp_stop_ch := wt_drop ws (wp_stop_ch p),
       wp_upgrade_ch := wt_drop wu (wp_upgrade_ch p), wp_extra := wk_drop k (wp_extra p)\<rparr>"

text \<open>\<^verbatim>\<open>run\<close> keeps the original senders and gives the loop a clone of each, for the clients it respawns.\<close>

definition process_start ::
  "('v, 'sc) watch_ops \<Rightarrow> (string option option, 'uc) watch_ops \<Rightarrow> ('e, 's, 'c, 'x, 'v, 'o, 'y, 'w) worker_code \<Rightarrow>
     's \<Rightarrow> 'y \<Rightarrow> ('s, 'y, 'sc, 'uc, 'c) worker_process" where
  "process_start ws wu k s y =
     spawn_control ws wu k \<lparr>
       wp_loop = s, wp_extra = wk_clone k y, wp_stop_ch = wt_clone ws (wt_channel ws (wk_stop_init k)),
       wp_upgrade_ch = wt_clone wu (wt_channel wu None), wp_running = 0, wp_end = None, wp_asked = [], wp_tried = []\<rparr>"

text \<open>A turn of the loop; the clients it started are spawned.\<close>

definition process_turn ::
  "('v, 'sc) watch_ops \<Rightarrow> (string option option, 'uc) watch_ops \<Rightarrow> ('e, 's, 'c, 'x, 'v, 'o, 'y, 'w) worker_code \<Rightarrow>
     'e \<Rightarrow> ('s, 'y, 'sc, 'uc, 'c) worker_process \<Rightarrow> ('s, 'y, 'sc, 'uc, 'c) worker_process" where
  "process_turn ws wu k e p =
     (case wk_step k e (wp_loop p) of
        (r, s) \<Rightarrow>
          (spawn_control ws wu k ^^ (wk_clients k s - wk_clients k (wp_loop p))) (p\<lparr>wp_loop := s, wp_end := r\<rparr>))"

text \<open>
  What can happen: a running client handles a message or gives up, or the \<^verbatim>\<open>select\<close> takes an arm,
  which for a channel is possible when its \<^verbatim>\<open>changed\<close> resolves.
\<close>

datatype ('x, 'o, 'w) process_event = CtlMessage 'w control_msg | CtlGaveUp | ArmStop | ArmUpgrade 'x | ArmOther 'o

definition control_message ::
  "('v, 'sc) watch_ops \<Rightarrow> (string option option, 'uc) watch_ops \<Rightarrow> ('e, 's, 'c, 'x, 'v, 'o, 'y, 'w) worker_code \<Rightarrow>
     'w \<Rightarrow> control_msg \<Rightarrow> ('s, 'y, 'sc, 'uc, 'c) worker_process \<Rightarrow> ('s, 'y, 'sc, 'uc, 'c) worker_process" where
  "control_message ws wu k x m p =
     (case wk_handle k x m (wp_loop p, wp_extra p) of
        (req, s, y) \<Rightarrow>
          let p1 = p\<lparr>wp_loop := s, wp_extra := y\<rparr> in
          (case req of
             None \<Rightarrow> p1
           | Some (AskShutdown g) \<Rightarrow>
               end_control ws wu k (p1\<lparr>wp_stop_ch := wt_send ws (wk_stop k g) (wp_stop_ch p),
                 wp_asked := wp_asked p @ [AskShutdown g]\<rparr>)
           | Some (AskUpgrade path) \<Rightarrow>
               end_control ws wu k (p1\<lparr>wp_upgrade_ch := wt_send wu (Some path) (wp_upgrade_ch p),
                 wp_asked := wp_asked p @ [AskUpgrade path]\<rparr>)))"

definition process_step ::
  "('v, 'sc) watch_ops \<Rightarrow> (string option option, 'uc) watch_ops \<Rightarrow> ('e, 's, 'c, 'x, 'v, 'o, 'y, 'w) worker_code \<Rightarrow>
     ('s, 'y, 'sc, 'uc, 'c) worker_process \<Rightarrow> ('x, 'o, 'w) process_event \<Rightarrow> ('s, 'y, 'sc, 'uc, 'c) worker_process" where
  "process_step ws wu k p ev =
     (if wp_end p \<noteq> None then p
      else case ev of
        CtlMessage x m \<Rightarrow> if wp_running p = 0 then p else control_message ws wu k x m p
      | CtlGaveUp \<Rightarrow> if wp_running p = 0 then p else end_control ws wu k p
      | ArmStop \<Rightarrow>
          (case wt_changed ws (wp_stop_ch p) of
             None \<Rightarrow> p
           | Some c \<Rightarrow> process_turn ws wu k (wk_on_stop k (wt_borrow ws c)) (p\<lparr>wp_stop_ch := c\<rparr>))
      | ArmUpgrade x \<Rightarrow>
          (case wt_changed wu (wp_upgrade_ch p) of
             None \<Rightarrow> p
           | Some c \<Rightarrow>
               process_turn ws wu k (wk_on_upgrade k x (wt_borrow wu c))
                 (p\<lparr>wp_upgrade_ch := c,
                    wp_tried := wp_tried p @ (case wt_borrow wu c of None \<Rightarrow> [] | Some path \<Rightarrow> [path])\<rparr>))
      | ArmOther a \<Rightarrow>
          (case wk_on_other k a (wp_extra p) of
             None \<Rightarrow> p
           | Some (e, y) \<Rightarrow> process_turn ws wu k e (p\<lparr>wp_extra := y\<rparr>)))"

section \<open>The three workers\<close>

datatype processor_arm =
    ProcessorAccept "injected_fault option" u64 "(raw_fd \<times> u32 result \<times> string result option \<times> bytes) result"
  | ProcessorSignal

definition processor_code ::
  "(string \<Rightarrow> processor_preamble result) \<Rightarrow>
     (processor_event, processor_runtime, upgrade_cmd \<times> raw_fd \<times> string, upgrade_os \<times> processor_os, bool, processor_arm,
      unit, msg_world) worker_code" where
  "processor_code from_json = \<lparr>
     wk_step = processor_loop_step from_json, wk_clients = rt_clients, wk_stop_init = False, wk_stop = (\<lambda>_. True),
     wk_on_stop = LoopShutdown, wk_on_upgrade = (\<lambda>(os, po) req. LoopUpgrade req os po),
     wk_on_other = (\<lambda>a y. Some (case a of
        ProcessorAccept fault now conn \<Rightarrow> LoopAccept fault now conn | ProcessorSignal \<Rightarrow> LoopSignal, y)),
     wk_handle = (\<lambda>x m (rt, y). (acceptor_request_of m,
        rt\<lparr>rt_allow := ch_allow (snd (worker_control_msg x m \<lparr>ch_requests = [], ch_allow = rt_allow rt, ch_replies = []\<rparr>))\<rparr>, y)),
     wk_clone = (\<lambda>y. y), wk_drop = (\<lambda>y. y)\<rparr>"

datatype scanner_arm = ScannerAccept "(u32 result \<times> string result option) result" | ScannerSignal

definition scanner_code ::
  "(string \<Rightarrow> scan_request result) \<Rightarrow>
     (scanner_event, scanner_runtime, upgrade_cmd, upgrade_os \<times> instant \<times> (nat \<times> instant) list, bool, scanner_arm,
      unit, msg_world) worker_code" where
  "scanner_code from_json = \<lparr>
     wk_step = scanner_loop_step from_json, wk_clients = sl_clients, wk_stop_init = False, wk_stop = (\<lambda>_. True),
     wk_on_stop = ScanShutdown, wk_on_upgrade = (\<lambda>(os, start, polls) req. ScanUpgrade req os start polls),
     wk_on_other = (\<lambda>a y. Some (case a of ScannerAccept conn \<Rightarrow> ScanAccept conn | ScannerSignal \<Rightarrow> ScanSignal, y)),
     wk_handle = (\<lambda>x m (rt, y). (acceptor_request_of m,
        rt\<lparr>sl_allow := ch_allow (snd (worker_control_msg x m \<lparr>ch_requests = [], ch_allow = sl_allow rt, ch_replies = []\<rparr>))\<rparr>, y)),
     wk_clone = (\<lambda>y. y), wk_drop = (\<lambda>y. y)\<rparr>"

text \<open>The acceptors have two more channels, for draining and for the reload of the certificate.\<close>

datatype 'tls acceptor_arm =
    AcceptorAccept instant "sock_addr result"
  | AcceptorDrain
  | AcceptorReload "'tls result"
  | AcceptorHangup "'tls result"

definition acceptor_on_other ::
  "(bool, 'dc) watch_ops \<Rightarrow> (u64, 'rc) watch_ops \<Rightarrow> 'tls acceptor_arm \<Rightarrow> 'dc \<times> 'rc \<Rightarrow>
     (('tls, 'q) acceptor_event \<times> 'dc \<times> 'rc) option" where
  "acceptor_on_other wd wr a y =
     (case a of
        AcceptorAccept now res \<Rightarrow> Some (AccAccept now res, y)
      | AcceptorDrain \<Rightarrow> map_option (\<lambda>d. (AccDrain (wt_borrow wd d), d, snd y)) (wt_changed wd (fst y))
      | AcceptorReload built \<Rightarrow> map_option (\<lambda>r. (AccReload built, fst y, r)) (wt_changed wr (snd y))
      | AcceptorHangup built \<Rightarrow> Some (AccHangup built, y))"

definition acceptor_handle ::
  "(bool, 'dc) watch_ops \<Rightarrow> (u64, 'rc) watch_ops \<Rightarrow> control_msg \<Rightarrow> 'dc \<times> 'rc \<Rightarrow> 'dc \<times> 'rc" where
  "acceptor_handle wd wr m y =
     (case m of
        Drain \<Rightarrow> (wt_send wd True (fst y), snd y)
      | Reload \<Rightarrow> (fst y, wt_send wr (wt_borrow wr (snd y) + 1) (snd y))
      | _ \<Rightarrow> y)"

definition acceptor_code ::
  "rounding \<Rightarrow> (bool, 'dc) watch_ops \<Rightarrow> (u64, 'rc) watch_ops \<Rightarrow>
     (('tls, 'q) acceptor_event, 'tls acceptor_runtime, upgrade_cmd \<times> 'q tls_handoff list,
      upgrade_os \<times> u32 result \<times> (u64 \<Rightarrow> 'q handoff_rx), u64 option, 'tls acceptor_arm, 'dc \<times> 'rc, unit) worker_code" where
  "acceptor_code rnd wd wr = \<lparr>
     wk_step = acceptor_loop_step rnd, wk_clients = ar_clients, wk_stop_init = None, wk_stop = Some,
     wk_on_stop = AccShutdown, wk_on_upgrade = (\<lambda>(os, fork_res, rx) req. AccUpgrade req os fork_res rx),
     wk_on_other = acceptor_on_other wd wr,
     wk_handle = (\<lambda>_ m (rt, y). (acceptor_request_of m, rt, acceptor_handle wd wr m y)),
     wk_clone = map_prod (wt_clone wd) (wt_clone wr), wk_drop = map_prod (wt_drop wd) (wt_drop wr)\<rparr>"

text \<open>
  How a process ends: the result of \<^verbatim>\<open>run\<close> and the socket file it removes. A commit leaves through
  \<^verbatim>\<open>exit\<close> from within the loop, a failure through the error operator.
\<close>

datatype process_exit = RunOk | RunErr error | ExitWith int | Execed | RunsOn

definition worker_exit :: "u64 \<Rightarrow> string \<Rightarrow> 'c loop_end option \<Rightarrow> process_exit \<times> string list" where
  "worker_exit generation sock_path r =
     (case r of
        Some LoopReturned \<Rightarrow> (RunOk, cleanup_generation_zero_socket generation sock_path)
      | Some (LoopFailed e) \<Rightarrow> (RunErr e, [])
      | Some (LoopCommitted _) \<Rightarrow> (ExitWith UPGRADE_COMMIT_EXIT_CODE, [])
      | Some LoopWaiting \<Rightarrow> (RunsOn, [])
      | None \<Rightarrow> (RunsOn, []))"

text \<open>The upgrades among the requests.\<close>

definition upgrades_asked :: "acceptor_request list \<Rightarrow> string option list" where
  "upgrades_asked rs = concat (map (\<lambda>r. case r of AskUpgrade path \<Rightarrow> [path] | AskShutdown _ \<Rightarrow> []) rs)"

lemma upgrades_asked_simps [simp]:
  "upgrades_asked [] = []" "upgrades_asked (rs @ rs') = upgrades_asked rs @ upgrades_asked rs'"
  "upgrades_asked [AskUpgrade path] = [path]" "upgrades_asked [AskShutdown g] = []"
  by (simp_all add: upgrades_asked_def)

section \<open>Whole processes\<close>

text \<open>
  What \<^verbatim>\<open>run\<close> gives its loop after the start. The allow list was made before the privileges were
  dropped, so its default is the user the worker was started as.
\<close>

definition worker_ctx :: "string \<Rightarrow> (config \<Rightarrow> string result) \<Rightarrow> handoff_dir_fds \<Rightarrow> 'x started \<Rightarrow> upgrade_ctx" where
  "worker_ctx role to_json dirs st = \<lparr>
     uc_arg = role, uc_generation = op_generation (st_opened st), uc_binary_path = None,
     uc_self_exe = op_self_exe (st_opened st), uc_dirs = dirs,
     uc_sandbox_off = (effective_sandbox (cfg_security (st_config st)) role = Off),
     uc_config_json = to_json (st_config st)\<rparr>"

definition sockets_only :: "'x started \<Rightarrow> handoff_dir_fds" where
  "sockets_only st = \<lparr>dir_sockets = dir_raw_fd (op_dialer (st_opened st)), dir_cert = None, dir_key = None\<rparr>"

definition start_allowlist :: "creds \<Rightarrow> config \<Rightarrow> peer_allowlist" where
  "start_allowlist c cfg = allowlist_from_config (c_euid c) (allowed_uids (cfg_auth cfg))"

definition processor_runtime_of ::
  "(config \<Rightarrow> string result) \<Rightarrow> creds \<Rightarrow> config \<Rightarrow> cloexec_flags \<Rightarrow> processor started \<Rightarrow> processor_runtime" where
  "processor_runtime_of to_json c cfg t st = \<lparr>
     rt_processor = op_extra (st_opened st), rt_flags = t, rt_allow = start_allowlist c cfg,
     rt_ctx = worker_ctx ''processor'' to_json (sockets_only st) st, rt_clients = 1\<rparr>"

definition scanner_runtime_of ::
  "(config \<Rightarrow> string result) \<Rightarrow> creds \<Rightarrow> config \<Rightarrow> cloexec_flags \<Rightarrow> unit started \<Rightarrow> scanner_runtime" where
  "scanner_runtime_of to_json c cfg t st = \<lparr>
     sl_scanner = scanner_start, sl_flags = t, sl_allow = start_allowlist c cfg,
     sl_ctx = worker_ctx ''scanner'' to_json (sockets_only st) st, sl_clients = 1\<rparr>"

definition acceptor_runtime_of ::
  "(config \<Rightarrow> string result) \<Rightarrow> role \<Rightarrow> u32 \<Rightarrow> u64 \<Rightarrow> cloexec_flags \<Rightarrow>
     (tls_cert_source \<times> 'tls) option started \<Rightarrow> 'tls acceptor_runtime" where
  "acceptor_runtime_of to_json r pid trace t st = \<lparr>
     ar_admission = \<lparr>ad_role = r, ad_config = st_config st, ad_drained = False,
       ad_limits = acceptor_limits_from_config (cfg_limits (st_config st)), ad_pid = pid, ad_trace = trace\<rparr>,
     ar_started = [], ar_registry = client_registry_default, ar_tls = map_option snd (op_extra (st_opened st)),
     ar_flags = t, ar_ctx = worker_ctx (role_name r) to_json (acceptor_dirs (st_opened st)) st, ar_clients = 1\<rparr>"

text \<open>The processes from the first call to the last; \<^verbatim>\<open>signals\<close> is the installation of the signal handlers.\<close>

definition run_events ::
  "('v, 'sc) watch_ops \<Rightarrow> (string option option, 'uc) watch_ops \<Rightarrow> ('e, 's, 'c, 'x, 'v, 'o, 'y, 'w) worker_code \<Rightarrow>
     unit result \<Rightarrow> 's \<Rightarrow> 'y \<Rightarrow> ('x, 'o, 'w) process_event list \<Rightarrow> ('s, 'y, 'sc, 'uc, 'c) worker_process" where
  "run_events ws wu k signals s y evs =
     (case signals of
        Inl e \<Rightarrow> (process_start ws wu k s y)\<lparr>wp_end := Some (LoopFailed e)\<rparr>
      | Inr _ \<Rightarrow> foldl (process_step ws wu k) (process_start ws wu k s y) evs)"

definition processor_run ::
  "(bool, 'sc) watch_ops \<Rightarrow> (string option option, 'uc) watch_ops \<Rightarrow> (string \<Rightarrow> processor_preamble result) \<Rightarrow>
     (config \<Rightarrow> string result) \<Rightarrow> ('file, 'stream) start_world \<Rightarrow> (processor \<Rightarrow> processor result) \<Rightarrow> unit result \<Rightarrow>
     config \<Rightarrow> creds \<Rightarrow> cloexec_flags \<Rightarrow> (upgrade_os \<times> processor_os, processor_arm, msg_world) process_event list \<Rightarrow>
     process_exit \<times> string list" where
  "processor_run ws wu from_json to_json w adopt signals cfg c t evs =
     (case processor_start w adopt cfg c of
        (Inl e, _, _) \<Rightarrow> (RunErr e, [])
      | (Inr st, _, _) \<Rightarrow>
          worker_exit (op_generation (st_opened st)) (processor_sock cfg)
            (wp_end (run_events ws wu (processor_code from_json) signals (processor_runtime_of to_json c cfg t st) () evs)))"

definition scanner_run ::
  "(bool, 'sc) watch_ops \<Rightarrow> (string option option, 'uc) watch_ops \<Rightarrow> (string \<Rightarrow> scan_request result) \<Rightarrow>
     (config \<Rightarrow> string result) \<Rightarrow> ('file, 'stream) start_world \<Rightarrow> unit result \<Rightarrow>
     config \<Rightarrow> creds \<Rightarrow> cloexec_flags \<Rightarrow>
     (upgrade_os \<times> instant \<times> (nat \<times> instant) list, scanner_arm, msg_world) process_event list \<Rightarrow> process_exit \<times> string list" where
  "scanner_run ws wu from_json to_json w signals cfg c t evs =
     (case scanner_run_start w cfg c of
        (Inl e, _, _) \<Rightarrow> (RunErr e, [])
      | (Inr st, _, _) \<Rightarrow>
          worker_exit (op_generation (st_opened st)) (scanner_sock cfg)
            (wp_end (run_events ws wu (scanner_code from_json) signals (scanner_runtime_of to_json c cfg t st) () evs)))"

text \<open>An acceptor has no socket file; the TLS role commits by becoming the new image.\<close>

definition acceptor_exit :: "role \<Rightarrow> 'c loop_end option \<Rightarrow> process_exit" where
  "acceptor_exit r res =
     (case res of
        Some LoopReturned \<Rightarrow> RunOk
      | Some (LoopFailed e) \<Rightarrow> RunErr e
      | Some (LoopCommitted _) \<Rightarrow> (case r of Plain \<Rightarrow> ExitWith UPGRADE_COMMIT_EXIT_CODE | Tls \<Rightarrow> Execed)
      | _ \<Rightarrow> RunsOn)"

definition acceptor_run ::
  "(u64 option, 'sc) watch_ops \<Rightarrow> (string option option, 'uc) watch_ops \<Rightarrow> (bool, 'dc) watch_ops \<Rightarrow> (u64, 'rc) watch_ops \<Rightarrow>
     rounding \<Rightarrow> (config \<Rightarrow> string result) \<Rightarrow> ('file, 'stream) start_world \<Rightarrow> ('file, 'certs, 'key, 'tls) tls_library \<Rightarrow>
     unit result \<Rightarrow> role \<Rightarrow> config \<Rightarrow> creds \<Rightarrow> u32 \<Rightarrow> u64 \<Rightarrow> cloexec_flags \<Rightarrow>
     (upgrade_os \<times> u32 result \<times> (u64 \<Rightarrow> 'q handoff_rx), 'tls acceptor_arm, unit) process_event list \<Rightarrow> process_exit" where
  "acceptor_run ws wu wd wr rnd to_json w lib signals r cfg c pid trace t evs =
     (case acceptor_start w lib None None r cfg c of
        (Inl e, _, _) \<Rightarrow> RunErr e
      | (Inr st, _, _) \<Rightarrow>
          acceptor_exit r
            (wp_end (run_events ws wu (acceptor_code rnd wd wr) signals (acceptor_runtime_of to_json r pid trace t st)
              (wt_channel wd False, wt_channel wr 0) evs)))"

section \<open>The contract of a worker\<close>

text \<open>
  What a role promises: its loop returns on a stopping value, tries an upgrade and, when it goes on, has
  started one client; the other arms start none and, signals apart, do not end the loop; a
  message is a request exactly when it is a shutdown or an upgrade.
\<close>

locale worker_contract =
  stop: watch_channel ws stop_senders stop_unseen + upg: watch_channel wu upg_senders upg_unseen
  for ws :: "('v, 'sc) watch_ops" and stop_senders :: "'sc \<Rightarrow> nat" and stop_unseen :: "'sc \<Rightarrow> bool"
    and wu :: "(string option option, 'uc) watch_ops" and upg_senders :: "'uc \<Rightarrow> nat" and upg_unseen :: "'uc \<Rightarrow> bool" +
  fixes k :: "('e, 's, 'c, 'x, 'v, 'o, 'y, 'w) worker_code"
    and is_signal :: "'o \<Rightarrow> bool"
  assumes on_stop: "wk_step k (wk_on_stop k (wk_stop k g)) s = (Some LoopReturned, s)"
    and on_upgrade: "wk_step k (wk_on_upgrade k x (Some path)) s = (None, s') \<Longrightarrow> wk_clients k s' = Suc (wk_clients k s)"
    and upgrade_ends: "wk_step k (wk_on_upgrade k x (Some path)) s = (Some r, s') \<Longrightarrow>
      r \<noteq> LoopReturned \<and> wk_clients k s' = wk_clients k s"
    and on_other: "wk_on_other k a y = Some (e, y') \<Longrightarrow> wk_clients k (snd (wk_step k e s)) = wk_clients k s"
    and other_goes_on: "wk_on_other k a y = Some (e, y') \<Longrightarrow> \<not> is_signal a \<Longrightarrow> fst (wk_step k e s) = None"
    and on_message: "wk_handle k x' m (s, y) = (req, s', y') \<Longrightarrow>
      req = acceptor_request_of m \<and> wk_clients k s' = wk_clients k s"
begin

text \<open>The state between two events of a process that has not ended.\<close>

definition settled :: "('s, 'y, 'sc, 'uc, 'c) worker_process \<Rightarrow> bool" where
  "settled p \<longleftrightarrow>
     wp_running p \<le> 1 \<and> \<not> (upg_unseen (wp_upgrade_ch p) \<and> stop_unseen (wp_stop_ch p)) \<and>
     stop_senders (wp_stop_ch p) = wp_running p + 2 \<and> upg_senders (wp_upgrade_ch p) = wp_running p + 2 \<and>
     (if upg_unseen (wp_upgrade_ch p)
      then wp_running p = 0 \<and> (\<exists>path. wt_borrow wu (wp_upgrade_ch p) = Some path \<and>
        upgrades_asked (wp_asked p) = wp_tried p @ [path])
      else upgrades_asked (wp_asked p) = wp_tried p) \<and>
     (if stop_unseen (wp_stop_ch p)
      then wp_running p = 0 \<and> (\<exists>g. wt_borrow ws (wp_stop_ch p) = wk_stop k g \<and> AskShutdown g \<in> set (wp_asked p))
      else \<forall>g. AskShutdown g \<notin> set (wp_asked p))"

text \<open>A client runs, or a request waits to be taken; only a client that gave up leaves neither.\<close>

definition reachable_by_supervisor :: "('s, 'y, 'sc, 'uc, 'c) worker_process \<Rightarrow> bool" where
  "reachable_by_supervisor p \<longleftrightarrow> wp_running p = 1 \<or> upg_unseen (wp_upgrade_ch p) \<or> stop_unseen (wp_stop_ch p)"

lemma start_settled: "settled (process_start ws wu k s y)"
  by (simp add: settled_def process_start_def spawn_control_def stop.channel_simps upg.channel_simps)

text \<open>A turn that goes on without having started a client keeps the state settled.\<close>

lemma turn_simps:
  assumes "wk_step k e (wp_loop p) = (r, s')" and "wk_clients k s' = wk_clients k (wp_loop p)"
  shows "process_turn ws wu k e p = p\<lparr>wp_loop := s', wp_end := r\<rparr>"
  using assms by (simp add: process_turn_def)

lemma settled_loop: "settled (p\<lparr>wp_loop := s\<rparr>) = settled p" "settled (p\<lparr>wp_extra := y\<rparr>) = settled p"
  "settled (p\<lparr>wp_end := r\<rparr>) = settled p"
  by (simp_all add: settled_def)

lemma message_settled:
  assumes "settled p" and "wp_running p \<noteq> 0" and "wp_end p = None"
  shows "settled (control_message ws wu k x m p) \<and> wp_end (control_message ws wu k x m p) = None \<and>
    reachable_by_supervisor (control_message ws wu k x m p)"
proof -
  obtain req s y where h: "wk_handle k x m (wp_loop p, wp_extra p) = (req, s, y)"
    by (cases "wk_handle k x m (wp_loop p, wp_extra p)") auto
  have one: "wp_running p = 1" "\<not> upg_unseen (wp_upgrade_ch p)" "\<not> stop_unseen (wp_stop_ch p)"
    using assms(1,2) by (auto simp: settled_def split: if_splits)
  show ?thesis
  proof (cases req)
    case None
    then show ?thesis
      using assms one by (simp add: control_message_def h settled_loop reachable_by_supervisor_def)
  next
    case (Some q)
    then show ?thesis
      using assms one
      by (cases q) (auto simp: control_message_def h settled_def end_control_def reachable_by_supervisor_def Let_def
          stop.channel_simps upg.channel_simps)
  qed
qed

definition obedient :: "('x, 'o, 'w) process_event list \<Rightarrow> ('s, 'y, 'sc, 'uc, 'c) worker_process \<Rightarrow> bool" where
  "obedient evs p \<longleftrightarrow>
     (if wp_end p = None then settled p \<and> (CtlGaveUp \<notin> set evs \<longrightarrow> reachable_by_supervisor p)
      else prefix (wp_tried p) (upgrades_asked (wp_asked p)) \<and>
        length (upgrades_asked (wp_asked p)) \<le> Suc (length (wp_tried p)) \<and>
        (wp_end p = Some LoopReturned \<longrightarrow>
          (\<exists>g. AskShutdown g \<in> set (wp_asked p)) \<or> (\<exists>a. ArmOther a \<in> set evs \<and> is_signal a)))"

lemma settled_prefix: "settled p \<Longrightarrow> prefix (wp_tried p) (upgrades_asked (wp_asked p)) \<and>
    length (upgrades_asked (wp_asked p)) \<le> Suc (length (wp_tried p))"
  by (auto simp: settled_def split: if_splits)

lemma stop_obedient:
  assumes "settled p" and "wp_end p = None" and "CtlGaveUp \<notin> set evs \<longrightarrow> reachable_by_supervisor p"
  shows "obedient evs (process_step ws wu k p ArmStop)"
proof (cases "stop_unseen (wp_stop_ch p)")
  case True
  from stop.resolves [OF True] obtain c where c: "wt_changed ws (wp_stop_ch p) = Some c"
      "wt_borrow ws c = wt_borrow ws (wp_stop_ch p)"
    by blast
  from True assms(1) obtain g where g: "wt_borrow ws (wp_stop_ch p) = wk_stop k g" "AskShutdown g \<in> set (wp_asked p)"
    by (auto simp: settled_def)
  have "process_turn ws wu k (wk_on_stop k (wt_borrow ws c)) (p\<lparr>wp_stop_ch := c\<rparr>) =
      p\<lparr>wp_stop_ch := c, wp_end := Some LoopReturned\<rparr>"
    by (simp add: process_turn_def c(2) g(1) on_stop)
  with assms(2) c(1) g(2) settled_prefix [OF assms(1)] show ?thesis
    by (auto simp: process_step_def obedient_def)
next
  case False
  then have "wt_changed ws (wp_stop_ch p) = None"
    using assms(1) by (intro stop.waits) (simp_all add: settled_def)
  with assms show ?thesis
    by (simp add: process_step_def obedient_def)
qed

lemma upgrade_obedient:
  assumes "settled p" and "wp_end p = None" and "CtlGaveUp \<notin> set evs \<longrightarrow> reachable_by_supervisor p"
  shows "obedient evs (process_step ws wu k p (ArmUpgrade x))"
proof (cases "upg_unseen (wp_upgrade_ch p)")
  case True
  from upg.resolves [OF True] obtain c where c: "wt_changed wu (wp_upgrade_ch p) = Some c"
      "upg_senders c = upg_senders (wp_upgrade_ch p)" "\<not> upg_unseen c" "wt_borrow wu c = wt_borrow wu (wp_upgrade_ch p)"
    by blast
  from True assms(1) obtain path where path: "wt_borrow wu c = Some path"
      "upgrades_asked (wp_asked p) = wp_tried p @ [path]" and idle: "wp_running p = 0" "\<not> stop_unseen (wp_stop_ch p)"
    by (auto simp: settled_def c(4))
  let ?q = "p\<lparr>wp_upgrade_ch := c, wp_tried := wp_tried p @ [path]\<rparr>"
  have step: "process_step ws wu k p (ArmUpgrade x) = process_turn ws wu k (wk_on_upgrade k x (Some path)) ?q"
    using assms(2) by (simp add: process_step_def c(1) path(1))
  obtain r s' where turn: "wk_step k (wk_on_upgrade k x (Some path)) (wp_loop p) = (r, s')"
    by (cases "wk_step k (wk_on_upgrade k x (Some path)) (wp_loop p)")
  show ?thesis
  proof (cases r)
    case None
    then have "process_turn ws wu k (wk_on_upgrade k x (Some path)) ?q =
        spawn_control ws wu k (?q\<lparr>wp_loop := s', wp_end := None\<rparr>)"
      using turn on_upgrade [of x path "wp_loop p" s'] by (simp add: process_turn_def Suc_diff_le)
    then show ?thesis
      using assms(1) c idle path(2)
      by (simp add: step obedient_def reachable_by_supervisor_def settled_def spawn_control_def stop.channel_simps upg.channel_simps)
  next
    case (Some r')
    then have "process_turn ws wu k (wk_on_upgrade k x (Some path)) ?q = ?q\<lparr>wp_loop := s', wp_end := Some r'\<rparr>"
      using turn upgrade_ends [of x path "wp_loop p" r' s'] by (simp add: process_turn_def)
    then show ?thesis
      using turn Some upgrade_ends [of x path "wp_loop p" r' s'] path(2) by (simp add: step obedient_def)
  qed
next
  case False
  then have "wt_changed wu (wp_upgrade_ch p) = None"
    using assms(1) by (intro upg.waits) (simp_all add: settled_def)
  with assms show ?thesis
    by (simp add: process_step_def obedient_def)
qed

lemma other_obedient:
  assumes "settled p" and "wp_end p = None" and "CtlGaveUp \<notin> set evs \<longrightarrow> reachable_by_supervisor p"
  shows "obedient (evs @ [ArmOther a]) (process_step ws wu k p (ArmOther a))"
proof (cases "wk_on_other k a (wp_extra p)")
  case None
  with assms show ?thesis
    by (simp add: process_step_def obedient_def)
next
  case (Some z)
  then obtain e y where z: "wk_on_other k a (wp_extra p) = Some (e, y)"
    by (cases z) auto
  obtain r s' where turn: "wk_step k e (wp_loop p) = (r, s')"
    by (cases "wk_step k e (wp_loop p)")
  have "process_step ws wu k p (ArmOther a) = p\<lparr>wp_extra := y, wp_loop := s', wp_end := r\<rparr>"
    using turn on_other [OF z, of "wp_loop p"] assms(2) by (simp add: process_step_def z process_turn_def)
  moreover have "\<not> is_signal a \<longrightarrow> r = None"
    using other_goes_on [OF z, of "wp_loop p"] turn by auto
  ultimately show ?thesis
    using assms settled_prefix [OF assms(1)]
    by (auto simp: obedient_def settled_loop reachable_by_supervisor_def)
qed

lemma step_obedient:
  assumes "obedient evs p"
  shows "obedient (evs @ [ev]) (process_step ws wu k p ev)"
proof (cases "wp_end p = None")
  case True
  then have p: "settled p" "CtlGaveUp \<notin> set evs \<longrightarrow> reachable_by_supervisor p"
    using assms by (simp_all add: obedient_def)
  have more: "CtlGaveUp \<notin> set (evs @ [ev]) \<longrightarrow> reachable_by_supervisor p"
    using p(2) by simp
  show ?thesis
  proof (cases ev)
    case (CtlMessage x m)
    then show ?thesis
      using True p more message_settled [OF p(1) _ True, of x m] by (simp add: process_step_def obedient_def)
  next
    case CtlGaveUp
    then show ?thesis
      using True p by (auto simp: process_step_def obedient_def settled_def end_control_def stop.channel_simps upg.channel_simps)
  qed (use True p more stop_obedient [OF p(1) True more] upgrade_obedient [OF p(1) True more] other_obedient [OF p(1) True p(2)]
      in simp_all)
next
  case False
  then show ?thesis
    using assms by (auto simp: process_step_def obedient_def)
qed

lemma run_obedient: "obedient evs (foldl (process_step ws wu k) (process_start ws wu k s y) evs)"
proof (induction evs rule: rev_induct)
  case Nil
  show ?case
    using start_settled
    by (simp add: obedient_def reachable_by_supervisor_def process_start_def spawn_control_def)
qed (simp add: step_obedient)

end

text \<open>What holds of every run, in terms of the operations alone.\<close>

context worker_contract
begin

lemma run_obeys:
  assumes "p = foldl (process_step ws wu k) (process_start ws wu k s y) evs"
  shows "prefix (wp_tried p) (upgrades_asked (wp_asked p)) \<and>
    length (upgrades_asked (wp_asked p)) \<le> Suc (length (wp_tried p)) \<and>
    (wp_end p = Some LoopReturned \<longrightarrow>
      (\<exists>g. AskShutdown g \<in> set (wp_asked p)) \<or> (\<exists>a. ArmOther a \<in> set evs \<and> is_signal a)) \<and>
    (wp_end p = None \<and> CtlGaveUp \<notin> set evs \<longrightarrow>
      wp_running p = 1 \<or> wt_changed ws (wp_stop_ch p) \<noteq> None \<or> wt_changed wu (wp_upgrade_ch p) \<noteq> None)"
proof -
  have o: "obedient evs p"
    unfolding assms by (rule run_obedient)
  have "reachable_by_supervisor p \<Longrightarrow>
      wp_running p = 1 \<or> wt_changed ws (wp_stop_ch p) \<noteq> None \<or> wt_changed wu (wp_upgrade_ch p) \<noteq> None"
    using stop.resolves [of "wp_stop_ch p"] upg.resolves [of "wp_upgrade_ch p"]
    by (auto simp: reachable_by_supervisor_def)
  with o settled_prefix [of p] show ?thesis
    by (auto simp: obedient_def split: if_splits)
qed

end

section \<open>The roles keep the contract\<close>

lemma acceptor_request_of_simps [simp]:
  "acceptor_request_of (Shutdown g) = Some (AskShutdown g)" "acceptor_request_of (Upgrade path a b c) = Some (AskUpgrade path)"
  by (simp_all add: acceptor_request_of_def)

lemma processor_contract:
  assumes "watch_channel ws a b" and "watch_channel wu c d"
  shows "worker_contract ws a b wu c d (processor_code from_json) (\<lambda>o'. o' = ProcessorSignal)"
proof (intro worker_contract.intro assms, unfold_locales)
qed (auto simp: processor_code_def split: processor_arm.splits prod.splits processor_end.splits)

lemma scanner_contract:
  assumes "watch_channel ws a b" and "watch_channel wu c d"
  shows "worker_contract ws a b wu c d (scanner_code from_json) (\<lambda>o'. o' = ScannerSignal)"
proof (intro worker_contract.intro assms, unfold_locales)
qed (auto simp: scanner_code_def split: scanner_arm.splits prod.splits option.splits upgrade_end.splits)

lemma acceptor_contract:
  assumes "watch_channel ws a b" and "watch_channel wu c d"
  shows "worker_contract ws a b wu c d (acceptor_code rnd wd wr) (\<lambda>_. False)"
proof (intro worker_contract.intro assms, unfold_locales)
  show "wk_clients (acceptor_code rnd wd wr) s' = Suc (wk_clients (acceptor_code rnd wd wr) s)"
    if "wk_step (acceptor_code rnd wd wr) (wk_on_upgrade (acceptor_code rnd wd wr) x (Some path)) s = (None, s')" for x path s s'
    using that by (auto simp: acceptor_code_def acceptor_upgrade_def
        split: prod.splits option.splits upgrade_end.splits role.splits tls_upgrade_end.splits)
  show "r \<noteq> LoopReturned \<and> wk_clients (acceptor_code rnd wd wr) s' = wk_clients (acceptor_code rnd wd wr) s"
    if "wk_step (acceptor_code rnd wd wr) (wk_on_upgrade (acceptor_code rnd wd wr) x (Some path)) s = (Some r, s')"
    for x path s s' r
    using that by (auto simp: acceptor_code_def acceptor_upgrade_def
        split: prod.splits option.splits upgrade_end.splits role.splits tls_upgrade_end.splits)
qed (auto simp: acceptor_code_def acceptor_on_other_def split: acceptor_arm.splits accept_outcome.splits prod.splits)

text \<open>All three under the one behaviour of the channels the laws describe.\<close>

interpretation processor_process: worker_contract counting_watch "\<lambda>(_, _, n). n" "\<lambda>(_, u, _). u"
  counting_watch "\<lambda>(_, _, n). n" "\<lambda>(_, u, _). u" "processor_code from_json" "\<lambda>a. a = ProcessorSignal"
  by (rule processor_contract) (rule counting.watch_channel_axioms)+

interpretation scanner_process: worker_contract counting_watch "\<lambda>(_, _, n). n" "\<lambda>(_, u, _). u"
  counting_watch "\<lambda>(_, _, n). n" "\<lambda>(_, u, _). u" "scanner_code from_json" "\<lambda>a. a = ScannerSignal"
  by (rule scanner_contract) (rule counting.watch_channel_axioms)+

interpretation acceptor_process: worker_contract counting_watch "\<lambda>(_, _, n). n" "\<lambda>(_, u, _). u"
  counting_watch "\<lambda>(_, _, n). n" "\<lambda>(_, u, _). u" "acceptor_code rnd counting_watch counting_watch" "\<lambda>_. False"
  by (rule acceptor_contract) (rule counting.watch_channel_axioms)+

section \<open>Properties\<close>

text \<open>
  C18 (safety). The processor obeys each request once: however its control clients, their disconnects and
  the arms of its loop interleave, the upgrades it has tried are the ones it was asked for, in order, each once and at most the last
  not yet; in particular an upgrade that was rolled back is not run again when its client has gone. It
  returns only if it was told to stop, and only then, at generation zero, removes its socket file.
  As long as it runs and no client has given up, a client runs or a request waits to be taken, so the supervisor can
  reach it after any number of rollbacks.
\<close>

theorem processor_obeys_requests:
  assumes "watch_channel ws a b" and "watch_channel wu c d"
    and "p = foldl (process_step ws wu (processor_code from_json)) (process_start ws wu (processor_code from_json) rt ()) evs"
  shows "prefix (wp_tried p) (upgrades_asked (wp_asked p)) \<and>
    length (upgrades_asked (wp_asked p)) \<le> Suc (length (wp_tried p)) \<and>
    (wp_end p = Some LoopReturned \<or> snd (worker_exit generation sock (wp_end p)) \<noteq> [] \<longrightarrow>
      (\<exists>g. AskShutdown g \<in> set (wp_asked p)) \<or> ArmOther ProcessorSignal \<in> set evs) \<and>
    (snd (worker_exit generation sock (wp_end p)) \<noteq> [] \<longrightarrow> generation = 0) \<and>
    (wp_end p = None \<and> CtlGaveUp \<notin> set evs \<longrightarrow>
      wp_running p = 1 \<or> wt_changed ws (wp_stop_ch p) \<noteq> None \<or> wt_changed wu (wp_upgrade_ch p) \<noteq> None)"
  using worker_contract.run_obeys [OF processor_contract [OF assms(1,2)] assms(3)]
  by (auto simp: worker_exit_def cleanup_generation_zero_socket_def split: option.splits loop_end.splits if_splits)

text \<open>A processor that is asked to upgrade, rolls back, and whose client then handles a shutdown.\<close>

definition rollback_events :: "(upgrade_os \<times> processor_os, processor_arm, msg_world) process_event list" where
  "rollback_events = [CtlMessage quiet_world (Upgrade None True None None),
     ArmUpgrade (calm_os ReadTimedOut (\<lambda>_. Inr ()), calm_po), ArmUpgrade (calm_os ReadTimedOut (\<lambda>_. Inr ()), calm_po),
     CtlMessage quiet_world (Shutdown 500), ArmStop]"

definition calm_runtime :: processor_runtime where
  "calm_runtime = \<lparr>rt_processor = calm_processor, rt_flags = \<lambda>_. True, rt_allow = current_user_only 0, rt_ctx = calm_ctx,
     rt_clients = 1\<rparr>"

theorem processor_obeys_requests_witness:
  "\<exists>p. p = foldl (process_step counting_watch counting_watch (processor_code (\<lambda>_. Inl [])))
       (process_start counting_watch counting_watch (processor_code (\<lambda>_. Inl [])) calm_runtime ()) rollback_events \<and>
     wp_end p = Some LoopReturned \<and> wp_tried p = [None] \<and> (\<exists>g. AskShutdown g \<in> set (wp_asked p))"
proof -
  let ?k = "processor_code (\<lambda>_. Inl [])"
  define p where "p = foldl (process_step counting_watch counting_watch ?k)
    (process_start counting_watch counting_watch ?k calm_runtime ()) rollback_events"
  have [simp]: "calm_ctx\<lparr>uc_binary_path := None\<rparr> = calm_ctx"
    by (simp add: calm_ctx_def)
  obtain p' t' where roll: "processor_do_upgrade (calm_os ReadTimedOut (\<lambda>_. Inr ())) calm_po calm_ctx calm_processor
      (\<lambda>_. True) = (ProcRolledBack, p', t')"
    using calm_rollback by blast
  have "wp_end p = Some LoopReturned \<and> wp_tried p = [None]"
    by (simp add: p_def rollback_events_def process_start_def spawn_control_def process_step_def control_message_def
        process_turn_def end_control_def processor_code_def counting_watch_def calm_runtime_def roll worker_control_msg_def
        quiet_world_def)
  with processor_obeys_requests [OF counting.watch_channel_axioms counting.watch_channel_axioms p_def] show ?thesis
    by (intro exI [of _ p]) (auto simp: p_def rollback_events_def)
qed

text \<open>
  C19 (safety). An acceptor is not stopped by the loss of its supervisor: it returns only when a shutdown was
  requested, whatever its control clients did otherwise, for instance when all of them gave up or ended over an upgrade that was
  rolled back. The upgrades it has tried are those it was asked for, in order, each once and at most the
  last not yet, and as long as no client has given up the supervisor can reach it.
\<close>

theorem acceptor_obeys_requests:
  assumes "watch_channel ws a b" and "watch_channel wu c d"
    and "p = foldl (process_step ws wu (acceptor_code rnd wd wr)) (process_start ws wu (acceptor_code rnd wd wr) rt y) evs"
  shows "(wp_end p = Some LoopReturned \<longrightarrow> (\<exists>g. AskShutdown g \<in> set (wp_asked p))) \<and>
    prefix (wp_tried p) (upgrades_asked (wp_asked p)) \<and>
    length (upgrades_asked (wp_asked p)) \<le> Suc (length (wp_tried p)) \<and>
    (wp_end p = None \<and> CtlGaveUp \<notin> set evs \<longrightarrow>
      wp_running p = 1 \<or> wt_changed ws (wp_stop_ch p) \<noteq> None \<or> wt_changed wu (wp_upgrade_ch p) \<noteq> None)"
  using worker_contract.run_obeys [OF acceptor_contract [OF assms(1,2)] assms(3)] by auto

theorem acceptor_obeys_requests_witness:
  "\<exists>p. p = foldl (process_step counting_watch counting_watch (acceptor_code id counting_watch counting_watch))
       (process_start counting_watch counting_watch (acceptor_code id counting_watch counting_watch) (small_runtime False)
         ((False, False, 1), (0, False, 1)))
       [CtlMessage () Drain, ArmOther AcceptorDrain, CtlGaveUp, ArmStop,
        ArmUpgrade (calm_os ReadTimedOut (\<lambda>_. Inr ()), Inr 0, \<lambda>_. RxPending :: unit handoff_rx)] \<and>
     wp_running p = 0 \<and> ad_drained (ar_admission (wp_loop p)) \<and> wp_end p \<noteq> Some LoopReturned"
proof -
  let ?k = "acceptor_code id counting_watch counting_watch"
  define p where "p = foldl (process_step counting_watch counting_watch ?k)
    (process_start counting_watch counting_watch ?k (small_runtime False) ((False, False, 1), (0, False, 1)))
    [CtlMessage () Drain, ArmOther AcceptorDrain, CtlGaveUp, ArmStop,
     ArmUpgrade (calm_os ReadTimedOut (\<lambda>_. Inr ()), Inr 0, \<lambda>_. RxPending :: unit handoff_rx)]"
  have "wp_running p = 0 \<and> ad_drained (ar_admission (wp_loop p)) \<and> wp_asked p = []"
    by (simp add: p_def process_start_def spawn_control_def process_step_def control_message_def process_turn_def
        end_control_def acceptor_code_def acceptor_handle_def acceptor_on_other_def acceptor_request_of_def counting_watch_def
        small_runtime_def small_admission_def)
  with acceptor_obeys_requests [OF counting.watch_channel_axioms counting.watch_channel_axioms p_def] show ?thesis
    by (intro exI [of _ p]) (auto simp: p_def)
qed

end
