(* ===== verification/Cli.thy ===== *)
theory Cli
  imports Rolling_Upgrade Utf8
begin

text \<open>
  Model of \<^verbatim>\<open>src/main.rs\<close> and \<^verbatim>\<open>src/admin.rs\<close>: the command line of \<^verbatim>\<open>echod\<close> and the admin client
  behind its \<^verbatim>\<open>upgrade\<close>, \<^verbatim>\<open>status\<close>, \<^verbatim>\<open>drain\<close> and \<^verbatim>\<open>reload\<close> subcommands. A command yields its result and
  what it writes to its standard streams and to the admin socket. Strings are UTF-8 bytes, as
  elsewhere.
\<close>

section \<open>Output\<close>

datatype cli_effect =
    Out string
  | Err string
  | Request string

text \<open>The characters outside ASCII that the client prints.\<close>

definition check_mark :: string where "check_mark = [CHR 0xE2, CHR 0x9C, CHR 0x93]"
definition cross_mark :: string where "cross_mark = [CHR 0xE2, CHR 0x9C, CHR 0x97]"
definition arrow :: string where "arrow = [CHR 0xE2, CHR 0x86, CHR 0x92]"
definition em_dash :: string where "em_dash = [CHR 0xE2, CHR 0x80, CHR 0x94]"

text \<open>\<^verbatim>\<open>{:<w}\<close> pads to \<^verbatim>\<open>w\<close> characters, not bytes.\<close>

definition pad_chars :: "nat \<Rightarrow> string \<Rightarrow> string" where
  "pad_chars w s = s @ replicate (w - length (filter (\<lambda>c. \<not> continuation c) s)) (CHR '' '')"

text \<open>What \<^verbatim>\<open>parse\<close> of an unsigned type with maximum \<open>mx\<close> says about a number it refuses.\<close>

fun digits_error :: "nat \<Rightarrow> nat \<Rightarrow> string \<Rightarrow> string" where
  "digits_error mx acc [] = []"
| "digits_error mx acc (c # cs) =
     (case char_digit 10 c of
        None \<Rightarrow> ''invalid digit found in string''
      | Some d \<Rightarrow>
          if mx < acc * 10 + d then ''number too large to fit in target type''
          else digits_error mx (acc * 10 + d) cs)"

definition parse_int_error :: "nat \<Rightarrow> string \<Rightarrow> string" where
  "parse_int_error mx s =
     (case s of
        [] \<Rightarrow> ''cannot parse integer from empty string''
      | c # cs \<Rightarrow>
          if c = CHR ''+'' then (if cs = [] then ''invalid digit found in string'' else digits_error mx 0 cs)
          else digits_error mx 0 s)"

section \<open>Subcommands and flags\<close>

fun extract_config_flag :: "string list \<Rightarrow> string option \<times> string list" where
  "extract_config_flag (a # v # args) =
     (if a = ''--config''
      then case extract_config_flag args of (path, rest) \<Rightarrow> ((case path of None \<Rightarrow> Some v | Some p \<Rightarrow> Some p), rest)
      else case extract_config_flag (v # args) of (path, rest) \<Rightarrow> (path, a # rest))"
| "extract_config_flag args = (None, args)"

definition subcommands :: "string list" where
  "subcommands = [''grandparent'', ''supervisor'', ''processor'', ''plain'', ''tls'', ''scanner'', ''upgrade'',
     ''status'', ''drain'', ''reload'', ''help'', ''--help'', ''-h'']"

definition print_help :: "cli_effect list" where
  "print_help = map Err [
     ''echod <grandparent|supervisor|processor|plain|tls|scanner|upgrade|status|drain|reload>'',
     '''',
     ''  grandparent  respawn the supervisor on crash (thin systemd alternative)'',
     ''  supervisor   spawn and supervise all workers (default)'',
     ''  processor    UDS line-echo worker'',
     ''  plain        plaintext TCP acceptor'',
     ''  tls          TLS acceptor (rustls)'',
     ''  scanner      outbound auxiliary lookups (identd)'',
     ''  upgrade      admin client: ask supervisor to upgrade workers'',
     ''               flags: --target <path>, --role <worker>, --include-tls, --canary <secs>'',
     ''  status       admin client: print per-worker generation/pid/uptime/in-flight'',
     ''  drain        admin client: stop accepting new connections; keep existing sessions'',
     ''  reload       admin client: re-read config; refresh auth allowlist + TLS cert'']"

text \<open>The subcommand, the configuration path and the remaining arguments.\<close>

definition parse_cli_args ::
  "string list \<Rightarrow> (string \<times> string option \<times> string list) result \<times> cli_effect list" where
  "parse_cli_args args =
     (case extract_config_flag args of
        (config_path, args) \<Rightarrow>
          let sub = (case args of [] \<Rightarrow> ''supervisor'' | a # _ \<Rightarrow> a) in
          if sub \<in> set subcommands then (Inr (sub, config_path, drop 1 args), [])
          else (Inl [''unknown subcommand: '' @ sub], print_help))"

section \<open>The admin connection\<close>

text \<open>
  A connection is the outcome of dialling it, that of writing the request, and what each read of a
  line returns, with the fault injected into its parse; after the last one it is at its end.
\<close>

record admin_conn =
  ac_connect :: "unit result"
  ac_write :: "unit result"
  ac_reads :: "(string result \<times> injected_fault option) list"

text \<open>The codec is the JSON library's.\<close>

record admin_codec =
  put_msg :: "control_msg envelope \<Rightarrow> string result"
  get_resp :: "string \<Rightarrow> admin_resp envelope result"

definition admin_send :: "admin_codec \<Rightarrow> string \<Rightarrow> admin_conn \<Rightarrow> control_msg \<Rightarrow> string result" where
  "admin_send k sock conn msg =
     and_then (with_context (''connect '' @ sock) (ac_connect conn)) (\<lambda>_.
     and_then (envelope_line (put_msg k) msg) (\<lambda>line.
     and_then (with_context ''admin write'' (ac_write conn)) (\<lambda>_. Inr line)))"

definition read_resp :: "admin_codec \<Rightarrow> injected_fault option \<Rightarrow> string \<Rightarrow> admin_resp result" where
  "read_resp k fault text =
     with_context (''incompatible admin response: '' @ text) (parse_envelope (get_resp k) fault text)"

definition dial_and_request ::
  "admin_codec \<Rightarrow> string \<Rightarrow> admin_conn \<Rightarrow> control_msg \<Rightarrow> admin_resp result \<times> cli_effect list" where
  "dial_and_request k sock conn msg =
     (case admin_send k sock conn msg of
        Inl e \<Rightarrow> (Inl e, [])
      | Inr line \<Rightarrow>
          (case (case ac_reads conn of [] \<Rightarrow> (Inr [], None) | r # _ \<Rightarrow> r) of
             (Inl e, _) \<Rightarrow> (Inl (''admin read response'' # e), [Request line])
           | (Inr raw, fault) \<Rightarrow>
               let response = trim raw in
               (if response = [] then Inl [''supervisor closed connection without response'']
                else read_resp k fault response, [Request line])))"

section \<open>The upgrade command\<close>

definition phase_str :: "upgrade_phase \<Rightarrow> string" where
  "phase_str p =
     (case p of
        Starting \<Rightarrow> ''starting'' | Done \<Rightarrow> ''done'' | Timeout \<Rightarrow> ''timeout'' | Skipped \<Rightarrow> ''skipped''
      | CanaryAborted \<Rightarrow> ''canary aborted'')"

definition gen_part :: "u64 option \<Rightarrow> u64 option \<Rightarrow> string" where
  "gen_part before after =
     (case (before, after) of
        (Some a, Some b) \<Rightarrow> '' (gen '' @ dec (unat a) @ '' '' @ arrow @ '' '' @ dec (unat b) @ '')''
      | (Some a, None) \<Rightarrow> '' (gen '' @ dec (unat a) @ '')''
      | _ \<Rightarrow> [])"

definition step_line ::
  "string \<Rightarrow> upgrade_phase \<Rightarrow> u64 option \<Rightarrow> u64 option \<Rightarrow> bool \<Rightarrow> string option \<Rightarrow> string" where
  "step_line worker phase before after ok message =
     (if ok then check_mark else cross_mark) @ '' '' @ pad_chars 10 worker @ '' '' @ phase_str phase @
       gen_part before after @ (case message of None \<Rightarrow> [] | Some m \<Rightarrow> '' '' @ em_dash @ '' '' @ m)"

text \<open>The loop over the frames; a line of nothing but white space is skipped.\<close>

fun upgrade_loop ::
  "admin_codec \<Rightarrow> bool \<Rightarrow> (string result \<times> injected_fault option) list \<Rightarrow> unit result \<times> cli_effect list" where
  "upgrade_loop k overall_ok [] = (Inl [''supervisor closed connection without UpgradeComplete''], [])"
| "upgrade_loop k overall_ok ((Inl e, _) # reads) = (Inl (''admin read progress'' # e), [])"
| "upgrade_loop k overall_ok ((Inr buf, fault) # reads) =
     (if buf = [] then (Inl [''supervisor closed connection without UpgradeComplete''], [])
      else
        let trimmed = trim buf in
        if trimmed = [] then upgrade_loop k overall_ok reads
        else case read_resp k fault trimmed of
               Inl e \<Rightarrow> (Inl e, [])
             | Inr (UpgradeStep worker phase before after ok message) \<Rightarrow>
                 (case upgrade_loop k (overall_ok \<and> ok) reads of
                    (r, out) \<Rightarrow> (r, Out (step_line worker phase before after ok message) # out))
             | Inr (UpgradeComplete done_ok) \<Rightarrow>
                 (if done_ok \<and> overall_ok then (Inr (), [Err ''upgrade complete'']) else (Inl [''upgrade failed''], []))
             | Inr (RespError message) \<Rightarrow> (Inl [''admin error: '' @ message], [])
             | Inr _ \<Rightarrow> (Inl [''unexpected response during rolling upgrade: '' @ trimmed], []))"

definition stream_upgrade ::
  "admin_codec \<Rightarrow> string \<Rightarrow> admin_conn \<Rightarrow> control_msg \<Rightarrow> unit result \<times> cli_effect list" where
  "stream_upgrade k sock conn msg =
     (case admin_send k sock conn msg of
        Inl e \<Rightarrow> (Inl e, [])
      | Inr line \<Rightarrow> (case upgrade_loop k True (ac_reads conn) of (r, out) \<Rightarrow> (r, Request line # out)))"

record upgrade_options =
  uo_binary_path :: "string option"
  uo_include_tls :: bool
  uo_canary_secs :: "u64 option"
  uo_only_role :: "string option"

definition no_options :: upgrade_options where
  "no_options = \<lparr>uo_binary_path = None, uo_include_tls = False, uo_canary_secs = None, uo_only_role = None\<rparr>"

text \<open>The loop over the arguments: \<^verbatim>\<open>None\<close> asks for the usage text.\<close>

fun upgrade_args :: "string list \<Rightarrow> upgrade_options \<Rightarrow> upgrade_options option result" where
  "upgrade_args [] opts = Inr (Some opts)"
| "upgrade_args (a # args) opts =
     (if a = ''--target'' \<or> a = ''-t'' then
        (case args of
           [] \<Rightarrow> Inl [''--target requires a path argument'']
         | v # args' \<Rightarrow> upgrade_args args' (opts\<lparr>uo_binary_path := Some v\<rparr>))
      else if a = ''--include-tls'' then upgrade_args args (opts\<lparr>uo_include_tls := True\<rparr>)
      else if a = ''--canary'' then
        (case args of
           [] \<Rightarrow> Inl [''--canary requires a seconds value'']
         | v # args' \<Rightarrow>
             (case parse_u64 v of
                None \<Rightarrow> Inl [''--canary must be a non-negative integer'', parse_int_error (2 ^ 64 - 1) v]
              | Some n \<Rightarrow> upgrade_args args' (opts\<lparr>uo_canary_secs := Some n\<rparr>)))
      else if a = ''--role'' \<or> a = ''-r'' then
        (case args of
           [] \<Rightarrow> Inl [''--role requires a worker name'']
         | v # args' \<Rightarrow> upgrade_args args' (opts\<lparr>uo_only_role := Some v\<rparr>))
      else if a = ''--help'' \<or> a = ''-h'' then Inr None
      else Inl [''unknown argument: '' @ a])"

definition upgrade_usage :: "cli_effect list" where
  "upgrade_usage = map Err [
     ''echod upgrade [--target <path>] [--role <worker>] [--include-tls] [--canary <secs>]'',
     '''',
     ''Rolling upgrade: processor '' @ arrow @ '' plain '' @ arrow @ '' scanner ('' @ arrow @ '' tls if --include-tls).'',
     ''--role <processor|plain|scanner|tls> upgrades just that one worker.'',
     ''  Upgrading 'processor' alone is the common zero-downtime path: its'',
     ''  in-flight sessions survive via UDS handoff and the thin acceptor is'',
     ''  left running, so no live connection is reset.'',
     ''--canary N waits N seconds after each role's upgrade and aborts'',
     ''the rest of the walk if that role's watchdog state regresses below'',
     '''healthy' (any of backoff / flapping / failed).'']"

definition upgrade_banner :: "upgrade_options \<Rightarrow> string" where
  "upgrade_banner opts =
     ''rolling upgrade '' @
     (case uo_only_role opts of
        Some role \<Rightarrow> ''('' @ role @ '')''
      | None \<Rightarrow> if uo_include_tls opts then ''(processor, plain, tls)'' else ''(processor, plain)'') @
     '' '' @ arrow @ '' '' @
     (case uo_binary_path opts of Some p \<Rightarrow> p | None \<Rightarrow> ''current_exe per worker'') @
     (case uo_canary_secs opts of Some s \<Rightarrow> '', canary '' @ dec (unat s) @ ''s'' | None \<Rightarrow> [])"

definition upgrade_msg :: "upgrade_options \<Rightarrow> control_msg" where
  "upgrade_msg opts =
     Upgrade (uo_binary_path opts) (uo_include_tls opts) (uo_canary_secs opts) (uo_only_role opts)"

definition run_upgrade ::
  "admin_codec \<Rightarrow> string \<Rightarrow> admin_conn \<Rightarrow> string list \<Rightarrow> unit result \<times> cli_effect list" where
  "run_upgrade k sock conn args =
     (case upgrade_args args no_options of
        Inl e \<Rightarrow> (Inl e, [])
      | Inr None \<Rightarrow> (Inr (), upgrade_usage)
      | Inr (Some opts) \<Rightarrow>
          (case stream_upgrade k sock conn (upgrade_msg opts) of
             (r, out) \<Rightarrow> (r, Err (upgrade_banner opts) # out)))"

section \<open>The status, drain and reload commands\<close>

definition format_state :: "health_state \<Rightarrow> string" where
  "format_state s =
     (case s of Healthy \<Rightarrow> ''healthy'' | Backoff \<Rightarrow> ''backoff'' | Flapping \<Rightarrow> ''flapping'' | Failed \<Rightarrow> ''FAILED'')"

definition format_backoff :: "u64 \<Rightarrow> string" where
  "format_backoff ms =
     (if ms < 1000 then dec (unat ms) @ ''ms''
      else dec (unat (ms div 1000)) @ ''.'' @ zero_pad 1 (dec (unat (ms mod 1000 div 100))) @ ''s'')"

definition format_uptime :: "u64 \<Rightarrow> string" where
  "format_uptime s =
     (if s < 60 then dec (unat s) @ ''s''
      else if s < 3600 then dec (unat (s div 60)) @ ''m'' @ zero_pad 2 (dec (unat (s mod 60))) @ ''s''
      else dec (unat (s div 3600)) @ ''h'' @ zero_pad 2 (dec (unat (s mod 3600 div 60))) @ ''m'')"

definition columns :: "string list \<Rightarrow> string" where
  "columns cells = concat (map2 (\<lambda>w c. pad_chars w c @ '' '') [10, 10, 7, 4, 8, 9, 8, 10] cells)"

definition or_dash :: "('a \<Rightarrow> string) \<Rightarrow> 'a option \<Rightarrow> string" where
  "or_dash f x = (case x of None \<Rightarrow> ''-'' | Some a \<Rightarrow> f a)"

definition status_row :: "u64 \<Rightarrow> worker_status list \<Rightarrow> role_health list \<Rightarrow> string \<Rightarrow> string" where
  "status_row now workers health role =
     (let w = find (\<lambda>w. ws_role w = role) workers;
          h = find (\<lambda>h. rh_role h = role) health
      in columns [role, or_dash (\<lambda>h. format_state (rh_state h)) h, or_dash (\<lambda>w. dec (unat (ws_pid w))) w,
           or_dash (\<lambda>w. dec (unat (ws_generation w))) w,
           or_dash (\<lambda>w. format_uptime (saturating_sub now (ws_started_at_unix_ms w) div 1000)) w,
           or_dash (\<lambda>h. dec (unat (rh_total_restarts h))) h,
           or_dash (\<lambda>h. format_backoff (rh_next_backoff_ms h)) h,
           or_dash (\<lambda>w. dec (unat (ws_in_flight w))) w] @
         or_dash (\<lambda>a. a) (Option.bind w ws_listener_addr))"

definition print_status_table :: "u64 \<Rightarrow> worker_status list \<Rightarrow> role_health list \<Rightarrow> cli_effect list" where
  "print_status_table now workers health =
     Out (columns [''ROLE'', ''STATE'', ''PID'', ''GEN'', ''UPTIME'', ''RESTARTS'', ''BACKOFF'', ''IN_FLIGHT''] @ ''LISTENER'') #
     (if workers = [] \<and> health = [] then [Out ''(no workers connected)'']
      else map (\<lambda>role. Out (status_row now workers health role)) [''processor'', ''plain'', ''tls'', ''scanner''])"

text \<open>These three commands take no argument but a request for help.\<close>

definition no_args :: "cli_effect list \<Rightarrow> string list \<Rightarrow> unit result \<times> cli_effect list \<Rightarrow> unit result \<times> cli_effect list" where
  "no_args usage args run =
     (case args of
        [] \<Rightarrow> run
      | a # _ \<Rightarrow> if a = ''--help'' \<or> a = ''-h'' then (Inr (), usage) else (Inl [''unknown argument: '' @ a], []))"

definition run_status ::
  "admin_codec \<Rightarrow> string \<Rightarrow> admin_conn \<Rightarrow> u64 \<Rightarrow> string list \<Rightarrow> unit result \<times> cli_effect list" where
  "run_status k sock conn now args =
     no_args [Err ''echod status'', Err '''', Err ''Asks the supervisor for a status report across all four workers.''] args
       (case dial_and_request k sock conn Status of
          (Inl e, out) \<Rightarrow> (Inl e, out)
        | (Inr (RespStatus workers health), out) \<Rightarrow> (Inr (), out @ print_status_table now workers health)
        | (Inr (RespError message), out) \<Rightarrow> (Inl [''admin error: '' @ message], out)
        | (Inr _, out) \<Rightarrow> (Inl [''unexpected response to Status''], out))"

definition run_drain ::
  "admin_codec \<Rightarrow> string \<Rightarrow> admin_conn \<Rightarrow> string list \<Rightarrow> unit result \<times> cli_effect list" where
  "run_drain k sock conn args =
     no_args (map Err [''echod drain'', '''',
         ''Tells the supervisor to stop accepting new connections on the plain'',
         ''and TLS acceptors. Existing sessions continue. The daemon stays up;'',
         ''processor/scanner are unaffected. Send `shutdown` (or kill the'',
         ''supervisor) when in-flight sessions have drained.'']) args
       (case dial_and_request k sock conn Drain of
          (Inl e, out) \<Rightarrow> (Inl e, out)
        | (Inr RespOk, out) \<Rightarrow>
            (Inr (), out @ [Out ''drained: acceptors stopped accepting; existing sessions continue''])
        | (Inr (RespError message), out) \<Rightarrow> (Inl [''admin error: '' @ message], out)
        | (Inr _, out) \<Rightarrow> (Inl [''unexpected response to Drain''], out))"

definition run_reload ::
  "admin_codec \<Rightarrow> string \<Rightarrow> admin_conn \<Rightarrow> string list \<Rightarrow> unit result \<times> cli_effect list" where
  "run_reload k sock conn args =
     no_args (map Err [''echod reload'', '''',
         ''Tells each worker to re-read its config from disk. Hot-reloaded:'',
         ''  - auth.allowed_uids'',
         ''  - tls.cert_path / tls.key_path (TLS acceptor)'',
         ''Other fields (ports, sockets_dir, security) need a restart.'']) args
       (case dial_and_request k sock conn Reload of
          (Inl e, out) \<Rightarrow> (Inl e, out)
        | (Inr RespOk, out) \<Rightarrow> (Inr (), out @ [Out ''reload broadcast to all workers''])
        | (Inr (RespError message), out) \<Rightarrow> (Inl [''admin error: '' @ message], out)
        | (Inr _, out) \<Rightarrow> (Inl [''unexpected response to Reload''], out))"

section \<open>The program\<close>

text \<open>
  What \<^verbatim>\<open>main\<close> needs of its process: the environment, the readers of the configuration, the outcome of
  starting the runtime, the admin connection, and the daemons, which run on the environment and the
  configuration they are given.
\<close>

record main_world =
  mw_env :: env
  mw_read_file :: "string \<Rightarrow> string result"
  mw_from_toml :: "string \<Rightarrow> config result"
  mw_from_json :: "string \<Rightarrow> config result"
  mw_runtime :: "unit result"
  mw_conn :: admin_conn
  mw_now :: u64
  mw_daemon :: "string \<Rightarrow> env \<Rightarrow> config \<Rightarrow> unit result"

definition main_load :: "main_world \<Rightarrow> env \<Rightarrow> string option \<Rightarrow> config result" where
  "main_load w e path = load_config e (mw_read_file w) (mw_from_toml w) (mw_from_json w) path"

definition main_env :: "env \<Rightarrow> string option \<Rightarrow> env" where
  "main_env e path = (case path of Some p \<Rightarrow> env_set ENV_CONFIG_PATH p e | None \<Rightarrow> e)"

text \<open>The dispatch on the subcommand; \<^verbatim>\<open>None\<close> is the arm marked unreachable.\<close>

definition main_dispatch ::
  "admin_codec \<Rightarrow> main_world \<Rightarrow> env \<Rightarrow> config \<Rightarrow> string \<Rightarrow> string list \<Rightarrow> (unit result \<times> cli_effect list) option" where
  "main_dispatch k w e cfg role rest =
     (if role \<in> set [''grandparent'', ''supervisor'', ''processor'', ''plain'', ''tls'', ''scanner'']
      then Some (mw_daemon w role e cfg, [])
      else if role = ''upgrade'' then Some (run_upgrade k (admin_sock cfg) (mw_conn w) rest)
      else if role = ''status'' then Some (run_status k (admin_sock cfg) (mw_conn w) (mw_now w) rest)
      else if role = ''drain'' then Some (run_drain k (admin_sock cfg) (mw_conn w) rest)
      else if role = ''reload'' then Some (run_reload k (admin_sock cfg) (mw_conn w) rest)
      else None)"

definition echod_main ::
  "admin_codec \<Rightarrow> main_world \<Rightarrow> string list \<Rightarrow> (unit result \<times> cli_effect list) option" where
  "echod_main k w args =
     (case parse_cli_args args of
        (Inl e, out) \<Rightarrow> Some (Inl e, out)
      | (Inr (role, path, rest), out) \<Rightarrow>
          if role \<in> set [''help'', ''--help'', ''-h''] then Some (Inr (), out @ print_help)
          else
            let e = main_env (mw_env w) path in
            (case and_then (main_load w e path) (\<lambda>cfg. and_then (mw_runtime w) (\<lambda>_. Inr cfg)) of
               Inl err \<Rightarrow> Some (Inl err, out)
             | Inr cfg \<Rightarrow> map_option (\<lambda>(r, out'). (r, out @ out')) (main_dispatch k w e cfg role rest)))"

section \<open>Lemmas\<close>

subsection \<open>Arguments\<close>

lemma extract_config_none: "''--config'' \<notin> set args \<Longrightarrow> extract_config_flag args = (None, args)"
  by (induction args rule: extract_config_flag.induct) auto

text \<open>The flag and its value may stand anywhere, even between another flag and its value.\<close>

lemma extract_config_inserted:
  assumes "''--config'' \<notin> set (xs @ ys)"
  shows "extract_config_flag (xs @ [''--config'', file] @ ys) = (Some file, xs @ ys)"
  using assms
proof (induction xs)
  case Nil
  then show ?case by (simp add: extract_config_none)
next
  case (Cons x xs)
  then show ?case by (cases xs) auto
qed

text \<open>Taking the flag out once leaves at most a dangling one behind.\<close>

lemma extract_config_idem:
  "extract_config_flag args = (path, rest) \<Longrightarrow> extract_config_flag rest = (None, rest)"
proof (induction args arbitrary: path rest rule: extract_config_flag.induct)
  case (1 a v args)
  show ?case
  proof (cases "a = ''--config''")
    case True
    then show ?thesis using 1 by (auto split: prod.splits)
  next
    case False
    then obtain rest' where r: "rest = a # rest'" and e: "extract_config_flag (v # args) = (path, rest')"
      using 1(3) by (auto split: prod.splits)
    have "extract_config_flag rest' = (None, rest')"
      by (rule "1.IH"(2) [OF False e])
    with r False show ?thesis by (cases rest') auto
  qed
qed auto

text \<open>The arguments for a set of options, in the order of the usage text.\<close>

definition upgrade_arguments :: "upgrade_options \<Rightarrow> string list" where
  "upgrade_arguments opts =
     (case uo_binary_path opts of None \<Rightarrow> [] | Some p \<Rightarrow> [''--target'', p]) @
     (case uo_only_role opts of None \<Rightarrow> [] | Some r \<Rightarrow> [''--role'', r]) @
     (if uo_include_tls opts then [''--include-tls''] else []) @
     (case uo_canary_secs opts of None \<Rightarrow> [] | Some n \<Rightarrow> [''--canary'', dec (unat n)])"

lemma upgrade_args_render: "upgrade_args (upgrade_arguments opts) no_options = Inr (Some opts)"
  by (cases opts) (auto simp: upgrade_arguments_def no_options_def split: option.splits)

lemma dec_not_flag: "dec n \<noteq> CHR ''-'' # s"
  using hd_dec_not_sign(2) [of n] by (metis list.sel(1))

lemma no_config_flag:
  assumes "uo_binary_path opts \<noteq> Some ''--config''" and "uo_only_role opts \<noteq> Some ''--config''"
  shows "''--config'' \<notin> set (''upgrade'' # upgrade_arguments opts)"
  using assms dec_not_flag [symmetric] by (auto simp: upgrade_arguments_def split: option.splits)

subsection \<open>The program\<close>

lemma parse_cli_args_known:
  "parse_cli_args args = (Inr (role, path, rest), out) \<Longrightarrow> role \<in> set subcommands \<and> out = []"
  by (auto simp: parse_cli_args_def Let_def split: prod.splits if_splits)

lemma main_reachable: "echod_main k w args \<noteq> None"
proof (cases "parse_cli_args args")
  case (Pair r out)
  show ?thesis
  proof (cases r)
    case (Inr t)
    obtain role path rest where t: "t = (role, path, rest)" by (cases t)
    then have "role \<in> set subcommands" using Pair Inr parse_cli_args_known by blast
    then have "role \<in> set [''help'', ''--help'', ''-h''] \<or> main_dispatch k w e cfg role rest \<noteq> None" for e cfg
      by (auto simp: subcommands_def main_dispatch_def)
    then show ?thesis
      using Pair Inr t by (auto simp: echod_main_def Let_def split: sum.splits)
  qed (simp add: echod_main_def Pair)
qed

text \<open>A child that inherits the environment and has no flag of its own loads the same file.\<close>

lemma config_path_inherited: "main_load w (main_env e path) None = main_load w (main_env e path) path"
  by (simp add: main_load_def load_config_def main_env_def split: option.splits)

subsection \<open>The upgrade's frames\<close>

definition request_of_options :: "upgrade_options \<Rightarrow> rolling_request" where
  "request_of_options opts =
     \<lparr>req_binary_path = uo_binary_path opts, req_include_tls = uo_include_tls opts,
      req_canary_secs = uo_canary_secs opts, req_only_role = uo_only_role opts\<rparr>"

definition notified :: "walk_effect list \<Rightarrow> admin_resp list" where
  "notified es = concat (map (\<lambda>e. case e of Notify r \<Rightarrow> [r] | SendUpgrade _ _ \<Rightarrow> []) es)"

lemma notified_simps [simp]:
  "notified [] = []" "notified (Notify r # es) = r # notified es" "notified (SendUpgrade a b # es) = notified es"
  "notified (xs @ ys) = notified xs @ notified ys"
  by (simp_all add: notified_def)

definition is_step :: "admin_resp \<Rightarrow> bool" where
  "is_step r = (case r of UpgradeStep _ _ _ _ _ _ \<Rightarrow> True | _ \<Rightarrow> False)"

lemma is_step_simps [simp]: "is_step (UpgradeStep a b c d e f)" "\<not> is_step (UpgradeComplete g)"
  by (simp_all add: is_step_def)

text \<open>A stage reports steps only, and bad ones only if it fails.\<close>

definition steps_of :: "stage \<Rightarrow> bool" where
  "steps_of = (\<lambda>(r, es, c). list_all is_step (notified es) \<and> (r \<noteq> Some False \<longrightarrow> list_all step_ok (notified es)))"

lemma upgrade_poll_steps: "steps_of (upgrade_poll role g d c polls)"
  by (induction role g d c polls rule: upgrade_poll.induct) (auto simp: steps_of_def split: option.splits)

lemma canary_observe_steps: "steps_of (canary_observe role secs w c)"
proof -
  have "steps_of (canary_poll role d b c polls)" for d b polls
    by (induction role d b c polls rule: canary_poll.induct) (auto simp: steps_of_def)
  then show ?thesis by (simp add: canary_observe_def)
qed

text \<open>A stage that follows a good one.\<close>

lemma steps_of_seq:
  "steps_of (Some True, es, c) \<Longrightarrow> steps_of p \<Longrightarrow> steps_of (case p of (r, es', c') \<Rightarrow> (r, es @ es', c'))"
  by (auto simp: steps_of_def)

lemma upgrade_one_steps: "steps_of (upgrade_one role path w c)"
proof (cases "uw_pre w")
  case (Some pre)
  have "steps_of (Some True, [Notify (UpgradeStep role Starting (Some (ws_generation pre)) None True None),
      SendUpgrade role path], c)"
    by (simp add: steps_of_def)
  from steps_of_seq [OF this upgrade_poll_steps] Some show ?thesis
    by (simp only: upgrade_one_def Let_def option.case)
qed (simp add: upgrade_one_def steps_of_def)

lemma upgrade_role_steps: "steps_of (upgrade_role req role w c)"
proof -
  obtain r es c' where one: "upgrade_one role (req_binary_path req) w c = (r, es, c')" using prod_cases3 by blast
  then have st: "steps_of (r, es, c')" using upgrade_one_steps by metis
  show ?thesis
  proof (cases "r = Some True")
    case True
    then show ?thesis
      using one st steps_of_seq [OF _ canary_observe_steps, of es c' role _ w c']
      by (cases "req_canary_secs req") (simp_all add: upgrade_role_def)
  next
    case False
    then show ?thesis using one st by (auto simp: upgrade_role_def split: option.splits bool.splits)
  qed
qed

lemma walk_steps: "steps_of (walk req world targets c)"
proof (induction targets arbitrary: c)
  case (Cons role rest)
  obtain r es c' where one: "upgrade_role req role (world role) c = (r, es, c')" using prod_cases3 by blast
  then have st: "steps_of (r, es, c')" using upgrade_role_steps by metis
  show ?case
  proof (cases "r = Some True")
    case True
    then show ?thesis using one st steps_of_seq [OF _ Cons.IH [of c'], of es c'] by simp
  next
    case False
    then show ?thesis using one st by (auto split: option.splits bool.splits)
  qed
qed (simp add: steps_of_def)

text \<open>What the JSON library owes the client: each frame is one line that reads back as itself.\<close>

definition json_line :: "(admin_resp envelope \<Rightarrow> string result) \<Rightarrow> admin_codec \<Rightarrow> admin_resp \<Rightarrow> bool" where
  "json_line put k r =
     (case put \<lparr>envelope_version = SCHEMA_VERSION, envelope_msg = r\<rparr> of
        Inl _ \<Rightarrow> False
      | Inr s \<Rightarrow> s \<noteq> [] \<and> trim (s @ [nl]) = s \<and>
          get_resp k s = Inr \<lparr>envelope_version = SCHEMA_VERSION, envelope_msg = r\<rparr>)"

text \<open>
  The supervisor's side: the line a frame or a reply puts on the connection, if it serializes, and
  the lines of a whole upgrade.
\<close>

definition write_admin_resp :: "(admin_resp envelope \<Rightarrow> string result) \<Rightarrow> admin_resp \<Rightarrow> string list" where
  "write_admin_resp put r = (case envelope_line put r of Inl _ \<Rightarrow> [] | Inr line \<Rightarrow> [line])"

definition run_admin_upgrade :: "(admin_resp envelope \<Rightarrow> string result) \<Rightarrow> walk_effect list \<Rightarrow> string list" where
  "run_admin_upgrade put es =
     concat (map (\<lambda>e. case e of Notify r \<Rightarrow> write_admin_resp put r | SendUpgrade _ _ \<Rightarrow> []) es)"

definition line_read :: "string \<Rightarrow> string result \<times> injected_fault option" where
  "line_read l = (Inr l, None)"

definition frame_read ::
  "(admin_resp envelope \<Rightarrow> string result) \<Rightarrow> admin_resp \<Rightarrow> string result \<times> injected_fault option" where
  "frame_read put r = (envelope_line put r, None)"

lemma frames_read:
  "list_all (json_line put k) (notified es) \<Longrightarrow>
     map line_read (run_admin_upgrade put es) = map (frame_read put) (notified es)"
  by (induction es)
    (auto simp: run_admin_upgrade_def write_admin_resp_def line_read_def frame_read_def json_line_def
      envelope_line_def notified_def split: walk_effect.splits sum.splits)

lemma upgrade_loop_frame:
  assumes "json_line put k r"
  obtains s where "frame_read put r = (Inr (s @ [nl]), None)" "trim (s @ [nl]) = s" "s \<noteq> []" "read_resp k None s = Inr r"
  using assms
  by (auto simp: json_line_def frame_read_def envelope_line_def read_resp_def parse_envelope_def into_msg_def
      is_schema_compatible_def SCHEMA_VERSION_def MIN_COMPATIBLE_VERSION_def split: sum.splits)

lemma upgrade_loop_steps:
  assumes "list_all (json_line put k) rs" and "list_all is_step rs"
  shows "fst (upgrade_loop k ok (map (frame_read put) rs @ rest)) =
    fst (upgrade_loop k (ok \<and> list_all step_ok rs) rest)"
  using assms
proof (induction rs arbitrary: ok)
  case (Cons r rs)
  from Cons.prems(1) obtain s where s: "frame_read put r = (Inr (s @ [nl]), None)"
    "trim (s @ [nl]) = s" "s \<noteq> []" "read_resp k None s = Inr r"
    by (auto elim: upgrade_loop_frame)
  from Cons.prems(2) obtain a b c d e f where "r = UpgradeStep a b c d e f"
    by (cases r) (auto simp: is_step_def)
  then show ?case
    using Cons s by (simp add: Let_def conj_assoc case_prod_unfold)
qed simp

lemma upgrade_loop_complete:
  assumes "json_line put k (UpgradeComplete v)"
  shows "fst (upgrade_loop k ok [frame_read put (UpgradeComplete v)]) =
    (if v \<and> ok then Inr () else Inl [''upgrade failed''])"
proof -
  from assms obtain s where "frame_read put (UpgradeComplete v) = (Inr (s @ [nl]), None)"
    "trim (s @ [nl]) = s" "s \<noteq> []" "read_resp k None s = Inr (UpgradeComplete v)"
    by (rule upgrade_loop_frame)
  then show ?thesis by (simp add: Let_def)
qed

text \<open>What the client concludes from a walk: its verdict, or an error where the walk was cut off.\<close>

lemma upgrade_loop_walk:
  assumes "rolling_upgrade free req world c = (verdict, es, c')" and "list_all (json_line put k) (notified es)"
  shows "fst (upgrade_loop k True (map (frame_read put) (notified es))) =
    (case verdict of
       Some True \<Rightarrow> Inr ()
     | Some False \<Rightarrow> Inl [''upgrade failed'']
     | None \<Rightarrow> Inl [''supervisor closed connection without UpgradeComplete''])"
proof (cases "\<exists>targets. free \<and> walk_targets req = Some targets")
  case False
  with assms(1) have "verdict = Some False" "es = [Notify (UpgradeComplete False)]"
    by (auto simp: rolling_upgrade_def split: if_splits option.splits)
  then show ?thesis using assms(2) upgrade_loop_complete [of put k False True] by simp
next
  case True
  then obtain targets where t: "free" "walk_targets req = Some targets" by blast
  obtain r es1 c1 where w: "walk req world targets c = (r, es1, c1)" using prod_cases3 by blast
  from walk_steps [of req world targets c] w
  have steps: "list_all is_step (notified es1)" "r \<noteq> Some False \<Longrightarrow> list_all step_ok (notified es1)"
    by (auto simp: steps_of_def)
  show ?thesis
  proof (cases r)
    case None
    with assms(1) t w have "verdict = None" "es = es1" by (auto simp: rolling_upgrade_def)
    then show ?thesis
      using upgrade_loop_steps [of put k "notified es1" True "[]"] assms(2) steps by simp
  next
    case (Some ok)
    with assms(1) t w have v: "verdict = Some ok" and es: "es = es1 @ [Notify (UpgradeComplete ok)]"
      by (auto simp: rolling_upgrade_def)
    have "fst (upgrade_loop k True (map (frame_read put) (notified es))) =
        (if ok \<and> list_all step_ok (notified es1) then Inr () else Inl [''upgrade failed''])"
      using upgrade_loop_steps [of put k "notified es1" True "[frame_read put (UpgradeComplete ok)]"]
        upgrade_loop_complete [of put k ok "list_all step_ok (notified es1)"] assms(2) steps(1) es
      by simp
    then show ?thesis using v steps(2) Some by (cases ok) simp_all
  qed
qed

text \<open>The other three requests: the reply the supervisor writes is the one the client acts on.\<close>

lemma reply_read:
  assumes "json_line put k r" and "admin_send k sock conn msg = Inr line"
    and "ac_reads conn = map line_read (write_admin_resp put r)"
  shows "dial_and_request k sock conn msg = (Inr r, [Request line])"
proof -
  from assms(1) obtain s where "frame_read put r = (Inr (s @ [nl]), None)" "trim (s @ [nl]) = s" "s \<noteq> []"
    "read_resp k None s = Inr r"
    by (rule upgrade_loop_frame)
  then show ?thesis
    using assms(2,3) by (simp add: dial_and_request_def write_admin_resp_def line_read_def frame_read_def Let_def)
qed

lemma drain_reports_ok:
  assumes "json_line put k RespOk" and "admin_send k sock conn Drain = Inr line"
    and "ac_reads conn = map line_read (write_admin_resp put RespOk)"
  shows "fst (run_drain k sock conn []) = Inr ()"
  by (simp add: run_drain_def no_args_def reply_read [OF assms])

lemma status_shows_every_role:
  assumes "json_line put k (RespStatus ws hs)" and "admin_send k sock conn Status = Inr line"
    and "ac_reads conn = map line_read (write_admin_resp put (RespStatus ws hs))" and "ws \<noteq> [] \<or> hs \<noteq> []"
  shows "\<exists>header. run_status k sock conn now [] = (Inr (), Request line # Out header #
    map (\<lambda>role. Out (status_row now ws hs role)) [''processor'', ''plain'', ''tls'', ''scanner''])"
  using assms(4) by (auto simp: run_status_def no_args_def reply_read [OF assms(1-3)] print_status_table_def)

section \<open>Properties\<close>

text \<open>
  Any set of upgrade options can be given on the command line: \<^verbatim>\<open>--config\<close> and its
  file may be put anywhere among the arguments, even between another flag and its value, and are
  taken out; what remains is the upgrade command with these options, whose request to the supervisor
  carries exactly them. Only the word \<^verbatim>\<open>--config\<close> itself cannot be a path or role.
\<close>

theorem upgrade_options_roundtrip:
  assumes "uo_binary_path opts \<noteq> Some ''--config''" and "uo_only_role opts \<noteq> Some ''--config''"
    and "xs @ ys = ''upgrade'' # upgrade_arguments opts"
  shows "parse_cli_args (xs @ [''--config'', file] @ ys) = (Inr (''upgrade'', Some file, upgrade_arguments opts), []) \<and>
    parse_cli_args (xs @ ys) = (Inr (''upgrade'', None, upgrade_arguments opts), []) \<and>
    run_upgrade k sock conn (upgrade_arguments opts) =
      (case stream_upgrade k sock conn (upgrade_msg opts) of (r, out) \<Rightarrow> (r, Err (upgrade_banner opts) # out))"
proof -
  have no: "''--config'' \<notin> set (xs @ ys)"
    using no_config_flag [OF assms(1,2)] assms(3) by simp
  have "extract_config_flag (xs @ [''--config'', file] @ ys) = (Some file, xs @ ys)"
    by (rule extract_config_inserted [OF no])
  moreover have "extract_config_flag (xs @ ys) = (None, xs @ ys)"
    by (rule extract_config_none [OF no])
  ultimately show ?thesis
    unfolding assms(3) by (simp add: parse_cli_args_def subcommands_def run_upgrade_def upgrade_args_render)
qed

theorem upgrade_options_roundtrip_witness:
  "parse_cli_args [''upgrade'', ''--role'', ''--config'', ''c.toml'', ''plain''] =
     (Inr (''upgrade'', Some ''c.toml'', [''--role'', ''plain'']), [])"
proof -
  let ?o = "no_options\<lparr>uo_only_role := Some ''plain''\<rparr>"
  have a: "upgrade_arguments ?o = [''--role'', ''plain'']"
    by (simp add: upgrade_arguments_def no_options_def)
  have "uo_binary_path ?o \<noteq> Some ''--config''" "uo_only_role ?o \<noteq> Some ''--config''"
    "[''upgrade'', ''--role''] @ [''plain''] = ''upgrade'' # upgrade_arguments ?o"
    by (simp_all only: a) (simp_all add: no_options_def)
  from upgrade_options_roundtrip [OF this, of "''c.toml''"] show ?thesis by (simp add: a)
qed

text \<open>
  C24 (refinement). The client's exit status is the supervisor's verdict: fed the frames with which the
  supervisor answers its request, it succeeds exactly when the rolling upgrade does, fails when the
  upgrade fails at any role, at a canary, or because another one is running, and fails as well when
  the supervisor goes away before the walk is over.
\<close>

theorem upgrade_exit_is_verdict:
  assumes "rolling_upgrade (\<not> as_upgrading s) (request_of_options opts) (aw_upgrade w) (as_counters s) =
      (verdict, es, c')"
    and "list_all (json_line put k) (notified es)"
    and "ac_connect conn = Inr ()" and "ac_write conn = Inr ()"
    and "envelope_line (put_msg k) (upgrade_msg opts) = Inr line"
    and "ac_reads conn = map line_read (run_admin_upgrade put es)"
  shows "fst (admin_dispatch w (upgrade_msg opts) s) = map AdminWalk es \<and>
    fst (run_upgrade k sock conn (upgrade_arguments opts)) =
      (case verdict of
         Some True \<Rightarrow> Inr ()
       | Some False \<Rightarrow> Inl [''upgrade failed'']
       | None \<Rightarrow> Inl [''supervisor closed connection without UpgradeComplete''])"
proof -
  have "admin_send k sock conn (upgrade_msg opts) = Inr line"
    using assms by (simp add: admin_send_def)
  then have "fst (run_upgrade k sock conn (upgrade_arguments opts)) =
      fst (upgrade_loop k True (map (frame_read put) (notified es)))"
    using assms(6) frames_read [OF assms(2)] by (simp add: run_upgrade_def upgrade_args_render stream_upgrade_def split: prod.splits)
  moreover have "fst (admin_dispatch w (upgrade_msg opts) s) = map AdminWalk es"
    using assms(1) by (simp add: admin_dispatch_def upgrade_msg_def request_of_options_def)
  ultimately show ?thesis using upgrade_loop_walk [OF assms(1,2)] by simp
qed

text \<open>A processor that reconnects with generation 2, and the three frames it gives rise to.\<close>

definition upgraded_processor :: upgrade_world where
  "upgraded_processor =
     (let st = \<lparr>ws_role = ''processor'', ws_pid = 7, ws_generation = 1, ws_started_at_unix_ms = 0, ws_in_flight = 0,
                ws_listener_addr = None, ws_rate_limiter_stats = None\<rparr>
      in \<lparr>uw_baseline = Healthy, uw_pre = Some st, uw_start = 0, uw_polls = [(0, Some (st\<lparr>ws_generation := 2\<rparr>))],
          uw_canary_start = 0, uw_canary = []\<rparr>)"

definition three_frames :: "admin_resp list" where
  "three_frames = [UpgradeStep ''processor'' Starting (Some 1) None True None,
     UpgradeStep ''processor'' Done (Some 1) (Some 2) True None, UpgradeComplete True]"

definition letter_put :: "admin_resp envelope \<Rightarrow> string result" where
  "letter_put e = Inr (if envelope_msg e = three_frames ! 0 then ''a''
     else if envelope_msg e = three_frames ! 1 then ''b'' else ''c'')"

definition letter_codec :: admin_codec where
  "letter_codec = \<lparr>put_msg = (\<lambda>_. Inr ''u''),
     get_resp = (\<lambda>s. Inr \<lparr>envelope_version = SCHEMA_VERSION,
       envelope_msg = three_frames ! (if s = ''a'' then 0 else if s = ''b'' then 1 else 2)\<rparr>)\<rparr>"

lemma trim_letter: "trim ''a\<newline>'' = ''a''" "trim ''b\<newline>'' = ''b''" "trim ''c\<newline>'' = ''c''"
  by code_simp+

lemma letter_frames: "list_all (json_line letter_put letter_codec) three_frames"
  using trim_letter by (simp add: json_line_def letter_put_def letter_codec_def three_frames_def)

theorem upgrade_exit_is_verdict_witness:
  "fst (run_upgrade letter_codec ''admin.sock''
      \<lparr>ac_connect = Inr (), ac_write = Inr (), ac_reads = map line_read [''a\<newline>'', ''b\<newline>'', ''c\<newline>'']\<rparr>
      [''--role'', ''processor'']) = Inr ()"
proof -
  let ?o = "no_options\<lparr>uo_only_role := Some ''processor''\<rparr>"
  let ?s = "\<lparr>as_links = \<lparr>lk_processor = worker_link_default, lk_plain = worker_link_default,
        lk_tls = worker_link_default, lk_scanner = worker_link_default\<rparr>, as_watchdogs = [], as_counters = upgrade_counters_new, as_allow = from_uids [0],
      as_upgrading = False\<rparr>"
  let ?w = "\<lparr>aw_config = Inl [], aw_euid = 0, aw_now = 0, aw_replies = [], aw_upgrade = (\<lambda>_. upgraded_processor)\<rparr>"
  let ?es = "[Notify (three_frames ! 0), SendUpgrade ''processor'' None, Notify (three_frames ! 1), Notify (three_frames ! 2)]"
  let ?conn = "\<lparr>ac_connect = Inr (), ac_write = Inr (), ac_reads = map line_read [''a\<newline>'', ''b\<newline>'', ''c\<newline>'']\<rparr>"
  have w: "rolling_upgrade (\<not> as_upgrading ?s) (request_of_options ?o) (aw_upgrade ?w) (as_counters ?s) =
      (Some True, ?es, incr_committed ''processor'' upgrade_counters_new)"
    by (simp add: rolling_upgrade_def walk_targets_def request_of_options_def no_options_def upgrade_role_def
        upgrade_one_def upgraded_processor_def Let_def three_frames_def from_secs_def)
  have n: "notified ?es = three_frames" by (simp add: three_frames_def)
  have a: "upgrade_arguments ?o = [''--role'', ''processor'']"
    by (simp add: upgrade_arguments_def no_options_def)
  have "list_all (json_line letter_put letter_codec) (notified ?es)" "ac_connect ?conn = Inr ()" "ac_write ?conn = Inr ()"
    "envelope_line (put_msg letter_codec) (upgrade_msg ?o) = Inr (''u'' @ [nl])"
    "ac_reads ?conn = map line_read (run_admin_upgrade letter_put ?es)"
    unfolding n using letter_frames
    by (simp_all add: envelope_line_def letter_codec_def run_admin_upgrade_def write_admin_resp_def letter_put_def
        three_frames_def)
  from upgrade_exit_is_verdict [OF w this, of "''admin.sock''"] show ?thesis by (simp add: a)
qed

end
