(* ===== verification/Supervisor.thy ===== *)
theory Supervisor
  imports Self_Upgrade Worker_Common
begin

text \<open>
  Model of \<^verbatim>\<open>src/supervisor.rs\<close>: what a supervisor starts, its loop over signals, and how it ends. The
  tasks it starts are modelled by the theories of their own files; here they are values that say
  which role, descriptor and configuration each was given, and whatever they do to the state they
  share with the loop is an event of its own.
\<close>

section \<open>Start\<close>

record metrics_writer_config =
  mwc_path :: string
  mwc_interval :: duration
  mwc_sup_generation :: u64
  mwc_started_at_unix_ms :: u64

datatype service =
    ControlService string raw_fd
  | DrainerService raw_fd
  | SpawnerService spawner_fds
  | AdminService raw_fd
  | HealthService string
  | MetricsService metrics_writer_config

definition spawn_control_services :: "control_fds \<Rightarrow> service list" where
  "spawn_control_services fds = [
     ControlService ''processor'' (fd_processor_ctrl fds), ControlService ''plain'' (fd_plain_ctrl fds),
     ControlService ''tls'' (fd_tls_ctrl fds), ControlService ''scanner'' (fd_scanner_ctrl fds),
     DrainerService (fd_drainer fds), SpawnerService (spawner_fds_of fds), AdminService (fd_admin fds)]"

text \<open>One task per role; its current pid starts as the (empty) slot of the role.\<close>

definition pid_slots_new :: pid_slots where
  "pid_slots_new = \<lparr>ps_processor = None, ps_plain = None, ps_tls = None, ps_scanner = None\<rparr>"

definition spawn_worker_tasks :: "watchdogs \<Rightarrow> adopted_state \<Rightarrow> pid_slots \<Rightarrow> role_supervisor list" where
  "spawn_worker_tasks wd a p = [
     \<lparr>sup_role = ''processor'', sup_current_pid = ps_processor p, sup_adopted_pid = ad_processor a,
      sup_adopted_gen = ad_processor_gen a, sup_watchdogs = wd\<rparr>,
     \<lparr>sup_role = ''plain'', sup_current_pid = ps_plain p, sup_adopted_pid = ad_plain a,
      sup_adopted_gen = ad_plain_gen a, sup_watchdogs = wd\<rparr>,
     \<lparr>sup_role = ''tls'', sup_current_pid = ps_tls p, sup_adopted_pid = ad_tls a,
      sup_adopted_gen = ad_tls_gen a, sup_watchdogs = wd\<rparr>,
     \<lparr>sup_role = ''scanner'', sup_current_pid = ps_scanner p, sup_adopted_pid = ad_scanner a,
      sup_adopted_gen = ad_scanner_gen a, sup_watchdogs = wd\<rparr>]"

definition start_health_endpoint :: "config \<Rightarrow> service list" where
  "start_health_endpoint cfg =
     (if health_bind_addr (cfg_health cfg) = [] then [] else [HealthService (health_bind_addr (cfg_health cfg))])"

definition start_metrics_writer :: "config \<Rightarrow> u64 \<Rightarrow> u64 \<Rightarrow> service list" where
  "start_metrics_writer cfg generation now =
     (if metrics_path (cfg_metrics cfg) = [] then []
      else [MetricsService \<lparr>mwc_path = metrics_path (cfg_metrics cfg),
              mwc_interval = from_secs (unat (max (metrics_interval_secs (cfg_metrics cfg)) 1)),
              mwc_sup_generation = generation, mwc_started_at_unix_ms = now\<rparr>])"

definition new_worker_links :: worker_control_links where
  "new_worker_links = \<lparr>lk_processor = worker_link_default, lk_plain = worker_link_default,
     lk_tls = worker_link_default, lk_scanner = worker_link_default\<rparr>"

text \<open>What the loop shares with the tasks.\<close>

record sup_shared =
  sh_links :: worker_control_links
  sh_watchdogs :: watchdogs
  sh_counters :: upgrade_counters
  sh_allow :: peer_allowlist
  sh_upgrading :: bool
  sh_pids :: pid_slots

record supervisor =
  su_config :: config
  su_fds :: control_fds
  su_generation :: u64
  su_services :: "service list"
  su_tasks :: "role_supervisor list"
  su_shared :: sup_shared
  su_beacon :: u64
  su_cloexec :: cloexec_flags

text \<open>\<^verbatim>\<open>run\<close> up to the loop. \<^verbatim>\<open>euid\<close> is the effective user, \<^verbatim>\<open>t\<close> the flags of the open descriptors.\<close>

definition supervisor_start ::
  "u32 \<Rightarrow> u32 \<Rightarrow> open_os \<Rightarrow> config \<Rightarrow> u64 \<Rightarrow> cloexec_flags \<Rightarrow> supervisor result \<times> open_state" where
  "supervisor_start pid euid oo cfg now t =
     (let generation = env_generation (oo_env oo) ENV_SUP_GENERATION in
      case open_supervisor_listeners pid oo cfg generation of
        (Inl e, s) \<Rightarrow> (Inl e, s)
      | (Inr fds, s) \<Rightarrow>
          let adopted = adopted_from_env (oo_env oo) in
          (Inr \<lparr>su_config = cfg, su_fds = fds, su_generation = generation,
             su_services = spawn_control_services fds @ start_health_endpoint cfg @
               start_metrics_writer cfg generation now,
             su_tasks = spawn_worker_tasks watchdogs_init adopted pid_slots_new,
             su_shared = \<lparr>sh_links = new_worker_links, sh_watchdogs = watchdogs_init,
               sh_counters = upgrade_counters_new,
               sh_allow = allowlist_from_config euid (allowed_uids (cfg_auth cfg)),
               sh_upgrading = False, sh_pids = pid_slots_new\<rparr>,
             su_beacon = 0, su_cloexec = t\<rparr>, s))"

section \<open>The loop\<close>

datatype sup_event =
    SigTerm
  | SigInt
  | BeaconTick
  | SigUsr2 "string \<Rightarrow> upgrade_world"
  | SigHup upgrade_os "string result"
  | Elsewhere sup_shared

datatype sup_effect =
    ReadyWritten raw_fd string
  | SdNotify string
  | SupSent "u64 \<times> control_msg"
  | SupWalk walk_effect
  | SupSigterm u32
  | SupRemoved string

datatype sup_outcome = StillRunning | Stopped | ExitCommitted upgrade_cmd

text \<open>An upgrade sent over a link takes its writer.\<close>

definition link_taken :: "walk_effect \<Rightarrow> worker_control_links \<Rightarrow> worker_control_links" where
  "link_taken e l =
     (case e of
        Notify _ \<Rightarrow> l
      | SendUpgrade role path \<Rightarrow>
          if role = ''processor'' then l\<lparr>lk_processor := snd (send_upgrade path (lk_processor l))\<rparr>
          else if role = ''plain'' then l\<lparr>lk_plain := snd (send_upgrade path (lk_plain l))\<rparr>
          else if role = ''tls'' then l\<lparr>lk_tls := snd (send_upgrade path (lk_tls l))\<rparr>
          else if role = ''scanner'' then l\<lparr>lk_scanner := snd (send_upgrade path (lk_scanner l))\<rparr>
          else l)"

definition supervisor_event :: "sup_event \<Rightarrow> supervisor \<Rightarrow> sup_outcome \<times> supervisor \<times> sup_effect list" where
  "supervisor_event ev su =
     (let sh = su_shared su in
      case ev of
        SigTerm \<Rightarrow> (Stopped, su, [])
      | SigInt \<Rightarrow> (Stopped, su, [])
      | BeaconTick \<Rightarrow> (StillRunning, su\<lparr>su_beacon := beacon_tick (su_beacon su)\<rparr>, [])
      | SigUsr2 world \<Rightarrow>
          (case run_signal_upgrade (\<not> sh_upgrading sh) world (sh_counters sh) of
             (_, es, c) \<Rightarrow>
               (StillRunning,
                su\<lparr>su_shared := sh\<lparr>sh_counters := c, sh_links := fold link_taken es (sh_links sh)\<rparr>\<rparr>,
                concat (map (\<lambda>e. case e of Notify _ \<Rightarrow> [] | SendUpgrade _ _ \<Rightarrow> [SupWalk e]) es)))
      | SigHup os exe \<Rightarrow>
          (case on_sighup os exe (su_fds su) (sh_pids sh) (sh_links sh) (su_generation su) (su_cloexec su) of
             (Some (Committed cmd), t) \<Rightarrow> (ExitCommitted cmd, su\<lparr>su_cloexec := t\<rparr>, [])
           | (_, t) \<Rightarrow> (StillRunning, su\<lparr>su_cloexec := t\<rparr>, []))
      | Elsewhere sh' \<Rightarrow> (StillRunning, su\<lparr>su_shared := sh'\<rparr>, []))"

fun supervisor_loop :: "supervisor \<Rightarrow> sup_event list \<Rightarrow> sup_outcome \<times> supervisor \<times> sup_effect list" where
  "supervisor_loop su [] = (StillRunning, su, [])"
| "supervisor_loop su (ev # evs) =
     (case supervisor_event ev su of
        (StillRunning, su', es) \<Rightarrow>
          (case supervisor_loop su' evs of (out, su'', es') \<Rightarrow> (out, su'', es @ es'))
      | r \<Rightarrow> r)"

section \<open>The whole run\<close>

definition stop_effects :: "supervisor \<Rightarrow> sup_effect list" where
  "stop_effects su =
     (case shutdown_supervisor (sh_pids (su_shared su)) (sh_links (su_shared su)) of
        (msgs, pid, _) \<Rightarrow>
          SdNotify notify_stopping_line #
          concat (map (\<lambda>m. case m of AdminSent x \<Rightarrow> [SupSent x] | _ \<Rightarrow> []) msgs) @
          (case pid of None \<Rightarrow> [] | Some p \<Rightarrow> [SupSigterm p]) @
          map SupRemoved (cleanup_socket_files (su_config su)))"

text \<open>\<^verbatim>\<open>signals\<close> is the outcome of registering the handlers, \<^verbatim>\<open>write\<close> the write to the ready pipe.\<close>

definition ready_effects ::
  "unit result \<Rightarrow> env \<Rightarrow> (raw_fd \<Rightarrow> string \<Rightarrow> unit result) \<Rightarrow> u64 \<Rightarrow> sup_effect list result" where
  "ready_effects signals e write generation =
     and_then signals (\<lambda>_.
     and_then (with_context ''signal ready'' (signal_ready_to_parent e write)) (\<lambda>ready.
       Inr ((case ready of None \<Rightarrow> [] | Some (fd, ack) \<Rightarrow> [ReadyWritten fd ack]) @
         [SdNotify notify_ready_line,
          SdNotify (notify_status_line (''ready (generation '' @ dec (unat generation) @ '')''))])))"

definition supervisor_run ::
  "unit result \<Rightarrow> env \<Rightarrow> (raw_fd \<Rightarrow> string \<Rightarrow> unit result) \<Rightarrow> sup_event list \<Rightarrow> supervisor \<Rightarrow>
     (sup_outcome \<times> supervisor) result \<times> sup_effect list" where
  "supervisor_run signals e write evs su =
     (case ready_effects signals e write (su_generation su) of
        Inl err \<Rightarrow> (Inl err, [])
      | Inr ready \<Rightarrow>
         (case supervisor_loop su evs of
            (out, su', es) \<Rightarrow>
              (Inr (out, su'), ready @ es @ (if out = Stopped then stop_effects su' else []))))"

section \<open>Lemmas\<close>

lemma supervisor_event_shape:
  assumes "supervisor_event ev su = (out, su', es)"
  shows "su_fds su' = su_fds su" "su_generation su' = su_generation su" "su_config su' = su_config su"
    "\<forall>e \<in> set es. \<exists>w. e = SupWalk w" "out = Stopped \<longleftrightarrow> ev \<in> {SigTerm, SigInt}"
  using assms
  by (auto simp: supervisor_event_def Let_def split: sup_event.splits walk_effect.splits prod.splits option.splits
      upgrade_end.splits)

lemma supervisor_event_commit:
  assumes "supervisor_event ev su = (ExitCommitted cmd, su', es)"
  obtains os exe t' where "ev = SigHup os exe" and "env_var (os_environ os) ENV_UNDER_GRANDPARENT = None"
    and "su' = su\<lparr>su_cloexec := t'\<rparr>"
    and "do_self_upgrade os exe (su_fds su) (pid_slots_snapshot (sh_pids (su_shared su)) (sh_links (su_shared su)))
      (su_generation su) (su_cloexec su) = (Committed cmd, t')"
  using assms
  by (auto simp: supervisor_event_def Let_def on_sighup_def split: sup_event.splits prod.splits option.splits
      upgrade_end.splits if_splits)

lemma supervisor_loop_shape:
  assumes "supervisor_loop su evs = (out, su', es)"
  shows "su_fds su' = su_fds su \<and> su_generation su' = su_generation su \<and> su_config su' = su_config su \<and>
    (\<forall>e \<in> set es. \<exists>w. e = SupWalk w) \<and> (out = Stopped \<longrightarrow> SigTerm \<in> set evs \<or> SigInt \<in> set evs)"
  using assms
proof (induction evs arbitrary: su es)
  case (Cons ev evs)
  obtain o1 su1 es1 where ev: "supervisor_event ev su = (o1, su1, es1)" using prod_cases3 by blast
  note shape = supervisor_event_shape [OF ev]
  show ?case
  proof (cases "o1 = StillRunning")
    case True
    obtain o2 su2 es2 where rest: "supervisor_loop su1 evs = (o2, su2, es2)" using prod_cases3 by blast
    have "out = o2" "su' = su2" "es = es1 @ es2" using Cons.prems ev rest True by simp_all
    with Cons.IH [of su1 es2] rest shape show ?thesis by auto
  next
    case False
    with Cons.prems ev have "out = o1" "su' = su1" "es = es1" by (simp_all split: sup_outcome.splits)
    with shape show ?thesis by auto
  qed
qed auto

lemma supervisor_loop_commit:
  assumes "supervisor_loop su evs = (ExitCommitted cmd, su', es)"
  obtains os exe t t' where "SigHup os exe \<in> set evs" and "env_var (os_environ os) ENV_UNDER_GRANDPARENT = None"
    and "do_self_upgrade os exe (su_fds su) (pid_slots_snapshot (sh_pids (su_shared su')) (sh_links (su_shared su')))
      (su_generation su) t = (Committed cmd, t')"
  using assms
proof (induction evs arbitrary: su es thesis)
  case (Cons ev evs)
  obtain o1 su1 es1 where ev: "supervisor_event ev su = (o1, su1, es1)" using prod_cases3 by blast
  show ?case
  proof (cases "o1 = StillRunning")
    case True
    obtain es2 where rest: "supervisor_loop su1 evs = (ExitCommitted cmd, su', es2)"
      using Cons.prems(2) ev True by (auto split: prod.splits)
    show ?thesis
      by (rule Cons.IH [OF _ rest])
        (rule Cons.prems(1), use supervisor_event_shape [OF ev] in auto)
  next
    case False
    with Cons.prems(2) ev have "o1 = ExitCommitted cmd" "su1 = su'" by (simp_all split: sup_outcome.splits)
    with ev have "supervisor_event ev su = (ExitCommitted cmd, su', es1)" by simp
    then show ?thesis by (rule supervisor_event_commit) (rule Cons.prems(1), auto)
  qed
qed simp

text \<open>The worker a role task begins with: the adopted one if it lives, a spawned one otherwise.\<close>

lemma first_child:
  "fst (next_child (sup_role r) w (role_start kill c r)) =
     (case sup_adopted_pid r of
        None \<Rightarrow> w_spawn w
      | Some p \<Rightarrow> if is_process_alive kill p then Inr (Adopted (int (unat p))) else w_spawn w)"
  by (auto simp: role_start_def next_child_def is_process_alive_def i32_of_u32_def Let_def split: option.splits)

definition slot_of :: "pid_slots \<Rightarrow> string \<Rightarrow> u32 option" where
  "slot_of p role =
     (if role = ''processor'' then ps_processor p else if role = ''plain'' then ps_plain p
      else if role = ''tls'' then ps_tls p else if role = ''scanner'' then ps_scanner p else None)"

definition link_of :: "worker_control_links \<Rightarrow> string \<Rightarrow> worker_link" where
  "link_of l role =
     (if role = ''processor'' then lk_processor l else if role = ''plain'' then lk_plain l
      else if role = ''tls'' then lk_tls l else lk_scanner l)"

lemma tasks_of_successor:
  assumes "r \<in> set (spawn_worker_tasks wd (handed_state (pid_slots_snapshot p l)) q)"
  shows "sup_role r \<in> set WATCHDOG_ROLES" "sup_adopted_pid r = slot_of p (sup_role r)"
    "sup_adopted_pid r \<noteq> None \<Longrightarrow>
       sup_adopted_gen r = (case last_generation (link_of l (sup_role r)) of Some g \<Rightarrow> g | None \<Rightarrow> 0)"
  using assms
  by (auto simp: spawn_worker_tasks_def handed_state_def pid_slots_snapshot_def slot_of_def link_of_def
      WATCHDOG_ROLES_def Let_def)

text \<open>A running supervisor of generation 4 with three workers, whose calls all succeed.\<close>

definition quiet_links :: worker_control_links where
  "quiet_links = \<lparr>lk_processor = worker_link_default\<lparr>last_generation := Some 2\<rparr>,
     lk_plain = worker_link_default\<lparr>writer := Some 3\<rparr>, lk_tls = worker_link_default\<lparr>last_generation := Some 7\<rparr>,
     lk_scanner = worker_link_default\<lparr>last_generation := Some 1\<rparr>\<rparr>"

definition quiet_shared :: sup_shared where
  "quiet_shared = \<lparr>sh_links = quiet_links, sh_watchdogs = watchdogs_init, sh_counters = upgrade_counters_new,
     sh_allow = from_uids [0], sh_upgrading = False,
     sh_pids = \<lparr>ps_processor = Some 100, ps_plain = Some 101, ps_tls = None, ps_scanner = Some 103\<rparr>\<rparr>"

definition quiet_supervisor :: supervisor where
  "quiet_supervisor = \<lparr>su_config = config_default, su_fds = quiet_fds, su_generation = 4, su_services = [],
     su_tasks = [], su_shared = quiet_shared, su_beacon = 0, su_cloexec = (\<lambda>_. True)\<rparr>"

lemma quiet_snapshot: "pid_slots_snapshot (sh_pids quiet_shared) (sh_links quiet_shared) = quiet_state"
  by (simp add: pid_slots_snapshot_def quiet_shared_def quiet_links_def quiet_state_def worker_link_default_def)

section \<open>Properties\<close>

text \<open>
  C17 (safety). A supervisor ends its loop only on a termination signal, or by exiting after a committed
  upgrade of itself, which a grandparent rules out. On a termination signal it asks every worker with
  an open control connection to shut down (the scanner and the processor within 500 ms, the
  acceptors within a second), signals the processor, and removes exactly its nine socket files.
  Otherwise, and in particular when it hands over to a successor, no worker is asked to shut down
  or signalled and no socket file is removed.
\<close>

theorem supervisor_stops_cleanly:
  assumes "supervisor_run signals e write evs su = (Inr (out, su'), es)"
  shows "(case out of
      Stopped \<Rightarrow> (SigTerm \<in> set evs \<or> SigInt \<in> set evs) \<and>
        {p. SupRemoved p \<in> set es} = set (cleanup_socket_files (su_config su)) \<and>
        (\<forall>role \<in> set WATCHDOG_ROLES. \<forall>wr. writer (link_of (sh_links (su_shared su')) role) = Some wr \<longrightarrow>
           SupSent (wr, Shutdown (if role = ''plain'' \<or> role = ''tls'' then 1000 else 500)) \<in> set es) \<and>
        {p. SupSigterm p \<in> set es} = set_option (ps_processor (sh_pids (su_shared su')))
    | _ \<Rightarrow> \<forall>x \<in> set es. \<nexists>m p f. x = SupSent m \<or> x = SupSigterm p \<or> x = SupRemoved f) \<and>
    (\<forall>cmd. out = ExitCommitted cmd \<longrightarrow>
      (\<exists>os exe. SigHup os exe \<in> set evs \<and> env_var (os_environ os) ENV_UNDER_GRANDPARENT = None))"
proof -
  obtain ready es1 where r: "ready_effects signals e write (su_generation su) = Inr ready"
    and l: "supervisor_loop su evs = (out, su', es1)"
    and es: "es = ready @ es1 @ (if out = Stopped then stop_effects su' else [])"
    using assms by (auto simp: supervisor_run_def split: sum.splits prod.splits)
  have ready: "x \<in> set ready \<Longrightarrow> \<exists>a b. x = ReadyWritten a b \<or> x = SdNotify b" for x
    using r by (auto simp: ready_effects_def and_then_Inr_iff split: option.splits)
  note shape = supervisor_loop_shape [OF l]
  have quiet: "SupSent m \<notin> set (ready @ es1)" "SupSigterm p \<notin> set (ready @ es1)" "SupRemoved f \<notin> set (ready @ es1)" for m p f
    using ready shape by fastforce+
  have commit: "\<exists>os exe. SigHup os exe \<in> set evs \<and> env_var (os_environ os) ENV_UNDER_GRANDPARENT = None"
    if "out = ExitCommitted cmd" for cmd
    using l that by (metis supervisor_loop_commit)
  show ?thesis
  proof (cases "out = Stopped")
    case False
    then show ?thesis
      using es quiet commit by (cases out) auto
  next
    case True
    let ?sh = "su_shared su'"
    have stop: "SupRemoved f \<in> set es \<longleftrightarrow> SupRemoved f \<in> set (stop_effects su')"
      "SupSigterm p \<in> set es \<longleftrightarrow> SupSigterm p \<in> set (stop_effects su')"
      "SupSent m \<in> set es \<longleftrightarrow> SupSent m \<in> set (stop_effects su')" for f p m
      using es quiet True by auto
    have "{f. SupRemoved f \<in> set es} = set (cleanup_socket_files (su_config su))"
      unfolding stop using shape
      by (auto simp: stop_effects_def shutdown_supervisor_def Let_def sent_def split: option.splits prod.splits)
    moreover have "{p. SupSigterm p \<in> set es} = set_option (ps_processor (sh_pids ?sh))"
      unfolding stop
      by (auto simp: stop_effects_def shutdown_supervisor_def Let_def sent_def split: option.splits prod.splits)
    moreover have "SupSent (wr, Shutdown (if role = ''plain'' \<or> role = ''tls'' then 1000 else 500)) \<in> set es"
      if "role \<in> set WATCHDOG_ROLES" "writer (link_of (sh_links ?sh) role) = Some wr" for role wr
      unfolding stop using that
      by (auto simp: stop_effects_def shutdown_supervisor_def send_shutdown_def take_writer_def Let_def sent_def
          WATCHDOG_ROLES_def link_of_def)
    ultimately show ?thesis using True shape by simp
  qed
qed

theorem supervisor_stops_cleanly_witness:
  "\<exists>es. supervisor_run (Inr ()) [] (\<lambda>_ _. Inr ()) [BeaconTick, SigTerm] quiet_supervisor =
      (Inr (Stopped, quiet_supervisor\<lparr>su_beacon := 1\<rparr>), es) \<and>
    SupSent (3, Shutdown 1000) \<in> set es \<and> {p. SupSigterm p \<in> set es} = {100}"
proof -
  let ?su = "quiet_supervisor\<lparr>su_beacon := 1\<rparr>"
  obtain es where run: "supervisor_run (Inr ()) [] (\<lambda>_ _. Inr ()) [BeaconTick, SigTerm] quiet_supervisor =
      (Inr (Stopped, ?su), es)"
    by (simp add: supervisor_run_def ready_effects_def signal_ready_to_parent_def supervisor_event_def
        beacon_tick_def quiet_supervisor_def)
  have "writer (link_of (sh_links (su_shared ?su)) ''plain'') = Some 3" "''plain'' \<in> set WATCHDOG_ROLES"
    "ps_processor (sh_pids (su_shared ?su)) = Some 100"
    by (simp_all add: quiet_supervisor_def quiet_shared_def quiet_links_def link_of_def WATCHDOG_ROLES_def)
  with supervisor_stops_cleanly [OF run] run show ?thesis by fastforce
qed

text \<open>
  C16 (refinement). A supervisor that exits after a committed upgrade is continued by its successor: reading
  the environment it was spawned with, the successor starts with the same eleven sockets, the next
  generation, and one task per role, each of which begins with the worker its predecessor had in
  that role when that worker is still alive, at the generation last reported over its control
  connection, and spawns a worker only where there is none.
\<close>

theorem supervisor_succession:
  assumes "supervisor_loop su evs = (ExitCommitted cmd, su', es)"
    and "\<forall>(fd, l) \<in> set (self_upgrade_fds (su_fds su)). i32_range fd"
    and "\<forall>os exe s. SigHup os exe \<in> set evs \<and> env_var (os_environ os) ''LISTEN_PID'' = Some s \<longrightarrow>
      (\<exists>p. parse_u32 s = Some p \<and> p \<noteq> pid)"
    and "\<forall>fd. oo_wrap oo fd = Inr ()" and "oo_env oo = uc_env cmd"
  shows "\<exists>succ. supervisor_start pid euid oo cfg now t = (Inr succ, \<lparr>op_sd = [], op_removed = []\<rparr>) \<and>
    su_fds succ = su_fds su \<and> su_generation succ = su_generation su + 1 \<and>
    map sup_role (su_tasks succ) = [''processor'', ''plain'', ''tls'', ''scanner''] \<and>
    (\<forall>r \<in> set (su_tasks succ).
       fst (next_child (sup_role r) w (role_start kill c r)) =
         (case slot_of (sh_pids (su_shared su')) (sup_role r) of
            None \<Rightarrow> w_spawn w
          | Some p \<Rightarrow> if is_process_alive kill p then Inr (Adopted (int (unat p))) else w_spawn w) \<and>
       (slot_of (sh_pids (su_shared su')) (sup_role r) \<noteq> None \<longrightarrow>
          rs_generation (role_start kill c r) =
            (case last_generation (link_of (sh_links (su_shared su')) (sup_role r)) of Some g \<Rightarrow> g | None \<Rightarrow> 0)))"
proof -
  let ?a = "pid_slots_snapshot (sh_pids (su_shared su')) (sh_links (su_shared su'))"
  obtain os exe t1 t2 where hup: "SigHup os exe \<in> set evs"
    and up: "do_self_upgrade os exe (su_fds su) ?a (su_generation su) t1 = (Committed cmd, t2)"
    using assms(1) by (rule supervisor_loop_commit)
  from up obtain wfd where env: "uc_env cmd = self_child_env (os_environ os) (su_fds su) ?a (su_generation su) wfd"
    by (elim do_self_upgrade_committed)
  have open_ok: "open_supervisor_listeners pid oo cfg n = (Inr (su_fds su), \<lparr>op_sd = [], op_removed = []\<rparr>)" for n
    by (rule successor_listeners [OF trans [OF assms(5) env]]) (use assms(2-4) hup in blast)+
  have gen: "env_generation (oo_env oo) ENV_SUP_GENERATION = su_generation su + 1"
    by (simp add: assms(5) env env_generation_def self_env_generation)
  have ad: "adopted_from_env (oo_env oo) = handed_state ?a"
    by (simp add: assms(5) env adopted_from_self_env)
  have start_gen: "rs_generation (role_start kill c r) = sup_adopted_gen r" for r
    by (simp add: role_start_def Let_def split: option.splits)
  show ?thesis
    using tasks_of_successor
    by (simp add: supervisor_start_def open_ok gen ad Let_def first_child start_gen)
      (auto simp: spawn_worker_tasks_def)
qed

theorem supervisor_succession_witness:
  "\<exists>succ. supervisor_start 7 0 \<lparr>oo_env = uc_env quiet_cmd, oo_bind_uds = (\<lambda>_. Inl []), oo_bind_tcp = (\<lambda>_. Inl []),
       oo_chmod = (\<lambda>_. Inl []), oo_wrap = (\<lambda>_. Inr ())\<rparr> config_default 0 (\<lambda>_. True) =
      (Inr succ, \<lparr>op_sd = [], op_removed = []\<rparr>) \<and>
    su_generation succ = 5 \<and>
    fst (next_child ''processor'' \<lparr>w_shutdown = False, w_spawn_clock = (0, None), w_spawn = Inl [], w_link_gen = None,
        w_end = \<lparr>owned_status = None, adopted_polls = []\<rparr>, w_exit_at = 0, w_shutdown_after = False, w_wait_start = 0,
        w_wait_polls = [], w_adoptions = []\<rparr> (role_start (\<lambda>_. KillOk) (0, None) (hd (su_tasks succ)))) =
      Inr (Adopted 100)"
proof -
  let ?os = "quiet_os (ReadGot ready_ack)"
  let ?oo = "\<lparr>oo_env = uc_env quiet_cmd, oo_bind_uds = (\<lambda>_. Inl []), oo_bind_tcp = (\<lambda>_. Inl []),
       oo_chmod = (\<lambda>_. Inl []), oo_wrap = (\<lambda>_. Inr ())\<rparr>"
  let ?w = "\<lparr>w_shutdown = False, w_spawn_clock = (0, None), w_spawn = Inl [], w_link_gen = None,
        w_end = \<lparr>owned_status = None, adopted_polls = []\<rparr>, w_exit_at = 0, w_shutdown_after = False, w_wait_start = 0,
        w_wait_polls = [], w_adoptions = []\<rparr>"
  obtain t' where "do_self_upgrade ?os (Inr ''/echod'') quiet_fds quiet_state 4 (\<lambda>_. True) = (Committed quiet_cmd, t')"
    using quiet_commits by blast
  then have run: "supervisor_loop quiet_supervisor [SigHup ?os (Inr ''/echod'')] =
      (ExitCommitted quiet_cmd, quiet_supervisor\<lparr>su_cloexec := t'\<rparr>, [])"
    by (simp add: supervisor_event_def on_sighup_def quiet_supervisor_def quiet_snapshot)
      (simp add: quiet_os_def env_names)
  have ranges: "\<forall>(fd, l) \<in> set (self_upgrade_fds (su_fds quiet_supervisor)). i32_range fd"
    using quiet_fds_range by (auto simp: quiet_supervisor_def)
  have listen: "\<forall>os exe s. SigHup os exe \<in> set [SigHup ?os (Inr ''/echod'')] \<and>
      env_var (os_environ os) ''LISTEN_PID'' = Some s \<longrightarrow> (\<exists>p. parse_u32 s = Some p \<and> p \<noteq> 7)"
    by (simp add: quiet_os_def env_names)
  have wrap: "\<forall>fd. oo_wrap ?oo fd = Inr ()" "oo_env ?oo = uc_env quiet_cmd" by simp_all
  show ?thesis
    using supervisor_succession [where euid = 0 and cfg = config_default and now = 0 and t = "\<lambda>_. True" and w = ?w
        and kill = "\<lambda>_. KillOk" and c = "(0, None)", OF run ranges listen wrap]
    by (auto simp: quiet_supervisor_def quiet_shared_def slot_of_def is_process_alive_def i32_of_u32_def)
qed

end
