(* ===== verification/Bench_Histogram.thy ===== *)
theory Bench_Histogram
  imports Resource_Limits "HOL-Library.Multiset"
begin

text \<open>
  Model of the latency histogram of the load generator (\<^verbatim>\<open>Histogram\<close> of \<^verbatim>\<open>examples/echobench.rs\<close>):
  counters over power-of-two buckets, their quantiles, and the largest sample. The workers record
  through atomic operations, which are steps of their own here; the reader runs after all workers
  have ended. Floating point is a rounding function, as for the token buckets.
\<close>

section \<open>The histogram\<close>

definition HIST_BUCKETS :: nat where
  "HIST_BUCKETS = 64"

record histogram =
  hi_buckets :: "u64 list"
  hi_max_ns :: u64

definition histogram_new :: histogram where
  "histogram_new = \<lparr>hi_buckets = replicate HIST_BUCKETS 0, hi_max_ns = 0\<rparr>"

text \<open>\<^verbatim>\<open>u64::ilog2\<close> of a positive number.\<close>

fun ilog2 :: "nat \<Rightarrow> nat" where
  "ilog2 n = (if n < 2 then 0 else Suc (ilog2 (n div 2)))"

declare ilog2.simps [simp del]

definition sample_ns :: "duration \<Rightarrow> u64" where
  "sample_ns d = of_nat (min d (2 ^ 64 - 1))"

definition bucket_index :: "u64 \<Rightarrow> nat" where
  "bucket_index ns = min (if ns = 0 then 0 else ilog2 (unat ns)) (HIST_BUCKETS - 1)"

text \<open>The two atomic operations of a record, and the record.\<close>

definition hist_add :: "u64 \<Rightarrow> histogram \<Rightarrow> histogram" where
  "hist_add ns h =
     h\<lparr>hi_buckets := (hi_buckets h)[bucket_index ns := hi_buckets h ! bucket_index ns + 1]\<rparr>"

definition hist_max :: "u64 \<Rightarrow> histogram \<Rightarrow> histogram" where
  "hist_max ns h = h\<lparr>hi_max_ns := max (hi_max_ns h) ns\<rparr>"

definition hist_record :: "duration \<Rightarrow> histogram \<Rightarrow> histogram" where
  "hist_record d h = hist_max (sample_ns d) (hist_add (sample_ns d) h)"

definition hist_total :: "histogram \<Rightarrow> u64" where
  "hist_total h = sum_list (hi_buckets h)"

text \<open>The loop of \<^verbatim>\<open>percentile\<close>: the first bucket at which the running count reaches the target.\<close>

fun percentile_scan :: "u64 \<Rightarrow> nat \<Rightarrow> u64 \<Rightarrow> u64 list \<Rightarrow> u64 option" where
  "percentile_scan target idx cum [] = None"
| "percentile_scan target idx cum (b # bs) =
     (if target \<le> cum + b then Some (push_bit (min (idx + 1) 63) 1)
      else percentile_scan target (idx + 1) (cum + b) bs)"

text \<open>\<^verbatim>\<open>as u64\<close> of a float saturates at both ends.\<close>

definition quantile_target :: "rounding \<Rightarrow> rat \<Rightarrow> u64 \<Rightarrow> u64" where
  "quantile_target rnd p n =
     of_nat (min (nat \<lceil>rnd (rnd (of_nat (unat n)) * p)\<rceil>) (2 ^ 64 - 1))"

definition percentile :: "rounding \<Rightarrow> rat \<Rightarrow> histogram \<Rightarrow> u64" where
  "percentile rnd p h =
     (if hist_total h = 0 then 0
      else case percentile_scan (quantile_target rnd p (hist_total h)) 0 0 (hi_buckets h) of
             Some v \<Rightarrow> v
           | None \<Rightarrow> hi_max_ns h)"

section \<open>Lemmas: logarithms and counts\<close>

lemma unat_of_nat_u64: "n < 2 ^ 64 \<Longrightarrow> unat (of_nat n :: u64) = n"
  by (simp add: unsigned_of_nat take_bit_nat_eq_self)

lemma ilog2_le_iff: "ilog2 n \<le> i \<longleftrightarrow> n < 2 ^ Suc i"
proof (induction n arbitrary: i rule: ilog2.induct)
  case (1 n)
  show ?case
  proof (cases "n < 2")
    case True
    have "2 \<le> 2 * (2 :: nat) ^ i"
      by simp
    with True have "n < 2 * 2 ^ i"
      by (rule less_le_trans)
    with True show ?thesis
      by (simp add: ilog2.simps [of n])
  next
    case False
    show ?thesis
    proof (cases i)
      case 0
      with False show ?thesis by (simp add: ilog2.simps [of n])
    next
      case (Suc j)
      have "n div 2 < 2 ^ Suc j \<longleftrightarrow> n < 2 ^ Suc (Suc j)"
        by (simp add: div_less_iff_less_mult mult.commute)
      with False "1.IH" [OF False, of j] Suc show ?thesis
        by (simp add: ilog2.simps [of n])
    qed
  qed
qed

lemma bucket_index_le_iff:
  assumes "i < 63"
  shows "bucket_index ns \<le> i \<longleftrightarrow> unat ns < 2 ^ Suc i"
  using assms ilog2_le_iff [of "unat ns" i]
  by (auto simp: bucket_index_def HIST_BUCKETS_def min_le_iff_disj)

lemma bucket_index_bound [simp]: "bucket_index ns < 64"
  by (simp add: bucket_index_def HIST_BUCKETS_def)

definition hist_of :: "duration list \<Rightarrow> histogram" where
  "hist_of ds = foldl (\<lambda>h d. hist_record d h) histogram_new ds"

lemma hist_of_snoc: "hist_of (ds @ [d]) = hist_record d (hist_of ds)"
  by (simp add: hist_of_def)

lemma hist_of_length [simp]: "length (hi_buckets (hist_of ds)) = 64"
  by (induction ds rule: rev_induct)
    (simp_all add: hist_of_snoc hist_record_def hist_add_def hist_max_def hist_of_def histogram_new_def HIST_BUCKETS_def)

text \<open>Every bucket counts the samples that belong to it.\<close>

lemma hist_of_bucket:
  "length ds < 2 ^ 64 \<Longrightarrow> i < 64 \<Longrightarrow>
    hi_buckets (hist_of ds) ! i = of_nat (length (filter (\<lambda>d. bucket_index (sample_ns d) = i) ds))"
proof (induction ds rule: rev_induct)
  case Nil
  then show ?case
    by (simp add: hist_of_def histogram_new_def HIST_BUCKETS_def)
next
  case (snoc d ds)
  then show ?case
    by (simp add: hist_of_snoc hist_record_def hist_add_def hist_max_def nth_list_update add.commute)
qed

lemma hist_of_max: "hi_max_ns (hist_of ds) = fold max (map sample_ns ds) 0"
  by (induction ds rule: rev_induct)
    (simp_all add: hist_of_snoc hist_record_def hist_add_def hist_max_def hist_of_def histogram_new_def max.commute)

section \<open>Lemmas: quantiles\<close>

lemma sum_list_of_nat: "sum_list (map of_nat ns) = (of_nat (sum_list ns) :: 'a::semiring_1)"
  by (induction ns) simp_all

lemma length_filter_split:
  "length (filter (\<lambda>x. f x < Suc n) xs) = length (filter (\<lambda>x. f x < n) xs) + length (filter (\<lambda>x. f x = (n :: nat)) xs)"
  by (induction xs) auto

text \<open>The running count over a prefix of buckets is the number of samples below their end.\<close>

lemma count_prefix:
  "sum_list (map (\<lambda>i. length (filter (\<lambda>x. f x = i) xs)) [0..<n]) = length (filter (\<lambda>x. f x < n) xs)"
  by (induction n) (simp_all add: length_filter_split)

definition bucket_counts :: "duration list \<Rightarrow> nat list" where
  "bucket_counts ds = map (\<lambda>i. length (filter (\<lambda>d. bucket_index (sample_ns d) = i) ds)) [0..<64]"

lemma hist_of_counts: "length ds < 2 ^ 64 \<Longrightarrow> hi_buckets (hist_of ds) = map of_nat (bucket_counts ds)"
  by (rule nth_equalityI) (simp_all add: bucket_counts_def hist_of_bucket)

lemma bucket_counts_take:
  "n \<le> 64 \<Longrightarrow> sum_list (take n (bucket_counts ds)) = length (filter (\<lambda>d. bucket_index (sample_ns d) < n) ds)"
  by (simp add: bucket_counts_def take_map count_prefix min_def)

lemma bucket_counts_total: "sum_list (bucket_counts ds) = length ds"
  using bucket_counts_take [of 64 ds] by (simp add: bucket_counts_def)

lemma hist_total_length: "length ds < 2 ^ 64 \<Longrightarrow> hist_total (hist_of ds) = of_nat (length ds)"
  by (simp only: hist_total_def hist_of_counts sum_list_of_nat bucket_counts_total)

text \<open>The scan on unbounded numbers; without overflow the loop does the same.\<close>

fun first_reaching :: "nat \<Rightarrow> nat \<Rightarrow> nat list \<Rightarrow> nat option" where
  "first_reaching target cum [] = None"
| "first_reaching target cum (n # ns) =
     (if target \<le> cum + n then Some 0 else map_option Suc (first_reaching target (cum + n) ns))"

lemma percentile_scan_first:
  assumes "cum + sum_list ns < 2 ^ 64" and "target < 2 ^ 64"
  shows "percentile_scan (of_nat target) idx (of_nat cum) (map of_nat ns) =
    map_option (\<lambda>j. push_bit (min (idx + j + 1) 63) 1) (first_reaching target cum ns)"
  using assms
proof (induction ns arbitrary: idx cum)
  case (Cons n ns)
  have le: "(of_nat target :: u64) \<le> of_nat (cum + n) \<longleftrightarrow> target \<le> cum + n"
    using Cons.prems unat_of_nat_u64 [of target] unat_of_nat_u64 [of "cum + n"]
    by (simp add: word_le_nat_alt del: of_nat_add)
  have "percentile_scan (of_nat target) (Suc idx) (of_nat (cum + n)) (map of_nat ns) =
      map_option (\<lambda>j. push_bit (min (Suc idx + j + 1) 63) 1) (first_reaching target (cum + n) ns)"
    using Cons.prems by (intro Cons.IH) simp_all
  with le show ?case
    by (simp add: option.map_comp comp_def)
qed simp

lemma first_reaching_Some:
  assumes "first_reaching target cum ns = Some j"
  shows "j < length ns \<and> target \<le> cum + sum_list (take (Suc j) ns) \<and> (0 < j \<longrightarrow> cum + sum_list (take j ns) < target)"
  using assms
proof (induction ns arbitrary: cum j)
  case (Cons n ns)
  show ?case
  proof (cases "target \<le> cum + n")
    case False
    with Cons.prems obtain k where "first_reaching target (cum + n) ns = Some k" and "j = Suc k"
      by auto
    with Cons.IH [of "cum + n" k] False show ?thesis
      by (cases k) auto
  qed (use Cons.prems in auto)
qed simp

lemma first_reaching_total: "target \<le> cum + sum_list ns \<Longrightarrow> ns \<noteq> [] \<Longrightarrow> first_reaching target cum ns \<noteq> None"
proof (induction ns arbitrary: cum)
  case (Cons n ns)
  show ?case
  proof (cases "ns = []")
    case False
    with Cons.IH [of "cum + n"] Cons.prems(1) show ?thesis by (auto simp: add.assoc)
  qed (use Cons.prems(1) in simp)
qed simp

lemma sorted_nth_less_iff:
  "sorted s \<Longrightarrow> k < length s \<Longrightarrow> s ! k < x \<longleftrightarrow> k < length (filter (\<lambda>y. y < x) s)" for x :: nat
proof (induction s arbitrary: k)
  case (Cons a s)
  have "filter (\<lambda>y. y < x) s = []" if "\<not> a < x"
    using Cons.prems(1) that by (auto simp: filter_empty_conv)
  with Cons show ?case
    by (cases k) (auto simp: nth_Cons')
qed simp

lemma sample_ns_exact: "d < 2 ^ 64 \<Longrightarrow> unat (sample_ns d) = d"
  by (simp add: sample_ns_def unat_of_nat_u64)

text \<open>Below the last bucket, the samples of the first buckets are those below their common end.\<close>

lemma samples_below:
  assumes "\<forall>d \<in> set ds. d < 2 ^ 63" and "n \<le> 63"
  shows "length (filter (\<lambda>d. bucket_index (sample_ns d) < n) ds) =
    (if n = 0 then 0 else length (filter (\<lambda>d. d < 2 ^ n) (sort ds)))"
proof (cases n)
  case (Suc i)
  have "bucket_index (sample_ns d) < n \<longleftrightarrow> d < 2 ^ n" if "d \<in> set ds" for d
    using assms that Suc sample_ns_exact [of d] bucket_index_le_iff [of i "sample_ns d"]
    by (auto simp: less_Suc_eq_le)
  then have "filter (\<lambda>d. bucket_index (sample_ns d) < n) ds = filter (\<lambda>d. d < 2 ^ n) ds"
    by (intro filter_cong) simp_all
  then show ?thesis
    using Suc by (metis filter_sort length_sort nat.simps(3))
qed simp

lemma quantile_target_range:
  assumes "float_rounding rnd" and "p \<le> 1" and "length ds \<le> 2 ^ 53"
    and "0 < rnd (rnd (of_nat (length ds)) * p)"
  defines "k \<equiv> nat \<lceil>rnd (rnd (of_nat (length ds)) * p)\<rceil>"
  shows "1 \<le> k" and "k \<le> length ds" and "quantile_target rnd p (of_nat (length ds)) = of_nat k"
proof -
  have exact: "rnd (of_nat (length ds)) = of_nat (length ds)"
    using assms(1,3) by (simp add: float_rounding_def)
  have "of_nat (length ds) * p \<le> of_nat (length ds)"
    using assms(2) by (simp add: mult_left_le)
  then have "rnd (rnd (of_nat (length ds)) * p) \<le> of_nat (length ds)"
    using assms(1) exact unfolding float_rounding_def by metis
  then show k: "k \<le> length ds"
    unfolding k_def by (simp add: ceiling_le_iff nat_le_iff)
  show "1 \<le> k"
    using assms(4) by (simp add: k_def Suc_le_eq)
  have "unat (of_nat (length ds) :: u64) = length ds"
    using assms(3) by (intro unat_of_nat_u64) simp
  with k assms(3) show "quantile_target rnd p (of_nat (length ds)) = of_nat k"
    by (simp add: quantile_target_def k_def)
qed

lemma unat_shifted_one:
  assumes "j < 64"
  shows "unat (push_bit j (1 :: u64)) = 2 ^ j"
proof -
  have "(2 :: nat) ^ j < 2 ^ 64"
    using assms by (rule power_strict_increasing) simp
  then show ?thesis
    using unat_of_nat_u64 [of "2 ^ j"] by (simp add: push_bit_eq_mult)
qed

text \<open>The bucket at which the count reaches a rank brackets the sample of that rank.\<close>

lemma reaching_bucket:
  assumes "\<forall>d \<in> set ds. d < 2 ^ 63" and "1 \<le> k" and "k \<le> length ds"
    and j: "first_reaching k 0 (bucket_counts ds) = Some j"
  shows "j < 63 \<and> sort ds ! (k - 1) < 2 ^ Suc j \<and> (0 < j \<longrightarrow> 2 ^ j \<le> sort ds ! (k - 1))"
proof -
  note below = samples_below [OF assms(1)]
  have j64: "j < 64" and reach: "k \<le> length (filter (\<lambda>d. bucket_index (sample_ns d) < Suc j) ds)"
    and before: "0 < j \<Longrightarrow> length (filter (\<lambda>d. bucket_index (sample_ns d) < j) ds) < k"
    using first_reaching_Some [OF j] bucket_counts_take [of "Suc j" ds] bucket_counts_take [of j ds]
    by (auto simp: bucket_counts_def)
  have "j \<noteq> 63"
  proof
    assume "j = 63"
    then have "length (filter (\<lambda>d. d < 2 ^ 63) (sort ds)) < k"
      using before below [of 63] by simp
    moreover have "filter (\<lambda>d. d < 2 ^ 63) (sort ds) = sort ds"
      using assms(1) by (simp add: filter_id_conv)
    ultimately show False
      using assms(3) by simp
  qed
  with j64 have j62: "j < 63"
    by simp
  have k: "k - 1 < length (sort ds)"
    using assms(2,3) by simp
  have "sort ds ! (k - 1) < 2 ^ Suc j"
    using reach assms(2) below [of "Suc j"] j62 sorted_nth_less_iff [OF sorted_sort k, of "2 ^ Suc j"] by simp
  moreover have "2 ^ j \<le> sort ds ! (k - 1)" if "0 < j"
    using before [OF that] below [of j] that j62 sorted_nth_less_iff [OF sorted_sort k, of "2 ^ j"] by auto
  ultimately show ?thesis
    using j62 by simp
qed

section \<open>Properties\<close>

text \<open>
  C28 (bounds). A reported quantile is right up to a factor of two: with \<open>k\<close> the rank the code computes
  (the share \<open>p\<close> of the number of samples in floating point, rounded up), the \<open>k\<close>-th smallest sample is below the
  reported value, and the reported value is at most twice that sample, or twice one nanosecond. This
  holds for every rounding that is monotone and exact on the integers a float represents. Assumed are at most
  \<open>2\<^sup>5\<^sup>3\<close> samples, each below \<open>2\<^sup>6\<^sup>3\<close> nanoseconds, and a share of at most one that does not
  round to zero.
\<close>

theorem percentile_brackets_quantile:
  assumes "float_rounding rnd" and "p \<le> 1" and "length ds \<le> 2 ^ 53" and "\<forall>d \<in> set ds. d < 2 ^ 63"
    and "0 < rnd (rnd (of_nat (length ds)) * p)"
  shows "sort ds ! (nat \<lceil>rnd (rnd (of_nat (length ds)) * p)\<rceil> - 1) < unat (percentile rnd p (hist_of ds)) \<and>
    unat (percentile rnd p (hist_of ds)) \<le>
      2 * max 1 (sort ds ! (nat \<lceil>rnd (rnd (of_nat (length ds)) * p)\<rceil> - 1))"
proof -
  define k where "k = nat \<lceil>rnd (rnd (of_nat (length ds)) * p)\<rceil>"
  note rank = quantile_target_range [OF assms(1-3,5), folded k_def]
  have small: "length ds < 2 ^ 64"
    using assms(3) by simp
  obtain j where j: "first_reaching k 0 (bucket_counts ds) = Some j"
    using first_reaching_total [of k 0 "bucket_counts ds"] rank(2) bucket_counts_total
    by (auto simp: bucket_counts_def)
  have scan: "percentile_scan (of_nat k) 0 0 (map of_nat (bucket_counts ds)) = Some (push_bit (min (j + 1) 63) 1)"
    using percentile_scan_first [of 0 "bucket_counts ds" k 0] j rank(2) small by (simp add: bucket_counts_total)
  have "hist_total (hist_of ds) \<noteq> 0"
    using rank(1,2) small unat_of_nat_u64 [OF small] by (auto simp: hist_total_length)
  then have val: "percentile rnd p (hist_of ds) = push_bit (min (j + 1) 63) 1"
    by (simp only: percentile_def hist_total_length [OF small] rank(3) hist_of_counts [OF small] scan if_False
        option.case)
  from reaching_bucket [OF assms(4) rank(1,2) j] have "j < 63" and x: "sort ds ! (k - 1) < 2 ^ Suc j"
      "0 < j \<longrightarrow> 2 ^ j \<le> sort ds ! (k - 1)"
    by simp_all
  then have "unat (percentile rnd p (hist_of ds)) = 2 ^ Suc j"
    using unat_shifted_one [of "Suc j"] by (simp add: val)
  with x show ?thesis
    unfolding k_def [symmetric] by (cases "j = 0") (auto simp: max_def)
qed

theorem percentile_brackets_quantile_witness:
  "sort [700, 3, 90] ! 1 < unat (percentile (\<lambda>x. x) (1 / 2) (hist_of [700, 3, 90])) \<and>
    unat (percentile (\<lambda>x. x) (1 / 2) (hist_of [700, 3, 90])) \<le> 2 * 90"
proof -
  have "sort [700, 3, 90 :: nat] ! (nat \<lceil>(of_nat (length [700, 3, 90 :: nat]) * (1 / 2) :: rat)\<rceil> - 1) = 90"
    by code_simp
  moreover have "nat \<lceil>(of_nat (length [700, 3, 90 :: nat]) * (1 / 2) :: rat)\<rceil> - 1 = 1"
    by code_simp
  ultimately show ?thesis
    using percentile_brackets_quantile [OF float_rounding_id, of "1 / 2" "[700, 3, 90]"] by simp
qed

end
