(* ===== verification/Echobench.thy ===== *)
theory Echobench
  imports Bench_Histogram Cli Session
begin

text \<open>
  Model of the load generator (\<^verbatim>\<open>examples/echobench.rs\<close>): its command line, its connections, the two
  kinds of workers, the counters they share, and the report. The sockets, the TLS library and the
  JSON printer are parameters. A worker yields the atomic operations it performs on the shared
  counters; a run of the program is any interleaving of what its workers yield.
\<close>

section \<open>Arguments\<close>

datatype bench_mode = Conn | Throughput

record bench_common =
  bc_host :: string
  bc_tls :: bool
  bc_mode :: bench_mode
  bc_connections :: u64
  bc_duration :: u64
  bc_warmup :: u64
  bc_message_size :: u64
  bc_pipeline :: u64
  bc_ca :: "string option"
  bc_server_name :: string
  bc_json :: bool

text \<open>The variables of the parser, and \<^verbatim>\<open>Args\<close>, in which the port is settled.\<close>

record bench_vars = bench_common +
  bv_port :: "u16 option"

record bench_args = bench_common +
  ba_port :: u16

definition MAX_LINE :: nat where
  "MAX_LINE = 64 * 1024"

definition bench_usage :: string where
  "bench_usage = ''echobench '' @ em_dash @ '' load generator for echod'' @ [nl, nl] @
     ''Transport:  --plain (default) | --tls   --host <ip> (127.0.0.1)   --port <n> (7070/7071)'' @ [nl] @
     ''Load:       --mode conn|throughput (throughput)   --connections <n> (50)'' @ [nl] @
     ''--duration <secs> (10)   --warmup <secs> (0)'' @ [nl] @
     ''--message-size <bytes> (128)   --pipeline <n> (1, throughput only)'' @ [nl] @
     ''TLS:        --server-name <name> (localhost)   --ca <path> (verify vs this root;'' @ [nl] @
     ''default: skip verification, matching the generated self-signed cert)'' @ [nl] @
     ''Output:     --json''"

definition bench_defaults :: bench_vars where
  "bench_defaults = \<lparr>
     bc_host = ''127.0.0.1'', bc_tls = False, bc_mode = Throughput, bc_connections = 50, bc_duration = 10,
     bc_warmup = 0, bc_message_size = 128, bc_pipeline = 1, bc_ca = None, bc_server_name = ''localhost'',
     bc_json = False, bv_port = None\<rparr>"

text \<open>\<^verbatim>\<open>parse().context(flag)\<close> of an unsigned type; \<^verbatim>\<open>usize\<close> has 64 bits.\<close>

definition parse_flag :: "nat \<Rightarrow> string \<Rightarrow> string \<Rightarrow> nat result" where
  "parse_flag mx flag s =
     (case parse_unsigned mx s of Some n \<Rightarrow> Inr n | None \<Rightarrow> Inl [flag, parse_int_error mx s])"

definition parse_flag_u64 :: "string \<Rightarrow> string \<Rightarrow> u64 result" where
  "parse_flag_u64 flag s = and_then (parse_flag (2 ^ 64 - 1) flag s) (\<lambda>n. Inr (of_nat n))"

definition value_flags :: "string list" where
  "value_flags = [''--host'', ''--port'', ''--mode'', ''--connections'', ''--duration'', ''--warmup'',
     ''--message-size'', ''--pipeline'', ''--ca'', ''--server-name'']"

definition set_value :: "string \<Rightarrow> string \<Rightarrow> bench_vars \<Rightarrow> bench_vars result" where
  "set_value flag x v =
     (if flag = ''--host'' then Inr (v\<lparr>bc_host := x\<rparr>)
      else if flag = ''--port''
      then and_then (parse_flag (2 ^ 16 - 1) flag x) (\<lambda>n. Inr (v\<lparr>bv_port := Some (of_nat n)\<rparr>))
      else if flag = ''--mode''
      then (if x = ''conn'' then Inr (v\<lparr>bc_mode := Conn\<rparr>)
            else if x = ''throughput'' then Inr (v\<lparr>bc_mode := Throughput\<rparr>)
            else Inl [''--mode must be conn|throughput, got '' @ x])
      else if flag = ''--connections''
      then and_then (parse_flag_u64 flag x) (\<lambda>n. Inr (v\<lparr>bc_connections := n\<rparr>))
      else if flag = ''--duration'' then and_then (parse_flag_u64 flag x) (\<lambda>n. Inr (v\<lparr>bc_duration := n\<rparr>))
      else if flag = ''--warmup'' then and_then (parse_flag_u64 flag x) (\<lambda>n. Inr (v\<lparr>bc_warmup := n\<rparr>))
      else if flag = ''--message-size''
      then and_then (parse_flag_u64 flag x) (\<lambda>n. Inr (v\<lparr>bc_message_size := n\<rparr>))
      else if flag = ''--pipeline'' then and_then (parse_flag_u64 flag x) (\<lambda>n. Inr (v\<lparr>bc_pipeline := n\<rparr>))
      else if flag = ''--ca'' then Inr (v\<lparr>bc_ca := Some x\<rparr>)
      else Inr (v\<lparr>bc_server_name := x\<rparr>))"

text \<open>\<^verbatim>\<open>--help\<close> ends the process with status zero.\<close>

datatype 'a bench_parsed = ExitZero | Parsed "'a result"

fun bench_parse :: "bench_vars \<Rightarrow> string list \<Rightarrow> bench_vars bench_parsed" where
  "bench_parse v [] = Parsed (Inr v)"
| "bench_parse v (flag # rest) =
     (if flag = ''--tls'' then bench_parse (v\<lparr>bc_tls := True\<rparr>) rest
      else if flag = ''--plain'' then bench_parse (v\<lparr>bc_tls := False\<rparr>) rest
      else if flag = ''--json'' then bench_parse (v\<lparr>bc_json := True\<rparr>) rest
      else if flag = ''--help'' \<or> flag = ''-h'' then ExitZero
      else if flag \<in> set value_flags
      then (case rest of
              [] \<Rightarrow> Parsed (Inl [flag @ '' requires a value''])
            | x # rest' \<Rightarrow>
                (case set_value flag x v of Inl e \<Rightarrow> Parsed (Inl e) | Inr v' \<Rightarrow> bench_parse v' rest'))
      else Parsed (Inl [''unknown flag: '' @ flag @ [nl, nl] @ bench_usage]))"

definition bench_validate :: "bench_vars \<Rightarrow> bench_args result" where
  "bench_validate v =
     (if bc_connections v = 0 then Inl [''--connections must be > 0'']
      else if bc_duration v = 0 then Inl [''--duration must be > 0'']
      else if bc_message_size v = 0 \<or> MAX_LINE \<le> unat (bc_message_size v)
      then Inl [''--message-size must be in 1..'' @ dec MAX_LINE]
      else if bc_pipeline v = 0 then Inl [''--pipeline must be > 0'']
      else Inr (bench_common.extend (bench_common.truncate v)
        \<lparr>ba_port = (case bv_port v of Some p \<Rightarrow> p | None \<Rightarrow> if bc_tls v then 7071 else 7070)\<rparr>))"

definition bench_parse_args :: "string list \<Rightarrow> bench_args bench_parsed \<times> cli_effect list" where
  "bench_parse_args argv =
     (case bench_parse bench_defaults argv of
        ExitZero \<Rightarrow> (ExitZero, [Out bench_usage])
      | Parsed r \<Rightarrow> (Parsed (and_then r bench_validate), []))"

section \<open>Connections\<close>

text \<open>What is used of the TLS library: reading a file of certificates, a root store, server names.\<close>

record ('cert, 'name) tls_lib =
  tl_open_ca :: "string \<Rightarrow> 'cert result list result"
  tl_add_root :: "'cert \<Rightarrow> unit result"
  tl_server_name :: "string \<Rightarrow> 'name result"

datatype 'cert verifier = NoVerify | RootStore "'cert list"

record ('cert, 'name) bench_tls_cfg =
  tc_verifier :: "'cert verifier"
  tc_domain :: 'name

fun add_roots :: "('cert, 'name) tls_lib \<Rightarrow> 'cert result list \<Rightarrow> 'cert list result" where
  "add_roots lib [] = Inr []"
| "add_roots lib (r # rs) =
     and_then (with_context ''parse CA cert'' r) (\<lambda>c.
     and_then (with_context ''add CA cert to root store'' (tl_add_root lib c)) (\<lambda>_.
     and_then (add_roots lib rs) (\<lambda>cs. Inr (c # cs))))"

definition build_tls :: "('cert, 'name) tls_lib \<Rightarrow> bench_args \<Rightarrow> ('cert, 'name) bench_tls_cfg result" where
  "build_tls lib args =
     and_then (case bc_ca args of
         Some ca \<Rightarrow>
           and_then (with_context (''open CA '' @ ca) (tl_open_ca lib ca)) (\<lambda>rs.
           and_then (add_roots lib rs) (\<lambda>cs. Inr (RootStore cs)))
       | None \<Rightarrow> Inr NoVerify) (\<lambda>v.
     and_then (with_context (''invalid --server-name '' @ bc_server_name args)
         (tl_server_name lib (bc_server_name args))) (\<lambda>d.
     Inr \<lparr>tc_verifier = v, tc_domain = d\<rparr>))"

text \<open>Whether a server certificate is accepted; with roots that is the library's decision.\<close>

definition server_cert_accepted :: "('cert list \<Rightarrow> 'chain \<Rightarrow> bool) \<Rightarrow> 'cert verifier \<Rightarrow> 'chain \<Rightarrow> bool" where
  "server_cert_accepted webpki v chain = (case v of NoVerify \<Rightarrow> True | RootStore roots \<Rightarrow> webpki roots chain)"

text \<open>\<^verbatim>\<open>dial\<close>: the outcomes of its calls in their order; the linger option is only set on request.\<close>

record dial_calls =
  dc_connect :: "unit result"
  dc_nodelay :: "unit result"
  dc_linger :: "unit result"
  dc_handshake :: "unit result"

definition bench_dial :: "bool \<Rightarrow> bool \<Rightarrow> dial_calls \<Rightarrow> unit result" where
  "bench_dial tls rst_close d =
     and_then (with_context ''tcp connect'' (dc_connect d)) (\<lambda>_.
     and_then (with_context ''set_nodelay'' (dc_nodelay d)) (\<lambda>_.
     and_then (if rst_close then with_context ''set SO_LINGER'' (dc_linger d) else Inr ()) (\<lambda>_.
     if tls then with_context ''tls handshake'' (dc_handshake d) else Inr ())))"

text \<open>What \<^verbatim>\<open>framed.next()\<close> returns: the end of the stream, a decode error, or a line.\<close>

type_synonym next_line = "(string + string) option"

definition ping :: "string \<Rightarrow> unit result \<Rightarrow> next_line \<Rightarrow> unit result" where
  "ping payload send next_in =
     and_then (with_context ''send'' send) (\<lambda>_.
     case next_in of
       Some (Inr line) \<Rightarrow> if length line = length payload then Inr () else Inl [''echo length mismatch'']
     | Some (Inl e) \<Rightarrow> Inl [''decode: '' @ e]
     | None \<Rightarrow> Inl [''connection closed before echo''])"

section \<open>Shared counters\<close>

record bench_shared =
  bs_recording :: bool
  bs_connections :: u64
  bs_messages :: u64
  bs_bytes :: u64
  bs_errors :: u64
  bs_hist :: histogram

definition bench_shared_new :: bench_shared where
  "bench_shared_new = \<lparr>
     bs_recording = False, bs_connections = 0, bs_messages = 0, bs_bytes = 0, bs_errors = 0, bs_hist = histogram_new\<rparr>"

text \<open>The atomic operations on the counters, and the lines \<^verbatim>\<open>debug_err\<close> prints.\<close>

datatype bench_op =
    StartRecording
  | AddConnection
  | AddMessage
  | AddBytes u64
  | AddError
  | HistAdd u64
  | HistMax u64
  | DebugLine string

fun bench_apply :: "bench_op \<Rightarrow> bench_shared \<Rightarrow> bench_shared" where
  "bench_apply StartRecording s = s\<lparr>bs_recording := True\<rparr>"
| "bench_apply AddConnection s = s\<lparr>bs_connections := bs_connections s + 1\<rparr>"
| "bench_apply AddMessage s = s\<lparr>bs_messages := bs_messages s + 1\<rparr>"
| "bench_apply (AddBytes n) s = s\<lparr>bs_bytes := bs_bytes s + n\<rparr>"
| "bench_apply AddError s = s\<lparr>bs_errors := bs_errors s + 1\<rparr>"
| "bench_apply (HistAdd ns) s = s\<lparr>bs_hist := hist_add ns (bs_hist s)\<rparr>"
| "bench_apply (HistMax ns) s = s\<lparr>bs_hist := hist_max ns (bs_hist s)\<rparr>"
| "bench_apply (DebugLine _) s = s"

definition hist_ops :: "duration \<Rightarrow> bench_op list" where
  "hist_ops d = [HistAdd (sample_ns d), HistMax (sample_ns d)]"

text \<open>\<^verbatim>\<open>recording\<close> is what the load of the flag returned at that moment.\<close>

definition note_error :: "bool \<Rightarrow> bench_op list" where
  "note_error recording = (if recording then [AddError] else [])"

text \<open>\<^verbatim>\<open>{err:#}\<close> joins the chain of an error.\<close>

fun error_chain :: "error \<Rightarrow> string" where
  "error_chain [] = []"
| "error_chain [m] = m"
| "error_chain (m # ms) = m @ '': '' @ error_chain ms"

definition debug_err :: "bool \<Rightarrow> string \<Rightarrow> error \<Rightarrow> bench_op list" where
  "debug_err debug what e = (if debug then [DebugLine (what @ '': '' @ error_chain e)] else [])"

section \<open>Workers\<close>

text \<open>One turn of a connection worker: the clock, the calls of the dial, how long it took, the ping, the flag.\<close>

record conn_turn =
  ct_now :: instant
  ct_dial :: dial_calls
  ct_setup :: duration
  ct_send :: "unit result"
  ct_next :: next_line
  ct_recording :: bool

definition conn_ops :: "bool \<Rightarrow> bool \<Rightarrow> string \<Rightarrow> conn_turn \<Rightarrow> bench_op list" where
  "conn_ops debug tls payload t =
     (case bench_dial tls True (ct_dial t) of
        Inr _ \<Rightarrow>
          (if ct_recording t
           then (case ping payload (ct_send t) (ct_next t) of
                   Inr _ \<Rightarrow> AddConnection # hist_ops (ct_setup t)
                 | Inl _ \<Rightarrow> [AddError])
           else [])
      | Inl e \<Rightarrow> debug_err debug ''dial'' e @ note_error (ct_recording t))"

fun conn_worker :: "bool \<Rightarrow> bool \<Rightarrow> string \<Rightarrow> instant \<Rightarrow> conn_turn list \<Rightarrow> bench_op list option" where
  "conn_worker debug tls payload deadline [] = None"
| "conn_worker debug tls payload deadline (t # ts) =
     (if deadline \<le> ct_now t then Some []
      else map_option (append (conn_ops debug tls payload t)) (conn_worker debug tls payload deadline ts))"

text \<open>
  One turn of a throughput worker: the clock, per message of the pipeline the time and the
  outcome of feeding it, the flush, what the flag was when one of these failed, and per message
  the reply.
\<close>

record tp_reply =
  tr_line :: next_line
  tr_at :: instant
  tr_recording :: bool

record tp_turn =
  tt_now :: instant
  tt_feed :: "nat \<Rightarrow> instant \<times> unit result"
  tt_flush :: "unit result"
  tt_recording :: bool
  tt_reply :: "nat \<Rightarrow> tp_reply"

text \<open>\<^verbatim>\<open>as_u64\<close>: the identity on 64-bit machines, saturating on wider ones.\<close>

definition as_u64 :: "nat \<Rightarrow> u64" where
  "as_u64 n = of_nat (min n (2 ^ 64 - 1))"

fun collect_replies :: "(instant \<times> tp_reply) list \<Rightarrow> bench_op list \<times> bool" where
  "collect_replies [] = ([], True)"
| "collect_replies ((t, r) # rest) =
     (case tr_line r of
        Some (Inr line) \<Rightarrow>
          (case collect_replies rest of
             (ops, go) \<Rightarrow>
               ((if tr_recording r
                 then AddMessage # AddBytes (as_u64 (length line)) # hist_ops (tr_at r - t) else []) @ ops, go))
      | _ \<Rightarrow> (note_error (tr_recording r), False))"

fun throughput_turns :: "nat \<Rightarrow> instant \<Rightarrow> tp_turn list \<Rightarrow> bench_op list option" where
  "throughput_turns pipeline deadline [] = None"
| "throughput_turns pipeline deadline (t # ts) =
     (if deadline \<le> tt_now t then Some []
      else if \<not> list_all (\<lambda>i. \<not> isl (snd (tt_feed t i))) [0..<pipeline] \<or> isl (tt_flush t)
      then Some (note_error (tt_recording t))
      else case collect_replies (map (\<lambda>i. (fst (tt_feed t i), tt_reply t i)) [0..<pipeline]) of
             (ops, False) \<Rightarrow> Some ops
           | (ops, True) \<Rightarrow> map_option (append ops) (throughput_turns pipeline deadline ts))"

definition throughput_worker ::
  "bool \<Rightarrow> bool \<Rightarrow> nat \<Rightarrow> instant \<Rightarrow> dial_calls \<Rightarrow> bool \<Rightarrow> tp_turn list \<Rightarrow> bench_op list option" where
  "throughput_worker debug tls pipeline deadline calls recording turns =
     (case bench_dial tls False calls of
        Inl e \<Rightarrow> Some (debug_err debug ''dial'' e @ note_error recording)
      | Inr _ \<Rightarrow> throughput_turns pipeline deadline turns)"

section \<open>Report\<close>

definition rate :: "rounding \<Rightarrow> u64 \<Rightarrow> rat \<Rightarrow> rat" where
  "rate rnd n secs = (if secs \<le> 0 then 0 else rnd (rnd (of_nat (unat n)) / secs))"

text \<open>\<^verbatim>\<open>{:.k}\<close> of a non-negative float: its exact value to the nearest, ties to even.\<close>

definition round_half_even :: "rat \<Rightarrow> int" where
  "round_half_even x =
     (let f = \<lfloor>x\<rfloor>; r = x - of_int f
      in if r < 1 / 2 \<or> (r = 1 / 2 \<and> even f) then f else f + 1)"

definition fixed_point :: "nat \<Rightarrow> rat \<Rightarrow> string" where
  "fixed_point k x =
     (let n = nat (round_half_even (x * 10 ^ k))
      in dec (n div 10 ^ k) @ ''.'' @ zero_pad k (dec (n mod 10 ^ k)))"

definition fmt_ns :: "rounding \<Rightarrow> u64 \<Rightarrow> string" where
  "fmt_ns rnd ns =
     (let f = rnd (of_nat (unat ns))
      in if 1000000000 \<le> ns then fixed_point 2 (rnd (f / 1000000000)) @ ''s''
         else if 1000000 \<le> ns then fixed_point 2 (rnd (f / 1000000)) @ ''ms''
         else if 1000 \<le> ns then fixed_point 2 (rnd (f / 1000)) @ ''us''
         else dec (unat ns) @ ''ns'')"

datatype bench_json = JStr string | JU64 u64 | JF64 rat | JObj "(string \<times> bench_json) list"

definition mib_per_sec :: "rounding \<Rightarrow> u64 \<Rightarrow> rat \<Rightarrow> rat" where
  "mib_per_sec rnd n secs = rnd (rate rnd n secs / 1048576)"

definition report_json :: "rounding \<Rightarrow> bench_args \<Rightarrow> bench_shared \<Rightarrow> rat \<Rightarrow> bench_json" where
  "report_json rnd args s secs =
     (let h = bs_hist s in
      JObj [
        (''transport'', JStr (if bc_tls args then ''tls'' else ''plain'')),
        (''mode'', JStr (case bc_mode args of Conn \<Rightarrow> ''conn'' | Throughput \<Rightarrow> ''throughput'')),
        (''host'', JStr (bc_host args)),
        (''port'', JU64 (of_nat (unat (ba_port args)))),
        (''connections'', JU64 (bc_connections args)),
        (''measured_secs'', JF64 secs),
        (''message_size'', JU64 (bc_message_size args)),
        (''pipeline'', JU64 (bc_pipeline args)),
        (''connections_completed'', JU64 (bs_connections s)),
        (''messages'', JU64 (bs_messages s)),
        (''bytes'', JU64 (bs_bytes s)),
        (''errors'', JU64 (bs_errors s)),
        (''connections_per_sec'', JF64 (rate rnd (bs_connections s) secs)),
        (''messages_per_sec'', JF64 (rate rnd (bs_messages s) secs)),
        (''mib_per_sec'', JF64 (mib_per_sec rnd (bs_bytes s) secs)),
        (''latency_ns'', JObj [
           (''p50'', JU64 (percentile rnd (rnd (1 / 2)) h)), (''p90'', JU64 (percentile rnd (rnd (9 / 10)) h)),
           (''p99'', JU64 (percentile rnd (rnd (99 / 100)) h)), (''max'', JU64 (hi_max_ns h))])])"

definition report_lines :: "rounding \<Rightarrow> bench_args \<Rightarrow> bench_shared \<Rightarrow> rat \<Rightarrow> string list" where
  "report_lines rnd args s secs =
     (let h = bs_hist s;
          mode = (case bc_mode args of Conn \<Rightarrow> ''conn'' | Throughput \<Rightarrow> ''throughput'');
          lat = ''p50='' @ fmt_ns rnd (percentile rnd (rnd (1 / 2)) h) @
            '' p90='' @ fmt_ns rnd (percentile rnd (rnd (9 / 10)) h) @
            '' p99='' @ fmt_ns rnd (percentile rnd (rnd (99 / 100)) h) @
            '' max='' @ fmt_ns rnd (hi_max_ns h) @ ''  (~2x buckets)''
      in [''echobench: '' @ (if bc_tls args then ''tls'' else ''plain'') @ '' '' @ mode @ '' | '' @ bc_host args @ '':'' @
            dec (unat (ba_port args)) @ '' | '' @ dec (unat (bc_connections args)) @ '' conns x '' @
            dec (unat (bc_duration args)) @ ''s''] @
         (case bc_mode args of
            Conn \<Rightarrow>
              [''  connections/sec : '' @ fixed_point 1 (rate rnd (bs_connections s) secs),
               ''  setup latency   : '' @ lat]
          | Throughput \<Rightarrow>
              [''  messages/sec    : '' @ fixed_point 1 (rate rnd (bs_messages s) secs) @ ''   ('' @
                 dec (unat (bs_messages s)) @ '' msg, '' @ dec (unat (bc_message_size args)) @ ''B each, pipeline='' @
                 dec (unat (bc_pipeline args)) @ '')'',
               ''  throughput      : '' @ fixed_point 2 (mib_per_sec rnd (bs_bytes s) secs) @ '' MiB/s'',
               ''  rtt latency     : '' @ lat]) @
         [''  errors          : '' @ dec (unat (bs_errors s))])"

definition bench_report ::
  "rounding \<Rightarrow> (bench_json \<Rightarrow> string option) \<Rightarrow> bench_args \<Rightarrow> bench_shared \<Rightarrow> duration \<Rightarrow> cli_effect list" where
  "bench_report rnd pretty args s elapsed =
     (let secs = as_secs_f64 rnd elapsed
      in if bc_json args
         then [Out (case pretty (report_json rnd args s secs) of Some t \<Rightarrow> t | None \<Rightarrow> [])]
         else map Out (report_lines rnd args s secs))"

section \<open>The program\<close>

text \<open>
  What the workers of a run meet, worker by worker, how the scheduler merges their operations with
  the one that starts the recording, and how long the measurement took.
\<close>

record bench_world =
  bw_now :: instant
  bw_debug :: bool
  bw_conn :: "nat \<Rightarrow> conn_turn list"
  bw_dial :: "nat \<Rightarrow> dial_calls \<times> bool"
  bw_turns :: "nat \<Rightarrow> tp_turn list"
  bw_merge :: "bench_op list list \<Rightarrow> bench_op list"
  bw_elapsed :: duration

definition bench_payload :: "bench_args \<Rightarrow> string" where
  "bench_payload args = replicate (unat (bc_message_size args)) (CHR ''x'')"

text \<open>The sum of two 64-bit numbers of seconds wraps in a release build.\<close>

definition bench_deadline :: "bench_world \<Rightarrow> bench_args \<Rightarrow> instant" where
  "bench_deadline w args = bw_now w + from_secs (unat (bc_warmup args + bc_duration args))"

definition bench_worker :: "bench_world \<Rightarrow> bench_args \<Rightarrow> nat \<Rightarrow> bench_op list option" where
  "bench_worker w args i =
     (case bc_mode args of
        Conn \<Rightarrow>
          conn_worker (bw_debug w) (bc_tls args) (bench_payload args) (bench_deadline w args) (bw_conn w i)
      | Throughput \<Rightarrow>
          throughput_worker (bw_debug w) (bc_tls args) (unat (bc_pipeline args)) (bench_deadline w args)
            (fst (bw_dial w i)) (snd (bw_dial w i)) (bw_turns w i))"

definition bench_run :: "bench_world \<Rightarrow> bench_args \<Rightarrow> bench_shared option" where
  "bench_run w args =
     map_option (\<lambda>opss. fold bench_apply (bw_merge w ([StartRecording] # opss)) bench_shared_new)
       (those (map (bench_worker w args) [0..<unat (bc_connections args)]))"

definition bench_main ::
  "rounding \<Rightarrow> (bench_json \<Rightarrow> string option) \<Rightarrow> ('cert, 'name) tls_lib \<Rightarrow> bench_world \<Rightarrow> string list \<Rightarrow>
    (unit bench_parsed \<times> cli_effect list) option" where
  "bench_main rnd pretty lib w argv =
     (case bench_parse_args argv of
        (ExitZero, es) \<Rightarrow> Some (ExitZero, es)
      | (Parsed (Inl e), es) \<Rightarrow> Some (Parsed (Inl e), es)
      | (Parsed (Inr args), es) \<Rightarrow>
          (case (if bc_tls args then and_then (build_tls lib args) (\<lambda>_. Inr ()) else Inr ()) of
             Inl e \<Rightarrow> Some (Parsed (Inl e), es)
           | Inr _ \<Rightarrow>
               map_option (\<lambda>s. (Parsed (Inr ()), es @ bench_report rnd pretty args s (bw_elapsed w)))
                 (bench_run w args)))"

section \<open>Lemmas: the order of operations does not matter\<close>

lemma hist_add_commute: "hist_add m (hist_add n h) = hist_add n (hist_add m h)"
  by (cases "bucket_index m = bucket_index n")
    (auto simp: hist_add_def list_update_swap nth_list_update)

lemma hist_max_commute:
  "hist_max m (hist_max n h) = hist_max n (hist_max m h)" "hist_max m (hist_add n h) = hist_add n (hist_max m h)"
  by (simp_all add: hist_max_def hist_add_def max.assoc max.commute [of m n])

lemma bench_apply_commute: "bench_apply a \<circ> bench_apply b = bench_apply b \<circ> bench_apply a"
proof
  fix s
  show "(bench_apply a \<circ> bench_apply b) s = (bench_apply b \<circ> bench_apply a) s"
    by (cases a; cases b) (simp_all add: hist_max_commute hist_add_commute add.commute add.left_commute)
qed

lemma bench_fold_perm: "mset ops = mset ops' \<Longrightarrow> fold bench_apply ops = fold bench_apply ops'"
  by (rule fold_multiset_equiv) (rule bench_apply_commute)

section \<open>Lemmas: what a list of operations adds up to\<close>

fun op_bytes :: "bench_op \<Rightarrow> u64" where
  "op_bytes (AddBytes n) = n"
| "op_bytes _ = 0"

fun op_samples :: "bench_op \<Rightarrow> u64" where
  "op_samples (HistAdd _) = 1"
| "op_samples _ = 0"

definition op_is :: "bench_op \<Rightarrow> bench_op \<Rightarrow> u64" where
  "op_is a b = (if a = b then 1 else 0)"

definition added :: "(bench_op \<Rightarrow> u64) \<Rightarrow> bench_op list \<Rightarrow> u64" where
  "added f ops = sum_list (map f ops)"

lemma added_simps [simp]:
  "added f [] = 0" "added f (a # ops) = f a + added f ops" "added f (ops @ ops') = added f ops + added f ops'"
  by (simp_all add: added_def)

lemma added_perm: "mset ops = mset ops' \<Longrightarrow> added f ops = added f ops'"
  by (metis added_def mset_map sum_mset_sum_list)

lemma sum_list_bump: "i < length xs \<Longrightarrow> sum_list (xs[i := xs ! i + 1]) = sum_list xs + (1 :: u64)"
  by (induction xs arbitrary: i) (auto simp: nth_Cons' list_update_code split: nat.splits)

lemma hist_total_add: "length (hi_buckets h) = 64 \<Longrightarrow> hist_total (hist_add ns h) = hist_total h + 1"
  by (simp add: hist_total_def hist_add_def sum_list_bump)

lemma bench_fold_totals:
  "length (hi_buckets (bs_hist s)) = 64 \<Longrightarrow>
    bs_connections (fold bench_apply ops s) = bs_connections s + added (op_is AddConnection) ops \<and>
    bs_messages (fold bench_apply ops s) = bs_messages s + added (op_is AddMessage) ops \<and>
    bs_bytes (fold bench_apply ops s) = bs_bytes s + added op_bytes ops \<and>
    bs_errors (fold bench_apply ops s) = bs_errors s + added (op_is AddError) ops \<and>
    hist_total (bs_hist (fold bench_apply ops s)) = hist_total (bs_hist s) + added op_samples ops"
proof (induction ops arbitrary: s)
  case (Cons a ops)
  have "length (hi_buckets (bs_hist (bench_apply a s))) = 64"
    using Cons.prems by (cases a) (simp_all add: hist_add_def hist_max_def)
  from Cons.IH [OF this] Cons.prems show ?case
    by (cases a) (simp_all add: op_is_def hist_total_add hist_max_def hist_total_def [of "bs_hist s\<lparr>hi_max_ns := _\<rparr>"]
        hist_total_def [of "bs_hist s"])
qed simp

text \<open>
  What the operations of one worker of a throughput run add up to, when all its lines have length
  \<open>n\<close>: as many samples as messages, \<open>n\<close> bytes per message, no connections, at most one error.
\<close>

definition tp_balanced :: "nat \<Rightarrow> bench_op list \<Rightarrow> bool" where
  "tp_balanced n ops \<longleftrightarrow>
     added op_samples ops = added (op_is AddMessage) ops \<and>
     added op_bytes ops = added (op_is AddMessage) ops * as_u64 n \<and>
     added (op_is AddConnection) ops = 0"

lemma tp_balanced_append: "tp_balanced n ops \<Longrightarrow> tp_balanced n ops' \<Longrightarrow> tp_balanced n (ops @ ops')"
  by (simp add: tp_balanced_def algebra_simps)

lemma tp_balanced_Nil [simp]: "tp_balanced n []"
  by (simp add: tp_balanced_def)

lemma note_error_simps [simp]:
  "tp_balanced n (note_error r)" "length (filter ((=) AddError) (note_error r)) \<le> Suc 0"
  by (simp_all add: tp_balanced_def note_error_def op_is_def)

lemma debug_err_simps [simp]:
  "tp_balanced n (debug_err d what e)" "filter ((=) AddError) (debug_err d what e) = []"
  by (simp_all add: tp_balanced_def debug_err_def op_is_def)

lemma counted_message: "tp_balanced (length l) (AddMessage # AddBytes (as_u64 (length l)) # hist_ops d)"
  by (simp add: tp_balanced_def hist_ops_def op_is_def)

lemma collect_replies_balanced:
  assumes "\<forall>(t, r) \<in> set rs. \<forall>l. tr_line r = Some (Inr l) \<longrightarrow> length l = n"
  shows "tp_balanced n (fst (collect_replies rs)) \<and>
    length (filter ((=) AddError) (fst (collect_replies rs))) \<le> (if snd (collect_replies rs) then 0 else 1)"
  using assms
proof (induction rs)
  case (Cons x rs)
  obtain t r where x: "x = (t, r)" by (cases x)
  obtain ops go where rest: "collect_replies rs = (ops, go)" by (cases "collect_replies rs")
  have IH: "tp_balanced n ops" "length (filter ((=) AddError) ops) \<le> (if go then 0 else 1)"
    using Cons rest by auto
  show ?case
  proof (cases "tr_line r")
    case (Some z)
    show ?thesis
    proof (cases z)
      case (Inr l)
      with Some Cons.prems x have n: "n = length l" by auto
      show ?thesis
        using IH tp_balanced_append [OF counted_message IH(1) [unfolded n]]
        by (auto simp: x Some Inr rest n hist_ops_def)
    qed (simp add: x Some)
  qed (simp add: x)
qed simp

lemma throughput_turns_balanced:
  assumes "throughput_turns pipeline deadline ts = Some ops"
    and "\<forall>t \<in> set ts. \<forall>j < pipeline. \<forall>l. tr_line (tt_reply t j) = Some (Inr l) \<longrightarrow> length l = n"
  shows "tp_balanced n ops \<and> length (filter ((=) AddError) ops) \<le> 1"
  using assms
proof (induction ts arbitrary: ops)
  case (Cons t ts)
  let ?rs = "map (\<lambda>i. (fst (tt_feed t i), tt_reply t i)) [0..<pipeline]"
  obtain os go where c: "collect_replies ?rs = (os, go)" by (cases "collect_replies ?rs")
  have "\<forall>(u, r) \<in> set ?rs. \<forall>l. tr_line r = Some (Inr l) \<longrightarrow> length l = n"
    using Cons.prems(2) by auto
  from collect_replies_balanced [OF this]
  have os: "tp_balanced n os" "length (filter ((=) AddError) os) \<le> (if go then 0 else 1)"
    by (simp_all add: c)
  show ?case
    using Cons os by (auto simp: c tp_balanced_append split: if_splits bool.splits)
qed simp

lemma throughput_worker_balanced:
  assumes "throughput_worker debug tls pipeline deadline calls recording ts = Some ops"
    and "\<forall>t \<in> set ts. \<forall>j < pipeline. \<forall>l. tr_line (tt_reply t j) = Some (Inr l) \<longrightarrow> length l = n"
  shows "tp_balanced n ops \<and> length (filter ((=) AddError) ops) \<le> 1"
  using assms throughput_turns_balanced [OF _ assms(2)]
  by (auto simp: throughput_worker_def tp_balanced_append split: sum.splits)

lemma those_SomeD: "those xs = Some ys \<Longrightarrow> xs = map Some ys"
  by (induction xs arbitrary: ys) (auto split: option.splits)

lemma concat_balanced:
  "\<forall>ops \<in> set opss. tp_balanced n ops \<and> length (filter ((=) AddError) ops) \<le> 1 \<Longrightarrow>
    tp_balanced n (concat opss) \<and> length (filter ((=) AddError) (concat opss)) \<le> length opss"
  by (induction opss) (auto simp: tp_balanced_append)

lemma added_op_is: "added (op_is a) ops = of_nat (length (filter ((=) a) ops))"
  by (induction ops) (simp_all add: op_is_def)

text \<open>The totals of a throughput run whose lines all have the same length.\<close>

lemma throughput_run_totals:
  assumes run: "bench_run w args = Some s" and mode: "bc_mode args = Throughput"
    and merge: "\<forall>xs. mset (bw_merge w xs) = mset (concat xs)"
    and lines: "\<forall>i < unat (bc_connections args). \<forall>t \<in> set (bw_turns w i). \<forall>j < unat (bc_pipeline args).
      \<forall>l. tr_line (tt_reply t j) = Some (Inr l) \<longrightarrow> length l = n"
  shows "bs_bytes s = bs_messages s * as_u64 n \<and> hist_total (bs_hist s) = bs_messages s \<and>
    bs_connections s = 0 \<and> bs_errors s \<le> bc_connections args"
proof -
  let ?k = "unat (bc_connections args)"
  from run obtain opss where those: "those (map (bench_worker w args) [0..<?k]) = Some opss"
    and s: "s = fold bench_apply (bw_merge w ([StartRecording] # opss)) bench_shared_new"
    by (auto simp: bench_run_def)
  note opss = those_SomeD [OF those]
  have len: "length opss = ?k"
    using arg_cong [OF opss, of length] by simp
  have "tp_balanced n ops \<and> length (filter ((=) AddError) ops) \<le> 1" if "ops \<in> set opss" for ops
  proof -
    from that obtain i where i: "i < ?k" "opss ! i = ops"
      by (auto simp: in_set_conv_nth len)
    then have "bench_worker w args i = Some ops"
      using arg_cong [OF opss, of "\<lambda>xs. xs ! i"] len by simp
    then show ?thesis
      using throughput_worker_balanced [of _ _ _ _ _ _ "bw_turns w i" ops n] lines i(1)
      by (auto simp: bench_worker_def mode)
  qed
  then have all: "tp_balanced n (concat opss)" "length (filter ((=) AddError) (concat opss)) \<le> ?k"
    using concat_balanced [of opss n] len by auto
  have fold: "s = fold bench_apply (StartRecording # concat opss) bench_shared_new"
    unfolding s using merge by (intro fun_cong [OF bench_fold_perm]) simp
  have "bs_errors s = of_nat (length (filter ((=) AddError) (concat opss)))"
    using bench_fold_totals [of bench_shared_new "StartRecording # concat opss"]
    by (simp add: fold bench_shared_new_def histogram_new_def HIST_BUCKETS_def added_op_is op_is_def)
  then have "bs_errors s \<le> bc_connections args"
    using all(2) unat_below [of "bc_connections args"]
    by (simp add: word_le_nat_alt unat_of_nat_u64)
  then show ?thesis
    using all(1) bench_fold_totals [of bench_shared_new "StartRecording # concat opss"]
    by (simp add: fold tp_balanced_def bench_shared_new_def histogram_new_def HIST_BUCKETS_def op_is_def hist_total_def
        sum_list_replicate)
qed

section \<open>Lemmas: the lines a client of the echo service reads\<close>

text \<open>The lines \<^verbatim>\<open>framed.next()\<close> cuts off what arrived, while the connection is open.\<close>

fun decode_lines :: "line_codec \<Rightarrow> nat \<Rightarrow> bytes \<Rightarrow> bytes list" where
  "decode_lines c 0 b = []"
| "decode_lines c (Suc n) b =
     (case lc_decode c b of Frame l r \<Rightarrow> l # decode_lines c n r | _ \<Rightarrow> [])"

text \<open>The codec reads back a line it wrote, whatever follows.\<close>

definition reads_back :: "line_codec \<Rightarrow> bytes \<Rightarrow> bool" where
  "reads_back c l \<longleftrightarrow> (\<forall>rest. lc_decode c (lc_encode c l @ rest) = Frame l rest)"

lemma echo_of_repeated:
  assumes "codec_laws c" and "reads_back c l"
  shows "echo_stream c (concat (replicate k (lc_encode c l))) = concat (replicate k (lc_encode c l))"
proof (induction k)
  case 0
  have "lc_decode c [] = NeedMore" "lc_eof c [] = None"
    using assms(1) unfolding codec_laws_def by blast+
  then show ?case
    using echo_stream_eq [OF assms(1), of "[]"] by simp
next
  case (Suc k)
  then show ?case
    using assms(2) echo_stream_eq [OF assms(1), of "concat (replicate (Suc k) (lc_encode c l))"]
    by (simp add: reads_back_def)
qed

text \<open>A frame cut off the beginning of a stream that starts with a line is that line.\<close>

lemma first_frame:
  assumes "codec_laws c" and "reads_back c l" and "lc_decode c b = Frame m r" and "b @ x = lc_encode c l @ rest"
  shows "m = l \<and> r @ x = rest"
proof -
  have "lc_decode c (b @ x) = Frame m (r @ x)"
    using assms(1,3) unfolding codec_laws_def by blast
  then show ?thesis
    using assms(2,4) by (simp add: reads_back_def)
qed

lemma decode_lines_repeated:
  assumes "codec_laws c" and "reads_back c l" and "prefix b (concat (replicate k (lc_encode c l)))"
  shows "set (decode_lines c n b) \<subseteq> {l}"
  using assms(3)
proof (induction n arbitrary: b k)
  case (Suc n)
  from Suc.prems obtain x where x: "concat (replicate k (lc_encode c l)) = b @ x"
    by (auto simp: prefix_def)
  show ?case
  proof (cases "lc_decode c b")
    case (Frame m r)
    then have "b \<noteq> []"
      using assms(1) by (auto simp: codec_laws_def)
    with x obtain k' where k: "k = Suc k'"
      by (cases k) simp_all
    have "b @ x = lc_encode c l @ concat (replicate k' (lc_encode c l))"
      using x k by simp
    from first_frame [OF assms(1,2) Frame this] have "m = l" "prefix r (concat (replicate k' (lc_encode c l)))"
      by (auto simp: prefix_def) metis
    with Suc.IH Frame show ?thesis by auto
  qed simp_all
qed simp

section \<open>Properties\<close>

text \<open>
  C40 (functional). What the load generator counts when it measures this service: in a throughput
  run, under every interleaving of its workers, with any number of processor upgrades while it runs,
  every message counted is one echo of the message size and one sample of the histogram, so that the bytes are the
  messages times the message size, and no worker counts more than one error. Assumed are that the
  codec reads back the line it wrote and that every line a worker reads was cut off the
  beginning of what a session, fed such lines, delivered.
\<close>

theorem bench_measures_echo:
  assumes codec: "codec_laws c" "reads_back c (map of_char (bench_payload args))"
    and mode: "bc_mode args = Throughput" and merge: "\<forall>xs. mset (bw_merge w xs) = mset (concat xs)"
    and served: "\<forall>i < unat (bc_connections args). \<forall>t \<in> set (bw_turns w i). \<forall>j < unat (bc_pipeline args).
      \<forall>l. tr_line (tt_reply t j) = Some (Inr l) \<longrightarrow>
        (\<exists>k fd peer trace now evs got n.
           prefix got (s_delivered (foldl (session_step c) (fresh_session fd peer trace now
             (concat (replicate k (lc_encode c (map of_char (bench_payload args)))))) evs)) \<and>
           map of_char l \<in> set (decode_lines c n got))"
    and run: "bench_run w args = Some s"
  shows "bs_bytes s = bs_messages s * bc_message_size args \<and> hist_total (bs_hist s) = bs_messages s \<and>
    bs_connections s = 0 \<and> bs_errors s \<le> bc_connections args"
proof -
  have "length l = unat (bc_message_size args)"
    if "i < unat (bc_connections args)" "t \<in> set (bw_turns w i)" "j < unat (bc_pipeline args)"
      "tr_line (tt_reply t j) = Some (Inr l)" for i t j l
  proof -
    let ?line = "map of_char (bench_payload args) :: bytes"
    from served that obtain k fd peer trace now evs got n
      where got: "prefix got (s_delivered (foldl (session_step c) (fresh_session fd peer trace now
             (concat (replicate k (lc_encode c ?line)))) evs))"
        and l: "map of_char l \<in> set (decode_lines c n got)"
      by blast
    have "prefix got (concat (replicate k (lc_encode c ?line)))"
      using prefix_order.trans [OF got delivered_prefix(1) [OF codec(1)]] by (simp add: echo_of_repeated [OF codec])
    from decode_lines_repeated [OF codec this] l have "map of_char l = ?line"
      by blast
    from arg_cong [OF this, of length] show ?thesis
      by (simp add: bench_payload_def del: map_replicate)
  qed
  then have "\<forall>i < unat (bc_connections args). \<forall>t \<in> set (bw_turns w i). \<forall>j < unat (bc_pipeline args).
      \<forall>l. tr_line (tt_reply t j) = Some (Inr l) \<longrightarrow> length l = unat (bc_message_size args)"
    by blast
  from throughput_run_totals [OF run mode merge this] show ?thesis
    using unat_below [of "bc_message_size args"] by (simp add: as_u64_def min_def)
qed

text \<open>A run with one worker, whose only message comes back before the deadline.\<close>

definition one_echo_args :: bench_args where
  "one_echo_args = \<lparr>
     bc_host = ''h'', bc_tls = False, bc_mode = Throughput, bc_connections = 1, bc_duration = 1, bc_warmup = 0,
     bc_message_size = 1, bc_pipeline = 1, bc_ca = None, bc_server_name = ''h'', bc_json = False, ba_port = 7070\<rparr>"

definition one_echo_turn :: "instant \<Rightarrow> tp_turn" where
  "one_echo_turn now = \<lparr>
     tt_now = now, tt_feed = (\<lambda>_. (now, Inr ())), tt_flush = Inr (), tt_recording = True,
     tt_reply = (\<lambda>_. \<lparr>tr_line = Some (Inr ''x''), tr_at = now + 5, tr_recording = True\<rparr>)\<rparr>"

definition one_echo_world :: bench_world where
  "one_echo_world = \<lparr>
     bw_now = 0, bw_debug = False, bw_conn = (\<lambda>_. []),
     bw_dial = (\<lambda>_. (\<lparr>dc_connect = Inr (), dc_nodelay = Inr (), dc_linger = Inr (), dc_handshake = Inr ()\<rparr>, True)),
     bw_turns = (\<lambda>_. [one_echo_turn 0, one_echo_turn (from_secs 2)]), bw_merge = concat, bw_elapsed = 1\<rparr>"

theorem bench_measures_echo_witness:
  "\<exists>s. bench_run one_echo_world one_echo_args = Some s \<and> bs_messages s = 1 \<and> bs_bytes s = 1 \<and>
    hist_total (bs_hist s) = 1"
proof -
  let ?line = "map of_char (bench_payload one_echo_args) :: bytes"
  let ?evs = "[Recv 2, Decode, WriteSome 2]"
  have line: "?line = [120]"
    by (simp add: bench_payload_def one_echo_args_def)
  have rb: "reads_back newline_codec ?line"
    by (simp add: reads_back_def line newline_codec_def)
  obtain s where run: "bench_run one_echo_world one_echo_args = Some s" and m: "bs_messages s = 1"
    by (simp add: bench_run_def bench_worker_def one_echo_world_def one_echo_args_def throughput_worker_def
        bench_dial_def one_echo_turn_def bench_deadline_def from_secs_def hist_ops_def bench_shared_new_def)
  have served: "\<exists>k fd peer trace now evs got n.
     prefix got (s_delivered (foldl (session_step newline_codec) (fresh_session fd peer trace now
       (concat (replicate k (lc_encode newline_codec ?line)))) evs)) \<and>
     map of_char ''x'' \<in> set (decode_lines newline_codec n got)"
  proof (intro exI conjI)
    show "prefix [120, 10] (s_delivered (foldl (session_step newline_codec) (fresh_session 7 ''p'' ''t'' 0
       (concat (replicate 1 (lc_encode newline_codec ?line)))) ?evs))"
      by (simp add: line fresh_session_def newline_codec_def Let_def)
    show "map of_char ''x'' \<in> set (decode_lines newline_codec (Suc 0) [120, 10])"
      by (simp add: newline_codec_def)
  qed
  have "bs_bytes s = bs_messages s * bc_message_size one_echo_args \<and> hist_total (bs_hist s) = bs_messages s \<and>
      bs_connections s = 0 \<and> bs_errors s \<le> bc_connections one_echo_args"
    by (rule bench_measures_echo [OF newline_codec_laws rb _ _ _ run])
      (use served in \<open>auto simp: one_echo_world_def one_echo_args_def one_echo_turn_def\<close>)
  with run m show ?thesis
    by (auto simp: one_echo_args_def)
qed

end
