(* ===== verification/Unicode_Text.thy ===== *)
theory Unicode_Text
  imports Scanner
begin

text \<open>
  What a \<^verbatim>\<open>String\<close> of the language is: the UTF-8 encoding of a sequence of Unicode scalar values. The operations of
  \<^verbatim>\<open>Utf8\<close>, which work on bytes, are related to the sequence of code points, and the answer of an ident server, an
  arbitrary run of bytes, is shown to reach the rest of the program as such a text.
\<close>

section \<open>Code points and their encoding\<close>

definition unicode_scalar :: "nat \<Rightarrow> bool" where
  "unicode_scalar cp \<longleftrightarrow> cp < 0xD800 \<or> 0xDFFF < cp \<and> cp < 0x110000"

definition code_bytes :: "nat \<Rightarrow> nat list" where
  "code_bytes cp =
     (if cp < 0x80 then [cp]
      else if cp < 0x800 then [0xC0 + cp div 64, 0x80 + cp mod 64]
      else if cp < 0x10000 then [0xE0 + cp div 64 div 64, 0x80 + cp div 64 mod 64, 0x80 + cp mod 64]
      else [0xF0 + cp div 64 div 64 div 64, 0x80 + cp div 64 div 64 mod 64, 0x80 + cp div 64 mod 64, 0x80 + cp mod 64])"

definition utf8_encode :: "nat \<Rightarrow> string" where
  "utf8_encode cp = map char_of (code_bytes cp)"

definition encoded :: "nat list \<Rightarrow> string" where
  "encoded cps = concat (map utf8_encode cps)"

lemma encoded_simps [simp]:
  "encoded [] = []" "encoded (c # cs) = utf8_encode c @ encoded cs" "encoded (xs @ ys) = encoded xs @ encoded ys"
  by (simp_all add: encoded_def)

text \<open>The code points with the property White_Space.\<close>

definition white_points :: "nat list" where
  "white_points = [9, 10, 11, 12, 13, 32, 0x85, 0xA0, 0x1680, 0x2000, 0x2001, 0x2002, 0x2003, 0x2004, 0x2005, 0x2006,
     0x2007, 0x2008, 0x2009, 0x200A, 0x2028, 0x2029, 0x202F, 0x205F, 0x3000]"

definition trim_points :: "nat list \<Rightarrow> nat list" where
  "trim_points cps =
     rev (dropWhile (\<lambda>c. c \<in> set white_points) (rev (dropWhile (\<lambda>c. c \<in> set white_points) cps)))"

section \<open>The encoding is a code\<close>

lemma code_bytes_bound: "unicode_scalar cp \<Longrightarrow> b \<in> set (code_bytes cp) \<Longrightarrow> b < 256"
  by (auto simp: code_bytes_def unicode_scalar_def split: if_splits)

lemma bytes_of_encode: "unicode_scalar cp \<Longrightarrow> map of_char (utf8_encode cp) = code_bytes cp"
  unfolding utf8_encode_def by (simp add: comp_def, intro map_idI) (auto dest: code_bytes_bound)

lemma base64_digits:
  assumes "z < (64 :: nat)"
  shows "(a * 64 + z) div 64 = a" "(a * 64 + z) mod 64 = z"
  using assms by simp_all

lemma div_mod_eq: "(a :: nat) div 64 = b div 64 \<Longrightarrow> a mod 64 = b mod 64 \<Longrightarrow> a = b"
  by (metis mult_div_mod_eq)

lemma code_bytes_inj:
  assumes "code_bytes a = code_bytes b"
  shows "a = b"
  using assms by (auto simp: code_bytes_def split: if_splits intro!: div_mod_eq)

lemma utf8_encode_inj:
  assumes "unicode_scalar a" "unicode_scalar b" "utf8_encode a = utf8_encode b"
  shows "a = b"
  using assms by (metis bytes_of_encode code_bytes_inj)

text \<open>The four forms, in base 64.\<close>

lemma scalar_cases:
  assumes "unicode_scalar cp"
  obtains (one) x :: nat where "utf8_encode cp = [char_of x]" "x < 0x80"
  | (two) x y :: nat where "utf8_encode cp = [char_of (0xC0 + x), char_of (0x80 + y)]" "2 \<le> x" "x < 32" "y < 64"
  | (three) x y z :: nat where "utf8_encode cp = [char_of (0xE0 + x), char_of (0x80 + y), char_of (0x80 + z)]"
      "x < 16" "y < 64" "z < 64" "x = 0 \<longrightarrow> 32 \<le> y" "x = 13 \<longrightarrow> y < 32"
  | (four) w x y z :: nat where "utf8_encode cp = [char_of (0xF0 + w), char_of (0x80 + x), char_of (0x80 + y), char_of (0x80 + z)]"
      "w < 5" "x < 64" "y < 64" "z < 64" "w = 0 \<longrightarrow> 16 \<le> x" "w = 4 \<longrightarrow> x < 16"
proof -
  consider "cp < 0x80" | "0x80 \<le> cp" "cp < 0x800" | "0x800 \<le> cp" "cp < 0x10000" | "0x10000 \<le> cp"
    by linarith
  then show thesis
  proof cases
    case 1
    then show thesis
      by (intro one [of cp]) (simp_all add: utf8_encode_def code_bytes_def)
  next
    case 2
    then show thesis
      by (intro two [of "cp div 64" "cp mod 64"]) (simp_all add: utf8_encode_def code_bytes_def)
  next
    case 3
    define q where "q = cp div 64"
    have q: "q = q div 64 * 64 + q mod 64" "cp = q * 64 + cp mod 64" "q mod 64 < 64" "cp mod 64 < 64"
      by (simp_all add: q_def)
    show thesis
    proof (rule three [of "q div 64" "q mod 64" "cp mod 64"])
      show "utf8_encode cp = [char_of (0xE0 + q div 64), char_of (0x80 + q mod 64), char_of (0x80 + cp mod 64)]"
        using 3 by (simp add: utf8_encode_def code_bytes_def q_def)
    qed (use 3 assms q in \<open>unfold unicode_scalar_def, linarith+\<close>)
  next
    case 4
    define q where "q = cp div 64"
    define p where "p = q div 64"
    have q: "p = p div 64 * 64 + p mod 64" "q = p * 64 + q mod 64" "cp = q * 64 + cp mod 64"
      "p mod 64 < 64" "q mod 64 < 64" "cp mod 64 < 64"
      by (simp_all add: q_def p_def)
    show thesis
    proof (rule four [of "p div 64" "p mod 64" "q mod 64" "cp mod 64"])
      show "utf8_encode cp = [char_of (0xF0 + p div 64), char_of (0x80 + p mod 64), char_of (0x80 + q mod 64), char_of (0x80 + cp mod 64)]"
        using 4 by (simp add: utf8_encode_def code_bytes_def q_def p_def)
    qed (use 4 assms q in \<open>unfold unicode_scalar_def, linarith+\<close>)
  qed
qed

text \<open>The first byte gives the length; all others, and only they, are continuation bytes.\<close>

lemma encode_shape:
  assumes "unicode_scalar cp"
  obtains c cs where "utf8_encode cp = c # cs" "utf8_width (byte c) = Suc (length cs)"
    "\<not> continuation c" "\<forall>d \<in> set cs. continuation d"
  using assms
proof (cases rule: scalar_cases)
  case (one x)
  then show thesis
    by (intro that [of "char_of x" "[]"]) (simp_all add: utf8_width_def continuation_def)
next
  case (two x y)
  then show thesis
    by (intro that [of "char_of (0xC0 + x)" "[char_of (0x80 + y)]"]) (simp_all add: utf8_width_def continuation_def)
next
  case (three x y z)
  then show thesis
    by (intro that [of "char_of (0xE0 + x)" "[char_of (0x80 + y), char_of (0x80 + z)]"])
      (simp_all add: utf8_width_def continuation_def)
next
  case (four w x y z)
  then show thesis
    by (intro that [of "char_of (0xF0 + w)" "[char_of (0x80 + x), char_of (0x80 + y), char_of (0x80 + z)]"])
      (simp_all add: utf8_width_def continuation_def)
qed

text \<open>A code in which no word begins another can be stripped from the front word by word.\<close>

locale prefix_code =
  fixes word :: "nat \<Rightarrow> string"
    and letter :: "nat \<Rightarrow> bool"
  assumes nonempty: "letter c \<Longrightarrow> word c \<noteq> []"
    and prefix_free: "letter w \<Longrightarrow> letter c \<Longrightarrow> starts_with (word w) (word c @ r) \<Longrightarrow> w = c"
begin

lemma strip_words:
  assumes "list_all letter ws" "list_all letter cps"
  shows "strip_start (map word ws) (concat (map word cps)) = concat (map word (dropWhile (\<lambda>c. c \<in> set ws) cps))"
  using assms(2)
proof (induction cps)
  case Nil
  have "List.find (\<lambda>w. w \<noteq> [] \<and> starts_with w []) (map word ws) = None"
    by (auto simp: find_None_iff starts_with_def)
  then show ?case
    by (subst strip_start.simps) simp
next
  case (Cons c cps)
  let ?s = "concat (map word (c # cps))"
  have hit: "w \<in> set ws \<Longrightarrow> starts_with (word w) ?s \<Longrightarrow> w = c" for w
    using assms(1) Cons.prems prefix_free by (auto simp: list_all_iff)
  show ?case
  proof (cases "List.find (\<lambda>w. w \<noteq> [] \<and> starts_with w ?s) (map word ws)")
    case None
    then have "c \<notin> set ws"
      using nonempty [of c] Cons.prems by (auto simp: find_None_iff)
    with None show ?thesis
      by (subst strip_start.simps) simp
  next
    case (Some v)
    then have "v \<in> set (map word ws)" "starts_with v ?s"
      by (metis find_Some_iff nth_mem)+
    then obtain w where "w \<in> set ws" "v = word w" "starts_with v ?s"
      by auto
    with hit have "c \<in> set ws" "v = word c"
      by auto
    with Some show ?thesis
      using Cons by (subst strip_start.simps) simp
  qed
qed

end

interpretation forward: prefix_code utf8_encode unicode_scalar
proof
  fix w c r
  assume s: "unicode_scalar w" "unicode_scalar c"
  show "utf8_encode c \<noteq> []"
    using s(2) by (auto elim: encode_shape)
  assume p: "starts_with (utf8_encode w) (utf8_encode c @ r)"
  obtain a as where w: "utf8_encode w = a # as" "utf8_width (byte a) = Suc (length as)"
    using s(1) by (auto elim: encode_shape)
  obtain d ds where c: "utf8_encode c = d # ds" "utf8_width (byte d) = Suc (length ds)"
    using s(2) by (auto elim: encode_shape)
  have "a = d" "take (length as) (ds @ r) = as"
    using p w(1) c(1) by (simp_all add: starts_with_def)
  with w c have "utf8_encode w = utf8_encode c"
    by simp
  then show "w = c"
    by (rule utf8_encode_inj [OF s])
qed

interpretation backward: prefix_code "\<lambda>c. rev (utf8_encode c)" unicode_scalar
proof
  fix w c r
  assume s: "unicode_scalar w" "unicode_scalar c"
  show "rev (utf8_encode c) \<noteq> []"
    using s(2) by (auto elim: encode_shape)
  assume p: "starts_with (rev (utf8_encode w)) (rev (utf8_encode c) @ r)"
  obtain a as where w: "utf8_encode w = a # as" "\<not> continuation a" "\<forall>d \<in> set as. continuation d"
    using s(1) by (auto elim: encode_shape)
  obtain d ds where c: "utf8_encode c = d # ds" "\<not> continuation d" "\<forall>d \<in> set ds. continuation d"
    using s(2) by (auto elim: encode_shape)
  obtain t where t: "rev ds @ d # r = rev as @ a # t"
    using p w(1) c(1) unfolding starts_with_def by (metis append_take_drop_id append_assoc append_Cons append_Nil rev.simps(2))
  have "takeWhile continuation (rev ds @ d # r) = rev ds" "takeWhile continuation (rev as @ a # t) = rev as"
    using w c by (simp_all add: takeWhile_tail)
  with t have "rev ds = rev as"
    by simp
  with t have "utf8_encode w = utf8_encode c"
    using w c by simp
  then show "w = c"
    by (rule utf8_encode_inj [OF s])
qed

section \<open>Decoding and trimming on code points\<close>

lemma step_of_encode:
  assumes "unicode_scalar cp"
  shows "utf8_step (utf8_encode cp @ t) = (True, length (utf8_encode cp))"
  using assms
proof (cases rule: scalar_cases)
  case (one x)
  then show ?thesis
    by (cases t) (simp_all add: utf8_width_def Let_def)
next
  case (two x y)
  then show ?thesis
    by (simp add: utf8_width_def second_ok_def continuation_def Let_def)
next
  case (three x y z)
  then have "continuation (char_of (0x80 + z))" "second_ok (0xE0 + x) (char_of (0x80 + y))"
    by (auto simp: second_ok_def continuation_def)
  with three show ?thesis
    by (simp add: utf8_width_def Let_def)
next
  case (four w x y z)
  then have "continuation (char_of (0x80 + z))" "continuation (char_of (0x80 + y))" "second_ok (0xF0 + w) (char_of (0x80 + x))"
    by (auto simp: second_ok_def continuation_def)
  with four show ?thesis
    by (simp add: utf8_width_def Let_def)
qed

text \<open>Conversely, a character found well formed is an encoded scalar value.\<close>

lemma two_points:
  assumes "0xC2 \<le> byte c" "byte c \<le> 0xDF" "continuation d"
  shows "\<exists>cp. unicode_scalar cp \<and> utf8_encode cp = [c, d]"
proof -
  define x y where "x = byte c - 0xC0" and "y = byte d - 0x80"
  then have c: "byte c = 0xC0 + x" "byte d = 0x80 + y" and b: "2 \<le> x" "x < 32" "y < 64"
    using assms by (auto simp: continuation_def)
  let ?cp = "x * 64 + y"
  have "0x80 \<le> ?cp" "?cp < 0x800"
    using b by linarith+
  then have "code_bytes ?cp = [byte c, byte d]" "unicode_scalar ?cp"
    using b c by (simp_all add: code_bytes_def unicode_scalar_def base64_digits del: div_mult_self1 mod_mult_self1)
  then show ?thesis
    by (intro exI [of _ ?cp]) (simp add: utf8_encode_def)
qed

lemma three_points:
  assumes "0xE0 \<le> byte c" "byte c \<le> 0xEF" "second_ok (byte c) d" "continuation e"
  shows "\<exists>cp. unicode_scalar cp \<and> utf8_encode cp = [c, d, e]"
proof -
  define x y z where "x = byte c - 0xE0" and "y = byte d - 0x80" and "z = byte e - 0x80"
  then have c: "byte c = 0xE0 + x" "byte d = 0x80 + y" "byte e = 0x80 + z"
    and b: "x < 16" "y < 64" "z < 64" "x = 0 \<longrightarrow> 32 \<le> y" "x = 13 \<longrightarrow> y < 32"
    using assms by (auto simp: continuation_def second_ok_def split: if_splits)
  let ?cp = "(x * 64 + y) * 64 + z"
  have r: "0x800 \<le> ?cp" "?cp < 0x10000" "x < 13 \<longrightarrow> ?cp < 0xD000" "x = 13 \<longrightarrow> ?cp < 0xD800" "13 < x \<longrightarrow> 0xE000 \<le> ?cp"
    using b by (auto intro: Nat.gr0I)
  have "code_bytes ?cp = [byte c, byte d, byte e]"
    using r(1,2) b c base64_digits [of z "x * 64 + y"] base64_digits [of y x] by (simp add: code_bytes_def)
  moreover have "unicode_scalar ?cp"
    using r unfolding unicode_scalar_def by linarith
  ultimately show ?thesis
    by (intro exI [of _ ?cp]) (simp add: utf8_encode_def)
qed

lemma four_points:
  assumes "0xF0 \<le> byte c" "byte c \<le> 0xF4" "second_ok (byte c) d" "continuation e" "continuation f"
  shows "\<exists>cp. unicode_scalar cp \<and> utf8_encode cp = [c, d, e, f]"
proof -
  define w x y z where "w = byte c - 0xF0" and "x = byte d - 0x80" and "y = byte e - 0x80" and "z = byte f - 0x80"
  then have c: "byte c = 0xF0 + w" "byte d = 0x80 + x" "byte e = 0x80 + y" "byte f = 0x80 + z"
    and b: "w < 5" "x < 64" "y < 64" "z < 64" "w = 0 \<longrightarrow> 16 \<le> x" "w = 4 \<longrightarrow> x < 16"
    using assms by (auto simp: continuation_def second_ok_def split: if_splits)
  let ?cp = "((w * 64 + x) * 64 + y) * 64 + z"
  have "0x10000 \<le> ?cp"
    using b by (cases "w = 0") auto
  moreover have "?cp < 0x110000"
    using b by (cases "w = 4") auto
  ultimately have r: "0x10000 \<le> ?cp" "?cp < 0x110000"
    by blast+
  have "code_bytes ?cp = [byte c, byte d, byte e, byte f]"
    using r b c base64_digits [of z "(w * 64 + x) * 64 + y"] base64_digits [of y "w * 64 + x"] base64_digits [of x w]
    by (simp add: code_bytes_def)
  moreover have "unicode_scalar ?cp"
    using r unfolding unicode_scalar_def by linarith
  ultimately show ?thesis
    by (intro exI [of _ ?cp]) (simp add: utf8_encode_def)
qed

lemma tail_full:
  assumes "tail_length b (Suc m) cs = Suc m"
  shows "\<exists>d es rest. cs = d # es @ rest \<and> second_ok b d \<and> length es = m \<and> list_all continuation es"
proof (cases cs)
  case (Cons d ds)
  with assms have ok: "second_ok b d" and full: "length (takeWhile continuation (take m ds)) = m"
    by (auto split: if_splits)
  then have "length (take m ds) = m"
    using length_takeWhile_le [of continuation "take m ds"] by simp
  moreover have "takeWhile continuation (take m ds) = take m ds"
    using full \<open>length (take m ds) = m\<close> takeWhile_eq_take [of continuation "take m ds"] by simp
  then have "list_all continuation (take m ds)"
    by (simp add: takeWhile_eq_all_conv list_all_iff)
  ultimately show ?thesis
    using Cons ok by (intro exI [of _ d] exI [of _ "take m ds"] exI [of _ "drop m ds"]) simp
qed (use assms in simp)

lemma step_is_char:
  assumes "utf8_step s = (True, n)"
  shows "\<exists>cp. unicode_scalar cp \<and> take n s = utf8_encode cp"
proof (cases s)
  case (Cons c cs)
  let ?w = "utf8_width (byte c)"
  have n: "n = ?w" "Suc (tail_length (byte c) (?w - 1) cs) = ?w"
    using assms Cons by (auto simp: Let_def)
  consider "?w = 1" | m where "?w = Suc (Suc m)"
    using n by (metis One_nat_def not0_implies_Suc nat.simps(3))
  then show ?thesis
  proof cases
    case 1
    then have "byte c < 0x80"
      by (simp add: utf8_width_def split: if_splits)
    then have "utf8_encode (byte c) = [c]" "unicode_scalar (byte c)"
      by (simp_all add: utf8_encode_def code_bytes_def unicode_scalar_def)
    with 1 n Cons show ?thesis
      by (intro exI [of _ "byte c"]) simp
  next
    case 2
    then obtain d es rest where cs: "cs = d # es @ rest" "second_ok (byte c) d" "length es = m" "list_all continuation es"
      using tail_full [of "byte c" m cs] n by auto
    have "take n s = c # d # es"
      using Cons cs 2 n by simp
    moreover consider "m = 0" "0xC2 \<le> byte c" "byte c \<le> 0xDF" | "m = 1" "0xE0 \<le> byte c" "byte c \<le> 0xEF"
      | "m = 2" "0xF0 \<le> byte c" "byte c \<le> 0xF4"
      using 2 by (auto simp: utf8_width_def split: if_splits)
    then have "\<exists>cp. unicode_scalar cp \<and> utf8_encode cp = c # d # es"
    proof cases
      case 1
      then show ?thesis
        using two_points [of c d] cs by (auto simp: second_ok_def)
    next
      case 2
      then show ?thesis
        using three_points [of c d "hd es"] cs by (cases es) auto
    next
      case 3
      then obtain e f where "es = [e, f]"
        using cs(3) by (auto simp: length_Suc_conv numeral_2_eq_2)
      with 3 show ?thesis
        using four_points [of c d e f] cs by auto
    qed
    ultimately show ?thesis
      by metis
  qed
qed (use assms in simp)

text \<open>Lossy decoding always yields a text, and leaves a text as it is.\<close>

lemma utf8_lossy_encoded: "list_all unicode_scalar cps \<Longrightarrow> utf8_lossy (encoded cps) = encoded cps"
proof (induction cps)
  case (Cons c cps)
  then show ?case
    using utf8_lossy_keeps [OF step_of_encode [of c "encoded cps"]] by simp
qed simp

lemma replacement_encoded: "replacement = utf8_encode 0xFFFD" "unicode_scalar 0xFFFD"
  by (simp_all add: replacement_def utf8_encode_def code_bytes_def unicode_scalar_def char_of_def bit_0)

lemma utf8_lossy_is_text: "\<exists>cps. list_all unicode_scalar cps \<and> utf8_lossy s = encoded cps"
proof (induction s rule: length_induct)
  case (1 s)
  show ?case
  proof (cases s)
    case (Cons c cs)
    obtain ok n where step: "utf8_step s = (ok, n)"
      by fastforce
    have ne: "s \<noteq> []" and "n \<noteq> 0"
      using utf8_step_bounds(1) [of c cs] step Cons by simp_all
    then obtain cps where IH: "list_all unicode_scalar cps" "utf8_lossy (drop n s) = encoded cps"
      using 1 Cons by (metis diff_less length_drop length_greater_0_conv list.distinct(1) neq0_conv)
    obtain cp where "unicode_scalar cp" "(if ok then take n s else replacement) = utf8_encode cp"
      using step_is_char [of s n] step replacement_encoded by (cases ok) auto
    moreover have "utf8_lossy s = (if ok then take n s else replacement) @ encoded cps"
      using utf8_lossy_step [OF ne] by (simp only: step fst_conv snd_conv IH(2))
    ultimately show ?thesis
      using IH(1) by (intro exI [of _ "cp # cps"]) simp
  qed (auto intro: exI [of _ "[]"])
qed

lemma white_space_points: "white_space = map utf8_encode white_points" "list_all unicode_scalar white_points"
  by (simp_all add: white_space_def white_points_def utf8_encode_def code_bytes_def unicode_scalar_def char_of_def bit_0)

lemma rev_encoded: "rev (encoded cps) = concat (map (\<lambda>c. rev (utf8_encode c)) (rev cps))"
  by (induction cps) simp_all

text \<open>Trimming the bytes is trimming the code points.\<close>

lemma trim_encoded:
  assumes "list_all unicode_scalar cps"
  shows "trim (encoded cps) = encoded (trim_points cps)"
proof -
  let ?front = "dropWhile (\<lambda>c. c \<in> set white_points) cps"
  have front: "strip_start white_space (encoded cps) = encoded ?front"
    using forward.strip_words [OF white_space_points(2) assms] by (simp add: white_space_points(1) encoded_def)
  have "list_all unicode_scalar (rev ?front)"
    using assms by (auto simp: list_all_iff dest: set_dropWhileD)
  then have "strip_start (map rev white_space) (rev (encoded ?front)) = rev (encoded (trim_points cps))"
    using backward.strip_words [OF white_space_points(2), of "rev ?front"]
    by (simp add: rev_encoded white_space_points(1) trim_points_def comp_def)
  then show ?thesis
    by (simp add: trim_def front)
qed

lemma trim_points_ends:
  assumes "trim_points cps \<noteq> []"
  shows "hd (trim_points cps) \<notin> set white_points" "last (trim_points cps) \<notin> set white_points"
proof -
  let ?P = "\<lambda>c. c \<in> set white_points"
  let ?front = "dropWhile ?P cps"
  have ne: "dropWhile ?P (rev ?front) \<noteq> []"
    using assms by (simp add: trim_points_def)
  then have "?front \<noteq> []"
    by (metis dropWhile.simps(1) rev.simps(1))
  show "last (trim_points cps) \<notin> set white_points"
    using hd_dropWhile [OF ne] ne by (simp add: trim_points_def last_rev)
  have "rev ?front = takeWhile ?P (rev ?front) @ dropWhile ?P (rev ?front)"
    by simp
  then have "?front = trim_points cps @ rev (takeWhile ?P (rev ?front))"
    by (metis rev_append rev_rev_ident trim_points_def)
  then have "hd (trim_points cps) = hd ?front"
    using assms by (metis hd_append2)
  then show "hd (trim_points cps) \<notin> set white_points"
    using hd_dropWhile [OF \<open>?front \<noteq> []\<close>] by simp
qed

section \<open>Property\<close>

text \<open>
  Whatever bytes an ident server answers, what the scanner hands on is a text: the UTF-8 encoding of a
  sequence of Unicode scalar values that neither begins nor ends in white space. An answer that
  is such an encoding already is handed on with nothing but the surrounding white space removed: the whole answer, not
  its trailing field.
\<close>

theorem ident_is_text:
  assumes "ident_lookup connect ip client_port server_port iport = Some v"
  shows "\<exists>stream reply. connect (ip @ '':'' @ dec (unat iport)) = InTime (Inr stream) \<and>
    is_read stream 256 = InTime (Inr reply) \<and>
    (\<exists>cps. list_all unicode_scalar cps \<and> v = encoded cps \<and>
       (cps \<noteq> [] \<longrightarrow> hd cps \<notin> set white_points \<and> last cps \<notin> set white_points)) \<and>
    (\<forall>cps. list_all unicode_scalar cps \<and> reply = encoded cps \<longrightarrow> v = encoded (trim_points cps))"
proof -
  obtain stream reply where r: "connect (ip @ '':'' @ dec (unat iport)) = InTime (Inr stream)"
    "is_read stream 256 = InTime (Inr reply)" and v: "v = trim (utf8_lossy reply)"
    using assms by (auto simp: ident_lookup_def ident_exchange_def Let_def split: timed.splits sum.splits if_splits)
  obtain cps where cps: "list_all unicode_scalar cps" "utf8_lossy reply = encoded cps"
    using utf8_lossy_is_text by blast
  then have "v = encoded (trim_points cps)"
    using v trim_encoded by simp
  moreover have "list_all unicode_scalar (trim_points cps)"
    using cps(1) by (auto simp: trim_points_def list_all_iff dest!: set_dropWhileD)
  ultimately show ?thesis
    using r v trim_points_ends trim_encoded utf8_lossy_encoded by metis
qed

theorem ident_is_text_witness:
  "\<exists>v cps. ident_lookup calm_identd ''1.2.3.4'' 5 7070 113 = Some v \<and> list_all unicode_scalar cps \<and> v = encoded cps \<and>
     (cps \<noteq> [] \<longrightarrow> hd cps \<notin> set white_points \<and> last cps \<notin> set white_points)"
proof -
  have run: "ident_lookup calm_identd ''1.2.3.4'' 5 7070 113 = Some (trim (utf8_lossy ''joe''))"
    by (simp add: ident_lookup_def ident_exchange_def calm_identd_def del: utf8_lossy.simps)
  from ident_is_text [OF run] run show ?thesis
    by blast
qed

end
