(* ===== verification/Test_Env.thy ===== *)
theory Test_Env
  imports Prelude
begin

text \<open>
  Model of \<^verbatim>\<open>src/test_env.rs\<close>, with which the program's tests change the environment of the process: a
  scope that hides variables and a guard that sets or unsets one, each of which puts back what it found when it is dropped.
  The lock that every one of them borrows is not part of the state: it is what makes a sequence of their operations sequential.
\<close>

section \<open>Scopes and guards\<close>

record env_scope =
  es_saved :: "(string \<times> string option) list"

definition put_back :: "string \<Rightarrow> string option \<Rightarrow> env \<Rightarrow> env" where
  "put_back k v e = (case v of Some x \<Rightarrow> env_set k x e | None \<Rightarrow> env_remove k e)"

definition scope_save :: "string list \<Rightarrow> env \<Rightarrow> env_scope \<times> env" where
  "scope_save keys e = (\<lparr>es_saved = map (\<lambda>k. (k, env_var e k)) keys\<rparr>, fold env_remove keys e)"

definition scope_drop :: "env_scope \<Rightarrow> env \<Rightarrow> env" where
  "scope_drop s e = fold (\<lambda>(k, v). put_back k v) (es_saved s) e"

record env_var_guard =
  eg_key :: string
  eg_old :: "string option"

definition guard_set :: "string \<Rightarrow> string \<Rightarrow> env \<Rightarrow> env_var_guard \<times> env" where
  "guard_set k v e = (\<lparr>eg_key = k, eg_old = env_var e k\<rparr>, env_set k v e)"

definition guard_unset :: "string \<Rightarrow> env \<Rightarrow> env_var_guard \<times> env" where
  "guard_unset k e = (\<lparr>eg_key = k, eg_old = env_var e k\<rparr>, env_remove k e)"

definition env_guard_drop :: "env_var_guard \<Rightarrow> env \<Rightarrow> env" where
  "env_guard_drop g e = put_back (eg_key g) (eg_old g) e"

text \<open>
  A test as the code writes it: blocks nested in each other, each under a scope or a guard that is
  dropped at its end, with any number of further changes of the environment inside.
\<close>

datatype env_test =
    Under_Scope "string list" "env_test list"
  | Under_Set string string "env_test list"
  | Under_Unset string "env_test list"
  | Sets string string
  | Unsets string

fun run_test :: "env_test \<Rightarrow> env \<Rightarrow> env" where
  "run_test (Under_Scope keys body) e = (case scope_save keys e of (s, e') \<Rightarrow> scope_drop s (fold run_test body e'))"
| "run_test (Under_Set k v body) e = (case guard_set k v e of (g, e') \<Rightarrow> env_guard_drop g (fold run_test body e'))"
| "run_test (Under_Unset k body) e = (case guard_unset k e of (g, e') \<Rightarrow> env_guard_drop g (fold run_test body e'))"
| "run_test (Sets k v) e = env_set k v e"
| "run_test (Unsets k) e = env_remove k e"

text \<open>The variables a test changes outside every scope and guard for them.\<close>

fun leaks :: "env_test \<Rightarrow> string set" where
  "leaks (Under_Scope keys body) = \<Union> (set (map leaks body)) - set keys"
| "leaks (Under_Set k v body) = \<Union> (set (map leaks body)) - {k}"
| "leaks (Under_Unset k body) = \<Union> (set (map leaks body)) - {k}"
| "leaks (Sets k v) = {k}"
| "leaks (Unsets k) = {k}"

section \<open>What a test leaves behind\<close>

lemma put_back_var [simp]: "env_var (put_back k v e) k' = (if k' = k then v else env_var e k')"
  by (simp add: put_back_def split: option.split)

lemma fold_remove_var [simp]: "env_var (fold env_remove keys e) k = (if k \<in> set keys then None else env_var e k)"
  by (induction keys arbitrary: e) auto

lemma fold_put_back_var:
  "env_var (fold (\<lambda>(k, v). put_back k v) (map (\<lambda>k. (k, f k)) keys) e) k = (if k \<in> set keys then f k else env_var e k)"
  by (induction keys arbitrary: e) auto

lemma scope_drop_var:
  "env_var (scope_drop (fst (scope_save keys e)) e') k = (if k \<in> set keys then env_var e k else env_var e' k)"
  by (simp add: scope_drop_def scope_save_def fold_put_back_var)

lemma run_tests_keep:
  assumes "\<And>t e. t \<in> set ts \<Longrightarrow> k \<notin> leaks t \<Longrightarrow> env_var (run_test t e) k = env_var e k"
    and "k \<notin> \<Union> (set (map leaks ts))"
  shows "env_var (fold run_test ts e) k = env_var e k"
  using assms by (induction ts arbitrary: e) auto

text \<open>
  A test changes no variable but those it sets or unsets outside a scope or guard for them, however the
  blocks are nested and whatever names repeat.
\<close>

theorem test_restores_environment: "k \<notin> leaks t \<Longrightarrow> env_var (run_test t e) k = env_var e k"
proof (induction t arbitrary: e)
  case (Under_Scope keys body)
  let ?e = "snd (scope_save keys e)"
  have "env_var (fold run_test body ?e) k = env_var ?e k" if "k \<notin> set keys"
    using Under_Scope that by (intro run_tests_keep) auto
  then show ?case
    using scope_drop_var [of keys e "fold run_test body ?e" k] by (auto simp: scope_save_def)
next
  case (Under_Set x v body)
  have "env_var (fold run_test body (env_set x v e)) k = env_var (env_set x v e) k" if "k \<noteq> x"
    using Under_Set that by (intro run_tests_keep) auto
  then show ?case
    by (simp add: guard_set_def env_guard_drop_def)
next
  case (Under_Unset x body)
  have "env_var (fold run_test body (env_remove x e)) k = env_var (env_remove x e) k" if "k \<noteq> x"
    using Under_Unset that by (intro run_tests_keep) auto
  then show ?case
    by (simp add: guard_unset_def env_guard_drop_def)
qed simp_all

end
