(* ===== verification/Upgrade_Lock.thy ===== *)
theory Upgrade_Lock
  imports Rolling_Upgrade
begin

text \<open>
  Rolling upgrades that are asked for at the same time, by several admin connections and by the signal
  (\<^verbatim>\<open>rolling_upgrade\<close> of \<^verbatim>\<open>src/supervisor/admin.rs\<close> and its two callers). Every one is a task; the tasks share the
  upgrade lock, which is tried once on entry and held until the walk returns, and the counters.
\<close>

section \<open>Tasks and the lock\<close>

text \<open>
  A task has not begun, still has effects to bring about (and then returns a verdict, or polls on for
  ever), or has returned.
\<close>

datatype upgrade_task = NotBegun | Walking "walk_effect list" "bool option" | Returned bool

text \<open>
  \<^verbatim>\<open>us_walks\<close> keeps, in the order in which they took the lock, the tasks that took it with the effects of their
  walks; \<^verbatim>\<open>us_trace\<close> the effects of all tasks in the order in which they happened.
\<close>

record upgrade_system =
  us_tasks :: "nat \<Rightarrow> upgrade_task"
  us_lock :: "nat option"
  us_counters :: upgrade_counters
  us_walks :: "(nat \<times> walk_effect list) list"
  us_trace :: "(nat \<times> walk_effect) list"

definition upgrade_system_new :: upgrade_system where
  "upgrade_system_new = \<lparr>us_tasks = (\<lambda>_. NotBegun), us_lock = None, us_counters = upgrade_counters_new,
     us_walks = [], us_trace = []\<rparr>"

datatype upgrade_act = Begins nat rolling_request "string \<Rightarrow> upgrade_world" | Proceeds nat

text \<open>
  A task begins by trying the lock; from then on it brings about its effects one by one. With the last one
  it returns, and the guard it may hold is dropped.
\<close>

definition begin_upgrade :: "nat \<Rightarrow> rolling_request \<Rightarrow> (string \<Rightarrow> upgrade_world) \<Rightarrow> upgrade_system \<Rightarrow> upgrade_system" where
  "begin_upgrade i req world s =
     (case rolling_upgrade (us_lock s = None) req world (us_counters s) of
        (r, es, c) \<Rightarrow>
          if us_lock s = None
          then s\<lparr>us_tasks := (us_tasks s)(i := Walking es r), us_lock := Some i, us_counters := c,
                 us_walks := us_walks s @ [(i, es)]\<rparr>
          else s\<lparr>us_tasks := (us_tasks s)(i := Walking es r)\<rparr>)"

definition proceed :: "nat \<Rightarrow> upgrade_system \<Rightarrow> upgrade_system" where
  "proceed i s =
     (case us_tasks s i of
        Walking (e # es) r \<Rightarrow>
          s\<lparr>us_tasks := (us_tasks s)(i := Walking es r), us_trace := us_trace s @ [(i, e)]\<rparr>
      | Walking [] (Some ok) \<Rightarrow>
          s\<lparr>us_tasks := (us_tasks s)(i := Returned ok),
            us_lock := (if us_lock s = Some i then None else us_lock s)\<rparr>
      | _ \<Rightarrow> s)"

definition upgrade_step :: "upgrade_system \<Rightarrow> upgrade_act \<Rightarrow> upgrade_system" where
  "upgrade_step s a =
     (case a of
        Begins i req world \<Rightarrow> if us_tasks s i = NotBegun then begin_upgrade i req world s else s
      | Proceeds i \<Rightarrow> proceed i s)"

section \<open>The invariant\<close>

text \<open>The effects of some walks one after the other, and those the tasks with the lock have brought about.\<close>

definition one_by_one :: "(nat \<times> walk_effect list) list \<Rightarrow> (nat \<times> walk_effect) list" where
  "one_by_one ws = concat (map (\<lambda>(i, es). map (Pair i) es) ws)"

definition walked :: "upgrade_system \<Rightarrow> (nat \<times> walk_effect) list" where
  "walked s = filter (\<lambda>(i, _). i \<in> fst ` set (us_walks s)) (us_trace s)"

lemma one_by_one_simps [simp]:
  "one_by_one [] = []" "one_by_one (ws @ [(i, es)]) = one_by_one ws @ map (Pair i) es"
  by (simp_all add: one_by_one_def)

definition task_ok :: "upgrade_system \<Rightarrow> nat \<Rightarrow> bool" where
  "task_ok s i \<longleftrightarrow>
     (us_tasks s i = NotBegun \<longrightarrow> i \<notin> fst ` set (us_walks s) \<union> fst ` set (us_trace s)) \<and>
     (i \<notin> fst ` set (us_walks s) \<longrightarrow>
       (\<forall>es r. us_tasks s i = Walking es r \<longrightarrow> set es \<subseteq> {Notify (UpgradeComplete False)})) \<and>
     (i \<in> fst ` set (us_walks s) \<and> us_lock s \<noteq> Some i \<longrightarrow> (\<exists>ok. us_tasks s i = Returned ok))"

definition lock_ok :: "upgrade_system \<Rightarrow> bool" where
  "lock_ok s \<longleftrightarrow>
     (case us_lock s of
        None \<Rightarrow> walked s = one_by_one (us_walks s)
      | Some i \<Rightarrow> (\<exists>ws pre left r. us_walks s = ws @ [(i, pre @ left)] \<and> us_tasks s i = Walking left r \<and>
          walked s = one_by_one ws @ map (Pair i) pre))"

definition serial_inv :: "upgrade_system \<Rightarrow> bool" where
  "serial_inv s \<longleftrightarrow> lock_ok s \<and> (\<forall>i. task_ok s i) \<and>
     (\<forall>(i, e) \<in> set (us_trace s). i \<notin> fst ` set (us_walks s) \<longrightarrow> e = Notify (UpgradeComplete False))"

lemma serial_inv_new: "serial_inv upgrade_system_new"
  by (simp add: serial_inv_def lock_ok_def task_ok_def walked_def upgrade_system_new_def)

lemma refused_effects: "rolling_upgrade False req world c = (Some False, [Notify (UpgradeComplete False)], c)"
  by (simp add: rolling_upgrade_def)

lemma begin_serial:
  assumes "serial_inv s" and "us_tasks s i = NotBegun"
  shows "serial_inv (begin_upgrade i req world s)"
proof (cases "us_lock s")
  case None
  obtain r es c where run: "rolling_upgrade True req world (us_counters s) = (r, es, c)"
    by (rule prod_cases3)
  have fresh: "i \<notin> fst ` set (us_walks s)" "i \<notin> fst ` set (us_trace s)"
    using assms by (auto simp: serial_inv_def task_ok_def)
  let ?s = "begin_upgrade i req world s"
  have s: "?s = s\<lparr>us_tasks := (us_tasks s)(i := Walking es r), us_lock := Some i, us_counters := c,
                 us_walks := us_walks s @ [(i, es)]\<rparr>"
    by (simp add: begin_upgrade_def None run)
  have "walked ?s = walked s"
    using fresh(2) unfolding walked_def s by (auto intro!: filter_cong simp: image_iff)
  then have "lock_ok ?s"
    using assms(1) None unfolding serial_inv_def lock_ok_def s
    by (auto intro!: exI [of _ "us_walks s"] exI [of _ "[]"] exI [of _ es])
  moreover have "task_ok ?s j" for j
    using assms None unfolding serial_inv_def task_ok_def s by auto
  ultimately show ?thesis
    using assms(1) unfolding serial_inv_def s by auto
next
  case (Some j)
  have s: "begin_upgrade i req world s = s\<lparr>us_tasks := (us_tasks s)(i := Walking [Notify (UpgradeComplete False)] (Some False))\<rparr>"
    by (simp add: begin_upgrade_def Some refused_effects)
  have "i \<noteq> j"
    using assms Some by (auto simp: serial_inv_def lock_ok_def)
  then show ?thesis
    using assms Some unfolding s serial_inv_def lock_ok_def task_ok_def walked_def by auto
qed

lemma proceed_serial:
  assumes inv: "serial_inv s"
  shows "serial_inv (proceed i s)"
proof (cases "us_tasks s i")
  case (Walking es r)
  have task: "task_ok s j" for j
    using inv by (simp add: serial_inv_def)
  show ?thesis
  proof (cases es)
    case (Cons e es')
    let ?s = "proceed i s"
    have s: "?s = s\<lparr>us_tasks := (us_tasks s)(i := Walking es' r), us_trace := us_trace s @ [(i, e)]\<rparr>"
      by (simp add: proceed_def Walking Cons)
    show ?thesis
    proof (cases "us_lock s = Some i")
      case True
      then obtain ws pre where l: "us_walks s = ws @ [(i, pre @ e # es')]" "walked s = one_by_one ws @ map (Pair i) pre"
        using inv Walking Cons by (auto simp: serial_inv_def lock_ok_def)
      then have "walked ?s = one_by_one ws @ map (Pair i) (pre @ [e])"
        unfolding s by (simp add: walked_def)
      then have "lock_ok ?s"
        using True l unfolding lock_ok_def s by (auto intro!: exI [of _ ws] exI [of _ "pre @ [e]"] exI [of _ es'])
      moreover have "task_ok ?s j" for j
        using task [of j] True l unfolding task_ok_def s by auto
      ultimately show ?thesis
        using inv l unfolding serial_inv_def s by auto
    next
      case False
      then have out: "i \<notin> fst ` set (us_walks s)"
        using task [of i] Walking by (auto simp: task_ok_def)
      then have "walked ?s = walked s" "e = Notify (UpgradeComplete False)" "set es' \<subseteq> {Notify (UpgradeComplete False)}"
        using task [of i] Walking Cons unfolding s by (auto simp: walked_def task_ok_def)
      moreover have "task_ok ?s j" for j
        using task [of j] out calculation Walking unfolding task_ok_def s by auto
      ultimately show ?thesis
        using inv False out unfolding serial_inv_def lock_ok_def s by (auto split: option.splits)
    qed
  next
    case Nil
    show ?thesis
    proof (cases r)
      case (Some ok)
      let ?s = "proceed i s"
      have s: "?s = s\<lparr>us_tasks := (us_tasks s)(i := Returned ok),
            us_lock := (if us_lock s = Some i then None else us_lock s)\<rparr>"
        by (simp add: proceed_def Walking Nil Some)
      have "walked ?s = walked s"
        by (simp add: walked_def s)
      then have "lock_ok ?s"
        using inv Walking Nil unfolding serial_inv_def lock_ok_def s by (auto split: option.splits)
      moreover have "task_ok ?s j" for j
        using task [of j] Walking unfolding task_ok_def s by auto
      ultimately show ?thesis
        using inv unfolding serial_inv_def s by auto
    qed (use inv Walking Nil in \<open>simp add: proceed_def\<close>)
  qed
qed (use inv in \<open>simp_all add: proceed_def\<close>)

interpretation serial: step_system upgrade_step serial_inv
proof
  fix s a
  assume "serial_inv s"
  then show "serial_inv (upgrade_step s a)"
    by (cases a) (simp_all add: upgrade_step_def begin_serial proceed_serial)
qed

section \<open>Property\<close>

text \<open>
  C12 (refinement). Rolling upgrades never interleave: however many are asked for and in whatever order their tasks proceed, the
  effects of those that took the lock happen as if one had run after the other, each to its end before the next
  began; a request that found the lock taken brings about nothing but its own refusal. When the lock is free all of them are
  complete.
\<close>

theorem rolling_upgrades_serialised:
  assumes "s = foldl upgrade_step upgrade_system_new acts"
  shows "prefix (one_by_one (butlast (us_walks s))) (walked s) \<and> prefix (walked s) (one_by_one (us_walks s)) \<and>
    (us_lock s = None \<longrightarrow> walked s = one_by_one (us_walks s)) \<and>
    (\<forall>(i, e) \<in> set (us_trace s). (i, e) \<in> set (walked s) \<or> e = Notify (UpgradeComplete False))"
proof -
  have inv: "serial_inv s"
    unfolding assms by (rule serial.run_invariant [OF serial_inv_new])
  then have "\<forall>(i, e) \<in> set (us_trace s). (i, e) \<in> set (walked s) \<or> e = Notify (UpgradeComplete False)"
    by (auto simp: serial_inv_def walked_def)
  moreover have "prefix (one_by_one (butlast (us_walks s))) (one_by_one (us_walks s))"
    by (cases "us_walks s" rule: rev_cases) (auto simp: one_by_one_def)
  ultimately show ?thesis
    using inv unfolding serial_inv_def lock_ok_def by (auto split: option.splits)
qed

text \<open>Two upgrades of one role are asked for before the first has proceeded.\<close>

definition plain_only :: rolling_request where
  "plain_only = \<lparr>req_binary_path = None, req_include_tls = False, req_canary_secs = None, req_only_role = Some ''plain''\<rparr>"

definition unconnected :: "string \<Rightarrow> upgrade_world" where
  "unconnected = (\<lambda>_. \<lparr>uw_baseline = Healthy, uw_pre = None, uw_start = 0, uw_polls = [], uw_canary_start = 0, uw_canary = []\<rparr>)"

theorem rolling_upgrades_serialised_witness:
  "let s = foldl upgrade_step upgrade_system_new [Begins 0 plain_only unconnected, Begins 1 plain_only unconnected,
       Proceeds 1, Proceeds 0, Proceeds 0, Proceeds 1, Proceeds 0]
   in us_tasks s 1 = Returned False \<and> us_lock s = None \<and> length (us_trace s) = 3 \<and>
     walked s = one_by_one (us_walks s)"
proof -
  define s where "s = foldl upgrade_step upgrade_system_new [Begins 0 plain_only unconnected, Begins 1 plain_only unconnected,
       Proceeds 1, Proceeds 0, Proceeds 0, Proceeds 1, Proceeds 0]"
  have "us_tasks s 1 = Returned False \<and> us_lock s = None \<and> length (us_trace s) = 3"
    by (simp add: s_def upgrade_step_def begin_upgrade_def proceed_def upgrade_system_new_def rolling_upgrade_def
        plain_only_def unconnected_def walk_targets_def upgrade_role_def upgrade_one_def Let_def)
  with rolling_upgrades_serialised [OF s_def] show ?thesis
    unfolding s_def [symmetric] Let_def by (elim conjE) simp
qed

end
