(* ===== verification/Unit_Tests.thy ===== *)
theory Unit_Tests
  imports Worker_Start Unicode_Text Test_Env "HOL-Library.State_Monad" "HOL-Library.Monad_Syntax" "HOL-Library.While_Combinator"
begin

text \<open>
  The unit tests of the repository, run on the model. Every definition is the body of one test: the calls it makes, in
  order, and the conjunction of its assertions. The user, the process id and the clock are fixed; the clock stands still but for
  the waits of the test.
\<close>

section \<open>Tests of the watchdog (src/supervisor/watchdog.rs)\<close>

definition fast_exit :: exit_status where
  "fast_exit = from_raw (1 * 2 ^ 8)"

definition commit_exit :: exit_status where
  "commit_exit = from_raw (UPGRADE_COMMIT_EXIT_CODE * 2 ^ 8)"

definition fresh_watchdog_is_healthy :: bool where
  "fresh_watchdog_is_healthy \<longleftrightarrow>
     wd_health_state 0 watchdog_new = Healthy \<and> consecutive_fast_exits watchdog_new = 0"

definition fast_exits_double_the_backoff :: bool where
  "fast_exits_double_the_backoff \<longleftrightarrow>
     (let w1 = apply_exit fast_exit 0 watchdog_new; w2 = apply_exit fast_exit 0 w1; w3 = apply_exit fast_exit 0 w2
      in next_backoff w1 = from_millis 400 \<and> next_backoff w2 = from_millis 800 \<and> next_backoff w3 = from_millis 1600)"

definition fast_exits_progress_through_states :: bool where
  "fast_exits_progress_through_states \<longleftrightarrow>
     (let after = (\<lambda>n. (apply_exit fast_exit 0 ^^ n) watchdog_new); n = unat (WATCHDOG_FLAP_THRESHOLD - 1);
          w = while (\<lambda>w. \<not> is_failed w) (apply_exit fast_exit 0) (after (Suc n))
      in list_all (\<lambda>i. wd_health_state 0 (after (Suc i)) = Backoff) [0..<n] \<and>
         wd_health_state 0 (after (Suc n)) = Flapping \<and> wd_health_state 0 w = Failed)"

definition healthy_uptime_resets_counter :: bool where
  "healthy_uptime_resets_counter \<longleftrightarrow>
     (let w = (apply_exit fast_exit 0 ^^ 3) watchdog_new;
          w' = apply_exit fast_exit (WATCHDOG_HEALTHY_UPTIME + from_secs 1) w
      in consecutive_fast_exits w > 0 \<and> consecutive_fast_exits w' = 0 \<and> next_backoff w' = WATCHDOG_INITIAL_BACKOFF)"

definition upgrade_commit_exit_does_not_count :: bool where
  "upgrade_commit_exit_does_not_count \<longleftrightarrow>
     (let w = (apply_exit fast_exit 0 ^^ 3) watchdog_new; w' = apply_exit commit_exit 0 w
      in consecutive_fast_exits w' < consecutive_fast_exits w \<and> consecutive_fast_exits w' = 0)"

definition backoff_caps_at_max :: bool where
  "backoff_caps_at_max \<longleftrightarrow>
     (let w = (apply_exit fast_exit 0 ^^ 30) watchdog_new
      in next_backoff w \<le> WATCHDOG_MAX_BACKOFF \<and> next_backoff w = WATCHDOG_MAX_BACKOFF)"

definition watchdogs_init_seeds_all_four_roles :: bool where
  "watchdogs_init_seeds_all_four_roles \<longleftrightarrow>
     (let snap = watchdogs_snapshot 0 watchdogs_init
      in length snap = 4 \<and>
         list_all (\<lambda>r. r \<in> set (map rh_role snap)) [''processor'', ''plain'', ''tls'', ''scanner''])"

definition watchdog_snapshot_reflects_fresh_state :: bool where
  "watchdog_snapshot_reflects_fresh_state \<longleftrightarrow>
     list_all (\<lambda>s. rh_state s = Healthy \<and> rh_consecutive_fast_exits s = 0 \<and> rh_total_restarts s = 0)
       (watchdogs_snapshot 0 watchdogs_init)"

definition exits :: "exit_status list \<Rightarrow> string \<Rightarrow> watchdogs \<Rightarrow> watchdogs" where
  "exits sts role w = fold (\<lambda>st w. snd (snd (watchdog_record_exit st 0 role w))) sts w"

definition watchdog_record_exit_increments_counter_and_transitions_state :: bool where
  "watchdog_record_exit_increments_counter_and_transitions_state \<longleftrightarrow>
     watchdog_health_state 0 ''plain'' (exits [fast_exit] ''plain'' watchdogs_init) = Backoff"

definition watchdog_record_exit_reaches_failed_at_threshold :: bool where
  "watchdog_record_exit_reaches_failed_at_threshold \<longleftrightarrow>
     watchdog_health_state 0 ''scanner''
       (exits (replicate (unat WATCHDOG_FAIL_THRESHOLD) fast_exit) ''scanner'' watchdogs_init) = Failed"

definition watchdog_record_exit_commit_code_resets_counter :: bool where
  "watchdog_record_exit_commit_code_resets_counter \<longleftrightarrow>
     watchdog_health_state 0 ''tls'' (exits [fast_exit, fast_exit, commit_exit] ''tls'' watchdogs_init) = Healthy"

definition watchdog_health_state_returns_healthy_for_fresh_role :: bool where
  "watchdog_health_state_returns_healthy_for_fresh_role \<longleftrightarrow>
     watchdog_health_state 0 ''processor'' watchdogs_init = Healthy"

definition watchdog_health_state_returns_healthy_for_unknown_role :: bool where
  "watchdog_health_state_returns_healthy_for_unknown_role \<longleftrightarrow>
     watchdog_health_state 0 ''does-not-exist'' watchdogs_init = Healthy"

definition snapshot_method_round_trips_state :: bool where
  "snapshot_method_round_trips_state \<longleftrightarrow>
     (let s = wd_snapshot 0 ''myrole'' (apply_exit fast_exit 0 watchdog_new)
      in rh_role s = ''myrole'' \<and> rh_state s = Backoff \<and> rh_consecutive_fast_exits s = 1 \<and> rh_total_restarts s = 0)"

definition restarts_after :: "string \<Rightarrow> watchdog_event \<Rightarrow> u64 list" where
  "restarts_after role ev =
     map rh_total_restarts (filter (\<lambda>s. rh_role s = role)
       (watchdogs_snapshot 0 (watchdog_record (0, Some 0) role ev watchdogs_init)))"

definition watchdog_record_spawn_increments_total_restarts :: bool where
  "watchdog_record_spawn_increments_total_restarts \<longleftrightarrow> hd (restarts_after ''processor'' WdSpawn) = 1"

definition watchdog_record_adoption_does_not_increment_restarts :: bool where
  "watchdog_record_adoption_does_not_increment_restarts \<longleftrightarrow> hd (restarts_after ''plain'' WdAdoption) = 0"

lemmas watchdog_defs = watchdog_new_def watchdog_default_def apply_exit_def status_code_def wd_health_state_def uptime_at_def
  is_failed_def WATCHDOG_INITIAL_BACKOFF_def WATCHDOG_MAX_BACKOFF_def WATCHDOG_HEALTHY_UPTIME_def WATCHDOG_FLAP_THRESHOLD_def
  WATCHDOG_FAIL_THRESHOLD_def UPGRADE_COMMIT_EXIT_CODE_def from_millis_def from_secs_def word_le_nat_alt word_less_nat_alt

lemmas watchdogs_defs = watchdogs_snapshot_def wd_snapshot_def watchdogs_init_def WATCHDOG_ROLES_def watchdog_health_state_def
  exits_def restarts_after_def watchdog_record_exit_def record_watchdog_exit_def record_exit_def wd_entry_def watchdog_record_def
  record_watchdog_event_def record_spawn_def record_adoption_def

lemma exit_values [simp]: "fast_exit = ExitedCode 1" "commit_exit = ExitedCode UPGRADE_COMMIT_EXIT_CODE"
  by (simp_all add: fast_exit_def commit_exit_def from_raw_def UPGRADE_COMMIT_EXIT_CODE_def)

lemma fast_exits: "(apply_exit fast_exit 0 ^^ n) watchdog_new =
    watchdog_new\<lparr>consecutive_fast_exits := of_nat n, next_backoff := min (from_millis 200 * 2 ^ n) (from_secs 30)\<rparr>"
proof (induction n)
  case (Suc n)
  show ?case
    by (simp add: Suc.IH del: exit_values) (simp add: watchdog_defs add.commute)
qed (simp add: watchdog_defs)

lemma watchdog_tests:
  "fresh_watchdog_is_healthy" "fast_exits_double_the_backoff" "healthy_uptime_resets_counter"
  "upgrade_commit_exit_does_not_count" "backoff_caps_at_max" "watchdogs_init_seeds_all_four_roles"
  "watchdog_snapshot_reflects_fresh_state" "watchdog_record_exit_increments_counter_and_transitions_state"
  by (simp_all only: fresh_watchdog_is_healthy_def fast_exits_double_the_backoff_def healthy_uptime_resets_counter_def
      upgrade_commit_exit_does_not_count_def backoff_caps_at_max_def watchdogs_init_seeds_all_four_roles_def
      watchdog_snapshot_reflects_fresh_state_def watchdog_record_exit_increments_counter_and_transitions_state_def fast_exits Let_def)
    (simp_all add: watchdog_defs watchdogs_defs)

lemma watchdog_table_tests:
  "watchdog_record_exit_commit_code_resets_counter" "watchdog_health_state_returns_healthy_for_fresh_role"
  "watchdog_health_state_returns_healthy_for_unknown_role" "snapshot_method_round_trips_state"
  "watchdog_record_spawn_increments_total_restarts" "watchdog_record_adoption_does_not_increment_restarts"
  by (simp_all only: watchdog_record_exit_commit_code_resets_counter_def
      watchdog_health_state_returns_healthy_for_fresh_role_def watchdog_health_state_returns_healthy_for_unknown_role_def
      snapshot_method_round_trips_state_def watchdog_record_spawn_increments_total_restarts_def
      watchdog_record_adoption_does_not_increment_restarts_def Let_def)
    (simp_all add: watchdog_defs watchdogs_defs)

lemma watchdog_record_exit_reaches_failed_at_threshold: "watchdog_record_exit_reaches_failed_at_threshold"
proof -
  have failing: "unat WATCHDOG_FAIL_THRESHOLD = 5"
    by (simp add: WATCHDOG_FAIL_THRESHOLD_def)
  have five: "replicate (unat WATCHDOG_FAIL_THRESHOLD) fast_exit = [fast_exit, fast_exit, fast_exit, fast_exit, fast_exit]"
    by (simp only: failing) (simp add: eval_nat_numeral del: exit_values)
  show ?thesis
    unfolding watchdog_record_exit_reaches_failed_at_threshold_def five
    by (simp add: watchdog_defs watchdogs_defs)
qed

lemma fast_exits_progress_through_states: "fast_exits_progress_through_states"
proof -
  let ?w = "\<lambda>n. (apply_exit fast_exit 0 ^^ n) watchdog_new"
  have "\<not> is_failed (?w 4)" "is_failed (?w 5)"
    unfolding fast_exits by (simp_all add: watchdog_defs)
  moreover have "apply_exit fast_exit 0 (?w 4) = ?w 5"
    by (simp add: eval_nat_numeral del: exit_values)
  ultimately have "while (\<lambda>w. \<not> is_failed w) (apply_exit fast_exit 0) (?w 4) = ?w 5"
    by (metis (no_types, lifting) while_unfold)
  moreover have "Suc (unat (WATCHDOG_FLAP_THRESHOLD - 1)) = 4"
    by (simp add: WATCHDOG_FLAP_THRESHOLD_def)
  moreover have "[0..<unat (WATCHDOG_FLAP_THRESHOLD - 1)] = [0, 1, 2]"
    by (simp add: WATCHDOG_FLAP_THRESHOLD_def upt_rec)
  ultimately show ?thesis
    unfolding fast_exits_progress_through_states_def Let_def
    by (simp only: fast_exits) (simp add: watchdog_defs)
qed

section \<open>Tests of the fault table (src/fault_inject.rs)\<close>

definition point :: "string \<Rightarrow> string \<Rightarrow> string \<Rightarrow> u32 \<Rightarrow> fault_point_config" where
  "point name kind msg budget = \<lparr>fp_name = name, fp_kind = kind, fp_message = msg, fp_trigger_budget = budget\<rparr>"

definition fresh_points :: "fault_point_config list \<Rightarrow> active_point list" where
  "fresh_points pts = map build_active_point pts"

text \<open>\<^verbatim>\<open>check_in\<close> of the tests: whether the point fires, and the points with their budgets afterwards.\<close>

fun check_in :: "string \<Rightarrow> active_point list \<Rightarrow> bool \<times> active_point list" where
  "check_in name [] = (False, [])"
| "check_in name (p # ps) =
     (if ap_name p \<noteq> name then map_prod (\<lambda>b. b) (Cons p) (check_in name ps)
      else case try_fire (ap_budget p) of (ok, b) \<Rightarrow> (ok, p\<lparr>ap_budget := b\<rparr> # ps))"

fun checks :: "string list \<Rightarrow> active_point list \<Rightarrow> bool list" where
  "checks [] pts = []"
| "checks (name # names) pts = (case check_in name pts of (ok, pts') \<Rightarrow> ok # checks names pts')"

definition unknown_point_returns_none :: bool where
  "unknown_point_returns_none \<longleftrightarrow> \<not> fst (check_in ''c.d'' (fresh_points [point ''a.b'' ''io_error'' ''oops'' 0]))"

definition unlimited_budget_fires_repeatedly :: bool where
  "unlimited_budget_fires_repeatedly \<longleftrightarrow>
     checks [''x'', ''x'', ''x'', ''x'', ''x''] (fresh_points [point ''x'' ''io_error'' ''err'' 0]) = [True, True, True, True, True]"

definition one_shot_budget_fires_once :: bool where
  "one_shot_budget_fires_once \<longleftrightarrow>
     checks [''x'', ''x'', ''x''] (fresh_points [point ''x'' ''io_error'' ''err'' 1]) = [True, False, False]"

definition budget_n_fires_n_times :: bool where
  "budget_n_fires_n_times \<longleftrightarrow>
     checks [''x'', ''x'', ''x'', ''x''] (fresh_points [point ''x'' ''skip'' [] 3]) = [True, True, True, False]"

definition skip_kind_roundtrips :: bool where
  "skip_kind_roundtrips \<longleftrightarrow> fst (check_in ''p'' (fresh_points [point ''p'' ''skip'' [] 1]))"

definition io_error_kind_roundtrips :: bool where
  "io_error_kind_roundtrips \<longleftrightarrow>
     (case to_fault ((hd (fresh_points [point ''p'' ''io_error'' ''boom'' 1]))\<lparr>ap_budget := 1\<rparr>) of
        FaultIoError msg \<Rightarrow> msg = ''boom'' | _ \<Rightarrow> False)"

definition to_fault_skip_variant_produces_skip :: bool where
  "to_fault_skip_variant_produces_skip \<longleftrightarrow> to_fault (hd (fresh_points [point ''p'' ''skip'' [] 0])) = FaultSkip"

definition to_fault_panic_variant_produces_panic_message :: bool where
  "to_fault_panic_variant_produces_panic_message \<longleftrightarrow>
     to_fault (hd (fresh_points [point ''p'' ''panic'' ''kaboom'' 0])) = FaultPanic ''kaboom''"

definition contains_text :: "string \<Rightarrow> error \<Rightarrow> bool" where
  "contains_text t e \<longleftrightarrow> e \<noteq> [] \<and> sublist t (hd e)"

definition into_io_error_from_io_error_variant :: bool where
  "into_io_error_from_io_error_variant \<longleftrightarrow> contains_text ''refused'' (into_io_error (FaultIoError ''refused''))"

definition into_io_error_from_skip_variant :: bool where
  "into_io_error_from_skip_variant \<longleftrightarrow> contains_text ''skip'' (into_io_error FaultSkip)"

definition into_anyhow_from_io_error_variant :: bool where
  "into_anyhow_from_io_error_variant \<longleftrightarrow> contains_text ''timed out'' (into_anyhow (FaultIoError ''timed out''))"

definition into_anyhow_from_skip_variant :: bool where
  "into_anyhow_from_skip_variant \<longleftrightarrow> contains_text ''skip'' (into_anyhow FaultSkip)"

lemmas fault_defs = fresh_points_def point_def build_active_point_def try_fire_def to_fault_def into_io_error_def into_anyhow_def
  contains_text_def
  sublist_code

lemma fault_tests:
  "unknown_point_returns_none" "unlimited_budget_fires_repeatedly" "one_shot_budget_fires_once" "budget_n_fires_n_times"
  "skip_kind_roundtrips" "io_error_kind_roundtrips" "to_fault_skip_variant_produces_skip"
  "to_fault_panic_variant_produces_panic_message" "into_io_error_from_io_error_variant" "into_io_error_from_skip_variant"
  "into_anyhow_from_io_error_variant" "into_anyhow_from_skip_variant"
  by (simp_all add: fault_defs unknown_point_returns_none_def unlimited_budget_fires_repeatedly_def one_shot_budget_fires_once_def
      budget_n_fires_n_times_def skip_kind_roundtrips_def io_error_kind_roundtrips_def to_fault_skip_variant_produces_skip_def
      to_fault_panic_variant_produces_panic_message_def into_io_error_from_io_error_variant_def
      into_io_error_from_skip_variant_def into_anyhow_from_io_error_variant_def into_anyhow_from_skip_variant_def)

section \<open>Tests of the allow list (src/auth.rs)\<close>

definition current_user_only_contains_self_and_nothing_else :: "u32 \<Rightarrow> bool" where
  "current_user_only_contains_self_and_nothing_else uid \<longleftrightarrow>
     allowlist_contains (current_user_only uid) uid \<and> \<not> allowlist_contains (current_user_only uid) (- 1)"

definition from_uids_builds_exact_set :: bool where
  "from_uids_builds_exact_set \<longleftrightarrow>
     list_all (allowlist_contains (from_uids [1, 2, 3])) [1, 2, 3] \<and> \<not> allowlist_contains (from_uids [1, 2, 3]) 4"

definition from_config_empty_falls_back_to_current_user :: "u32 \<Rightarrow> bool" where
  "from_config_empty_falls_back_to_current_user uid \<longleftrightarrow>
     allowlist_contains (allowlist_from_config uid []) uid \<and> \<not> allowlist_contains (allowlist_from_config uid []) (uid + 1)"

definition from_config_non_empty_uses_exact_list :: "u32 \<Rightarrow> bool" where
  "from_config_non_empty_uses_exact_list uid \<longleftrightarrow>
     (let bogus = uid + 1234; a = allowlist_from_config uid [bogus]
      in allowlist_contains a bogus \<and> (uid \<noteq> bogus \<longrightarrow> \<not> allowlist_contains a uid))"

definition check_peer_accepts_self_uid :: "u32 \<Rightarrow> bool" where
  "check_peer_accepts_self_uid uid \<longleftrightarrow> check_peer (Inr uid) (current_user_only uid) = Inr uid"

definition check_peer_rejects_unlisted_uid :: "u32 \<Rightarrow> bool" where
  "check_peer_rejects_unlisted_uid uid \<longleftrightarrow> isl (check_peer (Inr uid) (from_uids [uid + 1]))"

text \<open>The first test rests on the highest user id being nobody's, as its comment says.\<close>

lemma auth_tests:
  "uid \<noteq> - 1 \<Longrightarrow> current_user_only_contains_self_and_nothing_else uid" "from_uids_builds_exact_set"
  "from_config_empty_falls_back_to_current_user uid" "from_config_non_empty_uses_exact_list uid"
  "check_peer_accepts_self_uid uid" "check_peer_rejects_unlisted_uid uid"
  by (simp_all add: current_user_only_contains_self_and_nothing_else_def from_uids_builds_exact_set_def
      from_config_empty_falls_back_to_current_user_def from_config_non_empty_uses_exact_list_def check_peer_accepts_self_uid_def
      check_peer_rejects_unlisted_uid_def allowlist_contains_def allowlist_from_config_def current_user_only_def from_uids_def
      check_peer_def and_then_def Let_def)

section \<open>Tests of the role supervisor (src/supervisor/worker.rs)\<close>

text \<open>The polls of a loop that sleeps \<open>every\<close> milliseconds, on a link that changes with time.\<close>

definition polls_every :: "nat \<Rightarrow> nat \<Rightarrow> (nat \<Rightarrow> worker_link) \<Rightarrow> poll list" where
  "polls_every every n l = map (\<lambda>i. (from_millis (i * every), l (i * every))) [0..<n]"

definition link_of_test :: "bool \<Rightarrow> u64 option \<Rightarrow> worker_link" where
  "link_of_test live g = worker_link_default\<lparr>writer := (if live then Some 0 else None), last_generation := g\<rparr>"

definition successor_wait_adopts_on_generation_bump :: bool where
  "successor_wait_adopts_on_generation_bump \<longleftrightarrow>
     wait_for_successor 0 (from_secs 5) 0 (polls_every 50 5 (\<lambda>t. link_of_test False (if t < 100 then None else Some 1))) =
       Some (SuccAdopted 1)"

definition successor_wait_times_out_with_no_signal :: bool where
  "successor_wait_times_out_with_no_signal \<longleftrightarrow>
     wait_for_successor 0 (from_secs 5) 0 (polls_every 50 101 (\<lambda>_. link_of_test False None)) = Some SuccTimeout"

definition successor_wait_rejects_stale_generation :: bool where
  "successor_wait_rejects_stale_generation \<longleftrightarrow>
     wait_for_successor 1 (from_secs 5) 0 (polls_every 50 101 (\<lambda>_. link_of_test False (Some 1))) = Some SuccTimeout"

text \<open>The monitor returns at the last of the polls it is given, which tells how long it took.\<close>

definition monitor_returns_when_writer_lost_for_grace :: bool where
  "monitor_returns_when_writer_lost_for_grace \<longleftrightarrow>
     (let l = (\<lambda>t. link_of_test (t < 500) None)
      in fst (monitor_successor 0 (from_secs 3) None (polls_every 100 35 l)) = None \<and>
         fst (monitor_successor 0 (from_secs 3) None (polls_every 100 50 l)) = Some Lost)"

definition monitor_ignores_brief_disconnect :: bool where
  "monitor_ignores_brief_disconnect \<longleftrightarrow>
     fst (monitor_successor 0 (from_secs 3) None
       (polls_every 100 56 (\<lambda>t. link_of_test (t < 500 \<or> 1500 \<le> t) None))) = None"

definition monitor_readopts_on_generation_advance :: bool where
  "monitor_readopts_on_generation_advance \<longleftrightarrow>
     fst (monitor_successor 5 (from_secs 3) None
       (polls_every 100 4 (\<lambda>t. link_of_test True (Some (if t < 200 then 5 else 6))))) = Some (Readopted 6)"

definition monitor_readopts_when_successor_arrives_within_grace :: bool where
  "monitor_readopts_when_successor_arrives_within_grace \<longleftrightarrow>
     fst (monitor_successor 5 (from_secs 3) None
       (polls_every 100 20 (\<lambda>t. if t < 300 then link_of_test True (Some 5)
          else if t < 1300 then link_of_test False None else link_of_test True (Some 6)))) = Some (Readopted 6)"

definition is_process_alive_recognizes_current_process :: "u32 \<Rightarrow> bool" where
  "is_process_alive_recognizes_current_process pid \<longleftrightarrow> is_process_alive (\<lambda>_. KillOk) pid"

definition is_process_alive_returns_false_for_reaped_child :: "u32 \<Rightarrow> bool" where
  "is_process_alive_returns_false_for_reaped_child pid \<longleftrightarrow> \<not> is_process_alive (\<lambda>_. KillEsrch) pid"

definition acceptor_role_arg_returns_correct_strings :: bool where
  "acceptor_role_arg_returns_correct_strings \<longleftrightarrow>
     acceptor_role_arg Role_Supervisor.Plain = ''plain'' \<and> acceptor_role_arg Role_Supervisor.Tls = ''tls''"

lemma upt_numeral: "[m..<numeral n] = (if m < numeral n then m # [Suc m..<numeral n] else [])"
  by (simp add: upt_rec)

lemmas poll_defs = polls_every_def link_of_test_def worker_link_default_def wait_for_successor_def monitor_successor_def
  from_millis_def from_secs_def upt_numeral word_less_nat_alt

lemma successor_tests: "successor_wait_adopts_on_generation_bump" "successor_wait_times_out_with_no_signal"
  "successor_wait_rejects_stale_generation"
  by (simp_all add: poll_defs successor_wait_adopts_on_generation_bump_def successor_wait_times_out_with_no_signal_def
      successor_wait_rejects_stale_generation_def)

lemma monitor_tests: "monitor_returns_when_writer_lost_for_grace" "monitor_ignores_brief_disconnect"
  "monitor_readopts_on_generation_advance" "monitor_readopts_when_successor_arrives_within_grace"
  by (simp_all add: poll_defs monitor_returns_when_writer_lost_for_grace_def monitor_ignores_brief_disconnect_def
      monitor_readopts_on_generation_advance_def monitor_readopts_when_successor_arrives_within_grace_def)

text \<open>A process id fits the signed type of the system call.\<close>

lemma process_tests: "unat pid < 2 ^ 31 \<Longrightarrow> is_process_alive_recognizes_current_process pid"
  "is_process_alive_returns_false_for_reaped_child pid" "acceptor_role_arg_returns_correct_strings"
  by (simp_all add: is_process_alive_recognizes_current_process_def is_process_alive_returns_false_for_reaped_child_def
      acceptor_role_arg_returns_correct_strings_def is_process_alive_def i32_of_u32_def acceptor_role_arg_def)

section \<open>Tests of the limits (src/limits.rs)\<close>

text \<open>The calls of a test as a computation over the object under test.\<close>

definition acquire :: "(session_cap, bool) state" where
  "acquire = State try_acquire"

definition release :: "(session_cap, unit) state" where
  "release = State (\<lambda>c. ((), session_guard_drop c))"

definition sessions :: "(session_cap, u64) state" where
  "sessions = State (\<lambda>c. (current_sessions c, c))"

definition taking :: "nat \<Rightarrow> ip_addr \<Rightarrow> (rate_limiter, bool) state" where
  "taking ms ip = State (try_take (\<lambda>x. x) (from_millis ms) ip)"

definition stats :: "(rate_limiter, nat \<times> u64 \<times> u64 \<times> u64) state" where
  "stats = State (\<lambda>r. (limiter_stats r, r))"

definition passes :: "('s, bool) state \<Rightarrow> 's \<Rightarrow> bool" where
  "passes m s = fst (run_state m s)"

definition limiter_new :: "u32 \<Rightarrow> u32 \<Rightarrow> rate_limiter" where
  "limiter_new refill burst = with_limits refill burst 0 300"

definition session_cap_zero_is_unbounded :: bool where
  "session_cap_zero_is_unbounded \<longleftrightarrow>
     list_all (\<lambda>i. fst (try_acquire (((snd \<circ> try_acquire) ^^ i) (session_cap_new 0)))) [0..<10000]"

definition session_cap_zero_current_tracks_in_flight :: bool where
  "session_cap_zero_current_tracks_in_flight \<longleftrightarrow> passes (do {
     g1 \<leftarrow> acquire; n1 \<leftarrow> sessions; g2 \<leftarrow> acquire; n2 \<leftarrow> sessions; release; n3 \<leftarrow> sessions; release; n4 \<leftarrow> sessions;
     State_Monad.return (g1 \<and> g2 \<and> n1 = 1 \<and> n2 = 2 \<and> n3 = 1 \<and> n4 = 0)
   }) (session_cap_new 0)"

definition session_cap_blocks_over_limit :: bool where
  "session_cap_blocks_over_limit \<longleftrightarrow> passes (do {
     g1 \<leftarrow> acquire; g2 \<leftarrow> acquire; no \<leftarrow> acquire; n1 \<leftarrow> sessions; release; n2 \<leftarrow> sessions; g3 \<leftarrow> acquire; n3 \<leftarrow> sessions;
     release; release; n4 \<leftarrow> sessions;
     State_Monad.return (g1 \<and> g2 \<and> \<not> no \<and> n1 = 2 \<and> n2 = 1 \<and> g3 \<and> n3 = 2 \<and> n4 = 0)
   }) (session_cap_new 2)"

definition rate_limiter_zero_disabled :: bool where
  "rate_limiter_zero_disabled \<longleftrightarrow>
     (let take = try_take (\<lambda>x. x) 0 (V4 0x7F000001)
      in list_all (\<lambda>i. fst (take (((snd \<circ> take) ^^ i) (limiter_new 0 1)))) [0..<1000])"

definition rate_limiter_burst_then_throttle :: bool where
  "rate_limiter_burst_then_throttle \<longleftrightarrow> passes (do {
     a \<leftarrow> taking 0 (V4 0x0A000001); b \<leftarrow> taking 0 (V4 0x0A000001); c \<leftarrow> taking 0 (V4 0x0A000001); d \<leftarrow> taking 0 (V4 0x0A000001);
     State_Monad.return (a \<and> b \<and> c \<and> \<not> d)
   }) (limiter_new 10 3)"

definition rate_limiter_refills_over_time :: bool where
  "rate_limiter_refills_over_time \<longleftrightarrow> passes (do {
     a \<leftarrow> taking 0 (V4 0x0A000002); b \<leftarrow> taking 0 (V4 0x0A000002); c \<leftarrow> taking 50 (V4 0x0A000002);
     State_Monad.return (a \<and> \<not> b \<and> c)
   }) (limiter_new 100 1)"

definition rate_limiter_isolates_ips :: bool where
  "rate_limiter_isolates_ips \<longleftrightarrow> passes (do {
     a \<leftarrow> taking 0 (V4 0x0A00000A); a' \<leftarrow> taking 0 (V4 0x0A00000A); b \<leftarrow> taking 0 (V4 0x0A00000B);
     State_Monad.return (a \<and> \<not> a' \<and> b)
   }) (limiter_new 1 1)"

definition evicts_full_bucket_when_at_cap :: bool where
  "evicts_full_bucket_when_at_cap \<longleftrightarrow> passes (do {
     a \<leftarrow> taking 0 (V4 0x0A000001); b \<leftarrow> taking 0 (V4 0x0A000002); b' \<leftarrow> taking 0 (V4 0x0A000002); c \<leftarrow> taking 0 (V4 0x0A000003);
     (tracked, _, _, refused_before) \<leftarrow> stats; new \<leftarrow> taking 0 (V4 0x0A000063);
     (tracked', _, lru, refused_after) \<leftarrow> stats;
     State_Monad.return (a \<and> b \<and> b' \<and> c \<and> tracked = 3 \<and> refused_before = 0 \<and> new \<and> tracked' = 3 \<and> lru = 1 \<and> refused_after = 0)
   }) (with_limits 10 2 3 300)"

definition refuses_new_ip_when_all_throttled_at_cap :: bool where
  "refuses_new_ip_when_all_throttled_at_cap \<longleftrightarrow> passes (do {
     a \<leftarrow> taking 0 (V4 0x0A000001); b \<leftarrow> taking 0 (V4 0x0A000002); a' \<leftarrow> taking 0 (V4 0x0A000001); b' \<leftarrow> taking 0 (V4 0x0A000002);
     c \<leftarrow> taking 0 (V4 0x0A000003); (tracked, _, _, refused) \<leftarrow> stats;
     State_Monad.return (a \<and> b \<and> \<not> a' \<and> \<not> b' \<and> \<not> c \<and> tracked = 2 \<and> refused = 1)
   }) (with_limits 10 1 2 300)"

definition evicts_idle_buckets_past_ttl :: bool where
  "evicts_idle_buckets_past_ttl \<longleftrightarrow> passes (do {
     a \<leftarrow> taking 0 (V4 0x0A000001); (tracked, _, _, _) \<leftarrow> stats; b \<leftarrow> taking 1100 (V4 0x0A000002);
     (tracked', idle, _, _) \<leftarrow> stats;
     State_Monad.return (a \<and> tracked = 1 \<and> b \<and> tracked' = 1 \<and> idle = 1)
   }) (with_limits 1 1 100 1)"

definition lru_keeps_recently_touched :: bool where
  "lru_keeps_recently_touched \<longleftrightarrow> passes (do {
     b \<leftarrow> taking 0 (V4 0x0A000002); c \<leftarrow> taking 1 (V4 0x0A000003); d \<leftarrow> taking 2 (V4 0x0A000004); a \<leftarrow> taking 3 (V4 0x0A000001);
     e \<leftarrow> taking 3 (V4 0x0A000005); kept \<leftarrow> State (\<lambda>r. (map fst (buckets (inner r)), r));
     State_Monad.return (a \<and> b \<and> c \<and> d \<and> e \<and> V4 0x0A000001 \<in> set kept \<and> V4 0x0A000002 \<notin> set kept \<and>
       V4 0x0A000005 \<in> set kept)
   }) (with_limits 100 2 4 300)"

lemmas state_defs = passes_def acquire_def release_def sessions_def taking_def stats_def State_Monad.bind_def State_Monad.return_def

lemmas limit_defs = try_acquire_def session_cap_new_def session_guard_drop_def current_sessions_def limiter_new_def with_limits_def
  try_take_def limiter_enabled_def try_take_at_def evict_idle_buckets_def take_token_def refilled_def as_secs_f64_def
  evict_at_cap_def better_candidate_def limiter_stats_def from_millis_def from_secs_def Let_def word_le_nat_alt

lemma cap_tests: "session_cap_zero_current_tracks_in_flight" "session_cap_blocks_over_limit"
  by (simp_all add: session_cap_zero_current_tracks_in_flight_def session_cap_blocks_over_limit_def state_defs limit_defs)

lemma session_cap_zero_is_unbounded: "session_cap_zero_is_unbounded"
proof -
  have "cap (((snd \<circ> try_acquire) ^^ i) (session_cap_new 0)) = 0" for i
    by (induction i) (simp_all add: try_acquire_def session_cap_new_def)
  then show ?thesis
    by (simp add: session_cap_zero_is_unbounded_def list_all_iff try_acquire_def)
qed

lemma rate_limiter_zero_disabled: "rate_limiter_zero_disabled"
proof -
  have r: "try_take (\<lambda>x. x) 0 (V4 0x7F000001) (limiter_new 0 1) = (True, limiter_new 0 1)"
    by (simp add: try_take_def limiter_enabled_def limiter_new_def with_limits_def)
  then have "((snd \<circ> try_take (\<lambda>x. x) 0 (V4 0x7F000001)) ^^ i) (limiter_new 0 1) = limiter_new 0 1" for i
    by (induction i) simp_all
  then show ?thesis
    by (simp add: rate_limiter_zero_disabled_def list_all_iff r)
qed

lemma rate_tests: "rate_limiter_burst_then_throttle" "rate_limiter_refills_over_time" "rate_limiter_isolates_ips"
  by (simp_all add: rate_limiter_burst_then_throttle_def rate_limiter_refills_over_time_def rate_limiter_isolates_ips_def
      state_defs limit_defs)

lemma eviction_tests: "evicts_full_bucket_when_at_cap" "refuses_new_ip_when_all_throttled_at_cap"
  "evicts_idle_buckets_past_ttl" "lru_keeps_recently_touched"
  by (simp_all add: evicts_full_bucket_when_at_cap_def refuses_new_ip_when_all_throttled_at_cap_def
      evicts_idle_buckets_past_ttl_def lru_keeps_recently_touched_def state_defs limit_defs)

section \<open>Tests of the service manager's interface (src/systemd.rs)\<close>

text \<open>The environment inside the scope that hides the variables of the tests; the process has the id 4242.\<close>

definition hidden :: "string list \<Rightarrow> env \<Rightarrow> env" where
  "hidden keys e = snd (scope_save keys e)"

abbreviation listen_keys :: "string list" where
  "listen_keys \<equiv> [''LISTEN_PID'', ''LISTEN_FDS'', ''LISTEN_FDNAMES'']"

abbreviation watchdog_keys :: "string list" where
  "watchdog_keys \<equiv> [''NOTIFY_SOCKET'', ''WATCHDOG_USEC'', ''WATCHDOG_PID'']"

definition listeners_in :: "env \<Rightarrow> sd_listeners result" where
  "listeners_in e = and_then (sd_from_env 4242 e) (\<lambda>(l, _). Inr l)"

definition from_env_with_no_listen_pid_is_empty :: "env \<Rightarrow> bool" where
  "from_env_with_no_listen_pid_is_empty e \<longleftrightarrow> listeners_in (hidden listen_keys e) = Inr []"

definition from_env_with_mismatched_pid_is_empty :: "env \<Rightarrow> bool" where
  "from_env_with_mismatched_pid_is_empty e \<longleftrightarrow>
     listeners_in (env_set ''LISTEN_FDS'' ''1'' (env_set ''LISTEN_PID'' ''1'' (hidden listen_keys e))) = Inr []"

definition from_env_with_pid_match_but_zero_fds_is_empty :: "env \<Rightarrow> bool" where
  "from_env_with_pid_match_but_zero_fds_is_empty e \<longleftrightarrow>
     listeners_in (env_set ''LISTEN_FDS'' ''0'' (env_set ''LISTEN_PID'' ''4242'' (hidden listen_keys e))) = Inr []"

definition from_env_parse_error_propagates :: "env \<Rightarrow> bool" where
  "from_env_parse_error_propagates e \<longleftrightarrow>
     isl (listeners_in (env_set ''LISTEN_PID'' ''not-a-number'' (hidden listen_keys e)))"

definition take_by_name_on_empty_returns_none :: "env \<Rightarrow> bool" where
  "take_by_name_on_empty_returns_none e \<longleftrightarrow>
     (case listeners_in (hidden listen_keys e) of Inl _ \<Rightarrow> False | Inr l \<Rightarrow> fst (take_by_name ''anything'' l) = None)"

text \<open>A datagram that was sent arrives.\<close>

definition notified_with :: "env \<Rightarrow> string \<Rightarrow> (notify_addr \<times> string) option" where
  "notified_with e = sd_notify True e (Inr ()) (\<lambda>_ _. Inr ())"

definition notify_with_no_socket_env_is_noop :: "env \<Rightarrow> bool" where
  "notify_with_no_socket_env_is_noop e \<longleftrightarrow>
     list_all (\<lambda>m. notified_with (hidden [''NOTIFY_SOCKET''] e) m = None)
       [notify_ready_line, notify_stopping_line, notify_status_line ''hello'']"

definition notify_ready_sends_datagram_to_filesystem_socket :: "env \<Rightarrow> bool" where
  "notify_ready_sends_datagram_to_filesystem_socket e \<longleftrightarrow>
     notified_with (env_set ''NOTIFY_SOCKET'' ''/tmp/notify.sock'' (hidden [''NOTIFY_SOCKET''] e)) notify_ready_line =
       Some (NotifyPath ''/tmp/notify.sock'', ''READY=1\<newline>'')"

definition notify_status_carries_inline_text :: "env \<Rightarrow> bool" where
  "notify_status_carries_inline_text e \<longleftrightarrow>
     notified_with (env_set ''NOTIFY_SOCKET'' ''/tmp/notify.sock'' (hidden [''NOTIFY_SOCKET''] e))
       (notify_status_line ''upgrade in progress'') =
       Some (NotifyPath ''/tmp/notify.sock'', ''STATUS=upgrade in progress\<newline>'')"

definition watchdog_noop_when_env_unset :: "env \<Rightarrow> bool" where
  "watchdog_noop_when_env_unset e \<longleftrightarrow> watchdog_usec 4242 (hidden watchdog_keys e) = None"

definition watchdog_noop_when_pid_mismatch :: "env \<Rightarrow> bool" where
  "watchdog_noop_when_pid_mismatch e \<longleftrightarrow>
     watchdog_usec 4242 (env_set ''WATCHDOG_PID'' ''1'' (env_set ''WATCHDOG_USEC'' ''40000'' (hidden watchdog_keys e))) = None"

text \<open>Ticks every 15 ms, pings every 20 ms: the loads of the ping task see between one and two ticks each.\<close>

definition watchdog_pings_when_beacon_advances :: "env \<Rightarrow> bool" where
  "watchdog_pings_when_beacon_advances e \<longleftrightarrow>
     map_option ping_interval (watchdog_usec 4242 (env_set ''WATCHDOG_USEC'' ''40000'' (hidden watchdog_keys e))) =
       Some (from_millis 20) \<and> True \<in> set (watchdog_pings 0 (beacon_loads 0 [2, 1, 1, 2]))"

definition watchdog_silent_when_beacon_stalled :: "env \<Rightarrow> bool" where
  "watchdog_silent_when_beacon_stalled e \<longleftrightarrow>
     watchdog_usec 4242 (env_set ''WATCHDOG_USEC'' ''40000'' (hidden watchdog_keys e)) \<noteq> None \<and>
     True \<notin> set (watchdog_pings 0 (beacon_loads 0 [0, 0, 0, 0, 0, 0]))"

lemma hidden_var [simp]: "env_var (hidden keys e) k = (if k \<in> set keys then None else env_var e k)"
  by (simp add: hidden_def scope_save_def)

lemma parsed_numbers: "parse_u32 ''1'' = Some 1" "parse_u32 ''4242'' = Some 4242" "parse_i32 ''0'' = Some 0"
  "parse_u32 ''not-a-number'' = None" "parse_u64 ''40000'' = Some 40000"
  by (simp_all add: parse_u32_def parse_i32_def parse_u64_def parse_unsigned_def parse_digits_def
      digits_value_def of_digits_def char_digit_def)

lemma activation_tests: "from_env_with_no_listen_pid_is_empty e" "from_env_with_mismatched_pid_is_empty e"
  "from_env_with_pid_match_but_zero_fds_is_empty e" "from_env_parse_error_propagates e" "take_by_name_on_empty_returns_none e"
  by (simp_all add: from_env_with_no_listen_pid_is_empty_def from_env_with_mismatched_pid_is_empty_def
      from_env_with_pid_match_but_zero_fds_is_empty_def from_env_parse_error_propagates_def take_by_name_on_empty_returns_none_def
      listeners_in_def sd_from_env_def and_then_def parsed_numbers)

lemma notify_tests: "notify_with_no_socket_env_is_noop e" "notify_ready_sends_datagram_to_filesystem_socket e"
  "notify_status_carries_inline_text e"
  by (simp_all add: notify_with_no_socket_env_is_noop_def notify_ready_sends_datagram_to_filesystem_socket_def
      notify_status_carries_inline_text_def notified_with_def sd_notify_def notify_impl_def starts_with_def and_then_def
      with_context_def notify_ready_line_def notify_status_line_def)

lemma beacon_tests: "watchdog_noop_when_env_unset e" "watchdog_noop_when_pid_mismatch e"
  "watchdog_pings_when_beacon_advances e" "watchdog_silent_when_beacon_stalled e"
  by (simp_all add: watchdog_noop_when_env_unset_def watchdog_noop_when_pid_mismatch_def watchdog_pings_when_beacon_advances_def
      watchdog_silent_when_beacon_stalled_def watchdog_usec_def parsed_numbers ping_interval_def from_micros_def from_millis_def
      ticks_add)

section \<open>Tests of the privilege drop (src/security.rs)\<close>

text \<open>The user database of the tests: root, and nobody else.\<close>

definition only_root :: "string \<Rightarrow> u32 option result" where
  "only_root name = Inr (if name = ''root'' then Some 0 else None)"

text \<open>An unprivileged process.\<close>

definition user_creds :: "u32 \<Rightarrow> u32 \<Rightarrow> creds" where
  "user_creds u g = \<lparr>c_ruid = u, c_euid = u, c_suid = u, c_rgid = g, c_egid = g, c_sgid = g, c_groups = [g]\<rparr>"

definition empty_config_is_noop :: "creds \<Rightarrow> bool" where
  "empty_config_is_noop c \<longleftrightarrow>
     drop_privileges posix only_root only_root security_config_default c = (Inr security_config_default, c)"

definition resolve_uid_accepts_numeric :: bool where
  "resolve_uid_accepts_numeric \<longleftrightarrow> resolve_uid only_root ''0'' = Inr 0 \<and> resolve_uid only_root ''65534'' = Inr 65534"

definition resolve_uid_rejects_unknown_name :: bool where
  "resolve_uid_rejects_unknown_name \<longleftrightarrow>
     (case resolve_uid only_root ''this-user-does-not-exist-fdpass'' of
        Inl e \<Rightarrow> contains_text ''no such user'' e | Inr _ \<Rightarrow> False)"

definition resolve_uid_finds_root_by_name :: bool where
  "resolve_uid_finds_root_by_name \<longleftrightarrow> resolve_uid only_root ''root'' = Inr 0"

definition resolve_gid_accepts_numeric :: bool where
  "resolve_gid_accepts_numeric \<longleftrightarrow> resolve_gid only_root ''0'' = Inr 0"

definition resolve_gid_rejects_unknown_name :: bool where
  "resolve_gid_rejects_unknown_name \<longleftrightarrow>
     (case resolve_gid only_root ''this-group-does-not-exist-fdpass'' of
        Inl e \<Rightarrow> contains_text ''no such group'' e | Inr _ \<Rightarrow> False)"

definition drop_to_current_uid_is_safe_noop :: "u32 \<Rightarrow> u32 \<Rightarrow> bool" where
  "drop_to_current_uid_is_safe_noop u g \<longleftrightarrow>
     (case drop_privileges posix only_root only_root (security_config_default\<lparr>drop_uid := Some (dec (unat u))\<rparr>) (user_creds u g) of
        (r, c) \<Rightarrow> \<not> isl r \<and> c_euid c = u)"

definition drop_privileges_normalizes_name_to_numeric :: "u32 \<Rightarrow> u32 \<Rightarrow> bool" where
  "drop_privileges_normalizes_name_to_numeric u g \<longleftrightarrow>
     (case drop_privileges posix only_root only_root
             (security_config_default\<lparr>drop_uid := Some (dec (unat u)), drop_gid := Some (dec (unat g))\<rparr>) (user_creds u g) of
        (Inr cfg, _) \<Rightarrow> drop_uid cfg = Some (dec (unat u)) \<and> drop_gid cfg = Some (dec (unat g)) \<and>
          parse_u32 (dec (unat u)) \<noteq> None \<and> parse_u32 (dec (unat g)) \<noteq> None
      | (Inl _, _) \<Rightarrow> False)"

lemma parsed_ids: "parse_u32 ''0'' = Some 0" "parse_u32 ''65534'' = Some 65534" "parse_u32 ''root'' = None"
  "parse_u32 ''this-user-does-not-exist-fdpass'' = None" "parse_u32 ''this-group-does-not-exist-fdpass'' = None"
  by (simp_all add: parse_u32_def parse_unsigned_def parse_digits_def digits_value_def of_digits_def char_digit_def)

lemma resolve_tests: "resolve_uid_accepts_numeric" "resolve_uid_rejects_unknown_name" "resolve_uid_finds_root_by_name"
  "resolve_gid_accepts_numeric" "resolve_gid_rejects_unknown_name"
  by (simp_all add: resolve_uid_accepts_numeric_def resolve_uid_rejects_unknown_name_def resolve_uid_finds_root_by_name_def
      resolve_gid_accepts_numeric_def resolve_gid_rejects_unknown_name_def resolve_uid_def resolve_gid_def only_root_def and_then_def
      with_context_def parsed_ids contains_text_def)

lemma parse_zero: "parse_u32 (dec 0) = Some 0"
  using parse_u32_dec [of 0] by simp

lemma drop_tests: "empty_config_is_noop c" "drop_to_current_uid_is_safe_noop u g" "drop_privileges_normalizes_name_to_numeric u g"
  by (simp_all add: empty_config_is_noop_def drop_to_current_uid_is_safe_noop_def drop_privileges_normalizes_name_to_numeric_def
      drop_privileges_def security_config_default_def transpose_result_def resolve_numeric user_creds_def change_ids_def when_ok_def
      call_def posix_def regain_check_def and_then_def with_context_def parse_zero)

section \<open>Tests of the handed sessions (src/processor/upgrade.rs, src/processor/sidecar.rs)\<close>

definition sample_handoff :: "raw_fd \<Rightarrow> u32 \<Rightarrow> string \<Rightarrow> string option \<Rightarrow> session_handoff" where
  "sample_handoff fd version peer ident = \<lparr>
     uds_fd = fd, transport = Uds, partial_line_bytes = map of_char ''pending'', pending_write_bytes = [], lines_echoed = 3,
     connected_at_unix_ms = 1700000000000, sh_peer = peer, sh_ident = ident, sh_trace_id = ''trace-'' @ peer,
     sh_version = version\<rparr>"

definition fd_session_payload_parse_error_is_fatal :: "(string \<Rightarrow> session_handoff list result) \<Rightarrow> bool" where
  "fd_session_payload_parse_error_is_fatal from_json \<longleftrightarrow>
     (case parse_handoff_sessions_payload from_json (''not-json'', SourceFd) of
        Inl e \<Rightarrow> contains_text ''FDPASS_SESSIONS_FD'' e | Inr _ \<Rightarrow> False)"

definition env_session_payload_parse_error_is_nonfatal :: "(string \<Rightarrow> session_handoff list result) \<Rightarrow> bool" where
  "env_session_payload_parse_error_is_nonfatal from_json \<longleftrightarrow>
     parse_handoff_sessions_payload from_json (''not-json'', SourceEnv) = Inr None"

definition cleanup_generation_zero_socket_removes_file :: bool where
  "cleanup_generation_zero_socket_removes_file \<longleftrightarrow> ''/tmp/cg0.sock'' \<in> set (cleanup_generation_zero_socket 0 ''/tmp/cg0.sock'')"

definition cleanup_generation_zero_socket_leaves_file_for_later_generations :: bool where
  "cleanup_generation_zero_socket_leaves_file_for_later_generations \<longleftrightarrow>
     ''/tmp/cg1.sock'' \<notin> set (cleanup_generation_zero_socket 1 ''/tmp/cg1.sock'')"

text \<open>The two guards that hide the handed variables, then those that set them.\<close>

definition sessions_env :: "string \<Rightarrow> string \<Rightarrow> env \<Rightarrow> env" where
  "sessions_env json fd e =
     env_set ENV_SESSIONS_FD fd (env_set ENV_SESSIONS json (env_remove ENV_SESSIONS (env_remove ENV_SESSIONS_FD e)))"

definition read_handoff_sessions_prefers_inherited_fd_over_env_payload :: "env \<Rightarrow> bool" where
  "read_handoff_sessions_prefers_inherited_fd_over_env_payload e \<longleftrightarrow>
     read_handoff_sessions_json (sessions_env ''env'' (dec_int 7) e) (\<lambda>fd. if fd = 7 then Inr ''fd'' else Inl [''EBADF'']) =
       Inr (Some (''fd'', SourceFd))"

definition malformed_inherited_fd_is_fatal_even_if_env_payload_exists :: "env \<Rightarrow> bool" where
  "malformed_inherited_fd_is_fatal_even_if_env_payload_exists e \<longleftrightarrow>
     (case read_handoff_sessions_json (sessions_env ''env'' ''not-a-fd'' e) (\<lambda>_. Inl [''EBADF'']) of
        Inl err \<Rightarrow> contains_text ENV_SESSIONS_FD err | Inr _ \<Rightarrow> False)"

definition adopt_inflight_sessions_skips_incompatible_records_only :: "env \<Rightarrow> bool" where
  "adopt_inflight_sessions_skips_incompatible_records_only e \<longleftrightarrow>
     (let records = [sample_handoff 7 SCHEMA_VERSION ''peer-a'' (Some ''alice''),
                     sample_handoff 9 (SCHEMA_VERSION + 1) ''peer-b'' (Some ''bob'')]
      in case adopt_inflight_sessions (env_set ENV_SESSIONS ''json'' (env_remove ENV_SESSIONS (env_remove ENV_SESSIONS_FD e)))
                (\<lambda>_. Inl []) (\<lambda>_. Inr records) (\<lambda>_. Inr ()) (\<lambda>_. ([], []))
                \<lparr>p_registry = session_registry_default, p_tasks = [], p_closed = []\<rparr> of
           Inl _ \<Rightarrow> False
         | Inr p \<Rightarrow>
             length (reg_sessions (p_registry p)) = 1 \<and>
             Option.bind (map_of (reg_metadata (p_registry p)) ''peer-a'') sm_ident = Some ''alice'' \<and>
             map_of (reg_metadata (p_registry p)) ''peer-b'' = None)"

text \<open>
  The client sends nothing more: of the events of its session only decoding and writing can happen. It receives
  the line that was being written and the two that were buffered.
\<close>

definition adopted_session_flushes_pending_write_and_echoes_buffered_lines :: bool where
  "adopted_session_flushes_pending_write_and_echoes_buffered_lines \<longleftrightarrow>
     s_delivered (foldl (session_step newline_codec)
       (adopted_session ((sample_handoff 7 SCHEMA_VERSION ''peer-x'' None)
          \<lparr>partial_line_bytes := [98, 10, 99, 10], pending_write_bytes := [97, 10]\<rparr>) [] [])
       [WriteSome 2, Decode, WriteSome 2, Decode, WriteSome 2]) = [97, 10, 98, 10, 99, 10]"

definition test_metadata :: "string \<Rightarrow> session_metadata" where
  "test_metadata peer = \<lparr>sm_peer = peer, sm_ident = Some ''client-ident'', sm_trace_id = ''trace-1''\<rparr>"

definition sidecar_metadata_for_inactive_peer_is_not_stored :: bool where
  "sidecar_metadata_for_inactive_peer_is_not_stored \<longleftrightarrow>
     (case store_metadata_if_session_active (test_metadata ''peer-a'') session_registry_default of
        (active, r) \<Rightarrow> \<not> active \<and> map_of (reg_metadata r) ''peer-a'' = None)"

definition sidecar_metadata_for_active_peer_is_stored :: bool where
  "sidecar_metadata_for_active_peer_is_stored \<longleftrightarrow>
     (case store_metadata_if_session_active (test_metadata ''peer-a'')
             (session_registry_default\<lparr>reg_sessions := [(1, ''peer-a'')]\<rparr>) of
        (active, r) \<Rightarrow> active \<and> Option.bind (map_of (reg_metadata r) ''peer-a'') sm_ident = Some ''client-ident'')"

lemma payload_tests:
  assumes "isl (from_json ''not-json'')"
  shows "fd_session_payload_parse_error_is_fatal from_json" "env_session_payload_parse_error_is_nonfatal from_json"
  using assms by (auto simp: fd_session_payload_parse_error_is_fatal_def env_session_payload_parse_error_is_nonfatal_def
      parse_handoff_sessions_payload_def contains_text_def sublist_code split: sum.splits)

lemma socket_tests: "cleanup_generation_zero_socket_removes_file" "cleanup_generation_zero_socket_leaves_file_for_later_generations"
  by (simp_all add: cleanup_generation_zero_socket_removes_file_def
      cleanup_generation_zero_socket_leaves_file_for_later_generations_def cleanup_generation_zero_socket_def)

lemma handed_sessions_tests: "read_handoff_sessions_prefers_inherited_fd_over_env_payload e"
  "malformed_inherited_fd_is_fatal_even_if_env_payload_exists e" "adopt_inflight_sessions_skips_incompatible_records_only e"
proof -
  have names: "ENV_SESSIONS_FD \<noteq> ENV_SESSIONS"
    by (simp add: ENV_SESSIONS_FD_def ENV_SESSIONS_def)
  have bad: "parse_i32 ''not-a-fd'' = None"
    by (simp add: parse_i32_def parse_unsigned_def parse_digits_def digits_value_def char_digit_def)
  have seven: "parse_i32 (dec_int 7) = Some 7"
    by (simp add: i32_range_def)
  show "read_handoff_sessions_prefers_inherited_fd_over_env_payload e"
    by (simp add: read_handoff_sessions_prefers_inherited_fd_over_env_payload_def read_handoff_sessions_json_def sessions_env_def
        seven and_then_def with_context_def del: parse_i32_dec)
  show "malformed_inherited_fd_is_fatal_even_if_env_payload_exists e"
    by (simp add: malformed_inherited_fd_is_fatal_even_if_env_payload_exists_def read_handoff_sessions_json_def sessions_env_def
        bad contains_text_def sublist_Cons_right)
  show "adopt_inflight_sessions_skips_incompatible_records_only e"
    using names
    by (simp add: adopt_inflight_sessions_skips_incompatible_records_only_def adopt_inflight_sessions_def
        read_handoff_sessions_json_def parse_handoff_sessions_payload_def and_then_def sample_handoff_def is_schema_compatible_def
        SCHEMA_VERSION_def MIN_COMPATIBLE_VERSION_def adopt_one_def spawn_session_def register_session_def
        session_registry_default_def adopted_session_def word_le_nat_alt Let_def)
qed

lemma adopted_session_test: "adopted_session_flushes_pending_write_and_echoes_buffered_lines"
  by (simp add: adopted_session_flushes_pending_write_and_echoes_buffered_lines_def adopted_session_def sample_handoff_def
      start_phase_def newline_codec_def Let_def)

lemma sidecar_tests: "sidecar_metadata_for_inactive_peer_is_not_stored" "sidecar_metadata_for_active_peer_is_stored"
  by (simp_all add: sidecar_metadata_for_inactive_peer_is_not_stored_def sidecar_metadata_for_active_peer_is_stored_def
      store_metadata_if_session_active_def test_metadata_def session_registry_default_def peer_active_def)

section \<open>Tests of the ident exchange (src/scanner.rs)\<close>

text \<open>
  The mock server of the tests answers a query \<^verbatim>\<open>lport,rport\<close> with the two ports and a user name; \<^verbatim>\<open>query\<close> is the line
  it was sent.
\<close>

definition mock_reply :: "string \<Rightarrow> string \<Rightarrow> string \<Rightarrow> string" where
  "mock_reply lport rport username = lport @ '', '' @ rport @ '' : USERID : UNIX : '' @ username @ [cr, nl]"

definition mock_identd :: "string \<Rightarrow> string \<Rightarrow> string \<Rightarrow> ident_stream" where
  "mock_identd lport rport username = \<lparr>
     is_write = (\<lambda>query. if query = lport @ '','' @ rport @ [cr, nl] then InTime (Inr ()) else InTime (Inl [''unexpected query''])),
     is_read = (\<lambda>n. InTime (Inr (take n (mock_reply lport rport username))))\<rparr>"

definition closed_stream :: ident_stream where
  "closed_stream = \<lparr>is_write = (\<lambda>_. InTime (Inr ())), is_read = (\<lambda>_. InTime (Inr []))\<rparr>"

definition broken_stream :: ident_stream where
  "broken_stream = \<lparr>is_write = (\<lambda>_. InTime (Inl [''broken pipe''])), is_read = (\<lambda>_. InTime (Inr []))\<rparr>"

definition ident_lookup_returns_username_from_mock_identd :: bool where
  "ident_lookup_returns_username_from_mock_identd \<longleftrightarrow>
     ident_lookup (\<lambda>_. InTime (Inr (mock_identd ''12345'' ''7070'' ''alice''))) ''127.0.0.1'' 12345 7070 40113 =
       Some ''12345, 7070 : USERID : UNIX : alice''"

definition ident_lookup_returns_none_when_nothing_listens :: bool where
  "ident_lookup_returns_none_when_nothing_listens \<longleftrightarrow>
     ident_lookup (\<lambda>_. InTime (Inl [''connection refused''])) ''127.0.0.1'' 12345 7070 1 = None"

definition ident_lookup_returns_none_when_server_closes_without_responding :: bool where
  "ident_lookup_returns_none_when_server_closes_without_responding \<longleftrightarrow>
     ident_lookup (\<lambda>_. InTime (Inr closed_stream)) ''127.0.0.1'' 12345 7070 40113 = None"

definition ident_exchange_returns_trimmed_reply :: bool where
  "ident_exchange_returns_trimmed_reply \<longleftrightarrow>
     ident_exchange (mock_identd ''5000'' ''113'' ''alice'') 5000 113 = Some ''5000, 113 : USERID : UNIX : alice''"

definition ident_exchange_write_error_returns_none :: bool where
  "ident_exchange_write_error_returns_none \<longleftrightarrow> ident_exchange broken_stream 1 2 = None"

definition ident_exchange_empty_reply_returns_none :: bool where
  "ident_exchange_empty_reply_returns_none \<longleftrightarrow> ident_exchange closed_stream 1 2 = None"

text \<open>A reply in ASCII comes back without the line end.\<close>

lemma ascii_encoded: "\<forall>c \<in> set s. byte c < 0x80 \<Longrightarrow> encoded (map of_char s) = s \<and> list_all unicode_scalar (map of_char s)"
  by (induction s) (auto simp: utf8_encode_def code_bytes_def unicode_scalar_def)

lemma trimmed_reply:
  assumes "\<forall>c \<in> set s. byte c < 0x80" "s \<noteq> []" "of_char (hd s) \<notin> set white_points" "of_char (last s) \<notin> set white_points"
  shows "trim (utf8_lossy (s @ [cr, nl])) = s"
proof -
  let ?cps = "map of_char s :: nat list"
  have a: "\<forall>c \<in> set (s @ [cr, nl]). byte c < 0x80"
    using assms(1) by simp
  have "dropWhile (\<lambda>c. c \<in> set white_points) (map of_char (s @ [cr, nl])) = map of_char (s @ [cr, nl])"
    using assms(2,3) by (cases s) simp_all
  moreover have "dropWhile (\<lambda>c. c \<in> set white_points) (rev (map of_char (s @ [cr, nl]))) = rev ?cps"
    using assms(2,4) by (cases s rule: rev_cases) (simp_all add: white_points_def)
  ultimately have "trim_points (map of_char (s @ [cr, nl])) = ?cps"
    by (simp add: trim_points_def)
  moreover have "utf8_lossy (s @ [cr, nl]) = s @ [cr, nl]"
    by (rule utf8_lossy_ascii [OF a])
  ultimately show ?thesis
    using trim_encoded [of "map of_char (s @ [cr, nl])"] ascii_encoded [OF a] ascii_encoded [OF assms(1)] by metis
qed

lemma dec_ports: "dec 12345 = ''12345''" "dec 7070 = ''7070''" "dec 5000 = ''5000''" "dec 113 = ''113''"
  by (simp_all add: dec_def to_digits.simps digit_char_def char_of_def bit_0)

lemma mock_exchange:
  assumes "dec (unat p) = lport" "dec (unat q) = rport" and line: "mock_reply lport rport user = s @ [cr, nl]" "length s \<le> 254"
    and "trim (utf8_lossy (s @ [cr, nl])) = s"
  shows "ident_exchange (mock_identd lport rport user) p q = Some s"
  using assms by (simp add: ident_exchange_def mock_identd_def ident_query_def Let_def)

lemma ident_reply_tests: "ident_lookup_returns_username_from_mock_identd" "ident_exchange_returns_trimmed_reply"
proof -
  have "trim (utf8_lossy (''12345, 7070 : USERID : UNIX : alice'' @ [cr, nl])) = ''12345, 7070 : USERID : UNIX : alice''"
    "trim (utf8_lossy (''5000, 113 : USERID : UNIX : alice'' @ [cr, nl])) = ''5000, 113 : USERID : UNIX : alice''"
    by (rule trimmed_reply; simp add: white_points_def)+
  note replies = mock_exchange [OF _ _ _ _ this(1), of 12345 "''12345''" 7070 "''7070''" "''alice''"]
    mock_exchange [OF _ _ _ _ this(2), of 5000 "''5000''" 113 "''113''" "''alice''"]
  show "ident_lookup_returns_username_from_mock_identd"
    unfolding ident_lookup_returns_username_from_mock_identd_def ident_lookup_def
    by (simp only: timed.case sum.case, rule replies(1)) (simp_all add: dec_ports mock_reply_def)
  show "ident_exchange_returns_trimmed_reply"
    unfolding ident_exchange_returns_trimmed_reply_def
    by (rule replies(2)) (simp_all add: dec_ports mock_reply_def)
qed

lemma ident_silence_tests: "ident_lookup_returns_none_when_nothing_listens"
  "ident_lookup_returns_none_when_server_closes_without_responding" "ident_exchange_write_error_returns_none"
  "ident_exchange_empty_reply_returns_none"
  by (simp_all add: ident_lookup_returns_none_when_nothing_listens_def ident_exchange_write_error_returns_none_def
      ident_lookup_returns_none_when_server_closes_without_responding_def ident_exchange_empty_reply_returns_none_def
      ident_lookup_def ident_exchange_def closed_stream_def broken_stream_def)

section \<open>Tests of the TLS bridge (src/acceptor/tls_client.rs)\<close>

definition bridge_run :: "duration \<Rightarrow> bridge_event list \<Rightarrow> bridge" where
  "bridge_run idle evs = foldl (bridge_step idle) (bridge_start 0) evs"

text \<open>Bytes go through, then both streams are closed.\<close>

definition idle_zero_bridges_without_timeout :: bool where
  "idle_zero_bridges_without_timeout \<longleftrightarrow>
     (let hello = map of_char ''hello''; b = bridge_run 0 [ReadSome AtoB hello, WriteSomeTo AtoB 5 0];
          b' = foldl (bridge_step 0) b [ReadStop AtoB, SeesToken BtoA, ExternalSeesToken, AllJoined]
      in d_written (br_dirs b AtoB) = hello \<and> br_exit b' = Some BridgeEnded)"

definition cancel_stops_bridge_and_reports_cancelled :: bool where
  "cancel_stops_bridge_and_reports_cancelled \<longleftrightarrow>
     (let ping = map of_char ''ping''; b = bridge_run (from_secs 30) [ReadSome AtoB ping, WriteSomeTo AtoB 4 0];
          b' = foldl (bridge_step (from_secs 30)) b [UpgradeCancel, SeesToken AtoB, SeesToken BtoA, AllJoined]
      in d_written (br_dirs b AtoB) = ping \<and> br_exit b' = Some BridgeCancelled)"

definition idle_timeout_closes_silent_bridge :: bool where
  "idle_timeout_closes_silent_bridge \<longleftrightarrow>
     br_exit (bridge_run (from_millis 200)
       [WatchdogWakes 100, WatchdogWakes 200, WatchdogWakes 300, SeesToken AtoB, SeesToken BtoA, ExternalSeesToken, AllJoined]) =
       Some BridgeEnded"

text \<open>A byte every 100 ms, and a watchdog that wakes in between.\<close>

definition keepalive_holds_bridge_open :: bool where
  "keepalive_holds_bridge_open \<longleftrightarrow>
     br_exit (bridge_run (from_millis 300)
       (concat (map (\<lambda>t. [ReadSome AtoB [120], WriteSomeTo AtoB 1 t, WatchdogWakes (t + 50)]) [0, 100, 200, 300, 400]))) = None"

definition failed_tls_handshake_does_not_open_processor_session :: bool where
  "failed_tls_handshake_does_not_open_processor_session \<longleftrightarrow>
     (case enter_client True client_registry_default of
        (cid, r) \<Rightarrow> run_tls_client \<lparr>st_handshake = RaceDone (Inl [''corrupt message'']), st_open = RaceDone (Inr ()),
            st_exit = BridgeEnded, st_tcp_std = Inr 5, st_uds_std = Inr 6\<rparr> ''p'' = (RxDropped :: unit handoff_rx) \<and>
          cr_clients (leave_client cid r) = [])"

lemma bridge_tests: "idle_zero_bridges_without_timeout" "cancel_stops_bridge_and_reports_cancelled"
  "idle_timeout_closes_silent_bridge" "keepalive_holds_bridge_open"
  by (simp_all add: idle_zero_bridges_without_timeout_def cancel_stops_bridge_and_reports_cancelled_def
      idle_timeout_closes_silent_bridge_def keepalive_holds_bridge_open_def bridge_run_def bridge_step_def bridge_start_def
      set_dir_def cancel_token_def exit_of_def idle_expired_def from_millis_def from_secs_def duration_millis_u64_def
      saturating_sub_def as_millis_def word_less_nat_alt word_le_nat_alt Let_def)

lemma handshake_test: "failed_tls_handshake_does_not_open_processor_session"
  by (simp add: failed_tls_handshake_does_not_open_processor_session_def enter_client_def leave_client_def
      client_registry_default_def run_tls_client_def)

end
