(* ===== verification/Client_Tests.thy ===== *)
theory Client_Tests
  imports Unit_Tests Cli Health
begin

text \<open>
  The unit tests of the command line, the admin client, the handoff primitives, the envelope, the health endpoint and the
  configuration, run on the model in the way of \<open>Unit_Tests\<close>.
\<close>

section \<open>Tests of the arguments (src/main.rs)\<close>

definition no_flag_returns_none_and_original_args :: bool where
  "no_flag_returns_none_and_original_args \<longleftrightarrow>
     extract_config_flag [''--target'', ''/path'', ''--include-tls''] = (None, [''--target'', ''/path'', ''--include-tls''])"

definition leading_config_flag_extracted :: bool where
  "leading_config_flag_extracted \<longleftrightarrow>
     extract_config_flag [''--config'', ''/etc/fdpass.toml'', ''--target'', ''x''] = (Some ''/etc/fdpass.toml'', [''--target'', ''x''])"

definition mid_args_config_flag_extracted :: bool where
  "mid_args_config_flag_extracted \<longleftrightarrow>
     extract_config_flag [''--target'', ''x'', ''--config'', ''c.toml''] = (Some ''c.toml'', [''--target'', ''x''])"

definition dangling_config_flag_is_left_alone :: bool where
  "dangling_config_flag_is_left_alone \<longleftrightarrow>
     extract_config_flag [''--target'', ''x'', ''--config''] = (None, [''--target'', ''x'', ''--config''])"

definition empty_args_returns_empty :: bool where
  "empty_args_returns_empty \<longleftrightarrow> extract_config_flag [] = (None, [])"

definition global_config_before_subcommand_is_accepted :: bool where
  "global_config_before_subcommand_is_accepted \<longleftrightarrow>
     fst (parse_cli_args [''--config'', ''/etc/fdpass.toml'', ''status'']) = Inr (''status'', Some ''/etc/fdpass.toml'', [])"

definition config_only_defaults_to_supervisor :: bool where
  "config_only_defaults_to_supervisor \<longleftrightarrow>
     fst (parse_cli_args [''--config'', ''c.toml'']) = Inr (''supervisor'', Some ''c.toml'', [])"

definition role_args_preserve_non_config_flags :: bool where
  "role_args_preserve_non_config_flags \<longleftrightarrow>
     fst (parse_cli_args [''upgrade'', ''--target'', ''bin'', ''--config'', ''c.toml'']) =
       Inr (''upgrade'', Some ''c.toml'', [''--target'', ''bin''])"

definition unknown_subcommand_errors :: bool where
  "unknown_subcommand_errors \<longleftrightarrow>
     (case fst (parse_cli_args [''bogus'']) of Inl e \<Rightarrow> contains_text ''unknown subcommand'' e | Inr _ \<Rightarrow> False)"

lemma flag_tests: "no_flag_returns_none_and_original_args" "leading_config_flag_extracted" "mid_args_config_flag_extracted"
  "dangling_config_flag_is_left_alone" "empty_args_returns_empty"
  by (simp_all add: no_flag_returns_none_and_original_args_def leading_config_flag_extracted_def
      mid_args_config_flag_extracted_def dangling_config_flag_is_left_alone_def empty_args_returns_empty_def)

lemma subcommand_tests: "global_config_before_subcommand_is_accepted" "config_only_defaults_to_supervisor"
  "role_args_preserve_non_config_flags" "unknown_subcommand_errors"
  by (simp_all add: global_config_before_subcommand_is_accepted_def config_only_defaults_to_supervisor_def
      role_args_preserve_non_config_flags_def unknown_subcommand_errors_def parse_cli_args_def subcommands_def Let_def
      contains_text_def)

section \<open>Tests of the admin client (src/admin.rs)\<close>

text \<open>
  The mock supervisor of the tests: it takes one request and answers with the given responses, one per line, and
  closes the connection. The lines are letters; the codec reads a letter as the response at its place, and nothing else.
\<close>

definition mock_reads :: "admin_resp list \<Rightarrow> (string result \<times> injected_fault option) list" where
  "mock_reads rs = map (\<lambda>i. (Inr [char_of (97 + i), nl], None)) [0..<length rs]"

definition mock_conn :: "(string result \<times> injected_fault option) list \<Rightarrow> admin_conn" where
  "mock_conn reads = \<lparr>ac_connect = Inr (), ac_write = Inr (), ac_reads = reads\<rparr>"

definition mock_codec :: "admin_resp list \<Rightarrow> admin_codec" where
  "mock_codec rs = \<lparr>
     put_msg = (\<lambda>_. Inr ''request''),
     get_resp = (\<lambda>s. case s of
        [c] \<Rightarrow> Inr \<lparr>envelope_version = SCHEMA_VERSION, envelope_msg = rs ! (of_char c - 97)\<rparr>
      | _ \<Rightarrow> Inl [''expected value''])\<rparr>"

definition no_conn :: admin_conn where
  "no_conn = \<lparr>ac_connect = Inl [''no such file''], ac_write = Inl [], ac_reads = []\<rparr>"

definition fails_with :: "string \<Rightarrow> 'a result \<times> cli_effect list \<Rightarrow> bool" where
  "fails_with text r \<longleftrightarrow> (case fst r of Inl e \<Rightarrow> contains_text text e | Inr _ \<Rightarrow> False)"

definition succeeds :: "'a result \<times> cli_effect list \<Rightarrow> bool" where
  "succeeds r \<longleftrightarrow> \<not> isl (fst r)"

definition upgrade_help_returns_ok :: bool where
  "upgrade_help_returns_ok \<longleftrightarrow>
     succeeds (run_upgrade (mock_codec []) ''admin'' no_conn [''--help'']) \<and>
     succeeds (run_upgrade (mock_codec []) ''admin'' no_conn [''-h''])"

definition upgrade_unknown_arg_errors :: bool where
  "upgrade_unknown_arg_errors \<longleftrightarrow>
     fails_with ''unknown argument'' (run_upgrade (mock_codec []) ''admin'' no_conn [''--bogus''])"

definition upgrade_missing_values_error_before_dial :: bool where
  "upgrade_missing_values_error_before_dial \<longleftrightarrow>
     list_all (\<lambda>flag. fails_with ''requires'' (run_upgrade (mock_codec []) ''admin'' no_conn [flag]))
       [''--target'', ''--canary'', ''--role''] \<and>
     fails_with ''non-negative integer'' (run_upgrade (mock_codec []) ''admin'' no_conn [''--canary'', ''soon''])"

definition status_drain_reload_help_and_unknown_arg :: bool where
  "status_drain_reload_help_and_unknown_arg \<longleftrightarrow>
     succeeds (run_status (mock_codec []) ''admin'' no_conn 0 [''--help'']) \<and>
     succeeds (run_drain (mock_codec []) ''admin'' no_conn [''-h'']) \<and>
     succeeds (run_reload (mock_codec []) ''admin'' no_conn [''--help'']) \<and>
     fails_with ''unknown argument'' (run_status (mock_codec []) ''admin'' no_conn 0 [''--nope'']) \<and>
     fails_with ''unknown argument'' (run_drain (mock_codec []) ''admin'' no_conn [''--nope'']) \<and>
     fails_with ''unknown argument'' (run_reload (mock_codec []) ''admin'' no_conn [''--nope''])"

definition format_helpers_cover_all_branches :: bool where
  "format_helpers_cover_all_branches \<longleftrightarrow>
     format_state Healthy = ''healthy'' \<and> format_state Backoff = ''backoff'' \<and> format_state Flapping = ''flapping'' \<and>
     format_state Failed = ''FAILED'' \<and> format_backoff 500 = ''500ms'' \<and> format_backoff 1500 = ''1.5s'' \<and>
     format_uptime 5 = ''5s'' \<and> format_uptime 65 = ''1m05s'' \<and> format_uptime 3700 = ''1h01m''"

definition plain_status :: "u32 \<Rightarrow> u64 \<Rightarrow> u64 \<Rightarrow> worker_status" where
  "plain_status pid started n = \<lparr>ws_role = ''plain'', ws_pid = pid, ws_generation = 1, ws_started_at_unix_ms = started,
     ws_in_flight = n, ws_listener_addr = Some ''127.0.0.1:7070'', ws_rate_limiter_stats = None\<rparr>"

definition plain_health :: role_health where
  "plain_health = \<lparr>rh_role = ''plain'', rh_state = Healthy, rh_consecutive_fast_exits = 0, rh_next_backoff_ms = 0,
     rh_total_restarts = 0, rh_last_restart_at_unix_ms = None\<rparr>"

definition run_status_prints_table_on_status_response :: "u64 \<Rightarrow> bool" where
  "run_status_prints_table_on_status_response now \<longleftrightarrow>
     (let rs = [RespStatus [plain_status 42 (saturating_sub now 3700000) 0] [plain_health]]
      in succeeds (run_status (mock_codec rs) ''admin'' (mock_conn (mock_reads rs)) now []))"

definition run_status_error_and_unexpected_responses :: "u64 \<Rightarrow> bool" where
  "run_status_error_and_unexpected_responses now \<longleftrightarrow>
     (let run = (\<lambda>r. run_status (mock_codec [r]) ''admin'' (mock_conn (mock_reads [r])) now [])
      in fails_with ''admin error'' (run (RespError ''boom'')) \<and> fails_with ''unexpected response'' (run RespOk))"

definition dial_and_request_closed_and_malformed :: "u64 \<Rightarrow> bool" where
  "dial_and_request_closed_and_malformed now \<longleftrightarrow>
     fails_with ''closed connection'' (run_status (mock_codec []) ''admin'' (mock_conn []) now []) \<and>
     fails_with ''admin response''
       (run_status (mock_codec []) ''admin'' (mock_conn [(Inr (''not json'' @ [nl]), None)]) now [])"

definition run_drain_all_arms :: bool where
  "run_drain_all_arms \<longleftrightarrow>
     (let run = (\<lambda>r. run_drain (mock_codec [r]) ''admin'' (mock_conn (mock_reads [r])) [])
      in succeeds (run RespOk) \<and> fails_with ''admin error'' (run (RespError ''no'')) \<and>
         fails_with ''unexpected response'' (run (RespStatus [] [])))"

definition run_reload_all_arms :: bool where
  "run_reload_all_arms \<longleftrightarrow>
     (let run = (\<lambda>r. run_reload (mock_codec [r]) ''admin'' (mock_conn (mock_reads [r])) [])
      in succeeds (run RespOk) \<and> fails_with ''admin error'' (run (RespError ''no'')) \<and>
         fails_with ''unexpected response'' (run (UpgradeComplete True)))"

definition run_upgrade_streams_all_phases_to_completion :: bool where
  "run_upgrade_streams_all_phases_to_completion \<longleftrightarrow>
     (let stp = (\<lambda>phase before after. UpgradeStep ''plain'' phase before after True (Some ''moved''));
          rs = [stp Starting None None, stp Done (Some 1) (Some 2), stp Timeout (Some 3) None, stp Skipped None None,
                stp CanaryAborted None None, UpgradeComplete True]
      in succeeds (run_upgrade (mock_codec rs) ''admin'' (mock_conn (mock_reads rs)) []))"

definition run_upgrade_failure_and_error_and_unexpected :: bool where
  "run_upgrade_failure_and_error_and_unexpected \<longleftrightarrow>
     (let run = (\<lambda>rs. run_upgrade (mock_codec rs) ''admin'' (mock_conn (mock_reads rs)) [])
      in fails_with ''upgrade failed'' (run [UpgradeStep ''tls'' Timeout (Some 1) None False None, UpgradeComplete False]) \<and>
         fails_with ''admin error'' (run [RespError ''nope'']) \<and>
         fails_with ''unexpected response during rolling upgrade'' (run [RespOk]) \<and>
         fails_with ''without UpgradeComplete'' (run [UpgradeStep ''plain'' Starting None None True None]))"

lemma usage_tests: "upgrade_help_returns_ok" "upgrade_unknown_arg_errors" "status_drain_reload_help_and_unknown_arg"
  by (simp_all add: upgrade_help_returns_ok_def upgrade_unknown_arg_errors_def status_drain_reload_help_and_unknown_arg_def
      run_upgrade_def run_status_def run_drain_def run_reload_def no_args_def succeeds_def fails_with_def contains_text_def)

lemma missing_value_tests: "upgrade_missing_values_error_before_dial"
proof -
  have "parse_u64 ''soon'' = None"
    by (simp add: parse_u64_def parse_unsigned_def parse_digits_def digits_value_def char_digit_def)
  then show ?thesis
    by (simp add: upgrade_missing_values_error_before_dial_def run_upgrade_def fails_with_def contains_text_def sublist_code)
qed

lemma dec_durations: "dec 500 = ''500''" "dec 5 = ''5''" "dec 1 = ''1''"
  by (simp_all add: dec_def to_digits.simps digit_char_def char_of_def bit_0)

lemma padded_durations: "zero_pad (Suc 0) ''5'' = ''5''" "zero_pad 2 ''5'' = ''05''" "zero_pad 2 ''1'' = ''01''"
  by (simp_all add: zero_pad_def numeral_2_eq_2)

lemma format_tests: "format_helpers_cover_all_branches"
  using dec_durations padded_durations
  by (simp add: format_helpers_cover_all_branches_def format_state_def format_backoff_def format_uptime_def
      word_less_nat_alt)

text \<open>A line without white space at its ends, read with its line feed, is trimmed to itself.\<close>

definition graphic :: "char \<Rightarrow> bool" where
  "graphic c \<longleftrightarrow> 32 < (of_char c :: nat) \<and> (of_char c :: nat) < 127"

lemma white_not_graphic:
  assumes "w \<in> set white_space"
  shows "\<not> graphic (hd w) \<and> \<not> graphic (last w) \<and> w \<noteq> []"
  using assms by (auto simp: white_space_def graphic_def)

lemma strip_graphic:
  assumes "graphic c" and "ws = white_space \<or> ws = map rev white_space"
  shows "strip_start ws (c # s) = c # s"
proof -
  have "\<not> starts_with w (c # s)" if "w \<in> set ws" for w
  proof -
    have "\<not> graphic (hd w)" "w \<noteq> []"
      using that assms(2) white_not_graphic by (auto simp: hd_rev) blast
    then show ?thesis
      using assms(1) by (cases w) (auto simp: starts_with_def)
  qed
  then have "List.find (\<lambda>w. w \<noteq> [] \<and> starts_with w (c # s)) ws = None"
    by (auto simp: find_None_iff)
  then show ?thesis
    by (subst strip_start.simps) simp
qed

lemma strip_line_feed: "strip_start (map rev white_space) (nl # s) = strip_start (map rev white_space) s"
proof -
  have "List.find (\<lambda>w. w \<noteq> [] \<and> starts_with w (nl # s)) (map rev white_space) = Some [nl]"
    by (simp add: white_space_def starts_with_def char_of_def bit_0)
  then show ?thesis
    by (subst strip_start.simps) simp
qed

lemma trim_line:
  assumes "graphic c" and "graphic (last (c # s))"
  shows "trim (c # s @ [nl]) = c # s"
proof -
  obtain d ds where d: "rev (c # s) = d # ds"
    by (cases "rev (c # s)") auto
  then have "d = last (c # s)"
    using hd_rev [of "c # s"] by simp
  with assms(2) have "graphic d"
    by simp
  then have "strip_start (map rev white_space) (rev (c # s)) = rev (c # s)"
    unfolding d by (rule strip_graphic) simp
  then show ?thesis
    using assms(1) by (simp add: trim_def strip_graphic strip_line_feed)
qed

lemma trim_lines: "trim ''a\<newline>'' = ''a''" "trim ''b\<newline>'' = ''b''" "trim ''c\<newline>'' = ''c''"
  "trim ''d\<newline>'' = ''d''" "trim ''e\<newline>'' = ''e''" "trim ''f\<newline>'' = ''f''" "trim ''not json\<newline>'' = ''not json''"
  using trim_line [where s = "[]"] trim_line [of "CHR ''n''" "''ot json''"] by (simp_all add: graphic_def)

text \<open>The lines of the mock supervisor as the client reads them.\<close>

lemma mock_reads_lines:
  "mock_reads [a] = [(Inr ''a\<newline>'', None)]"
  "mock_reads [a, b] = [(Inr ''a\<newline>'', None), (Inr ''b\<newline>'', None)]"
  "mock_reads [a, b, c, d, e, f] = [(Inr ''a\<newline>'', None), (Inr ''b\<newline>'', None), (Inr ''c\<newline>'', None),
     (Inr ''d\<newline>'', None), (Inr ''e\<newline>'', None), (Inr ''f\<newline>'', None)]"
  by (simp_all add: mock_reads_def upt_rec char_of_def bit_0)

lemma mock_conn_reads: "ac_reads (mock_conn reads) = reads"
  by (simp add: mock_conn_def)

lemma mock_sends: "admin_send (mock_codec rs) sock (mock_conn reads) msg = Inr (''request'' @ [nl])"
  by (simp add: admin_send_def mock_codec_def mock_conn_def envelope_line_def and_then_def with_context_def)

lemma mock_responds: "read_resp (mock_codec rs) None [c] = Inr (rs ! (of_char c - 97))"
  by (simp add: read_resp_def mock_codec_def parse_envelope_def into_msg_def is_schema_compatible_def SCHEMA_VERSION_def
      MIN_COMPATIBLE_VERSION_def with_context_def)

lemmas mock_exchange_simps = mock_conn_reads mock_sends mock_responds mock_reads_lines trim_lines

lemma dial_mock: "dial_and_request (mock_codec [r]) sock (mock_conn (mock_reads [r])) msg = (Inr r, [Request (''request'' @ [nl])])"
  by (simp add: mock_exchange_simps dial_and_request_def)

lemma one_response_tests: "run_status_prints_table_on_status_response now" "run_status_error_and_unexpected_responses now"
  "run_drain_all_arms" "run_reload_all_arms"
  by (simp_all add: run_status_prints_table_on_status_response_def run_status_error_and_unexpected_responses_def
      run_drain_all_arms_def run_reload_all_arms_def run_status_def run_drain_def run_reload_def dial_mock no_args_def
      succeeds_def fails_with_def contains_text_def sublist_code Let_def)

lemma mock_rejects: "read_resp (mock_codec rs) None ''not json'' =
    Inl (''incompatible admin response: not json'' # [''expected value''])"
  by (simp add: read_resp_def mock_codec_def parse_envelope_def with_context_def)

lemma closed_and_malformed_tests: "dial_and_request_closed_and_malformed now"
  using trim_length [of "[]"]
  by (simp add: dial_and_request_closed_and_malformed_def run_status_def dial_and_request_def mock_exchange_simps
      mock_rejects no_args_def fails_with_def contains_text_def sublist_code Let_def)

lemma upgrade_stream_tests: "run_upgrade_streams_all_phases_to_completion" "run_upgrade_failure_and_error_and_unexpected"
  by (simp_all add: run_upgrade_streams_all_phases_to_completion_def run_upgrade_failure_and_error_and_unexpected_def
      run_upgrade_def stream_upgrade_def mock_exchange_simps succeeds_def fails_with_def contains_text_def sublist_code Let_def)

section \<open>Tests of the handoff (src/handoff.rs)\<close>

text \<open>
  The tests of the environment run under a guard of \<open>Test_Env\<close>, in any environment; those of the close-on-exec flags
  with a \<^verbatim>\<open>fcntl\<close> that refuses nothing, on the two distinct descriptors of a fresh pipe.
\<close>

definition schema_compatibility_window :: bool where
  "schema_compatibility_window \<longleftrightarrow>
     is_schema_compatible SCHEMA_VERSION \<and> is_schema_compatible MIN_COMPATIBLE_VERSION \<and>
     \<not> is_schema_compatible 0 \<and> \<not> is_schema_compatible (SCHEMA_VERSION + 1)"

definition new_trace_id_format :: "u32 \<Rightarrow> u64 \<Rightarrow> bool" where
  "new_trace_id_format pid n \<longleftrightarrow>
     (let (a, n') = new_trace_id pid n; (b, n'') = new_trace_id pid n'
      in length a = 8 + 1 + 16 \<and> CHR ''-'' \<in> set a \<and> a \<noteq> b)"

definition env_raw_fd_parses_valid_numeric :: "env \<Rightarrow> bool" where
  "env_raw_fd_parses_valid_numeric e \<longleftrightarrow>
     env_raw_fd (snd (guard_set ''FDPASS_TEST_ENVRAWFD_VALID'' ''42'' e)) ''FDPASS_TEST_ENVRAWFD_VALID'' = Some 42"

definition env_raw_fd_returns_none_when_unset :: "env \<Rightarrow> bool" where
  "env_raw_fd_returns_none_when_unset e \<longleftrightarrow>
     env_raw_fd (snd (guard_unset ''FDPASS_TEST_ENVRAWFD_UNSET'' e)) ''FDPASS_TEST_ENVRAWFD_UNSET'' = None"

definition env_raw_fd_returns_none_for_non_numeric :: "env \<Rightarrow> bool" where
  "env_raw_fd_returns_none_for_non_numeric e \<longleftrightarrow>
     env_raw_fd (snd (guard_set ''FDPASS_TEST_ENVRAWFD_NONNUMERIC'' ''notanumber'' e)) ''FDPASS_TEST_ENVRAWFD_NONNUMERIC'' = None"

definition resolve_upgrade_exe_uses_override_when_some :: bool where
  "resolve_upgrade_exe_uses_override_when_some \<longleftrightarrow>
     resolve_upgrade_exe (Some ''/opt/new-echod'') ''/opt/old-echod'' = ''/opt/new-echod''"

definition resolve_upgrade_exe_falls_back_to_cached_when_none :: bool where
  "resolve_upgrade_exe_falls_back_to_cached_when_none \<longleftrightarrow> resolve_upgrade_exe None ''/opt/old-echod'' = ''/opt/old-echod''"

definition fdpass_env_to_remove_includes_fdpass_and_excludes_preserved :: "env \<Rightarrow> bool" where
  "fdpass_env_to_remove_includes_fdpass_and_excludes_preserved e \<longleftrightarrow>
     (let e' = snd (guard_set ''FDPASS_LOG_FORMAT'' ''text'' (snd (guard_set ''FDPASS_TEST_TOREMOVE_SENTINEL'' ''yes'' e)));
          names = fdpass_env_to_remove e'
      in ''FDPASS_TEST_TOREMOVE_SENTINEL'' \<in> set names \<and> ''FDPASS_LOG_FORMAT'' \<notin> set names)"

definition scrub_fdpass_env_removes_fdpass_vars_from_command :: "env \<Rightarrow> bool" where
  "scrub_fdpass_env_removes_fdpass_vars_from_command e \<longleftrightarrow>
     (let e' = snd (guard_set ''FDPASS_TEST_SCRUB_VERIFY'' ''sentinel'' e)
      in env_var (scrub_fdpass_env e' e') ''FDPASS_TEST_SCRUB_VERIFY'' = None)"

definition make_ready_pipe_and_set_clear_cloexec :: "raw_fd \<Rightarrow> raw_fd \<Rightarrow> cloexec_flags \<Rightarrow> bool" where
  "make_ready_pipe_and_set_clear_cloexec r w t \<longleftrightarrow>
     (case make_ready_pipe (\<lambda>_ _. None) (Inr (r, w)) t of
        Inl _ \<Rightarrow> False
      | Inr ((r', w'), t1) \<Rightarrow> t1 r' \<and>
          (case clear_cloexec (\<lambda>_ _. None) w' t1 of
             Inl _ \<Rightarrow> False
           | Inr t2 \<Rightarrow> \<not> t2 w' \<and> (case set_cloexec (\<lambda>_ _. None) w' t2 of Inl _ \<Rightarrow> False | Inr t3 \<Rightarrow> t3 w')))"

definition cloexec_guard_restores_on_drop :: "raw_fd \<Rightarrow> raw_fd \<Rightarrow> cloexec_flags \<Rightarrow> bool" where
  "cloexec_guard_restores_on_drop r w t \<longleftrightarrow>
     (case and_then (make_ready_pipe (\<lambda>_ _. None) (Inr (r, w)) t) (\<lambda>((r', _), t1). guard_clear (\<lambda>_ _. None) r' t1) of
        Inl _ \<Rightarrow> False
      | Inr (g, t2) \<Rightarrow> \<not> t2 r \<and> guard_drop (\<lambda>_ _. None) g t2 r)"

definition cloexec_guard_commit_leaves_cloexec_cleared :: "raw_fd \<Rightarrow> raw_fd \<Rightarrow> cloexec_flags \<Rightarrow> bool" where
  "cloexec_guard_commit_leaves_cloexec_cleared r w t \<longleftrightarrow>
     (case and_then (make_ready_pipe (\<lambda>_ _. None) (Inr (r, w)) t) (\<lambda>((r', _), t1). guard_clear (\<lambda>_ _. None) r' t1) of
        Inl _ \<Rightarrow> False
      | Inr (g, t2) \<Rightarrow> \<not> guard_commit (\<lambda>_ _. None) g t2 r)"

definition signal_ready_to_parent_is_noop_when_env_unset :: "(raw_fd \<Rightarrow> string \<Rightarrow> unit result) \<Rightarrow> bool" where
  "signal_ready_to_parent_is_noop_when_env_unset wr \<longleftrightarrow> \<not> isl (signal_ready_to_parent [] wr)"

definition wait_for_child_ready_succeeds_when_pipe_written :: bool where
  "wait_for_child_ready_succeeds_when_pipe_written \<longleftrightarrow> \<not> isl (wait_for_child_ready (ReadGot (''ok'' @ [nl])))"

definition wait_for_child_ready_errors_on_eof :: bool where
  "wait_for_child_ready_errors_on_eof \<longleftrightarrow> isl (wait_for_child_ready (ReadGot []))"

lemma schema_and_exe_tests: "schema_compatibility_window" "resolve_upgrade_exe_uses_override_when_some"
  "resolve_upgrade_exe_falls_back_to_cached_when_none"
  by (simp_all add: schema_compatibility_window_def resolve_upgrade_exe_uses_override_when_some_def
      resolve_upgrade_exe_falls_back_to_cached_when_none_def resolve_upgrade_exe_def is_schema_compatible_iff
      SCHEMA_VERSION_def MIN_COMPATIBLE_VERSION_def)

lemma trace_id_length: "length (fst (new_trace_id pid n)) = 25"
proof -
  have "length (zero_pad 8 (hex (unat pid))) = 8" "length (zero_pad 16 (hex (unat n))) = 16"
    using unat_below [of pid] unat_below [of n] by (intro length_hex_pad; simp)+
  then show ?thesis
    by (simp add: new_trace_id_def)
qed

lemma trace_id_test: "new_trace_id_format pid n"
proof -
  have "snd (new_trace_id pid n) \<noteq> n"
    by (simp add: new_trace_id_def)
  then have "fst (new_trace_id pid n) \<noteq> fst (new_trace_id pid (snd (new_trace_id pid n)))"
    using new_trace_id_parts [of pid n pid "snd (new_trace_id pid n)"] by auto
  moreover have "CHR ''-'' \<in> set (fst (new_trace_id pid n))"
    by (simp add: new_trace_id_def)
  ultimately show ?thesis
    using trace_id_length [of pid n] by (simp add: new_trace_id_format_def case_prod_unfold Let_def)
qed

lemma numeric_texts: "parse_i32 ''42'' = Some 42" "parse_i32 ''notanumber'' = None"
  by (simp_all add: parse_i32_def parse_unsigned_def parse_digits_def digits_value_def char_digit_def of_digits_def)

lemma env_raw_fd_tests: "env_raw_fd_parses_valid_numeric e" "env_raw_fd_returns_none_when_unset e"
  "env_raw_fd_returns_none_for_non_numeric e"
  by (simp_all add: env_raw_fd_parses_valid_numeric_def env_raw_fd_returns_none_when_unset_def
      env_raw_fd_returns_none_for_non_numeric_def env_raw_fd_def guard_set_def guard_unset_def numeric_texts)

lemma scrub_tests: "fdpass_env_to_remove_includes_fdpass_and_excludes_preserved e"
  "scrub_fdpass_env_removes_fdpass_vars_from_command e"
proof -
  have names: "k \<in> fst ` set (env_set k v e')" "k \<in> fst ` set (env_set k' v (env_set k v' e'))" for k k' v v' and e' :: env
    by (auto simp: env_set_def dom_update)
  show "fdpass_env_to_remove_includes_fdpass_and_excludes_preserved e"
    using names by (simp add: fdpass_env_to_remove_includes_fdpass_and_excludes_preserved_def fdpass_env_to_remove_set
        guard_set_def Let_def PRESERVED_ENV_def env_names starts_with_def)
  show "scrub_fdpass_env_removes_fdpass_vars_from_command e"
    by (simp add: scrub_fdpass_env_removes_fdpass_vars_from_command_def env_var_scrub guard_set_def PRESERVED_ENV_def
        env_names starts_with_def)
qed

lemma cloexec_tests:
  assumes "r \<noteq> w"
  shows "make_ready_pipe_and_set_clear_cloexec r w t" "cloexec_guard_restores_on_drop r w t"
    "cloexec_guard_commit_leaves_cloexec_cleared r w t"
  using assms
  by (simp_all add: make_ready_pipe_and_set_clear_cloexec_def cloexec_guard_restores_on_drop_def
      cloexec_guard_commit_leaves_cloexec_cleared_def make_ready_pipe_def set_cloexec_def clear_cloexec_def
      change_cloexec_def guard_clear_def guard_drop_def guard_commit_def and_then_def with_context_def)

lemma ready_tests: "signal_ready_to_parent_is_noop_when_env_unset wr" "wait_for_child_ready_succeeds_when_pipe_written"
  "wait_for_child_ready_errors_on_eof"
  by (simp_all add: signal_ready_to_parent_is_noop_when_env_unset_def wait_for_child_ready_succeeds_when_pipe_written_def
      wait_for_child_ready_errors_on_eof_def signal_ready_to_parent_def wait_for_child_ready_def env_var_def starts_with_def)

section \<open>Tests of the envelope (src/control.rs)\<close>

text \<open>The tests give the envelope as JSON text; here it is the value the parser delivers for it.\<close>

definition incompatible_high_version_rejected :: bool where
  "incompatible_high_version_rejected \<longleftrightarrow> isl (into_msg None \<lparr>envelope_version = 99, envelope_msg = Status\<rparr>)"

definition version_zero_rejected :: bool where
  "version_zero_rejected \<longleftrightarrow> isl (into_msg None \<lparr>envelope_version = 0, envelope_msg = Status\<rparr>)"

definition current_version_accepted :: bool where
  "current_version_accepted \<longleftrightarrow> into_msg None \<lparr>envelope_version = SCHEMA_VERSION, envelope_msg = Status\<rparr> = Inr Status"

lemma version_tests: "incompatible_high_version_rejected" "version_zero_rejected" "current_version_accepted"
  by (simp_all add: incompatible_high_version_rejected_def version_zero_rejected_def current_version_accepted_def
      into_msg_def is_schema_compatible_iff SCHEMA_VERSION_def)

section \<open>Tests of the health endpoint (src/health.rs)\<close>

text \<open>
  The JSON of the body is a parameter; what the tests look for in it is read off the value that is serialised. The
  client reads the status out of the first line.
\<close>

definition health_of :: "string \<Rightarrow> health_state \<Rightarrow> role_health" where
  "health_of role st = \<lparr>rh_role = role, rh_state = st, rh_consecutive_fast_exits = 0, rh_next_backoff_ms = 0,
     rh_total_restarts = 0, rh_last_restart_at_unix_ms = None\<rparr>"

definition healthy :: "role_health list" where
  "healthy = [
     (health_of ''processor'' Healthy)\<lparr>rh_next_backoff_ms := 200, rh_total_restarts := 1,
        rh_last_restart_at_unix_ms := Some 1700000000000\<rparr>,
     (health_of ''plain'' Backoff)\<lparr>rh_consecutive_fast_exits := 1, rh_next_backoff_ms := 400, rh_total_restarts := 3\<rparr>]"

definition one_failed :: "role_health list" where
  "one_failed = healthy @ [(health_of ''scanner'' Failed)\<lparr>rh_consecutive_fast_exits := 12, rh_next_backoff_ms := 30000,
     rh_total_restarts := 12\<rparr>]"

definition state_name_covers_all_variants :: bool where
  "state_name_covers_all_variants \<longleftrightarrow>
     state_name Healthy = ''healthy'' \<and> state_name Backoff = ''backoff'' \<and> state_name Flapping = ''flapping'' \<and>
     state_name Failed = ''failed''"

definition flapping_state_appears_in_health_body :: "(health_response \<Rightarrow> string result) \<Rightarrow> bool" where
  "flapping_state_appears_in_health_body to_json \<longleftrightarrow>
     (let snap = [(health_of ''tls'' Flapping)\<lparr>rh_consecutive_fast_exits := 5, rh_next_backoff_ms := 16000, rh_total_restarts := 5\<rparr>]
      in starts_with ''HTTP/1.1 200 '' (health_handle to_json snap) \<and>
         ''flapping'' \<in> re_state ` set (hr_roles (health_body snap)))"

definition oversized_request_still_gets_response :: "(health_response \<Rightarrow> string result) \<Rightarrow> bool" where
  "oversized_request_still_gets_response to_json \<longleftrightarrow>
     drain_headers [] [Inr (replicate 4096 (CHR ''A''))] = Some (Inr (replicate 4096 (CHR ''A''))) \<and>
     starts_with ''HTTP/1.1 200'' (health_handle to_json healthy)"

definition returns_200_when_all_roles_healthy_or_backoff :: "(health_response \<Rightarrow> string result) \<Rightarrow> bool" where
  "returns_200_when_all_roles_healthy_or_backoff to_json \<longleftrightarrow>
     (let body = health_body healthy
      in starts_with ''HTTP/1.1 200 '' (health_handle to_json healthy) \<and> hr_status body = ''ok'' \<and>
         ''processor'' \<in> re_role ` set (hr_roles body) \<and> ''backoff'' \<in> re_state ` set (hr_roles body))"

definition returns_503_when_any_role_failed :: "(health_response \<Rightarrow> string result) \<Rightarrow> bool" where
  "returns_503_when_any_role_failed to_json \<longleftrightarrow>
     (let body = health_body one_failed
      in starts_with ''HTTP/1.1 503 '' (health_handle to_json one_failed) \<and> hr_status body = ''degraded'' \<and>
         ''failed'' \<in> re_state ` set (hr_roles body))"

lemma dec_codes: "dec 200 = ''200''" "dec 503 = ''503''"
  by (simp_all add: dec_def to_digits.simps digit_char_def char_of_def bit_0)

lemma health_tests: "state_name_covers_all_variants" "flapping_state_appears_in_health_body to_json"
  "returns_200_when_all_roles_healthy_or_backoff to_json" "returns_503_when_any_role_failed to_json"
  "starts_with ''HTTP/1.1 200'' (health_handle to_json healthy)"
  using dec_codes
  by (simp_all add: state_name_covers_all_variants_def flapping_state_appears_in_health_body_def
      returns_200_when_all_roles_healthy_or_backoff_def returns_503_when_any_role_failed_def health_of_def healthy_def
      one_failed_def health_handle_def health_body_def http_response_def state_name_def starts_with_def Let_def)

lemma oversized_test: "oversized_request_still_gets_response to_json"
  using health_tests(5) by (simp add: oversized_request_still_gets_response_def Let_def BUF_LEN_def)

section \<open>Tests of the configuration (src/config.rs)\<close>

definition effective_sandbox_uses_override_then_global :: bool where
  "effective_sandbox_uses_override_then_global \<longleftrightarrow>
     (let sec = security_config_default\<lparr>sandbox := Strict, sandbox_overrides := [(''scanner'', Off)]\<rparr>
      in effective_sandbox sec ''scanner'' = Off \<and> effective_sandbox sec ''processor'' = Strict \<and>
         effective_sandbox sec ''tls'' = Strict)"

definition socket_path_helpers_use_sockets_dir :: bool where
  "socket_path_helpers_use_sockets_dir \<longleftrightarrow>
     (let c = config_default\<lparr>sockets_dir := ''/var/run/fdpass''\<rparr>
      in processor_sock c = ''/var/run/fdpass/fdpass-proc.sock'' \<and> admin_sock c = ''/var/run/fdpass/fdpass-admin.sock'' \<and>
         control_sock c ''tls'' = ''/var/run/fdpass/fdpass-ctrl-tls.sock'')"

definition ready_timeout_converts_secs_to_duration :: bool where
  "ready_timeout_converts_secs_to_duration \<longleftrightarrow> ready_timeout (config_default\<lparr>ready_timeout_secs := 9\<rparr>) = from_secs 9"

lemma config_tests: "effective_sandbox_uses_override_then_global" "socket_path_helpers_use_sockets_dir"
  "ready_timeout_converts_secs_to_duration"
  by (simp_all add: effective_sandbox_uses_override_then_global_def socket_path_helpers_use_sockets_dir_def
      ready_timeout_converts_secs_to_duration_def security_config_default_def effective_sandbox_def processor_sock_def
      admin_sock_def control_sock_def socket_path_def path_join_def ready_timeout_def Let_def)

end
