(* ===== verification/Descriptor_Custody.thy ===== *)
theory Descriptor_Custody
  imports Supervisor Tls_Session
begin

text \<open>
  The processes of the service together, as the owners of its listening sockets: the supervisor and its workers, each with the
  descriptors it has open and their close-on-exec flags. The steps are those of the program: a worker is spawned and
  fetches its listener from the spawner, a worker of any role attempts its upgrade, a process goes away, the supervisor takes
  a turn of its loop or is replaced by its successor. The code of every step is the model of its component; what is added here is
  what the system does with descriptors when a process is started, becomes another image, or receives one over a socket.
\<close>

section \<open>Descriptors across processes\<close>

text \<open>An open socket is known by a number; two descriptors with the same one refer to the same socket.\<close>

type_synonym open_files = "raw_fd \<rightharpoonup> nat"

text \<open>
  A started child, or the new image of a process, has the descriptors that are not close-on-exec, and none of
  them is close-on-exec afterwards. A descriptor received with \<^verbatim>\<open>MsgFlags::empty()\<close> is not close-on-exec either.
\<close>

definition inherited :: "open_files \<Rightarrow> cloexec_flags \<Rightarrow> open_files" where
  "inherited fs t = (\<lambda>fd. if t fd then None else fs fd)"

definition fresh_flags :: cloexec_flags where
  "fresh_flags = (\<lambda>_. False)"

section \<open>The listener of a worker\<close>

text \<open>Which of the two functions a role calls for its listener, and with what.\<close>

definition acquire_listener :: "string \<Rightarrow> open_os \<Rightarrow> raw_fd result \<Rightarrow> config \<Rightarrow> raw_fd result" where
  "acquire_listener role os request cfg =
     (if role = ''processor'' then fst (adopt_or_bind_uds_listener os request (processor_sock cfg))
      else if role = ''scanner'' then fst (adopt_or_bind_uds_listener os request (scanner_sock cfg))
      else if role = ''plain'' then adopt_or_bind_tcp_listener os request (plain_port cfg)
      else adopt_or_bind_tcp_listener os request (tls_port cfg))"

lemma acquire_from_predecessor:
  assumes "env_var (oo_env os) ENV_LISTENER_FD = Some (dec_int fd)" and "i32_range fd"
    and "acquire_listener role os request cfg = Inr l"
  shows "l = fd"
  using assms
  by (auto simp: acquire_listener_def adopt_or_bind_uds_listener_def adopt_or_bind_tcp_listener_def and_then_Inr_iff
      split: if_splits)

lemma acquire_from_spawner:
  assumes "env_var (oo_env os) ENV_LISTENER_FD = None" and "acquire_listener role os (Inr fd) cfg = Inr l"
  shows "l = fd"
  using assms
  by (auto simp: acquire_listener_def adopt_or_bind_uds_listener_def adopt_or_bind_tcp_listener_def and_then_Inr_iff
      split: if_splits)

lemma acquire_received:
  assumes "env_var (oo_env os) ENV_LISTENER_FD = None" and "oo_wrap os fd = Inr ()"
  shows "acquire_listener role os (Inr fd) cfg = Inr fd"
  using assms by (simp add: acquire_listener_def adopt_or_bind_uds_listener_def adopt_or_bind_tcp_listener_def)

section \<open>An attempt to upgrade a worker\<close>

datatype 'c attempt =
    PlainAttempt upgrade_os upgrade_ctx
  | ScannerAttempt upgrade_os upgrade_ctx instant "(nat \<times> instant) list"
  | ProcessorAttempt upgrade_os processor_os upgrade_ctx processor
  | TlsAttempt upgrade_os "u32 result" upgrade_ctx "'c tls_handoff list"

text \<open>
  How it leaves the process: it ends with an error, it goes on, it exits with the commit code while its child serves, or it has
  become the new image.
\<close>

datatype attempt_result = Died error | Stayed | Succeeded upgrade_cmd | Became upgrade_cmd

definition upgrade_result :: "upgrade_end \<Rightarrow> attempt_result" where
  "upgrade_result r = (case r of AttemptFailed e \<Rightarrow> Died e | RolledBack \<Rightarrow> Stayed | Committed cmd \<Rightarrow> Succeeded cmd)"

fun run_attempt :: "'c attempt \<Rightarrow> cloexec_flags \<Rightarrow> (attempt_result \<times> cloexec_flags) option" where
  "run_attempt (PlainAttempt os ctx) t = Some (map_prod upgrade_result (\<lambda>t. t) (do_upgrade_plain os ctx t))"
| "run_attempt (ScannerAttempt os ctx start polls) t =
     map_option (map_prod upgrade_result (\<lambda>t. t)) (do_upgrade_scanner os ctx start polls t)"
| "run_attempt (ProcessorAttempt os po ctx p) t =
     (case processor_do_upgrade os po ctx p t of
        (ProcFailed e, _, t') \<Rightarrow> Some (Died e, t')
      | (ProcRolledBack, _, t') \<Rightarrow> Some (Stayed, t')
      | (ProcCommitted cmd _ _, _, t') \<Rightarrow> Some (Succeeded cmd, t'))"
| "run_attempt (TlsAttempt os fork_res ctx hs) t =
     (case do_upgrade_tls_fork_drain os fork_res ctx hs t of
        (TlsFailed e, _, t') \<Rightarrow> Some (Died e, t')
      | (TlsExeced cmd, _, t') \<Rightarrow> Some (Became cmd, t'))"

fun attempt_role :: "'c attempt \<Rightarrow> string" where
  "attempt_role (PlainAttempt _ _) = ''plain''"
| "attempt_role (ScannerAttempt _ _ _ _) = ''scanner''"
| "attempt_role (ProcessorAttempt _ _ _ _) = ''processor''"
| "attempt_role (TlsAttempt _ _ _ _) = ''tls''"

fun attempt_os :: "'c attempt \<Rightarrow> upgrade_os" where
  "attempt_os (PlainAttempt os _) = os"
| "attempt_os (ScannerAttempt os _ _ _) = os"
| "attempt_os (ProcessorAttempt os _ _ _) = os"
| "attempt_os (TlsAttempt os _ _ _) = os"

fun attempt_ctx :: "'c attempt \<Rightarrow> upgrade_ctx" where
  "attempt_ctx (PlainAttempt _ ctx) = ctx"
| "attempt_ctx (ScannerAttempt _ ctx _ _) = ctx"
| "attempt_ctx (ProcessorAttempt _ _ ctx _) = ctx"
| "attempt_ctx (TlsAttempt _ _ ctx _) = ctx"

text \<open>The pipes the attempt creates.\<close>

definition pipe_ends :: "(raw_fd \<times> raw_fd) result \<Rightarrow> raw_fd list" where
  "pipe_ends p = (case p of Inl _ \<Rightarrow> [] | Inr (r, w) \<Rightarrow> [r, w])"

fun attempt_pipes :: "'c attempt \<Rightarrow> raw_fd list" where
  "attempt_pipes (ProcessorAttempt os po _ _) = pipe_ends (os_pipe os) @ pipe_ends (po_sessions_pipe po)"
| "attempt_pipes (TlsAttempt _ _ _ _) = []"
| "attempt_pipes a = pipe_ends (os_pipe (attempt_os a))"

section \<open>The contract of a handover\<close>

text \<open>
  What an attempt owes to the one that takes over, whatever the role: the successor finds the listener's number in its
  environment, with the next generation, and the listener outlives the exec.
\<close>

locale listener_handover =
  fixes os_of :: "'w \<Rightarrow> upgrade_os"
    and ctx_of :: "'w \<Rightarrow> upgrade_ctx"
    and pipes :: "'w \<Rightarrow> raw_fd list"
    and commits :: "'w \<Rightarrow> cloexec_flags \<Rightarrow> upgrade_cmd \<Rightarrow> cloexec_flags \<Rightarrow> bool"
  assumes handed: "commits a t cmd t' \<Longrightarrow>
      \<exists>l. os_into_std (os_of a) = Inr l \<and> env_var (uc_env cmd) ENV_LISTENER_FD = Some (dec_int l) \<and>
        env_var (uc_env cmd) ENV_UPGRADE_GENERATION = Some (dec (unat (uc_generation (ctx_of a) + 1))) \<and>
        (l \<notin> set (pipes a) \<longrightarrow> \<not> t' l)"
begin

lemma successor_serves:
  assumes "commits a t cmd t'" and "os_into_std (os_of a) = Inr l" and "l \<notin> set (pipes a)" and "i32_range l"
    and "oo_env oo = uc_env cmd" and "acquire_listener role oo request cfg = Inr l'"
  shows "l' = l" and "inherited fs t' l = fs l" and "worker_generation (uc_env cmd) = uc_generation (ctx_of a) + 1"
proof -
  note h = handed [OF assms(1)]
  then have env: "env_var (uc_env cmd) ENV_LISTENER_FD = Some (dec_int l)" and flag: "\<not> t' l"
    using assms(2,3) by auto
  from acquire_from_predecessor [OF _ assms(4,6)] env assms(5) show "l' = l"
    by simp
  from flag show "inherited fs t' l = fs l"
    by (simp add: inherited_def)
  from h show "worker_generation (uc_env cmd) = uc_generation (ctx_of a) + 1"
    by (auto simp: worker_generation_def env_generation_def)
qed

end

section \<open>Every role keeps the contract\<close>

lemma upgrade_result_iff [simp]:
  "upgrade_result r = Succeeded cmd \<longleftrightarrow> r = Committed cmd" "upgrade_result r \<noteq> Became cmd"
  by (cases r; simp add: upgrade_result_def)+

lemma cap_mode_clears:
  assumes "cap_mode_handoff fc base off json exe dirs over t = (Inr (e, gs), t')" and "t' fd"
  shows "t fd"
proof (cases "over \<or> off")
  case True
  with assms show ?thesis
    by (simp add: cap_mode_handoff_def)
next
  case False
  with assms(1) have "cap_mode_handoff fc base False json exe dirs False t = (Inr (e, gs), t')"
    by (simp add: cap_mode_handoff_def)
  then have "clear_guards fc (map (\<lambda>(_, fd). (fd, [])) (cap_mode_specs exe dirs)) [] t = (Inr gs, t')"
    by (elim cap_mode_handoff_Inr)
  from clear_guards_success(2) [OF this] assms(2) show ?thesis
    by simp
qed

lemma spawn_clears:
  assumes "spawn_upgrade_child os ctx handed t = (Inr (cmd, gs), t')" and "t' fd"
  shows "t fd"
proof (cases "os_freebsd os")
  case False
  with assms show ?thesis
    by (auto simp: spawn_upgrade_child_def Let_def split: sum.splits if_splits)
next
  case True
  with assms(1) obtain over fe gs1 where
    "cap_mode_handoff (os_fcntl os) handed (uc_sandbox_off ctx) (uc_config_json ctx)
       (uc_self_exe ctx) (uc_dirs ctx) over t = (Inr (fe, gs1), t')"
    by (auto simp: spawn_upgrade_child_def Let_def split: sum.splits if_splits prod.splits)
  from cap_mode_clears [OF this assms(2)] show ?thesis .
qed

lemma plain_hands_over:
  assumes "do_upgrade_plain os ctx t = (Committed cmd, t')"
  shows "\<exists>l. os_into_std os = Inr l \<and> env_var (uc_env cmd) ENV_LISTENER_FD = Some (dec_int l) \<and>
    env_var (uc_env cmd) ENV_UPGRADE_GENERATION = Some (dec (unat (uc_generation ctx + 1))) \<and>
    (l \<notin> set (pipe_ends (os_pipe os)) \<longrightarrow> \<not> t' l)"
proof -
  from assms obtain l r w where ok: "os_into_std os = Inr l" "fcntl_ok (os_fcntl os) l"
    "os_pipe os = Inr (r, w)" "fcntl_ok (os_fcntl os) r"
    by (elim do_upgrade_plain_started) auto
  let ?t = "(t(l := False))(r := False, w := False, r := True)"
  note run = do_upgrade_plain_spawned [OF ok, of ctx t]
  then obtain gs t3 where sp: "spawn_upgrade_child os ctx (handed_env (uc_generation ctx) l w) ?t = (Inr (cmd, gs), t3)"
    and "t' = t3"
    using assms by (auto simp: settle_upgrade_def split: prod.splits sum.splits)
  then have "\<not> t' l" if "l \<noteq> r"
    using spawn_clears [OF sp, of l] that by (auto split: if_splits)
  moreover have "env_var (uc_env cmd) ENV_LISTENER_FD = Some (dec_int l)"
    "env_var (uc_env cmd) ENV_UPGRADE_GENERATION = Some (dec (unat (uc_generation ctx + 1)))"
    using spawned_env [OF sp] handed_env_lookup handed_names_free by blast+
  ultimately show ?thesis
    using ok by (auto simp: pipe_ends_def)
qed

lemma await_all_clears: "await_all fc metadata rxs t = (hs, closed, t') \<Longrightarrow> t' fd \<Longrightarrow> t fd"
proof (induction fc metadata rxs t arbitrary: hs closed rule: await_all.induct)
  case (2 fc metadata fault rx rest t)
  obtain h c1 t1 where one: "await_session_handoff fc fault rx t = (h, c1, t1)"
    using prod_cases3 by blast
  obtain hs2 c2 t2 where rest: "await_all fc metadata rest t1 = (hs2, c2, t2)"
    using prod_cases3 by blast
  from "2.prems"(1) one rest have "t' = t2"
    by (simp split: option.splits)
  with "2.IH" [OF one [symmetric] refl] rest "2.prems"(2) have "t1 fd"
    by blast
  with one show ?case
    by (auto simp: await_session_handoff_def clear_cloexec_def split: if_splits option.splits sum.splits)
qed simp

lemma processor_hands_over:
  assumes "processor_do_upgrade os po ctx p t = (ProcCommitted cmd fd json, p', t')"
  shows "\<exists>l. os_into_std os = Inr l \<and> env_var (uc_env cmd) ENV_LISTENER_FD = Some (dec_int l) \<and>
    env_var (uc_env cmd) ENV_UPGRADE_GENERATION = Some (dec (unat (uc_generation ctx + 1))) \<and>
    (l \<notin> set (pipe_ends (os_pipe os) @ pipe_ends (po_sessions_pipe po)) \<longrightarrow> \<not> t' l)"
proof -
  from assms obtain l where l: "os_into_std os = Inr l" "fcntl_ok (os_fcntl os) l"
    by (elim attempt_guarded) auto
  then have g: "guard_clear (os_fcntl os) l t = Inr (\<lparr>guard_fd = l, armed = True\<rparr>, t(l := False))"
    by simp
  obtain hs p1 t2 where d: "drain_session_handoffs (os_fcntl os) (po_sends po) p (t(l := False)) = (hs, p1, t2)"
    using prod_cases3 by blast
  obtain out gs t3 where c: "processor_start_child os po ctx l hs t2 = (out, gs, t3)"
    using prod_cases3 by blast
  have "out = Inr (cmd, fd, json)" "t' = t3"
    using assms l(1) g d c
    by (auto simp: processor_do_upgrade_def finish_upgrade_attempt_def simp del: guard_clear_Inr
        split: sum.splits processor_end.splits prod.splits)
  with c obtain r w t4 sr sw t5 where 1: "make_ready_pipe (os_fcntl os) (os_pipe os) t2 = Inr ((r, w), t4)"
    and 2: "make_sessions_pipe (os_fcntl os) (po_sessions_pipe po) t4 = Inr ((sr, sw), t5)"
    and sp: "spawn_upgrade_child os (ctx\<lparr>uc_arg := ''processor''\<rparr>)
      (processor_handed_env (uc_generation ctx) l sr w) t5 = (Inr (cmd, gs), t')"
    by (auto simp: processor_start_child_def split: sum.splits prod.splits)
  have "\<not> t2 l"
    using d await_all_clears [of "os_fcntl os" _ _ "t(l := False)" _ _ t2 l]
    by (fastforce simp: drain_session_handoffs_def split: prod.splits)
  moreover from 1 have "os_pipe os = Inr (r, w)" "l \<noteq> r \<Longrightarrow> t4 l \<Longrightarrow> t2 l"
    by (auto simp: make_ready_pipe_def and_then_Inr_iff set_cloexec_def split: if_splits)
  moreover from 2 have "po_sessions_pipe po = Inr (sr, sw)" "l \<noteq> sw \<Longrightarrow> t5 l \<Longrightarrow> t4 l"
    by (auto simp: make_sessions_pipe_def and_then_Inr_iff set_cloexec_def clear_cloexec_def split: if_splits)
  ultimately have "\<not> t' l" if "l \<notin> set (pipe_ends (os_pipe os) @ pipe_ends (po_sessions_pipe po))"
    using spawn_clears [OF sp, of l] that by (auto simp: pipe_ends_def)
  moreover have "env_var (uc_env cmd) ENV_LISTENER_FD = Some (dec_int l)"
    "env_var (uc_env cmd) ENV_UPGRADE_GENERATION = Some (dec (unat (uc_generation ctx + 1)))"
    by (rule spawned_env [OF sp], simp_all add: processor_handed_env_def env_names handed_names_free [unfolded env_names])+
  ultimately show ?thesis
    using l(1) by blast
qed

lemma tls_hands_over:
  assumes "do_upgrade_tls_fork_drain os fork_res ctx hs t = (TlsExeced cmd, drainer, t')"
  shows "\<exists>l. os_into_std os = Inr l \<and> env_var (uc_env cmd) ENV_LISTENER_FD = Some (dec_int l) \<and>
    env_var (uc_env cmd) ENV_UPGRADE_GENERATION = Some (dec (unat (uc_generation ctx + 1))) \<and> \<not> t' l"
proof -
  from assms obtain l where l: "os_into_std os = Inr l" and
    x: "exec_new_image os ctx (tls_handed_env (uc_generation ctx) l) \<lparr>guard_fd = l, armed = True\<rparr> (t(l := False)) =
       (TlsExeced cmd, t')"
    by (elim fork_drain_execed)
  have "\<not> t' l"
  proof (cases "os_freebsd os")
    case False
    with x show ?thesis
      by (auto simp: exec_new_image_def Let_def split: sum.splits if_splits)
  next
    case True
    with x obtain over fe gs where
      "cap_mode_handoff (os_fcntl os) (tls_handed_env (uc_generation ctx) l) (uc_sandbox_off ctx) (uc_config_json ctx)
         (uc_self_exe ctx) (uc_dirs ctx) over (t(l := False)) = (Inr (fe, gs), t')"
      by (auto simp: exec_new_image_def Let_def split: sum.splits if_splits prod.splits)
    from cap_mode_clears [OF this, of l] show ?thesis
      by auto
  qed
  moreover have "env_var (uc_env cmd) ENV_LISTENER_FD = Some (dec_int l)"
    "env_var (uc_env cmd) ENV_UPGRADE_GENERATION = Some (dec (unat (uc_generation ctx + 1)))"
    using execed_env [OF x] tls_handed_env_lookup handed_names_free by blast+
  ultimately show ?thesis
    using l by blast
qed

definition takes_over :: "'c attempt \<Rightarrow> cloexec_flags \<Rightarrow> upgrade_cmd \<Rightarrow> cloexec_flags \<Rightarrow> bool" where
  "takes_over a t cmd t' \<longleftrightarrow> run_attempt a t \<in> {Some (Succeeded cmd, t'), Some (Became cmd, t')}"

interpretation handover: listener_handover attempt_os attempt_ctx attempt_pipes takes_over
proof
  fix a :: "'c attempt" and t cmd t'
  assume c: "takes_over a t cmd t'"
  show "\<exists>l. os_into_std (attempt_os a) = Inr l \<and> env_var (uc_env cmd) ENV_LISTENER_FD = Some (dec_int l) \<and>
        env_var (uc_env cmd) ENV_UPGRADE_GENERATION = Some (dec (unat (uc_generation (attempt_ctx a) + 1))) \<and>
        (l \<notin> set (attempt_pipes a) \<longrightarrow> \<not> t' l)"
  proof (cases a)
    case (PlainAttempt os ctx)
    with c have "do_upgrade_plain os ctx t = (Committed cmd, t')"
      by (cases "do_upgrade_plain os ctx t") (auto simp: takes_over_def)
    from plain_hands_over [OF this] show ?thesis
      by (simp add: PlainAttempt)
  next
    case (ScannerAttempt os ctx start polls)
    with c have "do_upgrade_plain os (ctx\<lparr>uc_arg := ''scanner''\<rparr>) t = (Committed cmd, t')"
      by (cases "do_upgrade_plain os (ctx\<lparr>uc_arg := ''scanner''\<rparr>) t")
        (auto simp: takes_over_def do_upgrade_scanner_def split: option.splits)
    from plain_hands_over [OF this] show ?thesis
      by (simp add: ScannerAttempt)
  next
    case (ProcessorAttempt os po ctx p)
    with c obtain fd json p' where "processor_do_upgrade os po ctx p t = (ProcCommitted cmd fd json, p', t')"
      by (auto simp: takes_over_def split: prod.splits processor_end.splits)
    from processor_hands_over [OF this] show ?thesis
      by (simp add: ProcessorAttempt)
  next
    case (TlsAttempt os fork_res ctx hs)
    with c obtain drainer where "do_upgrade_tls_fork_drain os fork_res ctx hs t = (TlsExeced cmd, drainer, t')"
      by (auto simp: takes_over_def split: prod.splits tls_upgrade_end.splits)
    from tls_hands_over [OF this] show ?thesis
      by (auto simp: TlsAttempt)
  qed
qed

section \<open>The service\<close>

record worker_image =
  wi_role :: string
  wi_generation :: u64
  wi_listener :: raw_fd
  wi_files :: open_files
  wi_flags :: cloexec_flags

record service_state =
  sv_sup :: supervisor
  sv_files :: open_files
  sv_workers :: "worker_image list"

datatype 'c service_event =
    SupTurn
  | Succession
  | SpawnWorker string
  | AttemptUpgrade "'c attempt"
  | ProcessGone string
  | Housekeeping

text \<open>What a successor starts with, from its environment and the descriptors that outlive the exec.\<close>

definition successor_image :: "worker_image \<Rightarrow> cloexec_flags \<Rightarrow> upgrade_cmd \<Rightarrow> raw_fd \<Rightarrow> worker_image" where
  "successor_image w t' cmd l = \<lparr>wi_role = wi_role w, wi_generation = worker_generation (uc_env cmd), wi_listener = l,
     wi_files = inherited (wi_files w) t', wi_flags = fresh_flags\<rparr>"

text \<open>
  An attempt is made on the listener the worker has, at the worker's generation, and pipes are created on descriptors that
  were not open.
\<close>

definition attempt_of :: "worker_image \<Rightarrow> 'c attempt \<Rightarrow> bool" where
  "attempt_of w a \<longleftrightarrow> attempt_role a = wi_role w \<and> uc_generation (attempt_ctx a) = wi_generation w \<and>
     (\<forall>l. os_into_std (attempt_os a) = Inr l \<longrightarrow> l = wi_listener w) \<and>
     (\<forall>fd \<in> set (attempt_pipes a). wi_files w fd = None)"

text \<open>
  A worker that commits is still there until it is gone; the supervisor that commits exits at once. The successor of a
  supervisor is one whose start succeeded, since only then the acknowledgement was written. The spawner answers the request of
  a new worker; \<^verbatim>\<open>m\<close> is the number the descriptor gets in the worker. Housekeeping are the descriptors a process opens
  and closes meanwhile: a worker keeps its listener for as long as it runs, the supervisor never closes the eleven.
\<close>

inductive service_step :: "service_state \<Rightarrow> 'c service_event \<Rightarrow> service_state \<Rightarrow> bool" where
  turn: "service_step s SupTurn (s\<lparr>sv_sup := su'\<rparr>)"
    if "supervisor_event ev (sv_sup s) = (StillRunning, su', es)"
| succession: "service_step s Succession
      \<lparr>sv_sup = su'', sv_files = inherited (sv_files s) (su_cloexec su'), sv_workers = sv_workers s\<rparr>"
    if "supervisor_event (SigHup os exe) (sv_sup s) = (ExitCommitted cmd, su', es)"
      and "\<forall>fd \<in> set (pipe_ends (os_pipe os)). sv_files s fd = None"
      and "\<forall>x. env_var (os_environ os) ''LISTEN_PID'' = Some x \<longrightarrow> (\<exists>p. parse_u32 x = Some p \<and> p \<noteq> pid)"
      and "oo_env oo = uc_env cmd" and "\<forall>fd. oo_wrap oo fd = Inr ()"
      and "supervisor_start pid euid oo cfg now fresh_flags = (Inr su'', opened)"
| spawned: "service_step s (SpawnWorker role) (s\<lparr>sv_workers := sv_workers s @ [\<lparr>wi_role = role,
      wi_generation = worker_generation (oo_env oo), wi_listener = l,
      wi_files = (inherited (sv_files s) (su_cloexec (sv_sup s)))(m \<mapsto> f), wi_flags = fresh_flags\<rparr>]\<rparr>)"
    if "to_json role = Inr line" and "from_json line = Inr role"
      and "serve_spawner peer allow from_json (Some (Inr line)) (spawner_fds_of (su_fds (sv_sup s))) = Inr (ReplyFd fd payload)"
      and "sv_files s fd = Some f"
      and "inherited (sv_files s) (su_cloexec (sv_sup s)) m = None" and "i32_range m"
      and "request_listener_fd cfg (Inr ()) to_json put_line (Inr (m, payload)) role = Inr m'"
      and "oo_env oo = cmd_env (child_command exe parent role)"
      and "acquire_listener role oo (Inr m') cfg = Inr l"
| failed: "service_step s (AttemptUpgrade a) (s\<lparr>sv_workers := us @ vs\<rparr>)"
    if "sv_workers s = us @ w # vs" and "attempt_of w a" and "run_attempt a (wi_flags w) = Some (Died e, t')"
| stayed: "service_step s (AttemptUpgrade a) (s\<lparr>sv_workers := us @ w\<lparr>wi_flags := t'\<rparr> # vs\<rparr>)"
    if "sv_workers s = us @ w # vs" and "attempt_of w a" and "run_attempt a (wi_flags w) = Some (Stayed, t')"
| succeeded: "service_step s (AttemptUpgrade a)
      (s\<lparr>sv_workers := us @ w\<lparr>wi_flags := t'\<rparr> # successor_image w t' cmd l # vs\<rparr>)"
    if "sv_workers s = us @ w # vs" and "attempt_of w a" and "run_attempt a (wi_flags w) = Some (Succeeded cmd, t')"
      and "oo_env oo = uc_env cmd" and "acquire_listener (wi_role w) oo request cfg = Inr l"
| became: "service_step s (AttemptUpgrade a) (s\<lparr>sv_workers := us @ successor_image w t' cmd l # vs\<rparr>)"
    if "sv_workers s = us @ w # vs" and "attempt_of w a" and "run_attempt a (wi_flags w) = Some (Became cmd, t')"
      and "oo_env oo = uc_env cmd" and "acquire_listener (wi_role w) oo request cfg = Inr l"
| gone: "service_step s (ProcessGone (wi_role w)) (s\<lparr>sv_workers := us @ vs\<rparr>)"
    if "sv_workers s = us @ w # vs"
| works: "service_step s Housekeeping (s\<lparr>sv_workers := us @ w\<lparr>wi_files := fs, wi_flags := t\<rparr> # vs\<rparr>)"
    if "sv_workers s = us @ w # vs" and "fs (wi_listener w) = wi_files w (wi_listener w)"
      and "t (wi_listener w) = wi_flags w (wi_listener w)"
| keeps: "service_step s Housekeeping (s\<lparr>sv_sup := (sv_sup s)\<lparr>su_cloexec := t\<rparr>, sv_files := fs\<rparr>)"
    if "\<forall>fd \<in> fst ` set (self_upgrade_fds (su_fds (sv_sup s))). fs fd = sv_files s fd \<and> t fd = su_cloexec (sv_sup s) fd"

inductive service_run :: "service_state \<Rightarrow> 'c service_event list \<Rightarrow> service_state \<Rightarrow> bool" where
  still: "service_run s [] s"
| onwards: "service_run s (e # es) s''" if "service_step s e s'" and "service_run s' es s''"

inductive_simps run_nil [simp]: "service_run s [] s'"
inductive_cases succession_cases: "service_step s Succession s'"
inductive_cases spawn_cases: "service_step s (SpawnWorker role) s'"

text \<open>The socket that is listening for a role: the one the supervisor keeps.\<close>

definition kept :: "control_fds \<Rightarrow> open_files \<Rightarrow> string \<Rightarrow> nat option" where
  "kept fds fs role = Option.bind (role_listener (spawner_fds_of fds) role) fs"

definition listening :: "service_state \<Rightarrow> string \<Rightarrow> nat option" where
  "listening s role = kept (su_fds (sv_sup s)) (sv_files s) role"

section \<open>The listeners stay open\<close>

text \<open>The invariant, for the descriptors and the sockets the supervisor had at the beginning.\<close>

definition serves :: "control_fds \<Rightarrow> open_files \<Rightarrow> worker_image \<Rightarrow> bool" where
  "serves fds fs w \<longleftrightarrow> i32_range (wi_listener w) \<and> wi_role w \<in> set WATCHDOG_ROLES \<and>
     wi_files w (wi_listener w) = kept fds fs (wi_role w)"

definition custody :: "control_fds \<Rightarrow> open_files \<Rightarrow> u64 \<Rightarrow> service_state \<Rightarrow> bool" where
  "custody fds fs g s \<longleftrightarrow> su_fds (sv_sup s) = fds \<and> su_generation (sv_sup s) = g \<and>
     (\<forall>fd \<in> fst ` set (self_upgrade_fds fds). sv_files s fd = fs fd) \<and> list_all (serves fds fs) (sv_workers s)"

definition opened_all :: "control_fds \<Rightarrow> open_files \<Rightarrow> bool" where
  "opened_all fds fs \<longleftrightarrow> (\<forall>(fd, l) \<in> set (self_upgrade_fds fds). i32_range fd \<and> fs fd \<noteq> None)"

lemma role_listener_handed:
  "role_listener (spawner_fds_of fds) role = Some fd \<Longrightarrow> fd \<in> fst ` set (self_upgrade_fds fds) \<and> role \<in> set WATCHDOG_ROLES"
  by (auto simp: role_listener_def spawner_fds_of_def self_upgrade_fds_def WATCHDOG_ROLES_def split: if_splits)

lemma role_listener_total: "role \<in> set WATCHDOG_ROLES \<Longrightarrow> \<exists>fd. role_listener (spawner_fds_of fds) role = Some fd"
  by (auto simp: role_listener_def WATCHDOG_ROLES_def)

lemma kept_open: "opened_all fds fs \<Longrightarrow> role \<in> set WATCHDOG_ROLES \<Longrightarrow> kept fds fs role \<noteq> None"
  using role_listener_total [of role fds] role_listener_handed [of fds role]
  by (fastforce simp: kept_def opened_all_def)

lemma successor_starts:
  assumes "supervisor_event (SigHup os exe) su = (ExitCommitted cmd, su', es)"
    and "\<forall>fd \<in> set (pipe_ends (os_pipe os)). fs fd = None"
    and "\<forall>x. env_var (os_environ os) ''LISTEN_PID'' = Some x \<longrightarrow> (\<exists>p. parse_u32 x = Some p \<and> p \<noteq> pid)"
    and "oo_env oo = uc_env cmd" and "\<forall>fd. oo_wrap oo fd = Inr ()"
    and "supervisor_start pid euid oo cfg now t = (Inr su'', opened)" and "opened_all (su_fds su) fs"
  shows "su_fds su'' = su_fds su \<and> su_generation su'' = su_generation su + 1 \<and> su_cloexec su'' = t \<and>
    (\<forall>fd \<in> fst ` set (self_upgrade_fds (su_fds su)). inherited fs (su_cloexec su') fd = fs fd)"
proof -
  let ?a = "pid_slots_snapshot (sh_pids (su_shared su)) (sh_links (su_shared su))"
  from assms(1) obtain t' where su': "su' = su\<lparr>su_cloexec := t'\<rparr>"
    and up: "do_self_upgrade os exe (su_fds su) ?a (su_generation su) (su_cloexec su) = (Committed cmd, t')"
    by (elim supervisor_event_commit) auto
  from up obtain r w where p: "os_pipe os = Inr (r, w)"
    and env: "uc_env cmd = self_child_env (os_environ os) (su_fds su) ?a (su_generation su) w"
    and t': "t' = (\<lambda>fd. su_cloexec su fd \<and> fd \<notin> fst ` set (self_upgrade_fds (su_fds su)))(r := False, w := False, r := True)"
    by (elim do_self_upgrade_committed)
  have "open_supervisor_listeners pid oo cfg n = (Inr (su_fds su), \<lparr>op_sd = [], op_removed = []\<rparr>)" for n
    by (rule successor_listeners [OF trans [OF assms(4) env]]) (use assms(3,5,7) in \<open>auto simp: opened_all_def\<close>)
  moreover have "env_generation (oo_env oo) ENV_SUP_GENERATION = su_generation su + 1"
    by (simp add: assms(4) env env_generation_def self_env_generation)
  ultimately have "su_fds su'' = su_fds su \<and> su_generation su'' = su_generation su + 1 \<and> su_cloexec su'' = t"
    using assms(6) by (auto simp: supervisor_start_def Let_def)
  moreover have "inherited fs t' fd = fs fd" if "fd \<in> fst ` set (self_upgrade_fds (su_fds su))" for fd
  proof -
    from that assms(2,7) p have "fd \<noteq> r"
      by (auto simp: opened_all_def pipe_ends_def)
    with that show ?thesis
      by (simp add: inherited_def t')
  qed
  ultimately show ?thesis
    by (simp add: su')
qed

lemma spawn_served:
  assumes "service_step s (SpawnWorker role) s'"
  obtains fd f m g where "role_listener (spawner_fds_of (su_fds (sv_sup s))) role = Some fd" and "sv_files s fd = Some f"
    and "inherited (sv_files s) (su_cloexec (sv_sup s)) m = None" and "i32_range m"
    and "s' = s\<lparr>sv_workers := sv_workers s @ [\<lparr>wi_role = role, wi_generation = g, wi_listener = m,
      wi_files = (inherited (sv_files s) (su_cloexec (sv_sup s)))(m \<mapsto> f), wi_flags = fresh_flags\<rparr>]\<rparr>"
proof (rule spawn_cases [OF assms])
  fix to_json line from_json peer allow fd payload f m cfg put_line m' oo exe parent l
  assume s': "s' = s\<lparr>sv_workers := sv_workers s @ [\<lparr>wi_role = role,
      wi_generation = worker_generation (cmd_env (child_command exe parent role)), wi_listener = l,
      wi_files = (inherited (sv_files s) (su_cloexec (sv_sup s)))(m \<mapsto> f), wi_flags = fresh_flags\<rparr>]\<rparr>"
    and "from_json line = Inr role"
    "serve_spawner peer allow from_json (Some (Inr line)) (spawner_fds_of (su_fds (sv_sup s))) = Inr (ReplyFd fd payload)"
    and f: "sv_files s fd = Some f" "inherited (sv_files s) (su_cloexec (sv_sup s)) m = None" "i32_range m"
    and req: "request_listener_fd cfg (Inr ()) to_json put_line (Inr (m, payload)) role = Inr m'"
    and env: "oo_env oo = cmd_env (child_command exe parent role)" and acq: "acquire_listener role oo (Inr m') cfg = Inr l"
  then have fd: "role_listener (spawner_fds_of (su_fds (sv_sup s))) role = Some fd"
    by (auto simp: serve_spawner_def handle_spawn_request_def and_then_Inr_iff split: option.splits)
  have "env_var (oo_env oo) ENV_LISTENER_FD = None"
    by (simp add: env child_command_def env_var_scrub starts_with_def PRESERVED_ENV_def env_names)
  from acquire_from_spawner [OF this acq] req have "l = m"
    by (auto simp: request_listener_fd_def and_then_Inr_iff split: if_splits)
  with that fd f s' show thesis
    by blast
qed

lemma image_serves:
  assumes "serves fds fs w" and "opened_all fds fs" and "attempt_of w a" and "takes_over a (wi_flags w) cmd t'"
    and "oo_env oo = uc_env cmd" and "acquire_listener (wi_role w) oo request cfg = Inr l"
  shows "serves fds fs (successor_image w t' cmd l)"
    and "wi_generation (successor_image w t' cmd l) = wi_generation w + 1"
proof -
  from handover.handed [OF assms(4)] obtain l0 where "os_into_std (attempt_os a) = Inr l0"
    by blast
  with assms(3) have l0: "os_into_std (attempt_os a) = Inr (wi_listener w)"
    by (simp add: attempt_of_def)
  have "wi_files w (wi_listener w) \<noteq> None"
    using assms(1,2) kept_open by (fastforce simp: serves_def)
  with assms(3) have "wi_listener w \<notin> set (attempt_pipes a)"
    by (auto simp: attempt_of_def)
  from handover.successor_serves [OF assms(4) l0 this _ assms(5,6)] assms(1)
  show "serves fds fs (successor_image w t' cmd l)" "wi_generation (successor_image w t' cmd l) = wi_generation w + 1"
    using assms(3) by (auto simp: successor_image_def serves_def attempt_of_def)
qed

lemma kept_cong:
  assumes "\<forall>fd \<in> fst ` set (self_upgrade_fds fds). fs fd = fs' fd"
  shows "kept fds fs = kept fds fs'"
  using assms role_listener_handed
  by (fastforce simp: kept_def fun_eq_iff bind_eq_None_conv split: bind_splits)

definition successions :: "'c service_event list \<Rightarrow> u64" where
  "successions es = of_nat (length (filter (\<lambda>e. e = Succession) es))"

lemma step_custody:
  assumes "service_step s e s'" and "opened_all fds fs" and "custody fds fs g s"
  shows "custody fds fs (if e = Succession then g + 1 else g) s'"
  using assms
proof (cases rule: service_step.cases)
  case (turn ev su' es)
  with supervisor_event_shape [OF turn(3)] assms(3) show ?thesis
    by (simp add: custody_def)
next
  case (succession os exe cmd su' es pid oo euid cfg now su'' opened)
  have "opened_all (su_fds (sv_sup s)) (sv_files s)"
    using assms(2,3) by (fastforce simp: opened_all_def custody_def)
  from successor_starts [OF succession(3-8) this] assms(3) succession(1,2) show ?thesis
    by (auto simp: custody_def)
next
  case (spawned to_json role)
  from assms(1) [unfolded spawned(1)] obtain fd f m g' where
    "role_listener (spawner_fds_of (su_fds (sv_sup s))) role = Some fd" "sv_files s fd = Some f" "i32_range m"
    "s' = s\<lparr>sv_workers := sv_workers s @ [\<lparr>wi_role = role, wi_generation = g', wi_listener = m,
      wi_files = (inherited (sv_files s) (su_cloexec (sv_sup s)))(m \<mapsto> f), wi_flags = fresh_flags\<rparr>]\<rparr>"
    by (elim spawn_served)
  with assms(3) role_listener_handed [of fds role fd] spawned(1) show ?thesis
    by (auto simp: custody_def serves_def kept_def)
next
  case (succeeded us w vs a cmd t' oo request cfg l)
  then have "takes_over a (wi_flags w) cmd t'" "serves fds fs w"
    using assms(3) by (auto simp: takes_over_def custody_def)
  with image_serves(1) [OF _ assms(2) succeeded(4) _ succeeded(6,7)] succeeded assms(3) show ?thesis
    by (simp add: custody_def) (simp add: serves_def)
next
  case (became us w vs a cmd t' oo request cfg l)
  then have "takes_over a (wi_flags w) cmd t'" "serves fds fs w"
    using assms(3) by (auto simp: takes_over_def custody_def)
  with image_serves(1) [OF _ assms(2) became(4) _ became(6,7)] became assms(3) show ?thesis
    by (simp add: custody_def)
qed (use assms(3) in \<open>auto simp: custody_def serves_def\<close>)

lemma run_custody:
  "service_run s es s' \<Longrightarrow> opened_all fds fs \<Longrightarrow> custody fds fs g s \<Longrightarrow> custody fds fs (g + successions es) s'"
proof (induction arbitrary: g rule: service_run.induct)
  case (still s)
  then show ?case
    by (simp add: successions_def)
next
  case (onwards s e s' es s'')
  from onwards.IH [OF onwards.prems(1) step_custody [OF onwards.hyps(1) onwards.prems]] show ?case
    by (auto simp: successions_def ac_simps)
qed

section \<open>A concrete service\<close>

text \<open>The supervisor of \<open>Supervisor\<close> with its eleven sockets open and close-on-exec, as it is after binding them.\<close>

definition quiet_service :: service_state where
  "quiet_service = \<lparr>sv_sup = quiet_supervisor\<lparr>su_cloexec := (\<lambda>_. True)\<rparr>,
     sv_files = (\<lambda>fd. if 10 \<le> fd \<and> fd \<le> 20 then Some (nat fd) else None), sv_workers = []\<rparr>"

definition quiet_oo :: "env \<Rightarrow> open_os" where
  "quiet_oo e = \<lparr>oo_env = e, oo_bind_uds = (\<lambda>_. Inl []), oo_bind_tcp = (\<lambda>_. Inl []), oo_chmod = (\<lambda>_. Inl []),
     oo_wrap = (\<lambda>_. Inr ())\<rparr>"

lemma quiet_opened: "opened_all (su_fds (sv_sup quiet_service)) (sv_files quiet_service)"
  by (auto simp: opened_all_def quiet_service_def quiet_supervisor_def quiet_fds_def self_upgrade_fds_def i32_range_def)

lemma quiet_spawns:
  assumes "su_fds (sv_sup s) = quiet_fds" and "role_listener (spawner_fds_of quiet_fds) role = Some fd"
    and "sv_files s fd = Some f" and "sv_files s 40 = None"
  shows "\<exists>s'. service_step s (SpawnWorker role) s'"
proof -
  let ?oo = "quiet_oo (cmd_env (child_command ''/echod'' [] role))"
  have env: "env_var (oo_env ?oo) ENV_LISTENER_FD = None"
    by (simp add: quiet_oo_def child_command_def env_var_scrub)
  have "serve_spawner (Inr 7) (from_uids [7]) Inr (Some (Inr role)) (spawner_fds_of (su_fds (sv_sup s))) =
      Inr (ReplyFd fd (''ok'' @ [nl]))"
    using assms by (simp add: serve_spawner_def handle_spawn_request_def check_peer_def from_uids_def allowlist_contains_def)
  moreover have "request_listener_fd config_default (Inr ()) Inr (\<lambda>_. Inr ()) (Inr (40, ''ok'' @ [nl])) role = Inr 40"
    by (simp add: request_listener_fd_def starts_with_def)
  moreover have "acquire_listener role ?oo (Inr 40) config_default = Inr 40"
    by (rule acquire_received [OF env]) (simp add: quiet_oo_def)
  moreover have "inherited (sv_files s) (su_cloexec (sv_sup s)) 40 = None"
    using assms(4) by (simp add: inherited_def)
  ultimately show ?thesis
    using service_step.spawned [of Inr role role Inr "Inr 7" "from_uids [7]" s fd "''ok'' @ [nl]" f 40 config_default
        "\<lambda>_. Inr ()" 40 ?oo "''/echod''" "[]" 40] assms(3)
    by (auto simp: quiet_oo_def i32_range_def)
qed

lemma quiet_succeeds:
  assumes "sv_sup s = quiet_supervisor\<lparr>su_cloexec := (\<lambda>_. True)\<rparr>" and "sv_files s = sv_files quiet_service"
  shows "\<exists>s'. service_step s Succession s'"
proof -
  let ?su = "quiet_supervisor\<lparr>su_cloexec := (\<lambda>_. True)\<rparr>"
  let ?os = "quiet_os (ReadGot ready_ack)"
  obtain t' where run: "do_self_upgrade ?os (Inr ''/echod'') quiet_fds quiet_state 4 (\<lambda>_. True) = (Committed quiet_cmd, t')"
    using quiet_commits by blast
  then have hup: "supervisor_event (SigHup ?os (Inr ''/echod'')) ?su = (ExitCommitted quiet_cmd, ?su\<lparr>su_cloexec := t'\<rparr>, [])"
    by (simp add: supervisor_event_def on_sighup_def quiet_supervisor_def quiet_snapshot)
      (simp add: quiet_os_def env_names)
  have "\<exists>su'' opened. supervisor_start 7 0 (quiet_oo (uc_env quiet_cmd)) config_default 0 fresh_flags = (Inr su'', opened)"
  proof -
    have "open_supervisor_listeners 7 (quiet_oo (uc_env quiet_cmd)) config_default n =
        (Inr quiet_fds, \<lparr>op_sd = [], op_removed = []\<rparr>)" for n
      by (rule successor_listeners [where parent = "[(ENV_TLS_PID, ''99''), (''HOME'', ''/'')]" and a = quiet_state
            and g = 4 and w = 31])
        (use quiet_fds_range in \<open>auto simp: quiet_oo_def quiet_cmd_def env_names\<close>)
    then show ?thesis
      by (simp add: supervisor_start_def Let_def)
  qed
  then obtain su'' opened where
    "supervisor_start 7 0 (quiet_oo (uc_env quiet_cmd)) config_default 0 fresh_flags = (Inr su'', opened)"
    by blast
  moreover have "\<forall>fd \<in> set (pipe_ends (os_pipe ?os)). sv_files s fd = None"
    by (simp add: assms(2) quiet_os_def pipe_ends_def quiet_service_def)
  moreover have "\<forall>x. env_var (os_environ ?os) ''LISTEN_PID'' = Some x \<longrightarrow> (\<exists>p. parse_u32 x = Some p \<and> p \<noteq> 7)"
    by (simp add: quiet_os_def env_names)
  ultimately show ?thesis
    using service_step.succession [of ?os "Inr ''/echod''" s quiet_cmd "?su\<lparr>su_cloexec := t'\<rparr>" "[]" 7
        "quiet_oo (uc_env quiet_cmd)" 0 config_default 0] hup assms(1)
    by (auto simp: quiet_oo_def)
qed

text \<open>A worker is spawned, the supervisor upgrades itself, and the successor spawns another one.\<close>

lemma quiet_run:
  obtains s1 s2 s3 where "service_step quiet_service (SpawnWorker ''tls'' :: unit service_event) s1" and "service_step s1 (Succession :: unit service_event) s2"
    and "service_step s2 (SpawnWorker ''plain'' :: unit service_event) s3"
proof -
  note defs = quiet_service_def quiet_supervisor_def role_listener_def spawner_fds_of_def quiet_fds_def
  obtain s1 where s1: "service_step quiet_service (SpawnWorker ''tls'' :: unit service_event) s1"
    using quiet_spawns [of quiet_service "''tls''" 19 19] by (auto simp: defs)
  then have sup: "sv_sup s1 = quiet_supervisor\<lparr>su_cloexec := (\<lambda>_. True)\<rparr>" "sv_files s1 = sv_files quiet_service"
    by (elim spawn_served; simp add: quiet_service_def)+
  from quiet_succeeds [OF this] obtain s2 where s2: "service_step s1 (Succession :: unit service_event) s2"
    by blast
  then have s2_files: "sv_files s2 40 = None"
    using sup(2) by (elim succession_cases) (simp add: inherited_def quiet_service_def)
  have "custody (su_fds (sv_sup quiet_service)) (sv_files quiet_service) 4 quiet_service"
    by (simp add: custody_def quiet_service_def quiet_supervisor_def)
  from step_custody [OF s2 quiet_opened step_custody [OF s1 quiet_opened this]]
  have "custody (su_fds (sv_sup quiet_service)) (sv_files quiet_service) 5 s2"
    by simp
  then have "su_fds (sv_sup s2) = quiet_fds" "sv_files s2 18 = Some 18"
    by (auto simp: custody_def defs self_upgrade_fds_def)
  with quiet_spawns [of s2 "''plain''" 18 18] s2_files obtain s3 where "service_step s2 (SpawnWorker ''plain'' :: unit service_event) s3"
    by (auto simp: defs)
  with that s1 s2 show thesis
    by blast
qed

section \<open>Properties\<close>

text \<open>
  C8 (invariant). From the start of the first supervisor on, whatever sequence of events follows - workers that are
  spawned, crash, upgrade, fail to, or fall back, and supervisors that replace themselves - the four listening sockets
  are the ones that were opened at the beginning and are open, so that no client is refused for want of a listener; every worker
  serves the very socket of its role, also one that inherited it from a predecessor; and the generation of the
  supervisor counts its successions. A new worker is one the spawner answered; what happens when it has to bind a
  socket of its own is shown below.
\<close>

theorem listeners_never_close:
  assumes "service_run s0 es s" and "sv_workers s0 = []"
    and "\<forall>(fd, l) \<in> set (self_upgrade_fds (su_fds (sv_sup s0))). i32_range fd \<and> sv_files s0 fd \<noteq> None"
  shows "(\<forall>role \<in> set WATCHDOG_ROLES. listening s role \<noteq> None \<and> listening s role = listening s0 role) \<and>
    (\<forall>w \<in> set (sv_workers s). wi_role w \<in> set WATCHDOG_ROLES \<and> wi_files w (wi_listener w) = listening s0 (wi_role w)) \<and>
    su_generation (sv_sup s) = su_generation (sv_sup s0) + successions es"
proof -
  let ?fds = "su_fds (sv_sup s0)"
  have opened: "opened_all ?fds (sv_files s0)"
    using assms(3) by (simp add: opened_all_def)
  have "custody ?fds (sv_files s0) (su_generation (sv_sup s0) + successions es) s"
    by (rule run_custody [OF assms(1) opened]) (simp add: custody_def assms(2))
  moreover from this have "kept ?fds (sv_files s) = kept ?fds (sv_files s0)"
    by (intro kept_cong) (simp add: custody_def)
  ultimately show ?thesis
    using kept_open [OF opened] by (auto simp: custody_def serves_def listening_def list_all_iff)
qed

theorem listeners_never_close_witness:
  "\<exists>s. service_run quiet_service [SpawnWorker ''tls'', Succession, SpawnWorker ''plain'' :: unit service_event] s \<and>
     listening s ''tls'' = Some 19 \<and> length (sv_workers s) = 2 \<and>
     map (\<lambda>w. wi_files w (wi_listener w)) (sv_workers s) = [Some 19, Some 18] \<and> su_generation (sv_sup s) = 5"
proof -
  obtain s1 s2 s3 where 1: "service_step quiet_service (SpawnWorker ''tls'' :: unit service_event) s1"
    and 2: "service_step s1 (Succession :: unit service_event) s2"
    and 3: "service_step s2 (SpawnWorker ''plain'' :: unit service_event) s3"
    by (rule quiet_run)
  have run: "service_run quiet_service [SpawnWorker ''tls'', Succession, SpawnWorker ''plain'' :: unit service_event] s3"
    using 1 2 3 by (auto intro!: service_run.intros)
  have none: "sv_workers quiet_service = []"
    by (simp add: quiet_service_def)
  have opened: "\<forall>(fd, l) \<in> set (self_upgrade_fds (su_fds (sv_sup quiet_service))).
      i32_range fd \<and> sv_files quiet_service fd \<noteq> None"
    using quiet_opened by (simp add: opened_all_def)
  note P = listeners_never_close [OF run none opened]
  from 1 obtain w1 where w1: "sv_workers s1 = [w1]" "wi_role w1 = ''tls''"
    by (elim spawn_served) (auto simp: none)
  from 2 have "sv_workers s2 = sv_workers s1"
    by (elim succession_cases) simp
  with 3 w1 obtain w2 where w2: "sv_workers s3 = [w1, w2]" "wi_role w2 = ''plain''"
    by (elim spawn_served) auto
  have old: "listening quiet_service ''tls'' = Some 19" "listening quiet_service ''plain'' = Some 18"
    by (simp_all add: listening_def kept_def quiet_service_def quiet_supervisor_def role_listener_def spawner_fds_of_def
        quiet_fds_def)
  have gen: "su_generation (sv_sup quiet_service) + successions [SpawnWorker ''tls'', Succession, SpawnWorker ''plain'' :: unit service_event] = 5"
    by (simp add: successions_def quiet_service_def quiet_supervisor_def)
  from P run w1(2) w2 old gen show ?thesis
    by (intro exI [of _ s3]) (auto simp: WATCHDOG_ROLES_def)
qed

text \<open>
  C26 (error). A supervisor that came out of an upgrade of its own has its eleven sockets without the close-on-exec flag, and
  nothing sets it again: every worker it spawns inherits all of them - the admin socket, the control sockets and the listeners
  of the other roles - beside the one listener it asks for. Under a supervisor whose sockets have the flag, as they have
  after binding, a new worker has none of them open but what it received.
\<close>

theorem successor_workers_inherit_all:
  assumes "service_step s Succession s1" and "service_step s1 (SpawnWorker role) s2"
    and opened: "\<forall>(fd, l) \<in> set (self_upgrade_fds (su_fds (sv_sup s))). i32_range fd \<and> sv_files s fd \<noteq> None"
    and "service_step r (SpawnWorker role) r1"
    and flagged: "\<forall>(fd, l) \<in> set (self_upgrade_fds (su_fds (sv_sup r))). su_cloexec (sv_sup r) fd"
  shows "(\<exists>w. sv_workers s2 = sv_workers s @ [w] \<and> wi_role w = role \<and>
      (\<forall>(fd, l) \<in> set (self_upgrade_fds (su_fds (sv_sup s))). wi_files w fd = sv_files s fd \<and> wi_files w fd \<noteq> None)) \<and>
    (\<exists>w. sv_workers r1 = sv_workers r @ [w] \<and> wi_role w = role \<and>
      (\<forall>(fd, l) \<in> set (self_upgrade_fds (su_fds (sv_sup r))). wi_files w fd \<noteq> None \<longrightarrow> fd = wi_listener w))"
proof
  have all: "opened_all (su_fds (sv_sup s)) (sv_files s)"
    using opened by (simp add: opened_all_def)
  from assms(1) obtain files: "\<forall>fd \<in> fst ` set (self_upgrade_fds (su_fds (sv_sup s))). sv_files s1 fd = sv_files s fd"
    and flags: "su_cloexec (sv_sup s1) = fresh_flags" and ws: "sv_workers s1 = sv_workers s"
  proof (rule succession_cases)
    fix os exe cmd su' es pid oo euid cfg now su'' opened
    assume start: "supervisor_event (SigHup os exe) (sv_sup s) = (ExitCommitted cmd, su', es)"
      "\<forall>fd \<in> set (pipe_ends (os_pipe os)). sv_files s fd = None"
      "\<forall>x. env_var (os_environ os) ''LISTEN_PID'' = Some x \<longrightarrow> (\<exists>p. parse_u32 x = Some p \<and> p \<noteq> pid)"
      "oo_env oo = uc_env cmd" "\<forall>fd. oo_wrap oo fd = Inr ()"
      "supervisor_start pid euid oo cfg now fresh_flags = (Inr su'', opened)"
      and "s1 = \<lparr>sv_sup = su'', sv_files = inherited (sv_files s) (su_cloexec su'), sv_workers = sv_workers s\<rparr>"
    with successor_starts [OF start all] that show thesis
      by simp
  qed
  from assms(2) obtain f m g where m: "inherited (sv_files s1) (su_cloexec (sv_sup s1)) m = None"
    and s2: "s2 = s1\<lparr>sv_workers := sv_workers s1 @ [\<lparr>wi_role = role, wi_generation = g, wi_listener = m,
      wi_files = (inherited (sv_files s1) (su_cloexec (sv_sup s1)))(m \<mapsto> f), wi_flags = fresh_flags\<rparr>]\<rparr>"
    by (rule spawn_served)
  have "((inherited (sv_files s1) fresh_flags)(m \<mapsto> f)) fd = sv_files s fd"
    if "fd \<in> fst ` set (self_upgrade_fds (su_fds (sv_sup s)))" for fd
    using m flags files opened that by (fastforce simp: inherited_def fresh_flags_def)
  with opened show "\<exists>w. sv_workers s2 = sv_workers s @ [w] \<and> wi_role w = role \<and>
      (\<forall>(fd, l) \<in> set (self_upgrade_fds (su_fds (sv_sup s))). wi_files w fd = sv_files s fd \<and> wi_files w fd \<noteq> None)"
    by (simp add: s2 ws flags) force
  from assms(4) obtain f m g where
    "r1 = r\<lparr>sv_workers := sv_workers r @ [\<lparr>wi_role = role, wi_generation = g, wi_listener = m,
      wi_files = (inherited (sv_files r) (su_cloexec (sv_sup r)))(m \<mapsto> f), wi_flags = fresh_flags\<rparr>]\<rparr>"
    by (rule spawn_served)
  then show "\<exists>w. sv_workers r1 = sv_workers r @ [w] \<and> wi_role w = role \<and>
      (\<forall>(fd, l) \<in> set (self_upgrade_fds (su_fds (sv_sup r))). wi_files w fd \<noteq> None \<longrightarrow> fd = wi_listener w)"
    using flagged by (auto simp: inherited_def split: if_splits)
qed

text \<open>The plain acceptor that the successor of the concrete supervisor spawns holds the admin socket, number 10.\<close>

theorem successor_workers_inherit_all_witness:
  "\<exists>s1 s2 s3 w. service_step s1 (Succession :: unit service_event) s2 \<and>
     service_step s2 (SpawnWorker ''plain'' :: unit service_event) s3 \<and> last (sv_workers s3) = w \<and> wi_files w 10 = Some 10"
proof -
  obtain s1 s2 s3 where 1: "service_step quiet_service (SpawnWorker ''tls'' :: unit service_event) s1"
    and 2: "service_step s1 (Succession :: unit service_event) s2"
    and 3: "service_step s2 (SpawnWorker ''plain'' :: unit service_event) s3"
    by (rule quiet_run)
  obtain r1 where r1: "service_step quiet_service (SpawnWorker ''plain'' :: unit service_event) r1"
    using quiet_spawns [of quiet_service "''plain''" 18 18]
    by (auto simp: quiet_service_def quiet_supervisor_def role_listener_def spawner_fds_of_def quiet_fds_def)
  from 1 have s1: "su_fds (sv_sup s1) = quiet_fds" "sv_files s1 = sv_files quiet_service"
    by (elim spawn_served; simp add: quiet_service_def quiet_supervisor_def)+
  have opened: "\<forall>(fd, l) \<in> set (self_upgrade_fds (su_fds (sv_sup s1))). i32_range fd \<and> sv_files s1 fd \<noteq> None"
    using quiet_opened by (simp add: s1 opened_all_def) (simp add: quiet_service_def quiet_supervisor_def)
  have flagged: "\<forall>(fd, l) \<in> set (self_upgrade_fds (su_fds (sv_sup quiet_service))). su_cloexec (sv_sup quiet_service) fd"
    by (simp add: quiet_service_def)
  from successor_workers_inherit_all [OF 2 3 opened r1 flagged] obtain w where "sv_workers s3 = sv_workers s1 @ [w]"
    "\<forall>(fd, l) \<in> set (self_upgrade_fds quiet_fds). wi_files w fd = sv_files s1 fd"
    by (auto simp: s1(1))
  then have "last (sv_workers s3) = w" "wi_files w 10 = Some 10"
    by (simp_all add: s1(2) quiet_fds_def self_upgrade_fds_def quiet_service_def)
  with 2 3 show ?thesis
    by blast
qed

section \<open>The fallback of a worker that cannot reach the spawner\<close>

text \<open>
  The socket files, by the socket they lead to. A worker removes the file and binds a new socket, \<^verbatim>\<open>new\<close>, only when the request
  failed; the descriptors \<^verbatim>\<open>held\<close> are those the worker was handed or received.
\<close>

type_synonym socket_names = "string \<rightharpoonup> nat"

definition open_uds_worker ::
  "open_os \<Rightarrow> raw_fd result \<Rightarrow> string \<Rightarrow> open_files \<Rightarrow> nat \<Rightarrow> socket_names \<Rightarrow> nat option \<times> socket_names" where
  "open_uds_worker os request path held new names =
     (case adopt_or_bind_uds_listener os request path of
        (r, removed) \<Rightarrow>
          (let left = names |` (- set removed) in
           case r of
             Inl _ \<Rightarrow> (None, left)
           | Inr fd \<Rightarrow> if removed = [] then (held fd, left) else (Some new, left(path \<mapsto> new))))"

text \<open>
  The fallback leaves the service with two sockets for one name: after the worker that bound its own is gone, the next one is
  given the supervisor's socket again, to which the name no longer leads. Everyone who connects by name finds no listener,
  however often the worker is spawned.
\<close>

theorem fallback_orphans_listener:
  assumes "env_var (oo_env os) ENV_LISTENER_FD = None" and "oo_bind_uds os path = Inr fd" and "oo_chmod os path = Inr ()"
    and "open_uds_worker os (Inl e) path held new names = (served, names1)"
    and "env_var (oo_env os') ENV_LISTENER_FD = None" and "oo_wrap os' m = Inr ()" and "held' m = Some old" and "new \<noteq> old"
    and "open_uds_worker os' (Inr m) path held' new' names1 = (served', names2)"
  shows "served = Some new \<and> names1 path = Some new \<and> served' = Some old \<and> names2 path \<noteq> served'"
  using assms by (auto simp: open_uds_worker_def adopt_or_bind_uds_listener_def Let_def) (metis option.inject)

end
