(* ===== verification/Sessions_Pipe.thy ===== *)
theory Sessions_Pipe
  imports Processor
begin

text \<open>
  The pipe over which a processor streams its sessions to its successor (\<^verbatim>\<open>src/processor/upgrade.rs\<close>), with the
  three that work on it at the same time: the writer task of the old process, the new process, which reads to the end of the
  stream before it reports ready, and the old process, which waits for that report and then for its writer. The pipe holds a bounded
  number of bytes, so that each of them may have to wait for another.
\<close>

section \<open>The writer task\<close>

record sessions_writer =
  sw_todo :: string
  sw_result :: "unit result option"

definition spawn_sessions_pipe_writer :: "string \<Rightarrow> sessions_writer" where
  "spawn_sessions_pipe_writer sessions_json = \<lparr>sw_todo = sessions_json, sw_result = None\<rparr>"

text \<open>One call of \<^verbatim>\<open>write\<close> inside \<^verbatim>\<open>write_all\<close>, with what it returned; a call that takes nothing is an error.\<close>

fun write_all_turn :: "nat result \<Rightarrow> sessions_writer \<Rightarrow> sessions_writer" where
  "write_all_turn (Inl e) w = w\<lparr>sw_result := Some (Inl (''write session handoff pipe'' # e))\<rparr>"
| "write_all_turn (Inr n) w =
     (if n = 0 then w\<lparr>sw_result := Some (Inl [''write session handoff pipe'', ''failed to write whole buffer''])\<rparr>
      else w\<lparr>sw_todo := drop n (sw_todo w)\<rparr>)"

text \<open>All is written: the file is dropped, which closes the write end, and the task returns.\<close>

definition writer_returns :: "sessions_writer \<Rightarrow> sessions_writer" where
  "writer_returns w = w\<lparr>sw_result := Some (Inr ())\<rparr>"

text \<open>\<^verbatim>\<open>joined\<close> is what joining the task gives: a panic of the task, or what it returned.\<close>

definition finish_sessions_pipe_writer :: "unit result result \<Rightarrow> unit result" where
  "finish_sessions_pipe_writer joined = and_then (with_context ''session handoff writer join'' joined) (\<lambda>r. r)"

section \<open>The three together\<close>

text \<open>
  The new process before and after the end of the stream, and when it is gone; the old process waiting for the ready byte,
  for its writer (with what the wait came to), and done (with that and what the writer came to).
\<close>

datatype reader_phase = Fetching | Fetched | Dead

datatype attempt_phase = AwaitReady | AwaitWriter bool | AttemptOver bool "unit result"

record handover =
  ho_writer :: sessions_writer
  ho_pipe :: string
  ho_got :: string
  ho_child :: reader_phase
  ho_ready :: bool
  ho_parent :: attempt_phase

datatype handover_event =
    PipeWrite nat | PipeBroken error | PipeClosed
  | PipeRead nat | PipeEnd | ChildReady | ChildGone
  | SawReady | SawEnd | GaveUp | Joined

definition handover_start :: "string \<Rightarrow> handover" where
  "handover_start json = \<lparr>ho_writer = spawn_sessions_pipe_writer json, ho_pipe = [], ho_got = [], ho_child = Fetching,
     ho_ready = False, ho_parent = AwaitReady\<rparr>"

text \<open>
  The old process dropped its copy of the read end after the spawn, so only the new one reads; \<^verbatim>\<open>keeps\<close> says that the new process
  inherited the write end too. A write blocks while the pipe is full, a read while it is empty and a write end is open
  somewhere; a write with no reader left fails. \<^verbatim>\<open>ChildGone\<close> is any end of the new process, a failed start included, \<^verbatim>\<open>GaveUp\<close>
  the timeout or an injected fault; after these, as after \<^verbatim>\<open>SawEnd\<close>, the old process kills the child and waits for it.
\<close>

inductive handover_step :: "nat \<Rightarrow> bool \<Rightarrow> handover \<Rightarrow> handover_event \<Rightarrow> handover \<Rightarrow> bool" for capacity keeps where
  wrote: "handover_step capacity keeps s (PipeWrite n)
      (s\<lparr>ho_writer := write_all_turn (Inr n) (ho_writer s), ho_pipe := ho_pipe s @ take n (sw_todo (ho_writer s))\<rparr>)"
    if "sw_result (ho_writer s) = None" and "ho_child s = Fetching" and "0 < n" and "n \<le> length (sw_todo (ho_writer s))"
      and "length (ho_pipe s) + n \<le> capacity"
| broken: "handover_step capacity keeps s (PipeBroken e) (s\<lparr>ho_writer := write_all_turn (Inl e) (ho_writer s)\<rparr>)"
    if "sw_result (ho_writer s) = None" and "ho_child s \<noteq> Fetching" and "sw_todo (ho_writer s) \<noteq> []"
| closed: "handover_step capacity keeps s PipeClosed (s\<lparr>ho_writer := writer_returns (ho_writer s)\<rparr>)"
    if "sw_result (ho_writer s) = None" and "sw_todo (ho_writer s) = []"
| reads: "handover_step capacity keeps s (PipeRead n) (s\<lparr>ho_pipe := drop n (ho_pipe s), ho_got := ho_got s @ take n (ho_pipe s)\<rparr>)"
    if "ho_child s = Fetching" and "0 < n" and "n \<le> length (ho_pipe s)"
| at_end: "handover_step capacity keeps s PipeEnd (s\<lparr>ho_child := Fetched\<rparr>)"
    if "ho_child s = Fetching" and "ho_pipe s = []" and "sw_result (ho_writer s) \<noteq> None" and "\<not> keeps"
| says_ready: "handover_step capacity keeps s ChildReady (s\<lparr>ho_ready := True\<rparr>)"
    if "ho_child s = Fetched" and "\<not> ho_ready s"
| child_gone: "handover_step capacity keeps s ChildGone (s\<lparr>ho_child := Dead\<rparr>)"
    if "ho_child s \<noteq> Dead"
| saw_ready: "handover_step capacity keeps s SawReady (s\<lparr>ho_parent := AwaitWriter True\<rparr>)"
    if "ho_parent s = AwaitReady" and "ho_ready s"
| saw_end: "handover_step capacity keeps s SawEnd (s\<lparr>ho_parent := AwaitWriter False\<rparr>)"
    if "ho_parent s = AwaitReady" and "\<not> ho_ready s" and "ho_child s = Dead"
| gave_up: "handover_step capacity keeps s GaveUp (s\<lparr>ho_parent := AwaitWriter False, ho_child := Dead\<rparr>)"
    if "ho_parent s = AwaitReady"
| joined: "handover_step capacity keeps s Joined (s\<lparr>ho_parent := AttemptOver ok (finish_sessions_pipe_writer (Inr r))\<rparr>)"
    if "ho_parent s = AwaitWriter ok" and "sw_result (ho_writer s) = Some r"

inductive handover_run :: "nat \<Rightarrow> bool \<Rightarrow> string \<Rightarrow> handover_event list \<Rightarrow> handover \<Rightarrow> bool" for capacity keeps json where
  begins: "handover_run capacity keeps json [] (handover_start json)"
| goes_on: "handover_run capacity keeps json (es @ [e]) s'"
    if "handover_run capacity keeps json es s" and "handover_step capacity keeps s e s'"

inductive_simps event_simps:
  "handover_step capacity keeps s (PipeWrite n) s'" "handover_step capacity keeps s PipeClosed s'"
  "handover_step capacity keeps s (PipeRead n) s'" "handover_step capacity keeps s PipeEnd s'"
  "handover_step capacity keeps s ChildReady s'" "handover_step capacity keeps s SawReady s'"
  "handover_step capacity keeps s Joined s'"

text \<open>The same steps from the front, which the simplifier can follow.\<close>

primrec steps_from :: "nat \<Rightarrow> bool \<Rightarrow> handover \<Rightarrow> handover_event list \<Rightarrow> handover \<Rightarrow> bool" where
  "steps_from capacity keeps s [] s' \<longleftrightarrow> s = s'"
| "steps_from capacity keeps s (e # es) s' \<longleftrightarrow> (\<exists>s1. handover_step capacity keeps s e s1 \<and> steps_from capacity keeps s1 es s')"

lemma steps_from_run:
  "handover_run capacity keeps json es s \<Longrightarrow> steps_from capacity keeps s es' s' \<Longrightarrow> handover_run capacity keeps json (es @ es') s'"
proof (induction es' arbitrary: es s)
  case (Cons e es')
  then obtain s1 where "handover_step capacity keeps s e s1" "steps_from capacity keeps s1 es' s'"
    by auto
  with Cons.IH [OF goes_on [OF Cons.prems(1)]] show ?case
    by fastforce
qed simp

section \<open>What holds throughout\<close>

definition stream_inv :: "string \<Rightarrow> handover \<Rightarrow> bool" where
  "stream_inv json s \<longleftrightarrow> ho_got s @ ho_pipe s @ sw_todo (ho_writer s) = json"

text \<open>The end of the stream was reached, and by a writer that is done.\<close>

definition delivered :: "handover \<Rightarrow> bool" where
  "delivered s \<longleftrightarrow> ho_pipe s = [] \<and> sw_todo (ho_writer s) = [] \<and> sw_result (ho_writer s) = Some (Inr ())"

definition handover_inv :: "handover \<Rightarrow> bool" where
  "handover_inv s \<longleftrightarrow>
     (ho_child s = Fetching \<longrightarrow> sw_result (ho_writer s) \<in> {None, Some (Inr ())}) \<and>
     (sw_result (ho_writer s) = Some (Inr ()) \<longrightarrow> sw_todo (ho_writer s) = []) \<and>
     (ho_child s = Fetched \<or> ho_ready s \<longrightarrow> delivered s) \<and>
     (ho_child s = Fetching \<longrightarrow> \<not> ho_ready s) \<and>
     (case ho_parent s of
        AwaitReady \<Rightarrow> True
      | AwaitWriter ok \<Rightarrow> if ok then ho_ready s else ho_child s = Dead
      | AttemptOver ok r \<Rightarrow> (if ok then ho_ready s else ho_child s = Dead) \<and> sw_result (ho_writer s) = Some r)"

lemmas handover_defs = stream_inv_def delivered_def handover_inv_def handover_start_def spawn_sessions_pipe_writer_def
  writer_returns_def finish_sessions_pipe_writer_def

lemma step_stream: "handover_step capacity keeps s e s' \<Longrightarrow> stream_inv json s \<Longrightarrow> stream_inv json s'"
  by (induction rule: handover_step.induct) (auto simp: handover_defs)

lemma step_inv: "handover_step capacity keeps s e s' \<Longrightarrow> handover_inv s \<Longrightarrow> handover_inv s'"
  by (induction rule: handover_step.induct) (auto simp: handover_defs split: attempt_phase.splits if_splits)

lemma run_inv: "handover_run capacity keeps json es s \<Longrightarrow> stream_inv json s \<and> handover_inv s"
proof (induction rule: handover_run.induct)
  case begins
  then show ?case by (simp add: handover_defs)
next
  case goes_on
  then show ?case by (meson step_stream step_inv)
qed

section \<open>Every run ends\<close>

definition work_left :: "handover \<Rightarrow> nat" where
  "work_left s = 2 * length (sw_todo (ho_writer s)) + length (ho_pipe s) + (if sw_result (ho_writer s) = None then 1 else 0) +
     (case ho_child s of Fetching \<Rightarrow> 2 | Fetched \<Rightarrow> 1 | Dead \<Rightarrow> 0) + (if ho_ready s then 0 else 1) +
     (case ho_parent s of AwaitReady \<Rightarrow> 2 | AwaitWriter _ \<Rightarrow> 1 | AttemptOver _ _ \<Rightarrow> 0)"

lemma step_works: "handover_step capacity keeps s e s' \<Longrightarrow> work_left s' < work_left s"
  by (induction rule: handover_step.induct) (auto simp: work_left_def handover_defs split: reader_phase.splits)

lemma run_bounded: "handover_run capacity keeps json es s \<Longrightarrow> length es + work_left s \<le> 2 * length json + 6"
  by (induction rule: handover_run.induct) (auto dest: step_works simp: work_left_def handover_defs)

text \<open>A reader with something to read can go on, and so can a writer that is not done, or its reader.\<close>

lemma reader_goes_on:
  assumes "ho_child s = Fetching" and "ho_pipe s \<noteq> []"
  shows "\<exists>s'. handover_step capacity keeps s (PipeRead 1) s'"
  using reads [where n = 1 and capacity = capacity and keeps = keeps, OF assms(1)] assms(2) by (auto simp: Suc_le_eq)

lemma writer_goes_on:
  assumes w: "sw_result (ho_writer s) = None" and "0 < capacity"
  shows "\<exists>e s'. handover_step capacity keeps s e s' \<and> e \<notin> {ChildGone, GaveUp}"
proof (cases "sw_todo (ho_writer s) = [] \<or> ho_child s \<noteq> Fetching")
  case True
  with w show ?thesis by (blast intro: closed broken)
next
  case False
  show ?thesis
  proof (cases "ho_pipe s = []")
    case True
    with False assms(2) wrote [where n = 1 and capacity = capacity and keeps = keeps, OF w] show ?thesis
      by (auto simp: Suc_le_eq)
  next
    case nonempty: False
    with False reader_goes_on show ?thesis by blast
  qed
qed

text \<open>Until the attempt is over somebody can go on, without a crash and without the timeout.\<close>

lemma never_stuck:
  assumes "0 < capacity" and "\<not> keeps" and "\<forall>ok r. ho_parent s \<noteq> AttemptOver ok r"
  shows "\<exists>e s'. handover_step capacity keeps s e s' \<and> e \<notin> {ChildGone, GaveUp}"
proof (cases "sw_result (ho_writer s)")
  case None
  with assms(1) show ?thesis by (intro writer_goes_on)
next
  case (Some r)
  show ?thesis
  proof (cases "ho_parent s")
    case AwaitReady
    show ?thesis
    proof (cases "ho_child s = Fetching \<and> \<not> ho_ready s")
      case True
      with Some assms(2) reader_goes_on [of s] show ?thesis
        by (cases "ho_pipe s = []") (blast intro: at_end)+
    next
      case False
      with AwaitReady show ?thesis
        by (cases "ho_child s") (blast intro: saw_ready says_ready saw_end)+
    qed
  next
    case AwaitWriter
    with Some show ?thesis by (blast intro: joined)
  qed (use assms(3) in auto)
qed

lemma child_alive: "handover_run capacity keeps json es s \<Longrightarrow> set es \<inter> {ChildGone, GaveUp} = {} \<Longrightarrow> ho_child s \<noteq> Dead"
  by (induction rule: handover_run.induct) (auto simp: handover_start_def elim: handover_step.cases)

lemma over_ok: "handover_inv s \<Longrightarrow> ho_parent s = AttemptOver True r \<Longrightarrow> r = Inr ()"
  by (auto simp: handover_defs)

text \<open>The flags of a new pipe: the successor inherits the end it reads from and not the other.\<close>

lemma sessions_pipe_flags:
  assumes "make_sessions_pipe fc pipe t = Inr ((sr, sw), t')"
  shows "t' sw" and "sr \<noteq> sw \<Longrightarrow> \<not> t' sr"
  using assms
  by (auto simp: make_sessions_pipe_def and_then_Inr_iff set_cloexec_def clear_cloexec_def change_cloexec_def
      with_context_def split: option.splits sum.splits)

text \<open>
  Why \<^verbatim>\<open>make_sessions_pipe\<close> sets the flag on the write end: a successor that inherits it keeps the stream open
  for itself and never comes to its end, let alone to its ready byte.
\<close>

lemma inherited_write_end_blocks: "handover_run capacity True json es s \<Longrightarrow> ho_child s \<noteq> Fetched \<and> \<not> ho_ready s"
  by (induction rule: handover_run.induct) (auto simp: handover_start_def elim!: handover_step.cases)

section \<open>Properties\<close>

text \<open>
  C6 (liveness). The sessions reach the successor whatever the size of the pipe and the order in which writer, successor
  and old process get their turns: the successor inherits the read end; what it has read is a beginning of what was written, and all
  of it once it reported ready; until the attempt is over somebody can go on without waiting for a timeout, and there are at most
  \<open>2 * length json + 6\<close> steps, so every run ends; without a crash or a timeout it ends in a commit. When the
  attempt is over the writer has ended too, a commit is never turned into a failure by it, and a rollback never waits for it in vain.
\<close>

theorem sessions_pipe_hands_over:
  assumes make: "make_sessions_pipe fc pipe t = Inr ((sr, sw), t')" and "sr \<noteq> sw" and "0 < capacity"
    and run: "handover_run capacity (\<not> t' sw) json es s"
  shows "\<not> t' sr \<and> prefix (ho_got s) json \<and> (ho_ready s \<longrightarrow> ho_got s = json) \<and> length es \<le> 2 * length json + 6 \<and>
    ((\<forall>e s'. handover_step capacity (\<not> t' sw) s e s' \<longrightarrow> e \<in> {ChildGone, GaveUp}) \<longrightarrow>
      (\<exists>ok r. ho_parent s = AttemptOver ok r \<and> (set es \<inter> {ChildGone, GaveUp} = {} \<longrightarrow> ok))) \<and>
    (\<forall>ok r. ho_parent s = AttemptOver ok r \<and> ok = (processor_ready os po = Inr ()) \<and> os_reattach os = Inr () \<longrightarrow>
      fst (finish_upgrade_attempt os (po\<lparr>po_writer := r\<rparr>) hs (cmd, sr, json) p) =
        (if ok then ProcCommitted cmd sr json else ProcRolledBack))"
proof -
  note flags = sessions_pipe_flags [OF make]
  have inv: "stream_inv json s" "handover_inv s"
    using run_inv [OF run] by auto
  have got: "prefix (ho_got s) json" "ho_ready s \<Longrightarrow> ho_got s = json"
    using inv by (auto simp: handover_defs prefix_def)
  have ends: "\<exists>ok r. ho_parent s = AttemptOver ok r \<and> (set es \<inter> {ChildGone, GaveUp} = {} \<longrightarrow> ok)"
    if stuck: "\<forall>e s'. handover_step capacity (\<not> t' sw) s e s' \<longrightarrow> e \<in> {ChildGone, GaveUp}"
  proof -
    obtain ok r where over: "ho_parent s = AttemptOver ok r"
      using never_stuck [OF assms(3), of "\<not> t' sw"] flags(1) stuck by blast
    with inv(2) child_alive [OF run] show ?thesis
      by (cases ok) (auto simp: handover_inv_def)
  qed
  have ready: "processor_ready os (po\<lparr>po_writer := r\<rparr>) = processor_ready os po" for r
    by (simp add: processor_ready_def)
  have "fst (finish_upgrade_attempt os (po\<lparr>po_writer := r\<rparr>) hs (cmd, sr, json) p) =
      (if ok then ProcCommitted cmd sr json else ProcRolledBack)"
    if "ho_parent s = AttemptOver ok r" "ok = (processor_ready os po = Inr ())" "os_reattach os = Inr ()" for ok r
    using that over_ok [OF inv(2), of r] by (cases "processor_ready os po") (auto simp: finish_upgrade_attempt_def ready)
  with flags(2) [OF assms(2)] got ends run_bounded [OF run] show ?thesis
    by (auto intro: le_trans)
qed

text \<open>Two bytes through a pipe that holds one, to a commit.\<close>

lemma small_handover:
  "\<exists>s. handover_run 1 False ''ab''
     [PipeWrite 1, PipeRead 1, PipeWrite 1, PipeClosed, PipeRead 1, PipeEnd, ChildReady, SawReady, Joined] s \<and>
   ho_ready s \<and> ho_parent s = AttemptOver True (Inr ())"
proof -
  let ?s = "\<lparr>ho_writer = \<lparr>sw_todo = [], sw_result = Some (Inr ())\<rparr>, ho_pipe = [], ho_got = ''ab'', ho_child = Fetched,
    ho_ready = True, ho_parent = AttemptOver True (Inr ())\<rparr>"
  have "steps_from 1 False (handover_start ''ab'')
     [PipeWrite 1, PipeRead 1, PipeWrite 1, PipeClosed, PipeRead 1, PipeEnd, ChildReady, SawReady, Joined] ?s"
    by (simp add: event_simps handover_defs) blast
  from steps_from_run [OF begins this] show ?thesis
    by (intro exI [of _ ?s]) simp
qed

theorem sessions_pipe_hands_over_witness:
  "\<exists>es s cmd. handover_run 1 False ''ab'' es s \<and> length es \<le> 10 \<and> ho_got s = ''ab'' \<and>
     fst (finish_upgrade_attempt (calm_os (ReadGot ready_ack) (\<lambda>_. Inr ())) (calm_po\<lparr>po_writer := Inr ()\<rparr>) []
       (cmd, 10, ''ab'') calm_processor) = ProcCommitted cmd 10 ''ab''"
proof -
  obtain es s where run: "handover_run 1 False ''ab'' es s" and s: "ho_ready s" "ho_parent s = AttemptOver True (Inr ())"
    using small_handover by blast
  have make: "make_sessions_pipe (\<lambda>_ _. None) (Inr (10, 11)) (\<lambda>_. True) = Inr ((10, 11), (\<lambda>_. True)(10 := False))"
    by (simp add: make_sessions_pipe_def set_cloexec_def clear_cloexec_def change_cloexec_def fun_eq_iff)
  obtain cmd :: upgrade_cmd where True
    by blast
  have calm: "processor_ready (calm_os (ReadGot ready_ack) (\<lambda>_. Inr ())) calm_po = Inr ()"
    "os_reattach (calm_os (ReadGot ready_ack) (\<lambda>_. Inr ())) = Inr ()"
    by (simp_all add: processor_ready_def calm_po_def calm_os_def)
  have "handover_run 1 (\<not> ((\<lambda>_. True)(10 := False)) (11 :: raw_fd)) ''ab'' es s"
    using run by simp
  from sessions_pipe_hands_over [OF make _ _ this, where os = "calm_os (ReadGot ready_ack) (\<lambda>_. Inr ())" and po = calm_po
      and hs = "[]" and cmd = cmd and p = calm_processor] run s calm show ?thesis
    by (intro exI [of _ es] exI [of _ s] exI [of _ cmd]) auto
qed

end
