(* ===== verification/Supervisor_Tests.thy ===== *)
theory Supervisor_Tests
  imports Client_Tests Sessions_Pipe Capability_Dirs
begin

text \<open>
  The unit tests of the metrics page, the grandparent, the reload of the allow list, the descriptor passing, the dialer, the session
  pipe and the unbounded rate limiter, run on the model in the way of \<open>Unit_Tests\<close>. Where a test needs a parser, a directory
  or a peer, those are arguments of the test, and what the test relies on of them is a hypothesis.
\<close>

section \<open>Tests of the metrics page (src/metrics.rs)\<close>

definition sample_snapshot :: metrics_snapshot where
  "sample_snapshot =
     (let statuses = [\<lparr>ws_role = ''processor'', ws_pid = 4242, ws_generation = 3, ws_started_at_unix_ms = 1700000000000,
            ws_in_flight = 17, ws_listener_addr = Some ''/tmp/x.sock'', ws_rate_limiter_stats = None\<rparr>];
          healths = [\<lparr>rh_role = ''processor'', rh_state = Backoff, rh_consecutive_fast_exits = 2, rh_next_backoff_ms = 800,
            rh_total_restarts = 12, rh_last_restart_at_unix_ms = Some 1700000005000\<rparr>]
      in from_parts 7 1700000000000 statuses healths
           (incr_canary_aborted ''plain'' (incr_committed ''processor'' upgrade_counters_new)))"

definition render_contains_all_metric_families :: bool where
  "render_contains_all_metric_families \<longleftrightarrow>
     list_all (\<lambda>needle. sublist needle (render_metrics sample_snapshot))
       [''fdpass_supervisor_generation 7'',
        ''fdpass_worker_generation{'' @ label ''role'' ''processor'' @ ''} 3'',
        ''fdpass_worker_in_flight{'' @ label ''role'' ''processor'' @ ''} 17'',
        ''fdpass_worker_pid{'' @ label ''role'' ''processor'' @ ''} 4242'',
        ''fdpass_worker_health{'' @ label ''role'' ''processor'' @ ''} 1'',
        ''fdpass_worker_consecutive_fast_exits{'' @ label ''role'' ''processor'' @ ''} 2'',
        ''fdpass_worker_restarts_total{'' @ label ''role'' ''processor'' @ ''} 12'',
        ''fdpass_upgrade_total{'' @ label ''role'' ''processor'' @ '','' @ label ''outcome'' ''committed'' @ ''} 1'',
        ''fdpass_upgrade_total{'' @ label ''role'' ''plain'' @ '','' @ label ''outcome'' ''canary_aborted'' @ ''} 1'',
        ''fdpass_upgrade_total{'' @ label ''role'' ''scanner'' @ '','' @ label ''outcome'' ''timed_out'' @ ''} 0'']"

definition each_metric_has_help_and_type :: bool where
  "each_metric_has_help_and_type \<longleftrightarrow>
     list_all (\<lambda>family. sublist (''# HELP '' @ family @ '' '') (render_metrics sample_snapshot) \<and>
         sublist (''# TYPE '' @ family @ '' '') (render_metrics sample_snapshot))
       [''fdpass_supervisor_generation'', ''fdpass_worker_generation'', ''fdpass_worker_in_flight'', ''fdpass_worker_pid'',
        ''fdpass_worker_health'', ''fdpass_worker_consecutive_fast_exits'', ''fdpass_worker_restarts_total'',
        ''fdpass_worker_last_restart_seconds'', ''fdpass_upgrade_total'', ''fdpass_ratelimit_tracked_ips'',
        ''fdpass_ratelimit_evictions_total'']"

definition write_textfile_atomic_rename :: "string \<Rightarrow> files \<Rightarrow> bool" where
  "write_textfile_atomic_rename dir fs \<longleftrightarrow>
     (case write_textfile None \<lparr>fs_mkdir = Inr (), fs_create = Inr (), fs_written = None, fs_rename = Inr ()\<rparr>
             (dir @ ''/metrics.prom'') sample_snapshot fs of
        (r, states) \<Rightarrow>
          r = Inr () \<and> last states (dir @ ''/metrics.prom.tmp'') = None \<and>
          (case last states (dir @ ''/metrics.prom'') of
             None \<Rightarrow> False | Some text \<Rightarrow> sublist ''fdpass_supervisor_generation 7'' text))"

lemma line_shown: "l \<in> set ls \<Longrightarrow> sublist n l \<Longrightarrow> sublist n (unlines ls)"
proof -
  assume "l \<in> set ls" and n: "sublist n l"
  then obtain us vs where "ls = us @ l # vs"
    by (meson split_list)
  then have "unlines ls = unlines us @ l @ nl # unlines vs"
    by (simp add: unlines_def)
  then have "sublist l (unlines ls)"
    by (metis sublist_appendI append.assoc)
  with n show ?thesis
    by (rule sublist_order.order_trans)
qed

lemma header_shown:
  assumes "set (metric_header name help kind) \<subseteq> set ls"
  shows "sublist (''# HELP '' @ name @ '' '') (unlines ls)" "sublist (''# TYPE '' @ name @ '' '') (unlines ls)"
proof -
  have "sublist (''# HELP '' @ name @ '' '') (''# HELP '' @ name @ '' '' @ help)"
    "sublist (''# TYPE '' @ name @ '' '') (''# TYPE '' @ name @ '' '' @ kind)"
    by (metis append.assoc prefixI prefix_imp_sublist)+
  with assms show "sublist (''# HELP '' @ name @ '' '') (unlines ls)" "sublist (''# TYPE '' @ name @ '' '') (unlines ls)"
    by (auto simp: metric_header_def intro: line_shown)
qed

lemmas sample_defs = sample_snapshot_def from_parts_def role_metrics_of_def map_or_def counters_snapshot_def upgrade_counters_new_def
  zero_map_def incr_committed_def incr_canary_aborted_def bump_def Let_def

lemmas page_defs = render_lines_def supervisor_lines_def worker_identity_lines_def worker_health_lines_def worker_restart_lines_def
  upgrade_lines_def rate_limiter_lines_def role_line_def health_gauge_def

lemma sample_values: "dec 7 = ''7''" "dec 3 = ''3''" "dec 17 = ''17''" "dec 4242 = ''4242''" "dec (Suc 0) = ''1''" "dec 1 = ''1''" "dec 2 = ''2''"
  "dec 12 = ''12''" "dec 0 = ''0''"
  by (simp_all add: dec_def to_digits.simps digit_char_def char_of_def bit_0)

lemma sample_lines: "set [''fdpass_supervisor_generation 7'',
        ''fdpass_worker_generation{'' @ label ''role'' ''processor'' @ ''} 3'',
        ''fdpass_worker_in_flight{'' @ label ''role'' ''processor'' @ ''} 17'',
        ''fdpass_worker_pid{'' @ label ''role'' ''processor'' @ ''} 4242'',
        ''fdpass_worker_health{'' @ label ''role'' ''processor'' @ ''} 1'',
        ''fdpass_worker_consecutive_fast_exits{'' @ label ''role'' ''processor'' @ ''} 2'',
        ''fdpass_worker_restarts_total{'' @ label ''role'' ''processor'' @ ''} 12'',
        ''fdpass_upgrade_total{'' @ label ''role'' ''processor'' @ '','' @ label ''outcome'' ''committed'' @ ''} 1'',
        ''fdpass_upgrade_total{'' @ label ''role'' ''plain'' @ '','' @ label ''outcome'' ''canary_aborted'' @ ''} 1'',
        ''fdpass_upgrade_total{'' @ label ''role'' ''scanner'' @ '','' @ label ''outcome'' ''timed_out'' @ ''} 0'']
    \<subseteq> set (render_lines sample_snapshot)"
  by (simp add: sample_defs page_defs sample_values)

lemma render_contains_all_metric_families: "render_contains_all_metric_families"
  unfolding render_contains_all_metric_families_def list_all_iff render_metrics_def
  using sample_lines line_shown [OF _ sublist_order.order_refl] by blast

text \<open>The families of the page, with their headers as the page has them.\<close>

definition families :: "(string \<times> string \<times> string) list" where
  "families =
     [(''fdpass_supervisor_generation'', ''Current supervisor generation.'', ''gauge''),
      (''fdpass_worker_generation'', ''Current generation of the worker process.'', ''gauge''),
      (''fdpass_worker_in_flight'', ''Currently-tracked sessions for the worker.'', ''gauge''),
      (''fdpass_worker_pid'', ''Current worker pid (0 if no live worker).'', ''gauge''),
      (''fdpass_worker_health'', ''Watchdog state (0=healthy 1=backoff 2=flapping 3=failed).'', ''gauge''),
      (''fdpass_worker_consecutive_fast_exits'', ''Current fast-exit counter.'', ''gauge''),
      (''fdpass_worker_restarts_total'', ''Total times the watchdog respawned the worker.'', ''counter''),
      (''fdpass_worker_last_restart_seconds'', ''Unix epoch of the most recent respawn (0 if never).'', ''gauge''),
      (''fdpass_upgrade_total'', ''Per-role upgrade outcomes (committed/timed_out/canary_aborted/skipped).'', ''counter''),
      (''fdpass_ratelimit_tracked_ips'', ''Current number of tracked IPs in per-IP rate limiter.'', ''gauge''),
      (''fdpass_ratelimit_evictions_total'', ''Total rate limiter bucket evictions by reason.'', ''counter'')]"

lemma families_headed: "list_all (\<lambda>(f, help, kind). set (metric_header f help kind) \<subseteq> set (render_lines m)) families"
  unfolding families_def list_all_iff list.set page_defs set_append
  by (simp only: ball_simps prod.case le_supI1 le_supI2 order_refl simp_thms)

lemma each_metric_has_help_and_type: "each_metric_has_help_and_type"
proof -
  have "list_all (\<lambda>family. sublist (''# HELP '' @ family @ '' '') (render_metrics sample_snapshot) \<and>
      sublist (''# TYPE '' @ family @ '' '') (render_metrics sample_snapshot)) (map fst families)"
    using families_headed [of sample_snapshot] header_shown
    unfolding list_all_iff render_metrics_def by fastforce
  then show ?thesis
    unfolding each_metric_has_help_and_type_def by (simp add: families_def)
qed

lemma write_textfile_atomic_rename: "write_textfile_atomic_rename dir fs"
proof -
  have "sublist ''fdpass_supervisor_generation 7'' (render_metrics sample_snapshot)"
    using render_contains_all_metric_families by (simp add: render_contains_all_metric_families_def)
  moreover have "tmp_path (dir @ ''/metrics.prom'') = dir @ ''/metrics.prom.tmp''"
    by (simp add: tmp_path_def path_dir_def path_file_name_def)
  ultimately show ?thesis
    by (simp add: write_textfile_atomic_rename_def write_textfile_def Let_def)
qed

section \<open>Tests of the grandparent (src/grandparent.rs)\<close>

definition backoff_doubles_until_max :: bool where
  "backoff_doubles_until_max \<longleftrightarrow>
     (let seen = map (\<lambda>i. ((\<lambda>b. min (b * 2) MAX_BACKOFF) ^^ i) MIN_BACKOFF) [0..<21]
      in seen ! 0 = MIN_BACKOFF \<and> last seen = MAX_BACKOFF \<and> sorted seen)"

text \<open>The closure of the test repeats the choice that \<^verbatim>\<open>run\<close> makes; here it is taken from the model's loop.\<close>

definition healthy_uptime_threshold_resets_backoff :: bool where
  "healthy_uptime_threshold_resets_backoff \<longleftrightarrow>
     (let slept = (\<lambda>uptime. fst (grandparent_loop (from_secs 8) [Spawned 1 (Exited (ExitedCode 1) uptime)]))
      in Sleep MIN_BACKOFF \<in> set (slept (from_secs 120)) \<and> Sleep (from_secs 8) \<in> set (slept (from_secs 5)))"

lemma doublings: "((\<lambda>b. min (b * 2) MAX_BACKOFF) ^^ i) MIN_BACKOFF = min (MIN_BACKOFF * 2 ^ i) MAX_BACKOFF"
  by (induction i) (simp_all only: funpow.simps comp_apply id_apply gp_backoff.doubled_formula [OF refl] gp_backoff.start_formula [symmetric])

lemma backoff_doubles_until_max: "backoff_doubles_until_max"
proof -
  have "mono (\<lambda>i. min (MIN_BACKOFF * 2 ^ i) MAX_BACKOFF)"
    by (intro monoI min.mono mult_left_mono power_increasing) simp_all
  then have "sorted (map (\<lambda>i. min (MIN_BACKOFF * 2 ^ i) MAX_BACKOFF) [0..<21])"
    by (intro sorted_map_mono) (auto intro: mono_on_subset)
  moreover have "MAX_BACKOFF \<le> MIN_BACKOFF * 2 ^ 20" "MIN_BACKOFF \<le> MAX_BACKOFF"
    by (simp_all add: MIN_BACKOFF_def MAX_BACKOFF_def from_millis_def from_secs_def)
  moreover have "last (map g [0..<21]) = g 20" for g :: "nat \<Rightarrow> duration"
    by (simp add: last_map)
  ultimately show ?thesis
    by (simp add: backoff_doubles_until_max_def Let_def doublings min.absorb1 min.absorb2)
qed

lemma healthy_uptime_threshold_resets_backoff: "healthy_uptime_threshold_resets_backoff"
  by (simp add: healthy_uptime_threshold_resets_backoff_def HEALTHY_UPTIME_def from_secs_def status_success_def status_code_def Let_def)

section \<open>Tests of the supervisor's admin handlers (src/supervisor/admin.rs)\<close>

definition canary_only_aborts_when_health_worsens :: bool where
  "canary_only_aborts_when_health_worsens \<longleftrightarrow>
     health_state_rank Healthy < health_state_rank Backoff \<and> health_state_rank Backoff < health_state_rank Flapping \<and>
     health_state_rank Flapping < health_state_rank Failed \<and> health_state_rank Healthy \<le> health_state_rank Healthy \<and>
     health_state_rank Healthy \<le> health_state_rank Backoff \<and> health_state_rank Backoff \<le> health_state_rank Backoff \<and>
     health_state_rank Healthy \<le> health_state_rank Flapping \<and> health_state_rank Backoff > health_state_rank Healthy"

text \<open>The file the test writes is the only one there is, and \<^verbatim>\<open>from_toml\<close> reads TOML; the variable leads to the file.\<close>

definition reload_supervisor_allowlist_replaces_current_policy ::
  "(string \<Rightarrow> config result) \<Rightarrow> (string \<Rightarrow> config result) \<Rightarrow> u32 \<Rightarrow> env \<Rightarrow> string \<Rightarrow> bool" where
  "reload_supervisor_allowlist_replaces_current_policy from_toml from_json euid e path \<longleftrightarrow>
     (let text = ''[auth]'' @ [nl] @ ''allowed_uids = [42, 7]'' @ [nl];
          read_file = (\<lambda>p. if p = path then Inr text else Inl [''no such file'']);
          loaded = load_config (snd (guard_set ENV_CONFIG_PATH path e)) read_file from_toml from_json None
      in case reload_supervisor_allowlist loaded euid (from_uids [999999]) of
           (configured, allow) \<Rightarrow> configured = Inr [42, 7] \<and> allowlist_contains allow 42 \<and> allowlist_contains allow 7 \<and>
             \<not> allowlist_contains allow 999999)"

lemma canary_only_aborts_when_health_worsens: "canary_only_aborts_when_health_worsens"
  by (simp add: canary_only_aborts_when_health_worsens_def health_state_rank_def)

section \<open>Tests of the descriptor passing (src/worker_common/scm.rs)\<close>

text \<open>
  A socket pair delivers a message with the descriptor attached to it, under a new number; each side may have to wait first. A peer that closed delivers nothing, one that wrote text delivers it without a control message.
\<close>

definition scm_rights_roundtrip_passes_a_pipe_read_end :: "raw_fd \<Rightarrow> nat \<Rightarrow> bool" where
  "scm_rights_roundtrip_passes_a_pipe_read_end minted waits \<longleftrightarrow>
     until_ready (replicate waits WouldBlock @ [send_fd_sync ''ok'' (Done_call 2)]) = Some (Inr ()) \<and>
     until_ready (replicate waits WouldBlock @ [recv_fd_sync None (Done_call (''ok'', Inr [ScmRights [minted]]))]) =
       Some (Inr (minted, ''ok''))"

definition recv_fd_reports_eof_when_peer_closes_without_sending :: bool where
  "recv_fd_reports_eof_when_peer_closes_without_sending \<longleftrightarrow>
     until_ready [recv_fd_sync None (Done_call ([], Inr []))] = Some (Inl [''spawner closed before sending FD''])"

definition recv_fd_errors_when_reply_has_no_scm_attachment :: bool where
  "recv_fd_errors_when_reply_has_no_scm_attachment \<longleftrightarrow>
     until_ready [recv_fd_sync None (Done_call (''ok'' @ [nl], Inr []))] =
       Some (Inl [''spawner reply missing SCM_RIGHTS attachment''])"

lemma scm_tests: "scm_rights_roundtrip_passes_a_pipe_read_end minted waits"
  "recv_fd_reports_eof_when_peer_closes_without_sending" "recv_fd_errors_when_reply_has_no_scm_attachment"
  by (simp_all add: scm_rights_roundtrip_passes_a_pipe_read_end_def recv_fd_reports_eof_when_peer_closes_without_sending_def
      recv_fd_errors_when_reply_has_no_scm_attachment_def until_ready_blocked send_fd_sync_def recv_fd_sync_def)

lemma reload_supervisor_allowlist_replaces_current_policy:
  assumes "from_toml (''[auth]'' @ [nl] @ ''allowed_uids = [42, 7]'' @ [nl]) = Inr (config_default\<lparr>cfg_auth := \<lparr>allowed_uids = [42, 7]\<rparr>\<rparr>)"
    and "env_var e ENV_CONFIG_JSON = None"
  shows "reload_supervisor_allowlist_replaces_current_policy from_toml from_json euid e path"
  using assms
  by (simp add: reload_supervisor_allowlist_replaces_current_policy_def Let_def load_config_def guard_set_def env_names ENV_CONFIG_PATH_def
      reload_supervisor_allowlist_def runtime_dir_override_def allowlist_contains_def allowlist_from_config_def from_uids_def
      split: option.splits)

section \<open>Tests of the dialer (src/worker_common/dial.rs)\<close>

definition open_succeeds_on_existing_dir :: "bool \<Rightarrow> ('file, 'stream) cap_kernel \<Rightarrow> env \<Rightarrow> string \<Rightarrow> bool" where
  "open_succeeds_on_existing_dir freebsd k e temp_dir \<longleftrightarrow> \<not> isl (dialer_open freebsd k e temp_dir)"

definition dir_raw_fd_returns_none_on_non_freebsd :: "('file, 'stream) cap_kernel \<Rightarrow> env \<Rightarrow> string \<Rightarrow> bool" where
  "dir_raw_fd_returns_none_on_non_freebsd k e temp_dir \<longleftrightarrow>
     (case dialer_open False k e temp_dir of Inl _ \<Rightarrow> False | Inr (d, _) \<Rightarrow> dir_raw_fd d = None)"

definition dir_raw_fd_returns_some_on_freebsd :: "('file, 'stream) cap_kernel \<Rightarrow> env \<Rightarrow> string \<Rightarrow> bool" where
  "dir_raw_fd_returns_some_on_freebsd k e temp_dir \<longleftrightarrow>
     (case dialer_open True k e temp_dir of Inl _ \<Rightarrow> False | Inr (d, _) \<Rightarrow> dir_raw_fd d \<noteq> None)"

text \<open>The directory of the tests can be opened and its descriptor limited.\<close>

lemma dialer_tests:
  assumes "ck_open_dir k (ck_state k) temp_dir = Inr fd" and "ck_limit k fd [CAP_CONNECTAT] = Inr ()"
  shows "open_succeeds_on_existing_dir freebsd k e temp_dir" "dir_raw_fd_returns_none_on_non_freebsd k e temp_dir"
    "dir_raw_fd_returns_some_on_freebsd k e temp_dir"
  using assms
  by (simp_all add: open_succeeds_on_existing_dir_def dir_raw_fd_returns_none_on_non_freebsd_def dir_raw_fd_returns_some_on_freebsd_def
      dialer_open_def dir_raw_fd_def open_dir_fd_def cap_rights_limit_def split: option.splits)

section \<open>Tests of the session handoff (src/processor/upgrade.rs)\<close>

text \<open>Whatever the pipe holds and in whatever order the two sides work, a reader at the end of the stream has the payload.\<close>

definition sessions_pipe_streams_payload_to_reader :: "string \<Rightarrow> nat \<Rightarrow> handover_event list \<Rightarrow> handover \<Rightarrow> bool" where
  "sessions_pipe_streams_payload_to_reader payload capacity es s \<longleftrightarrow>
     (handover_run capacity False payload es s \<and> ho_child s = Fetched \<longrightarrow>
        ho_got s = payload \<and> map_option (finish_sessions_pipe_writer \<circ> Inr) (sw_result (ho_writer s)) = Some (Inr ()))"

lemma sessions_pipe_streams_payload_to_reader: "sessions_pipe_streams_payload_to_reader payload capacity es s"
  unfolding sessions_pipe_streams_payload_to_reader_def
  by (intro impI, elim conjE, drule run_inv) (auto simp: handover_defs)

section \<open>The test of the unbounded rate limiter (src/limits.rs)\<close>

definition unbounded_when_cap_zero :: bool where
  "unbounded_when_cap_zero \<longleftrightarrow>
     (let ips = map (\<lambda>i. V4 (0x0A000000 + 256 * of_nat (i div 256) + of_nat (i mod 256))) [0..<1000]
      in case fold (\<lambda>ip (ok, rl). case try_take (\<lambda>x. x) 0 ip rl of (taken, rl') \<Rightarrow> (ok \<and> taken, rl')) ips
                (True, with_limits 10 100 0 300) of
           (ok, rl) \<Rightarrow> ok \<and> (case limiter_stats rl of (tracked, _, _, refused) \<Rightarrow> tracked = 1000 \<and> refused = 0))"

definition tracking :: "ip_addr list \<Rightarrow> rate_limiter" where
  "tracking ips = (with_limits 10 100 0 300)\<lparr>inner :=
     \<lparr>buckets = map (\<lambda>ip. (ip, \<lparr>tokens = 99, last_refill = 0, last_touch = 0\<rparr>)) ips,
      idle_evictions = 0, lru_evictions = 0, cap_refused = 0\<rparr>\<rparr>"

lemma tracking_fresh:
  assumes "ip \<notin> set ips"
  shows "try_take (\<lambda>x. x) 0 ip (tracking ips) = (True, tracking (ips @ [ip]))"
proof -
  have "map_of (map (\<lambda>ip. (ip, b)) ips) ip = None" for b :: bucket
    using assms by (auto simp: map_of_eq_None_iff)
  moreover have "AList.update ip b (map (\<lambda>ip. (ip, c)) ips) = map (\<lambda>ip. (ip, c)) ips @ [(ip, b)]" for b c :: bucket
    using assms by (intro update_fresh) auto
  moreover have "filter (\<lambda>_. True) xs = xs" for xs :: "(ip_addr \<times> bucket) list"
    by simp
  ultimately show ?thesis
    by (simp add: tracking_def limit_defs comp_def split_def)
qed

lemma tracking_all:
  "distinct (ips @ new) \<Longrightarrow>
     fold (\<lambda>ip (ok, rl). case try_take (\<lambda>x. x) 0 ip rl of (taken, rl') \<Rightarrow> (ok \<and> taken, rl')) new (True, tracking ips) =
     (True, tracking (ips @ new))"
  by (induction new arbitrary: ips) (simp_all add: tracking_fresh)

lemma unbounded_when_cap_zero: "unbounded_when_cap_zero"
proof -
  let ?ip = "\<lambda>i. V4 (0x0A000000 + 256 * of_nat (i div 256) + of_nat (i mod 256))"
  have ip: "?ip i = V4 (0x0A000000 + of_nat i)" for i
  proof -
    have "of_nat i = (of_nat (256 * (i div 256) + i mod 256) :: 32 word)"
      by simp
    then show ?thesis
      by (simp only: of_nat_add of_nat_mult of_nat_numeral add.assoc)
  qed
  have "inj_on ?ip {0..<1000}"
  proof (rule inj_onI)
    fix i j assume "i \<in> {0..<1000}" "j \<in> {0..<1000}" "?ip i = ?ip j"
    then have "unat (of_nat i :: 32 word) = unat (of_nat j :: 32 word)" "i < 2 ^ 32" "j < 2 ^ 32"
      by (simp_all add: ip)
    then show "i = j"
      by (simp add: unat_of_nat)
  qed
  then have "distinct ([] @ map ?ip [0..<1000])"
    by (simp add: distinct_map)
  from tracking_all [OF this] show ?thesis
    by (simp add: unbounded_when_cap_zero_def Let_def tracking_def with_limits_def limiter_stats_def)
qed

end
