(* ===== verification/Admin_Socket.thy ===== *)
theory Admin_Socket
  imports Rolling_Upgrade
begin

text \<open>
  The admin socket of the supervisor over time (\<^verbatim>\<open>accept_admin\<close>, \<^verbatim>\<open>handle_admin_request\<close> of \<^verbatim>\<open>src/supervisor/admin.rs\<close>):
  a connection is checked when it is accepted and handled by a task of its own later, while others are accepted, workers connect
  to their control links and lose them, and reloads replace the allow list that all of these checks read.
\<close>

section \<open>The socket as a system of steps\<close>

text \<open>The request a line asks for, if it can be read.\<close>

definition requested_by ::
  "(string \<Rightarrow> control_msg envelope result) \<Rightarrow> injected_fault option \<Rightarrow> string result option \<Rightarrow> control_msg option" where
  "requested_by from_str fault line =
     (case line of
        Some (Inr text) \<Rightarrow> (case parse_envelope from_str fault text of Inr msg \<Rightarrow> Some msg | Inl _ \<Rightarrow> None)
      | _ \<Rightarrow> None)"

text \<open>What happened, newest first: a worker's connection came or went, a request was handled.\<close>

datatype admin_log =
    CameUp string u32 u64
  | WentDown string u64
  | Handled u32 admin_world "control_msg option" "admin_effect list"

record admin_socket =
  sk_state :: admin_state
  sk_tasks :: "(u32 \<times> injected_fault option \<times> string result option) list"
  sk_log :: "admin_log list"

datatype admin_event =
    Connects "u32 result" "injected_fault option" "string result option"
  | Handles nat admin_world
  | WorkerUp string "u32 result"
  | WorkerDown string u64

text \<open>The two halves of \<^verbatim>\<open>accept_admin\<close>: the check with the list in force, and the spawned task.\<close>

definition admin_admit :: "u32 result \<Rightarrow> injected_fault option \<Rightarrow> string result option \<Rightarrow> admin_socket \<Rightarrow> admin_socket" where
  "admin_admit peer fault line k =
     (case check_peer peer (as_allow (sk_state k)) of
        Inl _ \<Rightarrow> k
      | Inr u \<Rightarrow> k\<lparr>sk_tasks := sk_tasks k @ [(u, fault, line)]\<rparr>)"

definition admin_task ::
  "(string \<Rightarrow> control_msg envelope result) \<Rightarrow> nat \<Rightarrow> admin_world \<Rightarrow> admin_socket \<Rightarrow> admin_socket" where
  "admin_task from_str i w k =
     (if length (sk_tasks k) \<le> i then k
      else case sk_tasks k ! i of (u, fault, line) \<Rightarrow>
        case handle_admin_request from_str fault w line (sk_state k) of (_, es, s') \<Rightarrow>
          k\<lparr>sk_state := s', sk_tasks := take i (sk_tasks k) @ drop (Suc i) (sk_tasks k),
            sk_log := Handled u w (requested_by from_str fault line) es # sk_log k\<rparr>)"

definition on_link :: "string \<Rightarrow> worker_link \<Rightarrow> admin_log list \<Rightarrow> admin_socket \<Rightarrow> admin_socket" where
  "on_link role l entry k =
     k\<lparr>sk_state := (sk_state k)\<lparr>as_links := set_link_at role l (as_links (sk_state k))\<rparr>, sk_log := entry @ sk_log k\<rparr>"

fun admin_step :: "(string \<Rightarrow> control_msg envelope result) \<Rightarrow> admin_socket \<Rightarrow> admin_event \<Rightarrow> admin_socket" where
  "admin_step from_str k (Connects peer fault line) = admin_admit peer fault line k"
| "admin_step from_str k (Handles i w) = admin_task from_str i w k"
| "admin_step from_str k (WorkerUp role peer) =
     (case check_peer peer (as_allow (sk_state k)) of
        Inl _ \<Rightarrow> k
      | Inr u \<Rightarrow>
          (case control_accept peer (as_allow (sk_state k)) (link_at role (as_links (sk_state k))) of
             (epoch, l) \<Rightarrow> on_link role l (case epoch of Some e \<Rightarrow> [CameUp role u e] | None \<Rightarrow> []) k))"
| "admin_step from_str k (WorkerDown role epoch) =
     on_link role (control_disconnect epoch (link_at role (as_links (sk_state k)))) [WentDown role epoch] k"

text \<open>A check that is followed by its task at once is the accept of one connection on its own.\<close>

lemma admit_then_task:
  assumes "sk_tasks k = []"
  shows "sk_state (admin_task from_str 0 w (admin_admit peer fault line k)) =
    snd (accept_admin from_str fault w peer line (sk_state k))"
  using assms by (auto simp: admin_task_def admin_admit_def accept_admin_def split: sum.splits prod.splits)

section \<open>What the log says\<close>

text \<open>The roles an upgrade was sent to while a request was handled.\<close>

definition sent_upgrade :: "admin_effect list \<Rightarrow> string list" where
  "sent_upgrade es = concat (map (\<lambda>e. case e of AdminWalk (SendUpgrade r _) \<Rightarrow> [r] | _ \<Rightarrow> []) es)"

text \<open>The connection a role has, and the allow list in force, read off the log alone.\<close>

primrec open_writer :: "string \<Rightarrow> admin_log list \<Rightarrow> u64 option" where
  "open_writer role [] = None"
| "open_writer role (e # log) =
     (case e of
        CameUp r u epoch \<Rightarrow> if same_link r role then Some epoch else open_writer role log
      | WentDown r epoch \<Rightarrow>
          if same_link r role \<and> open_writer role log = Some epoch then None else open_writer role log
      | Handled u w msg es \<Rightarrow>
          (case msg of
             Some (Shutdown g) \<Rightarrow> None
           | _ \<Rightarrow> if \<exists>r \<in> set (sent_upgrade es). same_link r role then None else open_writer role log))"

primrec in_force :: "peer_allowlist \<Rightarrow> admin_log list \<Rightarrow> peer_allowlist" where
  "in_force a0 [] = a0"
| "in_force a0 (e # log) =
     (case e of
        Handled u w (Some Reload) es \<Rightarrow>
          (case aw_config w of
             Inr cfg \<Rightarrow> allowlist_from_config (aw_euid w) (allowed_uids (cfg_auth cfg))
           | Inl _ \<Rightarrow> in_force a0 log)
      | _ \<Rightarrow> in_force a0 log)"

text \<open>The messages a request owes to the workers: to whom, in which order and with which grace.\<close>

definition to_role :: "admin_log list \<Rightarrow> string \<Rightarrow> control_msg \<Rightarrow> (u64 \<times> control_msg) list" where
  "to_role log role m = (case open_writer role log of None \<Rightarrow> [] | Some wr \<Rightarrow> [(wr, m)])"

definition owed :: "control_msg option \<Rightarrow> admin_log list \<Rightarrow> (u64 \<times> control_msg) list" where
  "owed msg log =
     (case msg of
        Some (Shutdown g) \<Rightarrow>
          to_role log ''plain'' (Shutdown g) @ to_role log ''tls'' (Shutdown g) @
          to_role log ''scanner'' (Shutdown (min g 500)) @ to_role log ''processor'' (Shutdown (min g 500))
      | Some Drain \<Rightarrow> to_role log ''plain'' Drain @ to_role log ''tls'' Drain
      | Some Reload \<Rightarrow>
          concat (map (\<lambda>role. to_role log role Reload) [''processor'', ''plain'', ''tls'', ''scanner''])
      | _ \<Rightarrow> [])"

definition told_workers :: "admin_effect list \<Rightarrow> (u64 \<times> control_msg) list" where
  "told_workers es = concat (map (\<lambda>e. case e of AdminSent x \<Rightarrow> [x] | _ \<Rightarrow> []) es)"

text \<open>A peer that was on the list in force at some moment.\<close>

definition let_in :: "peer_allowlist \<Rightarrow> admin_log list \<Rightarrow> u32 \<Rightarrow> bool" where
  "let_in a0 log u \<longleftrightarrow> (\<exists>earlier. suffix earlier log \<and> allowlist_contains (in_force a0 earlier) u)"

text \<open>
  The contract: who was let in was on the list in force at some moment before, a request tells the
  workers exactly what it owes, and one that cannot be read has no effect at all.
\<close>

primrec log_ok :: "peer_allowlist \<Rightarrow> admin_log list \<Rightarrow> bool" where
  "log_ok a0 [] \<longleftrightarrow> True"
| "log_ok a0 (e # log) \<longleftrightarrow> log_ok a0 log \<and>
     (case e of
        CameUp r u epoch \<Rightarrow> allowlist_contains (in_force a0 log) u
      | WentDown r epoch \<Rightarrow> True
      | Handled u w msg es \<Rightarrow>
          let_in a0 log u \<and> told_workers es = owed msg log \<and> (msg = None \<longrightarrow> es = []))"

section \<open>The system keeps the contract\<close>

definition writer_current :: "worker_link \<Rightarrow> bool" where
  "writer_current l \<longleftrightarrow> writer l = None \<or> writer l = Some (conn_epoch l)"

lemma writer_closed [simp]: "writer_current (l\<lparr>pending_status := p, writer := None\<rparr>)"
  by (simp add: writer_current_def)

lemma told_append [simp]: "told_workers (es @ fs) = told_workers es @ told_workers fs"
  by (simp add: told_workers_def)

lemma told_simps [simp]: "told_workers [] = []" "told_workers [AdminReply r] = []" "told_workers (map AdminWalk ws) = []"
  by (simp_all add: told_workers_def)

lemma told_sent: "told_workers (sent m) = (case m of None \<Rightarrow> [] | Some x \<Rightarrow> [x])"
  by (simp add: told_workers_def sent_def split: option.splits)

lemma links_written:
  assumes "\<forall>role. writer (link_at role l) = open_writer role log"
  shows "writer (lk_processor l) = open_writer ''processor'' log" "writer (lk_plain l) = open_writer ''plain'' log"
    "writer (lk_tls l) = open_writer ''tls'' log" "writer (lk_scanner l) = open_writer ''scanner'' log"
  using assms [rule_format, of "''processor''"] assms [rule_format, of "''plain''"] assms [rule_format, of "''tls''"]
    assms [rule_format, of "''scanner''"]
  by (simp_all add: link_at_def)

text \<open>One request: what it tells the workers, the links it leaves and the list in force after it.\<close>

lemma dispatch_owed:
  assumes "admin_dispatch w msg s = (es, s')" and "\<forall>role. writer (link_at role (as_links s)) = open_writer role log"
  shows "told_workers es = owed (Some msg) log"
  using assms(1)
  by (cases msg) (auto simp: admin_dispatch_def admin_shutdown_def send_shutdown_def take_writer_def send_drain_def send_reload_def
      send_non_terminal_def reload_supervisor_allowlist_def owed_def to_role_def told_sent links_written [OF assms(2)] Let_def
      split: option.splits prod.splits sum.splits)

lemma sent_upgrade_simps [simp]:
  "sent_upgrade [] = []" "sent_upgrade (es @ fs) = sent_upgrade es @ sent_upgrade fs" "sent_upgrade (sent m) = []"
  "sent_upgrade [AdminReply r] = []" "sent_upgrade (map AdminWalk ws) = upgraded ws"
  by (simp_all add: sent_upgrade_def upgraded_def comp_def) (cases m; simp add: sent_def)

lemma dispatch_links:
  assumes "admin_dispatch w msg s = (es, s')"
  shows "link_at role (as_links s') =
    (if (\<exists>g. msg = Shutdown g) \<or> (\<exists>r \<in> set (sent_upgrade es). same_link r role)
     then (link_at role (as_links s))\<lparr>pending_status := None, writer := None\<rparr> else link_at role (as_links s))"
proof (cases msg)
  case (Shutdown g)
  with assms show ?thesis
    by (auto simp: admin_dispatch_def admin_shutdown_def send_shutdown_def take_writer_def link_at_def Let_def)
next
  case Upgrade
  with assms show ?thesis
    by (auto simp: admin_dispatch_def upgrade_taken_link split: prod.splits)
next
  case Reload
  with assms show ?thesis
    by (auto simp: admin_dispatch_def split: prod.splits)
qed (use assms in \<open>auto simp: admin_dispatch_def\<close>)

lemma dispatch_allow:
  assumes "admin_dispatch w msg s = (es, s')" and "as_allow s = in_force a0 log"
  shows "as_allow s' = in_force a0 (Handled u w (Some msg) es # log)"
  using assms
  by (cases msg) (auto simp: admin_dispatch_def reload_supervisor_allowlist_def Let_def split: prod.splits sum.splits)

lemma handled_request:
  "snd (handle_admin_request from_str fault w line s) =
     (case requested_by from_str fault line of None \<Rightarrow> ([], s) | Some msg \<Rightarrow> admin_dispatch w msg s)"
  by (auto simp: handle_admin_request_def requested_by_def with_context_def split: option.splits sum.splits)

text \<open>What the invariant says of the links and the list, apart from the log and the tasks.\<close>

definition mirrors :: "peer_allowlist \<Rightarrow> admin_log list \<Rightarrow> admin_state \<Rightarrow> bool" where
  "mirrors a0 log s \<longleftrightarrow> as_allow s = in_force a0 log \<and>
     (\<forall>role. writer (link_at role (as_links s)) = open_writer role log \<and> writer_current (link_at role (as_links s)))"

lemma handled_step:
  assumes "snd (handle_admin_request from_str fault w line s) = (es, s')" and m: "mirrors a0 log s"
  defines "msg \<equiv> requested_by from_str fault line"
  shows "told_workers es = owed msg log \<and> (msg = None \<longrightarrow> es = []) \<and> mirrors a0 (Handled u w msg es # log) s'"
proof (cases msg)
  case None
  with assms(1) have "es = []" "s' = s"
    by (simp_all add: handled_request msg_def)
  with None m show ?thesis
    by (simp add: owed_def mirrors_def)
next
  case (Some c)
  with assms(1) have d: "admin_dispatch w c s = (es, s')"
    by (simp add: handled_request msg_def)
  from m have k: "\<forall>role. writer (link_at role (as_links s)) = open_writer role log" "as_allow s = in_force a0 log"
    by (simp_all add: mirrors_def)
  from dispatch_allow [OF d k(2)] dispatch_links [OF d] m have "mirrors a0 (Handled u w (Some c) es # log) s'"
    by (cases c) (simp_all add: mirrors_def)
  with dispatch_owed [OF d k(1)] Some show ?thesis
    by simp
qed

definition socket_inv :: "peer_allowlist \<Rightarrow> admin_socket \<Rightarrow> bool" where
  "socket_inv a0 k \<longleftrightarrow> log_ok a0 (sk_log k) \<and> mirrors a0 (sk_log k) (sk_state k) \<and>
     (\<forall>t \<in> set (sk_tasks k). let_in a0 (sk_log k) (fst t))"

lemma let_in_now: "allowlist_contains (in_force a0 log) u \<Longrightarrow> let_in a0 log u"
  unfolding let_in_def by blast

lemma let_in_later: "let_in a0 log u \<Longrightarrow> let_in a0 (es @ log) u"
  unfolding let_in_def by (meson suffix_appendI)

lemma task_inv:
  assumes inv: "socket_inv a0 k"
  shows "socket_inv a0 (admin_task from_str i w k)"
proof (cases "length (sk_tasks k) \<le> i")
  case True
  with inv show ?thesis by (simp add: admin_task_def)
next
  case False
  obtain u fault line where t: "sk_tasks k ! i = (u, fault, line)"
    using prod_cases3 by blast
  with False have "(u, fault, line) \<in> set (sk_tasks k)"
    by (metis not_le nth_mem)
  with inv have u: "let_in a0 (sk_log k) u"
    by (force simp: socket_inv_def)
  obtain es s' where h: "snd (handle_admin_request from_str fault w line (sk_state k)) = (es, s')"
    by fastforce
  let ?log = "Handled u w (requested_by from_str fault line) es # sk_log k"
  have after: "sk_state (admin_task from_str i w k) = s'" "sk_log (admin_task from_str i w k) = ?log"
    "set (sk_tasks (admin_task from_str i w k)) \<subseteq> set (sk_tasks k)"
    using False t h by (auto simp: admin_task_def split: prod.splits dest: in_set_takeD in_set_dropD)
  have "mirrors a0 (sk_log k) (sk_state k)"
    using inv by (simp add: socket_inv_def)
  from handled_step [OF h this] u inv have "log_ok a0 ?log" "mirrors a0 ?log s'"
    by (auto simp: socket_inv_def)
  moreover have "\<forall>t \<in> set (sk_tasks k). let_in a0 ?log (fst t)"
    using inv let_in_later [of a0 "sk_log k" _ "[_]"] by (simp add: socket_inv_def)
  ultimately show ?thesis
    using after(3) unfolding socket_inv_def after(1,2) by blast
qed

lemma link_inv_step:
  assumes inv: "socket_inv a0 k" and l: "writer_current l"
    and w: "\<And>r. same_link role r \<Longrightarrow> writer l = open_writer r (entry @ sk_log k)"
    and other: "\<And>r. \<not> same_link role r \<Longrightarrow> open_writer r (entry @ sk_log k) = open_writer r (sk_log k)"
    and log: "log_ok a0 (entry @ sk_log k)" "in_force a0 (entry @ sk_log k) = in_force a0 (sk_log k)"
  shows "socket_inv a0 (on_link role l entry k)"
proof -
  have "mirrors a0 (entry @ sk_log k) ((sk_state k)\<lparr>as_links := set_link_at role l (as_links (sk_state k))\<rparr>)"
    using inv l w other log(2) by (auto simp: socket_inv_def mirrors_def link_at_set)
  moreover have "\<forall>t \<in> set (sk_tasks k). let_in a0 (entry @ sk_log k) (fst t)"
    using inv let_in_later by (simp add: socket_inv_def)
  ultimately show ?thesis
    using log(1) by (auto simp: socket_inv_def on_link_def)
qed

lemma admin_step_inv: "socket_inv a0 k \<Longrightarrow> socket_inv a0 (admin_step from_str k e)"
proof (cases e)
  case (Connects peer fault line)
  moreover assume "socket_inv a0 k"
  ultimately show ?thesis
    by (auto simp: admin_admit_def socket_inv_def mirrors_def check_peer_Inr_iff allowlist_contains_def intro!: let_in_now
        split: sum.splits)
next
  case (Handles i w)
  moreover assume "socket_inv a0 k"
  ultimately show ?thesis by (simp add: task_inv)
next
  case (WorkerUp role peer)
  assume inv: "socket_inv a0 k"
  show ?thesis
  proof (cases "check_peer peer (as_allow (sk_state k))")
    case Inl
    with WorkerUp inv show ?thesis by simp
  next
    case (Inr u)
    let ?l = "link_at role (as_links (sk_state k))"
    have "allowlist_contains (in_force a0 (sk_log k)) u"
      using Inr inv by (auto simp: socket_inv_def mirrors_def check_peer_Inr_iff allowlist_contains_def)
    with inv have "socket_inv a0 (on_link role (?l\<lparr>conn_epoch := conn_epoch ?l + 1, writer := Some (conn_epoch ?l + 1)\<rparr>)
        [CameUp role u (conn_epoch ?l + 1)] k)"
      by (intro link_inv_step) (simp_all add: writer_current_def socket_inv_def)
    with WorkerUp Inr show ?thesis
      by (simp add: control_accept_def Let_def)
  qed
next
  case (WorkerDown role epoch)
  assume inv: "socket_inv a0 k"
  let ?l = "link_at role (as_links (sk_state k))"
  have same: "link_at r (as_links (sk_state k)) = ?l" if "same_link role r" for r
    using that by (auto simp: same_link_def link_at_def)
  have "writer_current ?l"
    using inv by (simp add: socket_inv_def mirrors_def)
  moreover have "open_writer r (sk_log k) = writer ?l" if "same_link role r" for r
    using inv same [OF that] by (simp add: socket_inv_def mirrors_def) metis
  ultimately have "socket_inv a0 (on_link role (control_disconnect epoch ?l) [WentDown role epoch] k)"
    using inv by (intro link_inv_step) (auto simp: writer_current_def control_disconnect_def socket_inv_def)
  with WorkerDown show ?thesis by simp
qed

interpretation socket: step_system "admin_step from_str" "socket_inv a0"
  by unfold_locales (rule admin_step_inv)

section \<open>Properties\<close>

definition admin_start :: "peer_allowlist \<Rightarrow> watchdogs \<Rightarrow> upgrade_counters \<Rightarrow> admin_socket" where
  "admin_start a0 wd c = \<lparr>sk_state = \<lparr>as_links = \<lparr>lk_processor = worker_link_default, lk_plain = worker_link_default,
       lk_tls = worker_link_default, lk_scanner = worker_link_default\<rparr>, as_watchdogs = wd, as_counters = c, as_allow = a0,
       as_upgrading = False\<rparr>, sk_tasks = [], sk_log = []\<rparr>"

lemma admin_start_inv: "socket_inv a0 (admin_start a0 wd c)"
  by (simp add: socket_inv_def mirrors_def admin_start_def link_at_def worker_link_default_def writer_current_def)


text \<open>
  A run in which user 7 is turned away, root asks for a shutdown with three seconds of grace while plain and processor are
  connected, and asks again.
\<close>

definition two_shutdowns :: "admin_world \<Rightarrow> admin_socket" where
  "two_shutdowns w = foldl (admin_step (\<lambda>_. Inr \<lparr>envelope_version = SCHEMA_VERSION, envelope_msg = Shutdown 3000\<rparr>))
     (admin_start (from_uids [0]) [] upgrade_counters_new)
     [Connects (Inr 7) None (Some (Inr ''x'')), WorkerUp ''plain'' (Inr 0), WorkerUp ''processor'' (Inr 0),
      Connects (Inr 0) None (Some (Inr ''x'')), Connects (Inr 0) None (Some (Inr ''y'')), Handles 1 w, Handles 0 w]"

lemma two_shutdowns_log:
  "\<exists>es es'. sk_log (two_shutdowns w) = [Handled 0 w (Some (Shutdown 3000)) es', Handled 0 w (Some (Shutdown 3000)) es,
     CameUp ''processor'' 0 1, CameUp ''plain'' 0 1]"
  by (simp add: two_shutdowns_def admin_start_def admin_admit_def admin_task_def on_link_def check_peer_def allowlist_contains_def
      from_uids_def control_accept_def link_at_def set_link_at_def worker_link_default_def requested_by_def parse_envelope_def
      into_msg_def is_schema_compatible_iff MIN_COMPATIBLE_VERSION_def SCHEMA_VERSION_def handle_admin_request_def split: prod.splits)


end
