(* ===== verification/Spec2Isabelle.thy ===== *)
theory Spec2Isabelle
  imports Worker_Process Cli Supervisor Echobench Unicode_Text Test_Env Upgrade_Lock Client_Tests
    Descriptor_Custody Sessions_Pipe Supervisor_Tests Admin_Socket
begin

text \<open>
  \<^bold>\<open>A verification of the echo daemon\<close>

  The program is a line-echo service that upgrades its own binary without dropping a connection.
  A \<^emph>\<open>grandparent\<close> keeps a \<^emph>\<open>supervisor\<close> alive; the supervisor runs four workers: the
  \<^emph>\<open>plain\<close> and \<^emph>\<open>tls\<close> acceptors own the listening ports and bridge each client to the
  \<^emph>\<open>processor\<close> over a Unix socket, the processor echoes lines, the \<^emph>\<open>scanner\<close> looks up who
  owns a connection and publishes that to the processor. The supervisor speaks to every worker over
  a control link, and to an operator over an admin socket. An upgrade re-executes a worker: the old
  process clears the close-on-exec flags of what it hands over, starts the new binary, waits for a
  byte on a ready pipe, and then either exits with a commit code or kills the child and goes on.

  \<^bold>\<open>Theories and the code they model\<close>

  \<^item> \<open>Prelude\<close>: machine integers, durations, results with error chains, decimal text, the process
    environment, and three interfaces as locales: \<open>step_system\<close> (an invariant of a step
    function holds after every run), \<open>doubling_backoff\<close> (a delay doubled up to a cap) and
    \<open>id_registry\<close> (a table under fresh 64-bit keys).
  \<^item> \<open>Handoff\<close> (\<^verbatim>\<open>src/handoff.rs\<close>): the handed environment variables, schema versions, trace
    ids, the environment scrub, close-on-exec guards, the capability-mode handoff, the check for a
    static binary, the ready pipe. The close-on-exec flags are the state, \<^verbatim>\<open>fcntl\<close> is a parameter.
  \<^item> \<open>Config\<close> (\<^verbatim>\<open>src/config.rs\<close>), \<open>Fault\<close> (\<^verbatim>\<open>src/fault_inject.rs\<close>), \<open>Wire\<close>
    (\<^verbatim>\<open>src/control.rs\<close>), \<open>Auth\<close> (\<^verbatim>\<open>src/auth.rs\<close>): configuration and defaults, fault
    points, messages with their version guard, the peer allow list.
  \<^item> \<open>Resource_Limits\<close> (\<^verbatim>\<open>src/limits.rs\<close>): the session cap, sequentially and as atomic steps of
    several threads, and the token buckets. Floating point is a rounding function; the
    bound on the table holds for every monotone rounding, the rate bound, with the evictions that add to it, for
    exact arithmetic.
  \<^item> \<open>Watchdog\<close>, \<open>Grandparent\<close>, \<open>Link\<close>, \<open>Role_Supervisor\<close>, \<open>Rolling_Upgrade\<close>
    (\<^verbatim>\<open>src/supervisor/watchdog.rs\<close>, \<^verbatim>\<open>src/grandparent.rs\<close>, \<^verbatim>\<open>src/supervisor/control.rs\<close>,
    \<^verbatim>\<open>worker.rs\<close>, \<^verbatim>\<open>admin.rs\<close>): crash accounting, the respawn loops, the control link with its
    connection epochs, the supervision of one role across upgrades, the rolling upgrade. \<open>Upgrade_Lock\<close>: rolling
    upgrades asked for at the same time, as tasks that share the upgrade lock. \<open>Admin_Socket\<close>: the requests on the admin
    socket, their admission and their effects on workers, allow list and links, as a log.
  \<^item> \<open>Metrics\<close>, \<open>Health\<close> (\<^verbatim>\<open>src/metrics.rs\<close>, \<^verbatim>\<open>src/supervisor/metrics.rs\<close>,
    \<^verbatim>\<open>src/health.rs\<close>): rendering, the atomic replacement of the text file, the health endpoint.
  \<^item> \<open>Systemd\<close> (\<^verbatim>\<open>src/systemd.rs\<close>): socket activation, notifications, the progress beacon behind
    the watchdog pings.
  \<^item> \<open>Supervisor\<close>, \<open>Self_Upgrade\<close> (\<^verbatim>\<open>src/supervisor.rs\<close>, \<^verbatim>\<open>src/supervisor/self_upgrade.rs\<close>,
    \<^verbatim>\<open>listeners.rs\<close>): what a supervisor opens or adopts and starts, its loop over signals, its own
    upgrade, its end.
  \<^item> \<open>Utf8\<close>, \<open>Worker_Common\<close>, \<open>Capability_Dirs\<close> (the text operations of the standard library;
    \<^verbatim>\<open>src/worker_common/\<close>, \<^verbatim>\<open>src/supervisor/spawner.rs\<close>, \<^verbatim>\<open>src/acceptor/tls_cert.rs\<close>): dialing with
    retries, descriptor passing, a worker's listener, and the directories that stay reachable in
    capability mode, with the rights each descriptor is limited to; the rules of the kernel are the hypothesis \<open>capsicum\<close>.
  \<^item> \<open>Control_Client\<close> (\<^verbatim>\<open>src/processor/control.rs\<close>, the loop of \<^verbatim>\<open>src/processor.rs\<close>): the worker's side
    of the control link. The shape of a client and of a worker's loop are the locales
    \<open>control_client\<close> and \<open>worker_loop\<close>, interpreted on processor, scanner and acceptor.
  \<^item> \<open>Worker_Upgrade\<close> (\<^verbatim>\<open>src/acceptor/upgrade.rs\<close>, \<^verbatim>\<open>src/scanner/upgrade.rs\<close>): the two-phase
    upgrade of a worker that hands over its listener only.
  \<^item> \<open>Session\<close>, \<open>Processor\<close> (\<^verbatim>\<open>src/processor.rs\<close>, \<^verbatim>\<open>src/processor/sidecar.rs\<close>,
    \<^verbatim>\<open>src/processor/upgrade.rs\<close>): the echo task as a state machine, the session registry, and the
    upgrade that carries every session into the new image. \<open>Sessions_Pipe\<close>: the pipe the sessions go through, with its
    writer task, the successor that reads and the old process that waits, as concurrent steps over a bounded buffer.
  \<^item> \<open>Scanner\<close> (\<^verbatim>\<open>src/scanner.rs\<close>, \<^verbatim>\<open>src/scanner/\<close>): the table of lookups, the ident exchange, the bounded
    channel and the publisher.
  \<^item> \<open>Bridge\<close>, \<open>Tls_Session\<close>, \<open>Tls_Drainer\<close>, \<open>Acceptor\<close> (\<^verbatim>\<open>src/acceptor.rs\<close>, \<^verbatim>\<open>src/acceptor/\<close>): the plain
    pump, the TLS bridge under its idle timeout and cancel, a TLS client across an upgrade, the forked
    drain process, admission, notices and the acceptor's loop.
  \<^item> \<open>Security\<close> (\<^verbatim>\<open>src/security.rs\<close>): the privilege drop over the interface \<open>posix_calls\<close> (what the calls
    that change credentials promise, interpreted on the POSIX rules) and the sandbox.
    \<open>Worker_Start\<close> composes it with everything a worker acquires before its loop (\<^verbatim>\<open>run\<close> of each worker).
  \<^item> \<open>Worker_Process\<close> (the rest of \<^verbatim>\<open>run\<close> in \<^verbatim>\<open>src/processor.rs\<close>, \<^verbatim>\<open>src/scanner.rs\<close>, \<^verbatim>\<open>src/acceptor.rs\<close>): a
    worker as its loop, the control clients it spawns and the watch channels between them, to the end of
    the process. The channels are the locale \<open>watch_channel\<close>, what the roles share the locale \<open>worker_contract\<close>,
    interpreted on all three.
  \<^item> \<open>Descriptor_Custody\<close>: the supervisor, its workers, their upgrades and its own as one system of steps, each step
    a handler of the theories above. What the four ways to upgrade a worker owe the listener is the locale
    \<open>listener_handover\<close>, interpreted on all of them.
  \<^item> \<open>Cli\<close> (\<^verbatim>\<open>src/main.rs\<close>, \<^verbatim>\<open>src/admin.rs\<close>): arguments, dispatch, and the admin client with what it prints.
  \<^item> \<open>Unicode_Text\<close>: what a string of the language is, as a sequence of code points, and the text operations of \<open>Utf8\<close>
    on it (over the locale \<open>prefix_code\<close>, interpreted on the encoding read forwards and backwards).
  \<^item> \<open>Bench_Histogram\<close>, \<open>Echobench\<close> (\<^verbatim>\<open>examples/echobench.rs\<close>): the load generator, its counters and histogram as
    atomic operations of its workers in any order, its report.
  \<^item> \<open>Test_Env\<close> (\<^verbatim>\<open>src/test_env.rs\<close>): the environment guards of the tests. \<open>Unit_Tests\<close> and
    \<open>Client_Tests\<close>, \<open>Supervisor_Tests\<close>: the test modules inside the source files, replayed on the model; every test is proved to pass.

  \<^bold>\<open>What is shown\<close>

  The central results are about the promise of the service. \<open>Session\<close>: under every
  interleaving of reads, partial writes and handoffs a client receives exactly the line-by-line
  echo of what it sent; at the end of this theory that is carried through the pumps of the plain
  acceptor, and through the TLS bridge and the drain process that continues it, to the client itself. \<open>Processor\<close>: a committed upgrade gives the successor every session
  with its buffers and count, a rollback gives them back to the old process. \<open>Sessions_Pipe\<close>: the sessions arrive
  complete before the successor reports ready, nobody waits for another for ever, and the writer never spoils a commit. \<open>Bridge\<close> and
  \<open>Tls_Session\<close>: stopping a TLS bridge loses no byte, and an upgrade passes every harvested session
  on. \<open>Role_Supervisor\<close>: after a commit of a worker it spawned itself the supervisor starts no fresh one while a successor
  may still be there. \<open>Link\<close>: the control writer belongs to the newest connection. \<open>Rolling_Upgrade\<close> and
  \<open>Cli\<close>: roles are upgraded in order, the walk stops at the first that fails, concurrent walks never
  interleave, and the exit status of the command is that verdict. \<open>Admin_Socket\<close>: only listed users' requests have
  effects, and each effect is the one asked for. \<open>Supervisor\<close>: a committed upgrade of the supervisor leaves listeners,
  workers and generation to the successor, a stop asks every worker to end and removes its socket files.
  \<open>Descriptor_Custody\<close>: whatever the order in which workers start, crash, upgrade or roll back and supervisors succeed each other,
  every listening socket of the service stays open and every worker serves the one of its role; it also shows what else a
  worker inherits after the supervisor's own upgrade. \<open>Worker_Start\<close>: a
  worker that started, from root or as a successor, has dropped its privileges for good and entered its sandbox, its
  parent reads an acknowledgement only then, and the
  successor of a worker in capability mode can start from what it was handed. \<open>Capability_Dirs\<close>: in that mode it
  reaches its sockets and certificates by the names it had, and nothing else. \<open>Worker_Process\<close>: a worker carries
  out each request of the supervisor once, stays reachable after a rollback and returns only when told to. The scanner's
  finding is stored under the session of the client that caused it (below), and is well-formed text
  whatever an ident server answers. \<open>Echobench\<close>: what the load generator reports of this service is what
  its clients received.

  Around them stand bounds (session cap, token buckets, backoffs, request size, fault budgets),
  round trips (frames, handed descriptors, the ready pipe, a worker's listener), invariants of the tables
  and reports, and what happens on each failing call. A last group of theorems states behaviours that
  differ from a comment or a document of the repository.

  \<^bold>\<open>Conventions\<close>

  A function that waits takes the observations it makes as a list and returns \<^verbatim>\<open>None\<close> when the list
  ends before the function does; the liveness theorems say which observations are enough (for
  example a poll at or past the deadline). No fuel bounds a result. Where the source splits work
  over lock acquisitions or atomic operations, each is a step of its own, so that the
  theorems cover interleavings. Third-party code is a parameter: JSON and TOML, the line
  codec, the system calls. Hypotheses on a parameter state its documented behaviour and
  have a witness. The environment of a process is text: \<^verbatim>\<open>env::vars\<close>, which the scrub calls, panics on any other.

  \<^bold>\<open>Not modelled\<close>

  Log output. The scheduling of the asynchronous runtime: a task is a step function, and its order
  against other tasks is whatever sequence of steps the theorems quantify over. The wait of the
  supervisor for its tasks at shutdown. The C strings of \<^verbatim>\<open>install_fexecve_pre_exec\<close>, which run between fork and exec. The coverage instrumentation (\<^verbatim>\<open>src/coverage.rs\<close>) is one call into the profiling runtime, empty in
  ordinary builds. The integration tests, and the unit tests of JSON and TOML text and of files
  of the system.
\<close>

section \<open>Lemmas across components\<close>

text \<open>A worker that started from root runs as the user it was configured for.\<close>

lemma started_uid:
  assumes "start_with w role cfg c opened = (Inr st, c', ack)" and "posix_calls (sw_calls w)" and "c_euid c = 0"
    and "drop_uid (cfg_security cfg) = Some spec" and "resolve_uid (sw_users w) spec = Inr u" and "u \<noteq> 0"
  shows "c_euid c' = u"
proof -
  from assms(1) obtain sec where "drop_privileges (sw_calls w) (sw_users w) (sw_groups w) (cfg_security cfg) c = (Inr sec, c')"
    by (rule start_with_Inr)
  then obtain gid where "c' = dropped u gid c"
    by (rule drop_from_root_Inr [OF assms(2-6)])
  then show ?thesis by (simp add: dropped_ids)
qed

lemma root_only_refuses: "u \<noteq> 0 \<Longrightarrow> \<exists>e. check_peer (Inr u) (allowlist_from_config 0 []) = Inl e"
  by (simp add: check_peer_def allowlist_contains_def allowlist_from_config_def current_user_only_def from_uids_def)

section \<open>Properties across components\<close>

text \<open>
  C2 (refinement). What a plain client sees of the whole service: the acceptor's two pumps and
  the processor's session in between, with any number of processor upgrades along the way, never
  give the client anything but the beginning of the line-by-line echo of what it typed as far as
  that was forwarded; when no write failed, the session has ended and its output was read to
  the end, the client has received exactly the echo of all it typed.
\<close>

theorem plain_client_receives_echo:
  assumes codec: "codec_laws c"
    and up: "pump up = (sent_on, typed, up_end)"
    and down: "pump down = (received, taken, down_end)"
    and stream: "prefix taken (s_delivered (foldl (session_step c) (fresh_session fd peer trace now sent_on) evs))"
  shows "prefix received (echo_stream c sent_on) \<and> prefix sent_on typed \<and>
    ((\<forall>(r, w) \<in> set (up @ down). w = None) \<and>
     s_phase (foldl (session_step c) (fresh_session fd peer trace now sent_on) evs) = Ended \<and>
     taken = s_delivered (foldl (session_step c) (fresh_session fd peer trace now sent_on) evs) \<longrightarrow>
       received = echo_stream c typed)"
proof -
  have "prefix received taken" "prefix sent_on typed"
    using pump_prefix [OF down] pump_prefix [OF up] by auto
  moreover have "prefix taken (echo_stream c sent_on)"
    using stream delivered_prefix(1) [OF codec] prefix_order.trans by blast
  moreover have "received = echo_stream c typed"
    if "\<forall>(r, w) \<in> set (up @ down). w = None"
      and e: "s_phase (foldl (session_step c) (fresh_session fd peer trace now sent_on) evs) = Ended"
        "taken = s_delivered (foldl (session_step c) (fresh_session fd peer trace now sent_on) evs)"
  proof -
    have "sent_on = typed" "received = taken"
      using pump_complete [OF up] pump_complete [OF down] that(1) by auto
    then show ?thesis
      using delivered_prefix(2) [OF codec e(1)] e(2) by simp
  qed
  ultimately show ?thesis
    using prefix_order.trans by blast
qed

theorem plain_client_receives_echo_witness:
  "\<exists>s. s = foldl (session_step newline_codec) (fresh_session 7 ''p'' ''t'' 0 [104, 10]) [Recv 9, Decode, Handoff, WriteSome 9, Eof] \<and>
     fst (pump [(Inr (s_delivered s), None), (Inr [], None)]) = echo_stream newline_codec [104, 10]"
proof -
  let ?s = "foldl (session_step newline_codec) (fresh_session 7 ''p'' ''t'' 0 [104, 10]) [Recv 9, Decode, Handoff, WriteSome 9, Eof]"
  have d: "s_delivered ?s = [104, 10]" "s_phase ?s = Ended"
    by (simp_all add: fresh_session_def newline_codec_def adopted_session_def session_handoff_of_def start_phase_def Let_def)
  let ?rounds = "[(Inr [104, 10], None), (Inr [], None)] :: (bytes result \<times> nat option) list"
  have p: "pump ?rounds = ([104, 10], [104, 10], True)"
    by simp
  have stream: "prefix [104, 10] (s_delivered ?s)"
    by (simp only: d prefix_order.order_refl)
  have none: "\<forall>(r, w) \<in> set (?rounds @ ?rounds). w = None"
    by simp
  have "[104, 10] = echo_stream newline_codec [104, 10]"
    using plain_client_receives_echo [OF newline_codec_laws p p stream] none d(2) d(1) [symmetric] by blast
  with d(1) p show ?thesis
    by (metis fst_conv)
qed

text \<open>A session that has taken all of its input and waits for more has delivered the whole echo of it.\<close>

lemma caught_up_delivered:
  assumes "codec_laws c" and s: "s = foldl (session_step c) (fresh_session fd peer trace now input) evs"
    and "s_phase s = Reading" "s_read s @ s_unread s = []"
  shows "s_delivered s = echo_stream c input"
proof -
  have "total_echo c s = echo_stream c input" and "session_inv c s"
    using session_run_echo [OF assms(1) fresh_session_inv, of fd peer trace now input evs]
    by (simp_all add: s total_echo_def fresh_session_def)
  moreover have "echo_stream c [] = []"
    using echo_stream_eq [OF assms(1), of "[]"] assms(1) by (simp add: codec_laws_def)
  ultimately show ?thesis
    using assms(3,4) by (auto simp: total_echo_def session_inv_def)
qed

text \<open>
  C3 (refinement). What a TLS client sees of an upgrade of the acceptor: its bytes first go through the bridge, which the
  upgrade cancels, then through the forked drain process that took the session over, while the processor's session goes
  on, with any number of upgrades of its own. Together the two never write anything to the client's connection but the
  beginning of the echo of the plaintext they read from it; and while the drain goes on, once
  the session has taken all of its input and all of its output was read, they have written exactly the echo of all the
  plaintext they took. The bridge must not have been cut off by its grace period or by a failed write.
\<close>

theorem tls_client_receives_echo:
  assumes codec: "codec_laws c"
    and bridge: "b = foldl (bridge_step idle) (bridge_start t0) bevs" "br_exit b = Some BridgeCancelled"
    and clean: "GraceElapsed \<notin> set bevs" "\<forall>d. WriteFails d \<notin> set bevs"
    and drain: "r = drain_one_tls_session tcp_nb uds_nb t1 trs"
    and session: "s = foldl (session_step c) (fresh_session fd peer trace now
      (d_written (br_dirs b AtoB) @ dn_to_processor (drained_of r))) evs"
    and taken: "prefix (d_read (br_dirs b BtoA) @ dn_from_processor (drained_of r)) (s_delivered s)"
  shows "prefix (d_written (br_dirs b BtoA) @ dn_from_processor (drained_of r))
      (echo_stream c (d_read (br_dirs b AtoB) @ dn_to_processor (drained_of r))) \<and>
    prefix (dn_to_processor (drained_of r)) (dn_plain_taken (drained_of r)) \<and>
    ((\<exists>d. r = Going d) \<and> s_phase s = Reading \<and> s_read s @ s_unread s = [] \<and>
       s_delivered s = d_read (br_dirs b BtoA) @ dn_from_processor (drained_of r) \<longrightarrow>
      d_written (br_dirs b BtoA) @ dn_from_processor (drained_of r) =
        echo_stream c (d_read (br_dirs b AtoB) @ dn_plain_taken (drained_of r)))"
proof -
  have lossless: "d_written (br_dirs b d) = d_read (br_dirs b d)" for d
    unfolding bridge(1) using bridge clean by (intro bridge_lossless) auto
  have "forwarded r"
    unfolding drain by (rule drain_one_forwarded)
  then have f: "prefix (dn_to_processor (drained_of r)) (dn_plain_taken (drained_of r))"
    "(\<exists>d. r = Going d) \<Longrightarrow> dn_to_processor (drained_of r) = dn_plain_taken (drained_of r)"
    by (auto simp: forwarded_def)
  have "prefix (s_delivered s) (echo_stream c (d_read (br_dirs b AtoB) @ dn_to_processor (drained_of r)))"
    unfolding session lossless by (rule delivered_prefix(1) [OF codec])
  with taken have "prefix (d_written (br_dirs b BtoA) @ dn_from_processor (drained_of r))
      (echo_stream c (d_read (br_dirs b AtoB) @ dn_to_processor (drained_of r)))"
    unfolding lossless by (rule prefix_order.trans)
  with f lossless caught_up_delivered [OF codec session] show ?thesis
    by metis
qed

theorem tls_client_receives_echo_witness:
  "let b = foldl (bridge_step 0) (bridge_start 0)
       [ReadSome AtoB [104], WriteSomeTo AtoB 1 9, UpgradeCancel, SeesToken AtoB, SeesToken BtoA, AllJoined];
     tr = \<lparr>tr_now = 0, tr_flush_first = None, tr_poll = PollReady True True, tr_read_tls = Got 1,
       tr_packets = Inr (), tr_plain = [(Got [10], [Got 1])], tr_uds = Got [104, 10], tr_writer = Inr (), tr_flushes = []\<rparr>;
     r = drain_one_tls_session (Inr ()) (Inr ()) 0 [tr]
   in d_written (br_dirs b BtoA) @ dn_from_processor (drained_of r) =
     echo_stream newline_codec (d_read (br_dirs b AtoB) @ dn_plain_taken (drained_of r))"
proof -
  let ?bevs = "[ReadSome AtoB [104], WriteSomeTo AtoB 1 9, UpgradeCancel, SeesToken AtoB, SeesToken BtoA, AllJoined]"
  let ?b = "foldl (bridge_step 0) (bridge_start 0) ?bevs"
  let ?tr = "\<lparr>tr_now = 0, tr_flush_first = None, tr_poll = PollReady True True, tr_read_tls = Got 1,
       tr_packets = Inr (), tr_plain = [(Got [10], [Got 1])], tr_uds = Got [104, 10], tr_writer = Inr (), tr_flushes = []\<rparr>"
  let ?r = "drain_one_tls_session (Inr ()) (Inr ()) 0 [?tr]"
  let ?s = "foldl (session_step newline_codec) (fresh_session 7 ''p'' ''t'' 0 [104, 10])
      [Recv 9, Decode, Handoff, WriteSome 9]"
  have b: "br_exit ?b = Some BridgeCancelled" "d_written (br_dirs ?b AtoB) = [104]" "d_read (br_dirs ?b BtoA) = []"
    by (simp_all add: bridge_step_def bridge_start_def exit_of_def set_dir_def cancel_token_def Let_def)
  have r: "\<exists>d. ?r = Going d" "dn_to_processor (drained_of ?r) = [10]" "dn_from_processor (drained_of ?r) = [104, 10]"
    by (simp_all add: drain_one_tls_session_def drain_turn_step_def and_go_def flush_first_def from_client_def
        from_processor_def Let_def)
  have s: "s_phase ?s = Reading" "s_read ?s @ s_unread ?s = []" "s_delivered ?s = [104, 10]"
    by (simp_all add: fresh_session_def newline_codec_def adopted_session_def session_handoff_of_def start_phase_def Let_def)
  have input: "?s = foldl (session_step newline_codec) (fresh_session 7 ''p'' ''t'' 0
      (d_written (br_dirs ?b AtoB) @ dn_to_processor (drained_of ?r))) [Recv 9, Decode, Handoff, WriteSome 9]"
    by (simp only: b r append.simps)
  have all_read: "s_delivered ?s = d_read (br_dirs ?b BtoA) @ dn_from_processor (drained_of ?r)"
    by (simp only: b r s append.simps)
  then have taken: "prefix (d_read (br_dirs ?b BtoA) @ dn_from_processor (drained_of ?r)) (s_delivered ?s)"
    by (simp only: prefix_order.order_refl)
  have "GraceElapsed \<notin> set ?bevs" "\<forall>d. WriteFails d \<notin> set ?bevs"
    by simp_all
  from tls_client_receives_echo [OF newline_codec_laws refl b(1) this refl input taken] r(1) s(1,2) all_read show ?thesis
    unfolding Let_def by blast
qed

text \<open>
  C27 (roundtrip). From the accept of an IPv4 client to the processor: the notice the acceptor fires
  makes the scanner look up exactly that client, what it finds is queued for the processor
  under the client's trace id, and the processor stores it under the key of the client's session.
  Assumed are that JSON reads back what it wrote, that the session is registered and that the channel has room.
\<close>

theorem scan_result_reaches_session:
  assumes accept: "handle_acceptor_accept rnd now (Inr (SockV4 ip p)) a = (Admitted client req, a')"
    and request: "from_req line = Inr req"
    and room: "\<not> mc_closed (sn_channel s)" "length (mc_queue (sn_channel s)) < 256"
    and metadata: "to_meta m = Inr j" "from_meta j = Inr m"
      "m = scan_metadata req (ident_lookup connect (sr_client_ip req) (sr_client_port req) (sr_server_port req) iport)"
    and session: "peer_active (acl_peer client) reg"
  shows "mc_queue (sn_channel (spawn_request from_req connect iport (Some (Inr line)) s)) = mc_queue (sn_channel s) @ [m] \<and>
    map_of (reg_metadata (run_sidecar from_meta [Inr j] reg)) (acl_peer client) = Some m \<and>
    sm_trace_id m = acl_trace_id client \<and>
    sm_ident m = ident_lookup connect (show_ipv4 ip) p (role_port (ad_role a) (ad_config a)) iport"
proof -
  from accept have req: "req = scan_notice (ad_role a) (SockV4 ip p) (role_port (ad_role a) (ad_config a)) (acl_trace_id client)"
    and peer: "acl_peer client = show_addr (SockV4 ip p)"
    by (auto simp: handle_acceptor_accept_def split: if_splits prod.splits bool.splits)
  have "sm_peer m = acl_peer client"
    by (simp add: metadata(3) scan_metadata_def req peer scan_peer_def scan_notice_def show_addr_def addr_ip_def
        addr_port_def show_ip_def)
  then have "map_of (reg_metadata (run_sidecar from_meta [Inr j] reg)) (acl_peer client) = Some m"
    using metadata(2) session by (simp add: store_metadata_if_session_active_def update_conv')
  moreover have "mc_queue (sn_channel (spawn_request from_req connect iport (Some (Inr line)) s)) =
      mc_queue (sn_channel s) @ [m]"
    using request room
    by (simp add: spawn_request_def requested_def start_request_def enter_scan_def end_request_def try_send_def
        SIDECAR_CAPACITY_def metadata(3))
  moreover have "sm_trace_id m = acl_trace_id client"
    "sm_ident m = ident_lookup connect (show_ipv4 ip) p (role_port (ad_role a) (ad_config a)) iport"
    by (simp_all add: metadata(3) scan_metadata_def req scan_notice_def addr_ip_def addr_port_def show_ip_def)
  ultimately show ?thesis
    by blast
qed

theorem scan_result_reaches_session_witness:
  "\<exists>m. mc_queue (sn_channel (spawn_request (\<lambda>_. Inr (scan_notice Tls (SockV4 1 5) 7071 (fst (new_trace_id 1 0))))
       calm_identd 113 (Some (Inr [])) scanner_start)) = [m] \<and> sm_ident m = ident_lookup calm_identd (show_ipv4 1) 5 7071 113 \<and>
     map_of (reg_metadata (run_sidecar (\<lambda>_. Inr m) [Inr []] (snd (register_session (show_addr (SockV4 1 5)) session_registry_default))))
       (show_addr (SockV4 1 5)) = Some m"
proof -
  let ?reg = "snd (register_session (show_addr (SockV4 1 5)) session_registry_default)"
  let ?req = "scan_notice Tls (SockV4 1 5) 7071 (fst (new_trace_id 1 0))"
  let ?client = "\<lparr>acl_peer = show_addr (SockV4 1 5), acl_trace_id = fst (new_trace_id 1 0)\<rparr>"
  let ?m = "scan_metadata ?req (ident_lookup calm_identd (sr_client_ip ?req) (sr_client_port ?req) (sr_server_port ?req) 113)"
  have port: "role_port Tls config_default = 7071"
    by (simp add: role_port_def config_default_def)
  obtain a' where acc: "handle_acceptor_accept id 0 (Inr (SockV4 1 5)) (small_admission False) = (Admitted ?client ?req, a')"
    by (simp add: handle_acceptor_accept_def small_admission_def small_limits_def acceptor_limits_from_config_def
        try_take_def limiter_enabled_def with_limits_def try_acquire_def session_cap_new_def new_trace_id_def port
        limits_config_default_def addr_ip_def)
  have active: "peer_active (acl_peer ?client) ?reg"
    by (simp add: peer_active_def register_session_def session_registry_default_def Let_def)
  have "mc_queue (sn_channel (spawn_request (\<lambda>_. Inr ?req) calm_identd 113 (Some (Inr [])) scanner_start)) =
        mc_queue (sn_channel scanner_start) @ [?m] \<and>
      map_of (reg_metadata (run_sidecar (\<lambda>_. Inr ?m) [Inr []] ?reg)) (acl_peer ?client) = Some ?m \<and>
      sm_trace_id ?m = acl_trace_id ?client \<and>
      sm_ident ?m = ident_lookup calm_identd (show_ipv4 1) 5
        (role_port (ad_role (small_admission False)) (ad_config (small_admission False))) 113"
    by (rule scan_result_reaches_session [OF acc, where to_meta = "\<lambda>_. Inr []"])
      (use active in \<open>auto simp: scanner_start_def\<close>)
  then show ?thesis
    by (auto simp: scanner_start_def small_admission_def port)
qed

text \<open>
  C25 (error). With the default allow list the privilege drop cuts the workers off from each other: of a
  supervisor, a processor and an acceptor that were started as root under one configuration that names a user to drop
  to and no allowed users, the supervisor refuses the control connection of the processor, and the processor
  refuses the sessions of the acceptor, because both allow lists were made as root and the peers
  are not root any more.
\<close>

theorem default_allowlist_refuses_dropped_workers:
  assumes sup: "supervisor_start pid 0 oo cfg now t0 = (Inr su, opened)"
    and processor: "processor_start w adopt cfg c = (Inr st, c1, ack)" "c_euid c = 0"
    and acceptor: "acceptor_start w' lib lf pf r cfg c' = (Inr st', c1', ack')" "c_euid c' = 0"
    and calls: "posix_calls (sw_calls w)" "posix_calls (sw_calls w')"
    and drop: "drop_uid (cfg_security cfg) = Some spec" "resolve_uid (sw_users w) spec = Inr u"
      "resolve_uid (sw_users w') spec = Inr u" "u \<noteq> 0"
    and default: "allowed_uids (cfg_auth cfg) = []"
  shows "control_accept (Inr (c_euid c1)) (sh_allow (su_shared su)) l = (None, l) \<and>
    processor_loop_step from_json (LoopAccept fault ms (Inr (fd, Inr (c_euid c1'), line, input)))
      (processor_runtime_of to_json c cfg t st) = (None, processor_runtime_of to_json c cfg t st)"
proof -
  have "c_euid c1 = u" "c_euid c1' = u"
    using started_uid [OF processor(1) [unfolded processor_start_def] calls(1) processor(2) drop(1,2,4)]
      started_uid [OF acceptor(1) [unfolded acceptor_start_def] calls(2) acceptor(2) drop(1,3,4)] by simp_all
  moreover have "sh_allow (su_shared su) = allowlist_from_config 0 []"
    using sup default by (auto simp: supervisor_start_def Let_def split: prod.splits sum.splits)
  moreover obtain e where "check_peer (Inr u) (allowlist_from_config 0 []) = Inl e"
    using root_only_refuses [OF drop(4)] by blast
  ultimately show ?thesis
    using processor(2) default
    by (simp add: control_accept_def handle_processor_accept_def processor_runtime_of_def start_allowlist_def)
qed

text \<open>A supervisor that starts on the handed descriptors, and a processor on the host of the calm acceptor.\<close>

definition quiet_open :: open_os where
  "quiet_open = \<lparr>oo_env = uc_env quiet_cmd, oo_bind_uds = (\<lambda>_. Inl []), oo_bind_tcp = (\<lambda>_. Inl []),
     oo_chmod = (\<lambda>_. Inl []), oo_wrap = (\<lambda>_. Inr ())\<rparr>"

lemma quiet_supervisor_starts: "\<exists>su s. supervisor_start 7 0 quiet_open cfg 0 t = (Inr su, s)"
proof -
  let ?parent = "os_environ (quiet_os (ReadGot ready_ack))"
  have "oo_env quiet_open = self_child_env ?parent quiet_fds quiet_state 4 31"
    by (simp add: quiet_open_def quiet_cmd_def self_child_env_def quiet_os_def)
  then have "open_supervisor_listeners 7 quiet_open cfg n = (Inr quiet_fds, \<lparr>op_sd = [], op_removed = []\<rparr>)" for n
    by (rule successor_listeners) (use quiet_fds_range in \<open>auto simp: quiet_open_def quiet_os_def env_names\<close>)
  then show ?thesis
    by (simp add: supervisor_start_def Let_def)
qed

lemma calm_processor_starts:
  "\<exists>st ack. processor_start calm_start Inr calm_config root_creds = (Inr st, dropped 65534 None root_creds, ack)"
proof -
  obtain k where "dialer_open True two_dirs ready_env ''/run'' = Inr (DialFd 8, k)"
    by (rule two_dirs_opens [of ready_env]) (simp_all add: calm_env)
  then have "start_dialer calm_start ''open sockets'' calm_config = Inr (DialFd 8, k)"
    by (simp add: start_dialer_def calm_start_def sw_env_def calm_config_def)
  moreover have "start_self_exe calm_start = Inr \<lparr>exe_path = ''/bin/echod'', exe_fd = 4\<rparr>"
    by (simp add: start_self_exe_def calm_start_def sw_env_def open_self_exe_def calm_env)
  ultimately obtain o' where "processor_open calm_start Inr calm_config = Inr o'"
    by (simp add: processor_open_def calm_start_def adopt_or_bind_uds_listener_def calm_env)
  then show ?thesis
    by (simp add: processor_start_def start_with_def calm_confines)
qed

theorem default_allowlist_refuses_dropped_workers_witness:
  "\<exists>su s st ack. supervisor_start 7 0 quiet_open calm_config 0 (\<lambda>_. True) = (Inr su, s) \<and>
     processor_start calm_start Inr calm_config root_creds = (Inr st, dropped 65534 None root_creds, ack) \<and>
     control_accept (Inr 65534) (sh_allow (su_shared su)) worker_link_default = (None, worker_link_default)"
proof -
  obtain su s where su: "supervisor_start 7 0 quiet_open calm_config 0 (\<lambda>_. True) = (Inr su, s)"
    using quiet_supervisor_starts by blast
  obtain st ack where st: "processor_start calm_start Inr calm_config root_creds = (Inr st, dropped 65534 None root_creds, ack)"
    using calm_processor_starts by blast
  have root: "c_euid root_creds = 0"
    by (simp add: root_creds_def)
  have world: "posix_calls (sw_calls calm_start)" "drop_uid (cfg_security calm_config) = Some (dec (unat (65534 :: u32)))"
    "resolve_uid (sw_users calm_start) (dec (unat (65534 :: u32))) = Inr 65534" "(65534 :: u32) \<noteq> 0"
    "allowed_uids (cfg_auth calm_config) = []"
    by (simp_all only: resolve_numeric)
      (simp_all add: calm_start_def calm_config_def posix.posix_calls_axioms config_default_def)
  have "c_euid (dropped 65534 None root_creds) = 65534"
    by (simp add: dropped_ids)
  then show ?thesis
    using default_allowlist_refuses_dropped_workers [OF su st root calm_starts root world(1,1,2,3,3,4,5)] su st by auto
qed

end
